(* ===== verification/Prelude.thy ===== *)
theory Prelude
  imports
    Complex_Main
    "HOL-Library.Word"
    "HOL-Library.Char_ord"
    "HOL-Library.List_Lexorder"
    "HOL-Library.Multiset"
    "HOL-Library.Sublist"
    "HOL-Library.Signed_Division"
begin

text \<open>
  What every component of the agent uses of Go: byte strings, 64-bit signed wrap-around,
  truncating conversions, time values, buffered channels with a non-blocking send, maps with
  an unspecified iteration order, and the two interfaces built on them. An event sink is a
  component that publishes on a buffered channel with \<open>select ... default\<close>; a keyed store is
  a component that keeps a map under a mutex. Clients prove their lemmas once inside the
  locales and the components interpret them on their own operations.
\<close>

section \<open>Collections of facts\<close>

named_theorems inv_intros \<open>preservation of a component invariant by one operation\<close>
named_theorems op_defs \<open>definitions of operations that proofs may unfold together\<close>

section \<open>Names of the types the components share\<close>

text \<open>A Go string and a byte slice are both sequences of bytes; a \<open>char\<close> is one byte.\<close>

type_synonym gostring = string
type_synonym bytes = string

text \<open>Times and durations are nanoseconds, as in \<open>time.Time.UnixNano\<close> and \<open>time.Duration\<close>.\<close>

type_synonym time_ns = int
type_synonym duration = int

datatype go_any = AnyNil | AnyBool bool | AnyInt int | AnyFloat real | AnyString gostring

abbreviation second_ns :: int where "second_ns \<equiv> 1000000000"

abbreviation millisecond_ns :: int where "millisecond_ns \<equiv> 1000000"

abbreviation minute_ns :: int where "minute_ns \<equiv> 60 * 1000000000"

section \<open>Machine integers\<close>

text \<open>The value an \<open>int64\<close> (or \<open>int\<close>, on a 64-bit platform) keeps of an integer result.\<close>

definition to_i64 :: "int \<Rightarrow> int" where
  "to_i64 x = (x + 2 ^ 63) mod 2 ^ 64 - 2 ^ 63"

definition in_i64 :: "int \<Rightarrow> bool" where
  "in_i64 x \<longleftrightarrow> - (2 ^ 63) \<le> x \<and> x < 2 ^ 63"

lemma to_i64_id [simp]: "in_i64 x \<Longrightarrow> to_i64 x = x"
  by (simp add: to_i64_def in_i64_def)

lemma in_i64_to_i64 [simp]: "in_i64 (to_i64 x)"
proof -
  have "0 \<le> (x + 2 ^ 63) mod 2 ^ 64" and "(x + 2 ^ 63) mod 2 ^ 64 < 2 ^ 64"
    by simp_all
  then show ?thesis
    by (simp add: to_i64_def in_i64_def)
qed

lemma to_i64_eq_iff: "to_i64 x = x \<longleftrightarrow> in_i64 x"
  by (metis to_i64_id in_i64_to_i64)

text \<open>\<open>int64(d.Seconds())\<close>: whole seconds of a duration, truncated towards zero.\<close>

definition whole_seconds :: "duration \<Rightarrow> int" where
  "whole_seconds d = d sdiv second_ns"

lemma whole_seconds_nonneg: "0 \<le> d \<Longrightarrow> whole_seconds d = d div second_ns"
  by (simp add: whole_seconds_def signed_divide_int_def sgn_if)

lemma whole_seconds_of_seconds [simp]: "whole_seconds (n * second_ns) = n"
  by (simp add: whole_seconds_def signed_divide_int_def abs_mult sgn_mult)
    (simp add: sgn_if)

text \<open>\<open>d.Seconds()\<close> as a number; floating point is modelled by the reals.\<close>

definition seconds_of :: "duration \<Rightarrow> real" where
  "seconds_of d = real_of_int d / 1000000000"

section \<open>Cardinalities\<close>

lemma card_subset_insert: "finite A \<Longrightarrow> B \<subseteq> insert x A \<Longrightarrow> card B \<le> Suc (card A)"
  using card_mono [of "insert x A" B] by (auto simp: card_insert_if split: if_splits)

section \<open>Loops whose body may panic\<close>

text \<open>\<open>for _, x := range xs { ... }\<close> where \<open>None\<close> is a panic of the body.\<close>

fun fold_opt :: "('a \<Rightarrow> 's \<Rightarrow> 's option) \<Rightarrow> 'a list \<Rightarrow> 's \<Rightarrow> 's option" where
  "fold_opt f [] s = Some s"
| "fold_opt f (x # xs) s = (case f x s of None \<Rightarrow> None | Some s' \<Rightarrow> fold_opt f xs s')"

lemma fold_opt_inv:
  assumes "P s" "\<And>x s. x \<in> set xs \<Longrightarrow> P s \<Longrightarrow> \<exists>s'. f x s = Some s' \<and> P s'"
  shows "\<exists>s'. fold_opt f xs s = Some s' \<and> P s'"
  using assms
proof (induction xs arbitrary: s)
  case (Cons x xs)
  then obtain s' where "f x s = Some s'" "P s'" by (meson list.set_intros(1))
  moreover obtain s'' where "fold_opt f xs s' = Some s''" "P s''"
    using Cons.IH [OF \<open>P s'\<close>] Cons.prems(2) by (meson list.set_intros(2))
  ultimately show ?case by simp
qed simp

lemma fold_opt_append:
  "fold_opt f (xs @ ys) s = (case fold_opt f xs s of None \<Rightarrow> None | Some s' \<Rightarrow> fold_opt f ys s')"
  by (induction xs arbitrary: s) (auto split: option.splits)

section \<open>Sliding windows\<close>

text \<open>The newest \<open>n\<close> elements of a list that grows at its end.\<close>

definition newest_n :: "nat \<Rightarrow> 'a list \<Rightarrow> 'a list" where
  "newest_n n xs = drop (length xs - n) xs"

lemma length_newest_n [simp]: "length (newest_n n xs) = min n (length xs)"
  by (simp add: newest_n_def)

lemma newest_n_short [simp]: "length xs \<le> n \<Longrightarrow> newest_n n xs = xs"
  by (simp add: newest_n_def)

lemma newest_n_absorb: "newest_n n (newest_n n xs @ ys) = newest_n n (xs @ ys)"
  by (cases "length xs \<le> n") (auto simp: newest_n_def add.commute)

lemma map_newest_n: "map f (newest_n n xs) = newest_n n (map f xs)"
  by (simp add: newest_n_def drop_map)

lemma suffix_newest_n: "suffix (newest_n n xs) xs"
  by (simp add: newest_n_def suffix_drop)

section \<open>Buffered channels\<close>

text \<open>
  \<open>select { case ch <- x: default: ... }\<close> on a channel with buffer size \<open>cap\<close>: the value is
  queued when there is room and dropped otherwise.
\<close>

definition try_send :: "nat \<Rightarrow> 'a list \<Rightarrow> 'a \<Rightarrow> 'a list" where
  "try_send cap q x = (if length q < cap then q @ [x] else q)"

lemma length_try_send: "length q \<le> cap \<Longrightarrow> length (try_send cap q x) \<le> cap"
  by (simp add: try_send_def)

lemma try_send_take: "length q \<le> cap \<Longrightarrow> try_send cap q x = take cap (q @ [x])"
  by (auto simp: try_send_def)

lemma try_send_full [simp]: "cap \<le> length q \<Longrightarrow> try_send cap q x = q"
  by (simp add: try_send_def)

lemma try_send_room [simp]: "length q < cap \<Longrightarrow> try_send cap q x = q @ [x]"
  by (simp add: try_send_def)

lemma prefix_try_send: "prefix q (try_send cap q x)"
  by (simp add: try_send_def)

lemma set_try_send: "set (try_send cap q x) \<subseteq> insert x (set q)"
  by (auto simp: try_send_def)

locale event_sink =
  fixes emit :: "'s \<Rightarrow> 'e \<Rightarrow> 's"
    and pending :: "'s \<Rightarrow> 'e list"
    and capacity :: "'s \<Rightarrow> nat"
  assumes pending_emit: "pending (emit s e) = try_send (capacity s) (pending s) e"
    and capacity_emit: "capacity (emit s e) = capacity s"
begin

lemma capacity_run: "capacity (fold (\<lambda>e s. emit s e) es s) = capacity s"
  by (induction es arbitrary: s) (simp_all add: capacity_emit)

lemma bounded_emit: "length (pending s) \<le> capacity s \<Longrightarrow> length (pending (emit s e)) \<le> capacity (emit s e)"
  by (simp add: pending_emit capacity_emit length_try_send)

lemma pending_run:
  "length (pending s) \<le> capacity s \<Longrightarrow>
   pending (fold (\<lambda>e s. emit s e) es s) = take (capacity s) (pending s @ es)"
proof (induction es arbitrary: s)
  case Nil
  then show ?case by simp
next
  case (Cons e es)
  have "pending (fold (\<lambda>e s. emit s e) (e # es) s) = take (capacity s) (pending (emit s e) @ es)"
    using Cons.IH [OF bounded_emit [OF Cons.prems]] by (simp add: capacity_emit)
  then show ?case
    using Cons.prems by (auto simp: pending_emit try_send_def take_Cons')
qed

lemma bounded_run:
  "length (pending s) \<le> capacity s \<Longrightarrow>
   length (pending (fold (\<lambda>e s. emit s e) es s)) \<le> capacity s"
  by (simp add: pending_run)

end

section \<open>Elapsed time and rate-limited alerts\<close>

text \<open>
  \<open>time.Since(t)\<close> saturates at the range of a duration. A \<open>time.Time\<close> field that may still be
  the zero time is an option; the zero time lies further in the past than a duration can say.
\<close>

definition time_since :: "time_ns \<Rightarrow> time_ns option \<Rightarrow> duration" where
  "time_since now t =
     (case t of None \<Rightarrow> 2 ^ 63 - 1 | Some t \<Rightarrow> max (- (2 ^ 63)) (min (2 ^ 63 - 1) (now - t)))"

text \<open>\<open>!t.IsZero() && time.Since(t) < cooldown\<close>\<close>

definition cooling_down :: "time_ns \<Rightarrow> time_ns option \<Rightarrow> duration \<Rightarrow> bool" where
  "cooling_down now latest cd \<longleftrightarrow> latest \<noteq> None \<and> time_since now latest < cd"

lemma not_cooling_down:
  assumes "\<not> cooling_down now (Some l) cd" "in_i64 cd" "l \<le> now"
  shows "l + cd \<le> now"
  using assms by (auto simp: cooling_down_def time_since_def in_i64_def max_def min_def split: if_splits)

lemma time_since_greater:
  assumes "time_since now (Some l) > d" "in_i64 d"
  shows "l + d < now"
  using assms by (auto simp: time_since_def in_i64_def max_def min_def split: if_splits)

lemma cooling_down_None [simp]: "\<not> cooling_down now None cd"
  by (simp add: cooling_down_def)

text \<open>
  A timed run of a component: every step starts and ends at a reading of a monotonic clock and
  may raise one alert for a key; the run keeps the log of the alerts raised.
\<close>

inductive timed_run ::
  "('s \<Rightarrow> time_ns \<Rightarrow> time_ns \<Rightarrow> 'k option \<Rightarrow> 's \<Rightarrow> bool) \<Rightarrow> 's \<Rightarrow> time_ns \<Rightarrow> (time_ns \<times> 'k) list \<Rightarrow> 's \<Rightarrow> bool"
  for step s0 where
  run_init: "timed_run step s0 now [] s0"
| run_quiet: "timed_run step s0 now alog s \<Longrightarrow> now \<le> now' \<Longrightarrow> step s now now' None s' \<Longrightarrow>
     timed_run step s0 now' alog s'"
| run_raise: "timed_run step s0 now alog s \<Longrightarrow> now \<le> now' \<Longrightarrow> step s now now' (Some k) s' \<Longrightarrow>
     timed_run step s0 now' (alog @ [(now', k)]) s'"

text \<open>Any two alerts of the log for the same key are at least \<open>cd\<close> apart.\<close>

definition spaced :: "duration \<Rightarrow> (time_ns \<times> 'k) list \<Rightarrow> bool" where
  "spaced cd alog \<longleftrightarrow> sorted_wrt (\<lambda>(t, k) (t', k'). k = k' \<longrightarrow> t + cd \<le> t') alog"

lemma spaced_snoc:
  "spaced cd (alog @ [(t', k)]) \<longleftrightarrow> spaced cd alog \<and> (\<forall>t. (t, k) \<in> set alog \<longrightarrow> t + cd \<le> t')"
  by (auto simp: spaced_def sorted_wrt_append)

text \<open>
  The contract of a rate limiter: \<open>latest s k\<close> is the time of the last alert for \<open>k\<close> that the
  component remembers. An alert is raised only when that time is a cooldown away, and the time
  is forgotten only once the cooldown has passed.
\<close>

locale rate_limited =
  fixes step :: "'s \<Rightarrow> time_ns \<Rightarrow> time_ns \<Rightarrow> 'k option \<Rightarrow> 's \<Rightarrow> bool"
    and latest :: "'s \<Rightarrow> 'k \<Rightarrow> time_ns option"
    and inv :: "time_ns \<Rightarrow> 's \<Rightarrow> bool"
    and init :: 's
    and cd :: duration
  assumes inv_init: "inv t init"
    and last_init: "latest init k = None"
    and inv_step: "inv t0 s \<Longrightarrow> t0 \<le> t1 \<Longrightarrow> step s t0 t1 r s' \<Longrightarrow> inv t1 s'"
    and raise_sets: "inv t0 s \<Longrightarrow> t0 \<le> t1 \<Longrightarrow> step s t0 t1 (Some k) s' \<Longrightarrow> latest s' k = Some t1"
    and raise_waits: "inv t0 s \<Longrightarrow> t0 \<le> t1 \<Longrightarrow> step s t0 t1 (Some k) s' \<Longrightarrow> latest s k = Some l \<Longrightarrow>
      l \<le> t0 \<Longrightarrow> l + cd \<le> t1"
    and keeps: "inv t0 s \<Longrightarrow> t0 \<le> t1 \<Longrightarrow> step s t0 t1 r s' \<Longrightarrow> r \<noteq> Some k \<Longrightarrow> latest s' k \<noteq> latest s k \<Longrightarrow>
      latest s' k = None \<and> (\<forall>l. latest s k = Some l \<longrightarrow> l \<le> t0 \<longrightarrow> l + cd \<le> t1)"
begin

definition covered :: "time_ns \<Rightarrow> (time_ns \<times> 'k) list \<Rightarrow> 's \<Rightarrow> 'k \<Rightarrow> bool" where
  "covered now alog s k \<longleftrightarrow>
     (\<forall>l. latest s k = Some l \<longrightarrow> l \<le> now) \<and>
     (\<forall>t. (t, k) \<in> set alog \<longrightarrow>
        t \<le> now \<and> (case latest s k of None \<Rightarrow> t + cd \<le> now | Some l \<Rightarrow> t \<le> l))"

lemma covered_frame:
  assumes "covered now alog s k" "inv now s" "now \<le> now'" "step s now now' r s'" "r \<noteq> Some k"
  shows "covered now' alog s' k"
proof (cases "latest s' k = latest s k")
  case True
  then show ?thesis
    using assms(1,3) by (force simp: covered_def split: option.splits)
next
  case False
  have none: "latest s' k = None"
    using keeps [OF assms(2-5) False] by simp
  with False obtain l where l: "latest s k = Some l" by (cases "latest s k") auto
  have "l \<le> now" using assms(1) l by (simp add: covered_def)
  then have "l + cd \<le> now'" using keeps [OF assms(2-5) False] l by simp
  moreover have "t \<le> l \<and> t \<le> now" if "(t, k) \<in> set alog" for t
    using assms(1) that l by (force simp: covered_def)
  ultimately show ?thesis
    using none assms(3) by (force simp: covered_def)
qed

lemma covered_raise:
  assumes "covered now alog s k" "inv now s" "now \<le> now'" "step s now now' (Some k) s'"
  shows "covered now' (alog @ [(now', k)]) s' k \<and> (\<forall>t. (t, k) \<in> set alog \<longrightarrow> t + cd \<le> now')"
proof -
  have set: "latest s' k = Some now'"
    using raise_sets [OF assms(2-4)] .
  have old: "t + cd \<le> now' \<and> t \<le> now'" if "(t, k) \<in> set alog" for t
  proof (cases "latest s k")
    case None
    then show ?thesis using assms(1,3) that by (force simp: covered_def)
  next
    case (Some l)
    then have "t \<le> l" "l \<le> now" using assms(1) that by (force simp: covered_def)+
    then show ?thesis using raise_waits [OF assms(2-4) Some] assms(3) by simp
  qed
  with set show ?thesis by (auto simp: covered_def)
qed

lemma covered_snoc_other: "k' \<noteq> k \<Longrightarrow> covered now (alog @ [(t, k)]) s k' \<longleftrightarrow> covered now alog s k'"
  by (simp add: covered_def)

lemma run_covered:
  assumes "timed_run step init now alog s"
  shows "inv now s \<and> (\<forall>k. covered now alog s k) \<and> spaced cd alog"
  using assms
proof induction
  case (run_init now)
  then show ?case by (simp add: inv_init covered_def last_init spaced_def)
next
  case (run_quiet now alog s now' s')
  then show ?case
    using covered_frame [of now alog s _ now' None s'] inv_step by blast
next
  case (run_raise now alog s now' k s')
  then have c: "covered now alog s k'" and i: "inv now s" for k' by simp_all
  have "covered now' (alog @ [(now', k)]) s' k'" for k'
    using covered_raise [OF c i run_raise.hyps(2,3)] covered_frame [OF c i run_raise.hyps(2,3)]
    by (cases "k' = k") (simp_all add: covered_snoc_other)
  then show ?case
    using covered_raise [OF c i run_raise.hyps(2,3)] run_raise.IH inv_step [OF i run_raise.hyps(2,3)]
    by (simp add: spaced_snoc)
qed

lemma run_spaced: "timed_run step init now alog s \<Longrightarrow> spaced cd alog"
  using run_covered by blast

end

section \<open>Maps and the order in which a range statement visits them\<close>

text \<open>
  Go visits the keys of a map in an unspecified order, each key once. The order is a
  parameter \<open>ord\<close> of every operation that ranges over a map; \<open>map_range\<close> states the
  language's promise about it, and the ascending order of keys is an instance.
\<close>

locale map_range =
  fixes ord :: "('k \<rightharpoonup> 'v) \<Rightarrow> 'k list"
  assumes distinct_ord: "finite (dom m) \<Longrightarrow> distinct (ord m)"
    and set_ord: "finite (dom m) \<Longrightarrow> set (ord m) = dom m"
begin

lemma length_ord: "finite (dom m) \<Longrightarrow> length (ord m) = card (dom m)"
  by (metis distinct_ord set_ord distinct_card)

end

definition sorted_keys :: "('k::linorder \<rightharpoonup> 'v) \<Rightarrow> 'k list" where
  "sorted_keys m = sorted_list_of_set (dom m)"

interpretation sorted_keys: map_range sorted_keys
  by unfold_locales (simp_all add: sorted_keys_def)

definition range_pairs :: "(('k \<rightharpoonup> 'v) \<Rightarrow> 'k list) \<Rightarrow> ('k \<rightharpoonup> 'v) \<Rightarrow> ('k \<times> 'v) list" where
  "range_pairs ord m =
    concat (map (\<lambda>k. case m k of None \<Rightarrow> [] | Some v \<Rightarrow> [(k, v)]) (ord m))"

definition range_values :: "(('k \<rightharpoonup> 'v) \<Rightarrow> 'k list) \<Rightarrow> ('k \<rightharpoonup> 'v) \<Rightarrow> 'v list" where
  "range_values ord m = map snd (range_pairs ord m)"

definition map_len :: "(('k \<rightharpoonup> 'v) \<Rightarrow> 'k list) \<Rightarrow> ('k \<rightharpoonup> 'v) \<Rightarrow> nat" where
  "map_len ord m = length (ord m)"

context map_range
begin

lemma set_range_pairs: "finite (dom m) \<Longrightarrow> set (range_pairs ord m) = {(k, v). m k = Some v}"
  by (fastforce simp: range_pairs_def set_ord split: option.splits)

lemma map_fst_range_pairs: "finite (dom m) \<Longrightarrow> map fst (range_pairs ord m) = ord m"
proof -
  assume fin: "finite (dom m)"
  have "\<forall>k \<in> set ks. k \<in> dom m \<Longrightarrow>
      map fst (concat (map (\<lambda>k. case m k of None \<Rightarrow> [] | Some v \<Rightarrow> [(k, v)]) ks)) = ks" for ks
    by (induction ks) auto
  with fin show ?thesis
    by (simp add: range_pairs_def set_ord)
qed

lemma distinct_range_pairs: "finite (dom m) \<Longrightarrow> distinct (range_pairs ord m)"
  by (metis distinct_map distinct_ord map_fst_range_pairs)

lemma distinct_fst_range_pairs: "finite (dom m) \<Longrightarrow> distinct (map fst (range_pairs ord m))"
  by (simp add: map_fst_range_pairs distinct_ord)

lemma set_range_values: "finite (dom m) \<Longrightarrow> set (range_values ord m) = ran m"
  by (force simp: range_values_def set_range_pairs ran_def)

lemma map_len_card: "finite (dom m) \<Longrightarrow> map_len ord m = card (dom m)"
  by (simp add: map_len_def length_ord)

end

section \<open>Deleting and updating through a range loop\<close>

definition delete_where :: "('v \<Rightarrow> bool) \<Rightarrow> ('k \<times> 'v) list \<Rightarrow> ('k \<rightharpoonup> 'v) \<Rightarrow> ('k \<rightharpoonup> 'v)" where
  "delete_where P kvs m = fold (\<lambda>(k, v) m. if P v then m(k := None) else m) kvs m"

lemma delete_where_apply:
  "delete_where P kvs m k = (if \<exists>v. (k, v) \<in> set kvs \<and> P v then None else m k)"
  unfolding delete_where_def
  by (induction kvs arbitrary: m) auto

lemma delete_where_range:
  assumes "map_range ord" "finite (dom m)"
  shows "delete_where P (range_pairs ord m) m k =
    (case m k of None \<Rightarrow> None | Some v \<Rightarrow> if P v then None else Some v)"
  by (auto simp: delete_where_apply map_range.set_range_pairs [OF assms] split: option.splits)

section \<open>Keyed stores\<close>

text \<open>
  The contract of a map kept under a mutex: what a lookup returns after a write, and what a
  write leaves alone.
\<close>

locale keyed_store =
  fixes get :: "'s \<Rightarrow> 'k \<Rightarrow> 'v option"
    and put :: "'s \<Rightarrow> 'k \<Rightarrow> 'v \<Rightarrow> 's"
    and del :: "'s \<Rightarrow> 'k \<Rightarrow> 's"
  assumes get_put: "get (put s k v) = (get s)(k \<mapsto> v)"
    and get_del: "get (del s k) = (get s)(k := None)"
begin

lemma get_put_same: "get (put s k v) k = Some v"
  by (simp add: get_put)

lemma get_put_other: "k' \<noteq> k \<Longrightarrow> get (put s k v) k' = get s k'"
  by (simp add: get_put)

lemma get_del_put: "get (del (put s k v) k) = (get s)(k := None)"
  by (simp add: get_put get_del)

lemma finite_put: "finite (dom (get s)) \<Longrightarrow> finite (dom (get (put s k v)))"
  by (simp add: get_put)

lemma finite_del: "finite (dom (get s)) \<Longrightarrow> finite (dom (get (del s k)))"
  by (simp add: get_del)

end

section \<open>Hexadecimal encoding\<close>

definition hex_digit :: "nat \<Rightarrow> char" where
  "hex_digit n = (if n < 10 then char_of (48 + n) else char_of (87 + n))"

text \<open>\<open>hex.EncodeToString\<close>: two lower-case digits per byte.\<close>

definition hex_encode :: "bytes \<Rightarrow> gostring" where
  "hex_encode bs = concat (map (\<lambda>b. [hex_digit (of_char b div 16), hex_digit (of_char b mod 16)]) bs)"

lemma length_hex_encode [simp]: "length (hex_encode bs) = 2 * length bs"
  by (induction bs) (simp_all add: hex_encode_def)

end
