(* ===== verification/GoStrings.thy ===== *)
theory GoStrings
  imports Prelude
begin

text \<open>
  The byte-string functions of Go's \<open>strings\<close>, \<open>bytes\<close> and \<open>strconv\<close> packages that the
  parsers of this program call: white space, fields, splitting, searching and number parsing.
  White space is Unicode's, recognised in its UTF-8 form: the lead byte of a multi-byte space
  never occurs inside another rune, so stepping over single bytes finds the same spaces as
  stepping over runes.
\<close>

section \<open>Searching\<close>

definition IndexByte :: "string \<Rightarrow> char \<Rightarrow> int" where
  "IndexByte s c = (if c \<in> set s then int (length (takeWhile (\<lambda>x. x \<noteq> c) s)) else - 1)"

definition LastIndexByte :: "string \<Rightarrow> char \<Rightarrow> int" where
  "LastIndexByte s c =
     (if c \<in> set s then int (length s) - 1 - int (length (takeWhile (\<lambda>x. x \<noteq> c) (rev s))) else - 1)"

lemma IndexByte_nonneg: "0 \<le> IndexByte s c \<longleftrightarrow> c \<in> set s"
  by (simp add: IndexByte_def)

lemma takeWhile_member_length: "c \<in> set xs \<Longrightarrow> length (takeWhile (\<lambda>x. x \<noteq> c) xs) < length xs"
  by (induction xs) auto

lemma LastIndexByte_nonneg: "0 \<le> LastIndexByte s c \<longleftrightarrow> c \<in> set s"
  using takeWhile_member_length [of c "rev s"] by (auto simp: LastIndexByte_def)

lemma LastIndexByte_neg: "LastIndexByte s c < 0 \<longleftrightarrow> c \<notin> set s"
  using LastIndexByte_nonneg [of s c] by linarith

lemma IndexByte_split:
  "c \<notin> set xs \<Longrightarrow> IndexByte (xs @ c # ys) c = int (length xs)"
  by (induction xs) (auto simp: IndexByte_def)

lemma LastIndexByte_split:
  assumes "c \<notin> set ys"
  shows "LastIndexByte (xs @ c # ys) c = int (length xs)"
proof -
  have "takeWhile (\<lambda>x. x \<noteq> c) (rev (xs @ c # ys)) = rev ys"
    using assms by (auto simp: takeWhile_tail takeWhile_eq_all_conv)
  then show ?thesis by (simp add: LastIndexByte_def)
qed

lemma split_at_last_byte:
  assumes "c \<in> set s"
  obtains xs ys where "s = xs @ c # ys" "c \<notin> set ys" "LastIndexByte s c = int (length xs)"
  using split_list_last [OF assms] LastIndexByte_split by metis

definition Contains :: "string \<Rightarrow> string \<Rightarrow> bool" where
  "Contains s sub = sublist sub s"

definition HasPrefix :: "string \<Rightarrow> string \<Rightarrow> bool" where
  "HasPrefix s p = (take (length p) s = p)"

definition HasSuffix :: "string \<Rightarrow> string \<Rightarrow> bool" where
  "HasSuffix s p = (length p \<le> length s \<and> drop (length s - length p) s = p)"

text \<open>\<open>strings.LastIndex\<close> of a non-empty pattern: the last position at which it occurs.\<close>

fun LastIndex :: "string \<Rightarrow> string \<Rightarrow> int" where
  "LastIndex [] pat = (if pat = [] then 0 else - 1)"
| "LastIndex (c # s) pat =
     (let r = LastIndex s pat
      in if r \<ge> 0 then r + 1 else if HasPrefix (c # s) pat then 0 else - 1)"

section \<open>Splitting\<close>

text \<open>\<open>bytes.Split\<close> and \<open>strings.Split\<close> at a single byte.\<close>

fun split_on :: "char \<Rightarrow> string \<Rightarrow> string list" where
  "split_on c [] = [[]]"
| "split_on c (x # xs) =
     (if x = c then [] # split_on c xs
      else (case split_on c xs of [] \<Rightarrow> [[x]] | p # ps \<Rightarrow> (x # p) # ps))"

lemma split_on_nonempty [simp]: "split_on c s \<noteq> []"
  by (induction s) (auto split: list.splits)

lemma split_on_absent: "c \<notin> set s \<Longrightarrow> split_on c s = [s]"
  by (induction s) auto

lemma split_on_append: "c \<notin> set s \<Longrightarrow> split_on c (s @ c # t) = s # split_on c t"
  by (induction s) auto

lemma split_on_parts: "p \<in> set (split_on c s) \<Longrightarrow> c \<notin> set p"
  by (induction s arbitrary: p) (fastforce split: if_splits list.splits)+

text \<open>Splitting into the non-empty parts, as the hand-written loops of the mitigator do.\<close>

fun split_loop :: "char \<Rightarrow> string \<Rightarrow> string \<Rightarrow> string list" where
  "split_loop sep cur [] = (if cur = [] then [] else [rev cur])"
| "split_loop sep cur (x # xs) =
     (if x = sep then (if cur = [] then split_loop sep [] xs else rev cur # split_loop sep [] xs)
      else split_loop sep (x # cur) xs)"

lemma split_loop_eq:
  "split_loop sep cur s = filter (\<lambda>p. p \<noteq> []) ((rev cur @ hd (split_on sep s)) # tl (split_on sep s))"
proof (induction s arbitrary: cur)
  case Nil
  then show ?case by simp
next
  case (Cons x s)
  obtain p ps where "split_on sep s = p # ps"
    by (cases "split_on sep s") auto
  with Cons show ?case by auto
qed

lemma split_loop_filter: "split_loop sep [] s = filter (\<lambda>p. p \<noteq> []) (split_on sep s)"
  by (simp add: split_loop_eq)

section \<open>White space\<close>

definition ascii_space :: "char \<Rightarrow> bool" where
  "ascii_space c = (of_char c \<in> {9, 10, 11, 12, 13, 32 :: nat})"

text \<open>The number of bytes of the space rune at the head of a string, 0 when there is none.\<close>

definition space_width :: "string \<Rightarrow> nat" where
  "space_width s =
     (case s of
        [] \<Rightarrow> 0
      | c # cs \<Rightarrow>
          (if ascii_space c then 1
           else (let b = map of_char (take 3 s) :: nat list
                 in if take 2 b \<in> {[194, 133], [194, 160]} then 2
                    else if b \<in> {[225, 154, 128], [226, 128, 168], [226, 128, 169], [226, 128, 175],
                                  [226, 129, 159], [227, 128, 128]} then 3
                    else if length b = 3 \<and> take 2 b = [226, 128] \<and> 128 \<le> b ! 2 \<and> b ! 2 \<le> 138 then 3
                    else 0)))"

lemma space_width_Nil [simp]: "space_width [] = 0"
  by (simp add: space_width_def)

lemma space_width_ascii [simp]: "ascii_space c \<Longrightarrow> space_width (c # s) = 1"
  by (simp add: space_width_def)

text \<open>\<open>strings.Fields\<close>: the maximal runs without white space.\<close>

function fields_loop :: "string \<Rightarrow> string \<Rightarrow> string list" where
  "fields_loop cur [] = (if cur = [] then [] else [rev cur])"
| "fields_loop cur (c # cs) =
     (let w = space_width (c # cs)
      in if w > 0 then (if cur = [] then fields_loop [] (drop (w - 1) cs)
                        else rev cur # fields_loop [] (drop (w - 1) cs))
         else fields_loop (c # cur) cs)"
  by pat_completeness auto
termination
  by (relation "measure (\<lambda>(cur, s). length s)") auto

definition Fields :: "string \<Rightarrow> string list" where
  "Fields s = fields_loop [] s"

lemma fields_loop_nonempty: "t \<in> set (fields_loop cur s) \<Longrightarrow> t \<noteq> []"
  by (induction cur s rule: fields_loop.induct) (auto simp: Let_def split: if_splits)

lemma Fields_nonempty: "t \<in> set (Fields s) \<Longrightarrow> t \<noteq> []"
  by (simp add: Fields_def fields_loop_nonempty)

text \<open>A word: a non-empty string with no white space at any position, even across its end.\<close>

definition plain_word :: "string \<Rightarrow> bool" where
  "plain_word w \<longleftrightarrow> w \<noteq> [] \<and> (\<forall>c \<in> set w. \<not> ascii_space c \<and> of_char c < (128::nat))"

lemma space_width_plain:
  "\<not> ascii_space c \<Longrightarrow> of_char c < (128::nat) \<Longrightarrow> space_width (c # s) = 0"
  by (auto simp: space_width_def Let_def take_Suc_conv_app_nth split: list.splits)

lemma fields_loop_plain:
  "\<forall>c \<in> set w. \<not> ascii_space c \<and> of_char c < (128::nat) \<Longrightarrow>
   fields_loop cur (w @ s) = fields_loop (rev w @ cur) s"
  by (induction w arbitrary: cur) (simp_all add: space_width_plain)

lemma Fields_cons:
  assumes "plain_word w" and "ascii_space c"
  shows "Fields (w @ c # s) = w # Fields s"
  using assms by (auto simp: Fields_def plain_word_def fields_loop_plain)

lemma Fields_space: "ascii_space c \<Longrightarrow> Fields (c # s) = Fields s"
  by (simp add: Fields_def)

lemma Fields_Nil [simp]: "Fields [] = []"
  by (simp add: Fields_def)

lemma Fields_word: "plain_word w \<Longrightarrow> Fields w = [w]"
  using fields_loop_plain [of w "[]" "[]"] by (auto simp: Fields_def plain_word_def)

text \<open>Joining words with a space and splitting them again is the identity.\<close>

fun join_space :: "string list \<Rightarrow> string" where
  "join_space [] = []"
| "join_space [w] = w"
| "join_space (w # ws) = w @ CHR '' '' # join_space ws"

lemma Fields_join_space: "\<forall>w \<in> set ws. plain_word w \<Longrightarrow> Fields (join_space ws) = ws"
  by (induction ws rule: join_space.induct) (auto simp: Fields_word Fields_cons ascii_space_def)

text \<open>\<open>strings.TrimSpace\<close>.\<close>

function trim_left :: "string \<Rightarrow> string" where
  "trim_left s = (let w = space_width s in if 0 < w \<and> s \<noteq> [] then trim_left (drop w s) else s)"
  by pat_completeness auto
termination
  by (relation "measure length") auto

declare trim_left.simps [simp del]

text \<open>The width of the space rune at the end of a string given reversed.\<close>

definition space_width_rev :: "string \<Rightarrow> nat" where
  "space_width_rev r =
     (if space_width (rev (take 1 r)) = 1 then 1
      else if length r \<ge> 2 \<and> space_width (rev (take 2 r)) = 2 then 2
      else if length r \<ge> 3 \<and> space_width (rev (take 3 r)) = 3 then 3
      else 0)"

function trim_right_rev :: "string \<Rightarrow> string" where
  "trim_right_rev r =
     (let w = space_width_rev r in if 0 < w \<and> r \<noteq> [] then trim_right_rev (drop w r) else r)"
  by pat_completeness auto
termination
  by (relation "measure length") auto

declare trim_right_rev.simps [simp del]

definition TrimSpace :: "string \<Rightarrow> string" where
  "TrimSpace s = rev (trim_right_rev (rev (trim_left s)))"

section \<open>Numbers\<close>

definition digit_val :: "char \<Rightarrow> nat option" where
  "digit_val c =
     (let n = of_char c :: nat
      in if 48 \<le> n \<and> n \<le> 57 then Some (n - 48)
         else if 97 \<le> n \<and> n \<le> 122 then Some (n - 87)
         else if 65 \<le> n \<and> n \<le> 90 then Some (n - 55)
         else None)"

text \<open>
  \<open>strconv.ParseUint\<close> with an explicit base and bit size: \<open>None\<close> for a syntax or a range
  error. A range error is raised as soon as a prefix is too large, which for digits is the same
  as the whole value being too large unless a bad digit follows; both are errors.
\<close>

fun parse_digits :: "nat \<Rightarrow> nat \<Rightarrow> string \<Rightarrow> nat option" where
  "parse_digits base acc [] = Some acc"
| "parse_digits base acc (c # cs) =
     (case digit_val c of
        None \<Rightarrow> None
      | Some d \<Rightarrow> if d < base then parse_digits base (acc * base + d) cs else None)"

definition ParseUint :: "string \<Rightarrow> nat \<Rightarrow> nat \<Rightarrow> nat option" where
  "ParseUint s base bits =
     (if s = [] then None
      else (case parse_digits base 0 s of
              None \<Rightarrow> None
            | Some n \<Rightarrow> if n < 2 ^ bits then Some n else None))"

lemma ParseUint_bound: "ParseUint s base bits = Some n \<Longrightarrow> n < 2 ^ bits"
  by (auto simp: ParseUint_def split: if_splits option.splits)

text \<open>\<open>strconv.Atoi\<close>.\<close>

definition Atoi :: "string \<Rightarrow> int option" where
  "Atoi s =
     (let neg = (take 1 s = ''-'');
          body = (if take 1 s = ''-'' \<or> take 1 s = ''+'' then drop 1 s else s)
      in if body = [] then None
         else (case parse_digits 10 0 body of
                 None \<Rightarrow> None
               | Some n \<Rightarrow>
                   (let v = (if neg then - int n else int n) in if in_i64 v then Some v else None)))"

section \<open>Decimal output\<close>

text \<open>The decimal digits of a number, most significant first; \<open>%d\<close> and \<open>strconv.Itoa\<close>.\<close>

fun dec_digits :: "nat \<Rightarrow> string" where
  "dec_digits n =
     (if n < 10 then [char_of (48 + n)] else dec_digits (n div 10) @ [char_of (48 + n mod 10)])"

declare dec_digits.simps [simp del]

definition format_int :: "int \<Rightarrow> string" where
  "format_int i = (if i < 0 then CHR ''-'' # dec_digits (nat (- i)) else dec_digits (nat i))"

lemma dec_digits_nonempty [simp]: "dec_digits n \<noteq> []"
  by (subst dec_digits.simps) simp

lemma digit_val_dec: "d < 10 \<Longrightarrow> digit_val (char_of (48 + d)) = Some d"
  by (simp add: digit_val_def)

lemma parse_digits_append:
  "parse_digits b acc (xs @ ys) =
     (case parse_digits b acc xs of None \<Rightarrow> None | Some n \<Rightarrow> parse_digits b n ys)"
  by (induction xs arbitrary: acc) (auto split: option.splits)

lemma parse_dec_digits: "parse_digits 10 0 (dec_digits n) = Some n"
proof (induction n rule: dec_digits.induct)
  case (1 n)
  show ?case
  proof (cases "n < 10")
    case True
    then show ?thesis by (subst dec_digits.simps) (simp add: digit_val_dec)
  next
    case False
    with 1 show ?thesis
      by (subst dec_digits.simps) (simp add: parse_digits_append digit_val_dec)
  qed
qed

lemma dec_digits_inject: "dec_digits m = dec_digits n \<longleftrightarrow> m = n"
  by (metis option.inject parse_dec_digits)

lemma set_dec_digits: "c \<in> set (dec_digits n) \<Longrightarrow> \<exists>d < 10. c = char_of (48 + d :: nat)"
proof (induction n rule: dec_digits.induct)
  case (1 n)
  show ?case
  proof (cases "n < 10")
    case True
    with 1(2) have "c = char_of (48 + n)" by (simp add: dec_digits.simps [of n])
    with True show ?thesis by blast
  next
    case False
    with 1(2) consider "c \<in> set (dec_digits (n div 10))" | "c = char_of (48 + n mod 10)"
      by (auto simp: dec_digits.simps [of n])
    then show ?thesis
    proof cases
      case 1
      with False \<open>\<not> n < 10 \<Longrightarrow> c \<in> set (dec_digits (n div 10)) \<Longrightarrow> _\<close> show ?thesis by blast
    next
      case 2
      then show ?thesis by (intro exI [of _ "n mod 10"]) simp
    qed
  qed
qed

lemma dec_digits_not_sep:
  assumes "of_char c < (48::nat) \<or> 57 < (of_char c :: nat)"
  shows "c \<notin> set (dec_digits n)"
proof
  assume "c \<in> set (dec_digits n)"
  then obtain d :: nat where "d < 10" "c = char_of (48 + d)" using set_dec_digits by blast
  with assms show False by simp
qed

lemma dec_digits_unsigned: "take (Suc 0) (dec_digits n) \<noteq> [c]" if "c \<notin> set (dec_digits n)"
  using that by (cases "dec_digits n") auto

lemma dec_digits_minus: "take (Suc 0) (dec_digits n) \<noteq> ''-''"
  by (rule dec_digits_unsigned [OF dec_digits_not_sep]) simp

lemma dec_digits_plus: "take (Suc 0) (dec_digits n) \<noteq> ''+''"
  by (rule dec_digits_unsigned [OF dec_digits_not_sep]) simp

lemma Atoi_format_int:
  assumes "in_i64 i"
  shows "Atoi (format_int i) = Some i"
proof (cases "i < 0")
  case True
  then show ?thesis using assms by (simp add: Atoi_def format_int_def Let_def parse_dec_digits)
next
  case False
  then show ?thesis
    using assms by (simp add: Atoi_def format_int_def Let_def parse_dec_digits dec_digits_minus dec_digits_plus)
qed

lemma format_int_inject: "format_int m = format_int n \<longleftrightarrow> m = n"
proof
  have d: "CHR ''-'' \<notin> set (dec_digits k)" for k
    by (rule dec_digits_not_sep) simp
  have "dec_digits k \<noteq> CHR ''-'' # dec_digits k'" for k k'
    using d [of k] by (metis list.set_intros(1))
  then show "format_int m = format_int n \<Longrightarrow> m = n"
    by (auto simp: format_int_def dec_digits_inject split: if_splits dest: sym)
qed simp

lemma format_int_not_sep:
  assumes "of_char c < (45::nat) \<or> 57 < (of_char c :: nat)"
  shows "c \<notin> set (format_int n)"
  using assms dec_digits_not_sep [of c] by (auto simp: format_int_def)

text \<open>Two fields joined by a separator that the first one cannot hold.\<close>

lemma append_sep_inject:
  assumes "c \<notin> set a" "c \<notin> set b" "a @ c # s = b @ c # t"
  shows "a = b \<and> s = t"
  using assms
proof (induction a arbitrary: b)
  case Nil
  then show ?case by (cases b) auto
next
  case (Cons x a)
  then show ?case by (cases b) auto
qed

end
