(* ===== verification/GoJson.thy ===== *)
theory GoJson
  imports GoStrings
begin

text \<open>
  What the sources use of \<open>encoding/json\<close>, on syntax trees: matching the keys of an object with
  the fields of a struct, decoding into a value that may already hold something, and the
  canonical form that a generic value takes when it is decoded and encoded again. The text of a
  number is kept as it is written. Reading and printing text are parameters of the
  definitions that use them.
\<close>

section \<open>Syntax trees\<close>

datatype json =
    JNull | JBool bool | JNum gostring | JStr gostring | JArr "json list" | JObj "(gostring \<times> json) list"

section \<open>Keys and fields\<close>

text \<open>
  Keys match field names up to the case folding of \<open>encoding/json\<close>: ASCII letters, and the two
  other characters that fold to ASCII, long s (C5 BF) and the Kelvin sign (E2 84 AA).
\<close>

definition lower_byte :: "char \<Rightarrow> char" where
  "lower_byte c = (let n = of_char c :: nat in if 65 \<le> n \<and> n \<le> 90 then char_of (n + 32) else c)"

fun fold_key :: "gostring \<Rightarrow> gostring" where
  "fold_key [] = []"
| "fold_key (c # s) =
     (if c = CHR 0xC5 \<and> HasPrefix s [CHR 0xBF] then CHR ''s'' # fold_key (drop 1 s)
      else if c = CHR 0xE2 \<and> HasPrefix s [CHR 0x84, CHR 0xAA] then CHR ''k'' # fold_key (drop 2 s)
      else lower_byte c # fold_key s)"

text \<open>The field a key selects, by its exact name first.\<close>

definition select_field :: "gostring list \<Rightarrow> gostring \<Rightarrow> gostring option" where
  "select_field fields key =
     (if key \<in> set fields then Some key else find (\<lambda>f. fold_key f = fold_key key) fields)"

section \<open>Decoding into a value\<close>

text \<open>
  A decoder takes what the destination holds and the tree, and returns what it holds then with
  whether the types agreed. \<open>null\<close> leaves a scalar as it is.
\<close>

type_synonym 'a decoder = "'a \<Rightarrow> json \<Rightarrow> 'a \<times> bool"

fun decode_string :: "gostring decoder" where
  "decode_string old (JStr s) = (s, True)"
| "decode_string old JNull = (old, True)"
| "decode_string old _ = (old, False)"

fun decode_bool :: "bool decoder" where
  "decode_bool old (JBool b) = (b, True)"
| "decode_bool old JNull = (old, True)"
| "decode_bool old _ = (old, False)"

fun decode_int :: "int decoder" where
  "decode_int old (JNum n) = (case Atoi n of None \<Rightarrow> (old, False) | Some i \<Rightarrow> (i, True))"
| "decode_int old JNull = (old, True)"
| "decode_int old _ = (old, False)"

text \<open>A struct: its fields are updated in the order of the keys, other keys are skipped.\<close>

fun decode_fields :: "gostring list \<Rightarrow> (gostring \<Rightarrow> 'a decoder) \<Rightarrow> 'a \<Rightarrow> (gostring \<times> json) list \<Rightarrow> 'a \<times> bool" where
  "decode_fields fields upd old [] = (old, True)"
| "decode_fields fields upd old ((key, j) # kvs) =
     (case select_field fields key of
        None \<Rightarrow> decode_fields fields upd old kvs
      | Some f \<Rightarrow>
          (let (v, ok) = upd f old j; (v', ok') = decode_fields fields upd v kvs in (v', ok \<and> ok')))"

fun decode_struct :: "gostring list \<Rightarrow> (gostring \<Rightarrow> 'a decoder) \<Rightarrow> 'a decoder" where
  "decode_struct fields upd old (JObj kvs) = decode_fields fields upd old kvs"
| "decode_struct fields upd old JNull = (old, True)"
| "decode_struct fields upd old _ = (old, False)"

text \<open>
  A slice: element \<open>i\<close> is decoded into whatever the backing array holds at \<open>i\<close>, which is the
  argument \<open>stale\<close>.
\<close>

fun decode_elems :: "'a decoder \<Rightarrow> (nat \<Rightarrow> 'a) \<Rightarrow> nat \<Rightarrow> json list \<Rightarrow> 'a list \<times> bool" where
  "decode_elems dec stale i [] = ([], True)"
| "decode_elems dec stale i (j # js) =
     (let (v, ok) = dec (stale i) j; (vs, ok') = decode_elems dec stale (Suc i) js in (v # vs, ok \<and> ok'))"

lemma length_decode_elems: "length (fst (decode_elems dec stale i js)) = length js"
  by (induction js arbitrary: i) (simp_all add: case_prod_unfold Let_def)

text \<open>What every field update keeps, decoding keeps.\<close>

lemma decode_fields_inv:
  assumes "\<And>f v j. P v \<Longrightarrow> P (fst (upd f v j))" "P old"
  shows "P (fst (decode_fields fields upd old kvs))"
  using assms(2)
proof (induction kvs arbitrary: old)
  case (Cons kv kvs)
  then show ?case using assms(1) by (cases kv) (auto simp: case_prod_unfold Let_def split: option.splits)
qed simp

lemma decode_struct_inv:
  assumes "\<And>f v j. P v \<Longrightarrow> P (fst (upd f v j))" "P old"
  shows "P (fst (decode_struct fields upd old j))"
  using assms(2) decode_fields_inv [of P upd old fields] assms(1) by (cases j) auto

lemma decode_elems_inv:
  assumes "\<And>v j. P v \<Longrightarrow> P (fst (dec v j))" "\<And>i. P (stale i)"
  shows "\<forall>v \<in> set (fst (decode_elems dec stale i js)). P v"
  using assms(2) by (induction js arbitrary: i) (auto simp: case_prod_unfold Let_def assms(1))

section \<open>Generic values\<close>

text \<open>
  Decoding into \<open>interface{}\<close> and encoding again: numbers pass through a float64, which
  \<open>renumber\<close> stands for, keys are sorted, and the last value of a repeated key wins.
\<close>

definition set_key :: "gostring \<Rightarrow> 'v \<Rightarrow> (gostring \<times> 'v) list \<Rightarrow> (gostring \<times> 'v) list" where
  "set_key k v kvs = insort_key fst (k, v) (filter (\<lambda>p. fst p \<noteq> k) kvs)"

fun canon :: "(gostring \<Rightarrow> gostring option) \<Rightarrow> json \<Rightarrow> json option"
  and canon_list :: "(gostring \<Rightarrow> gostring option) \<Rightarrow> json list \<Rightarrow> json list option"
  and canon_pairs :: "(gostring \<Rightarrow> gostring option) \<Rightarrow> (gostring \<times> json) list \<Rightarrow> (gostring \<times> json) list \<Rightarrow>
    (gostring \<times> json) list option" where
  "canon rn JNull = Some JNull"
| "canon rn (JBool b) = Some (JBool b)"
| "canon rn (JNum n) = map_option JNum (rn n)"
| "canon rn (JStr s) = Some (JStr s)"
| "canon rn (JArr js) = map_option JArr (canon_list rn js)"
| "canon rn (JObj kvs) = map_option JObj (canon_pairs rn kvs [])"
| "canon_list rn [] = Some []"
| "canon_list rn (j # js) =
     (case canon rn j of None \<Rightarrow> None
      | Some j' \<Rightarrow> (case canon_list rn js of None \<Rightarrow> None | Some js' \<Rightarrow> Some (j' # js')))"
| "canon_pairs rn [] acc = Some acc"
| "canon_pairs rn ((k, j) # kvs) acc =
     (case canon rn j of None \<Rightarrow> None | Some j' \<Rightarrow> canon_pairs rn kvs (set_key k j' acc))"

lemma map_of_filter_key: "k \<noteq> a \<Longrightarrow> map_of (filter (\<lambda>p. fst p \<noteq> k) kvs) a = map_of kvs a"
  by (induction kvs) auto

lemma map_of_insort_key:
  "k \<notin> fst ` set kvs \<Longrightarrow> map_of (insort_key fst (k, v) kvs) a = (if a = k then Some v else map_of kvs a)"
  by (induction kvs) auto

lemma map_of_set_key: "map_of (set_key k v kvs) = (map_of kvs)(k \<mapsto> v)"
proof
  fix a
  have "k \<notin> fst ` set (filter (\<lambda>p. fst p \<noteq> k) kvs)" by auto
  from map_of_insort_key [OF this, of v a] show "map_of (set_key k v kvs) a = ((map_of kvs)(k \<mapsto> v)) a"
    by (simp add: set_key_def map_of_filter_key)
qed

end
