(* ===== verification/GoHttp.thy ===== *)
theory GoHttp
  imports GoJson
begin

text \<open>
  What the sources use of \<open>net/http\<close>: headers, which map a canonical key to a list of values, and
  \<open>strings.ToLower\<close>, which hosts are compared with.
\<close>

section \<open>Headers\<close>

type_synonym http_header = "gostring \<rightharpoonup> gostring list"

definition token_byte :: "char \<Rightarrow> bool" where
  "token_byte c \<longleftrightarrow>
     (let n = of_char c :: nat
      in 48 \<le> n \<and> n \<le> 57 \<or> 65 \<le> n \<and> n \<le> 90 \<or> 97 \<le> n \<and> n \<le> 122 \<or>
         n \<in> {33, 35, 36, 37, 38, 39, 42, 43, 45, 46, 94, 95, 96, 124, 126})"

definition upper_byte :: "char \<Rightarrow> char" where
  "upper_byte c = (let n = of_char c :: nat in if 97 \<le> n \<and> n \<le> 122 then char_of (n - 32) else c)"

fun canonical_loop :: "bool \<Rightarrow> gostring \<Rightarrow> gostring" where
  "canonical_loop upper [] = []"
| "canonical_loop upper (c # s) = (if upper then upper_byte c else lower_byte c) # canonical_loop (c = CHR ''-'') s"

definition canonical_key :: "gostring \<Rightarrow> gostring" where
  "canonical_key key = (if list_all token_byte key then canonical_loop True key else key)"

definition header_Set :: "http_header \<Rightarrow> gostring \<Rightarrow> gostring \<Rightarrow> http_header" where
  "header_Set h key v = h(canonical_key key \<mapsto> [v])"

definition header_Add :: "http_header \<Rightarrow> gostring \<Rightarrow> gostring \<Rightarrow> http_header" where
  "header_Add h key v =
     (let k = canonical_key key in h(k \<mapsto> (case h k of None \<Rightarrow> [] | Some vs \<Rightarrow> vs) @ [v]))"

lemma canonical_keys [simp]:
  "canonical_key ''Content-Type'' = ''Content-Type''" "canonical_key ''Authorization'' = ''Authorization''"
  by code_simp+

section \<open>Lower case\<close>

text \<open>
  On ASCII text \<open>strings.ToLower\<close> maps each byte; what it does with other text is the argument.
\<close>

definition ToLower :: "(gostring \<Rightarrow> gostring) \<Rightarrow> gostring \<Rightarrow> gostring" where
  "ToLower unicode s = (if \<forall>c \<in> set s. of_char c < (128 :: nat) then map lower_byte s else unicode s)"

end
