(* ===== verification/Settings.thy ===== *)
theory Settings
  imports GoHttp
begin

text \<open>
  The configuration of the agent: defaults, configuration file and environment
  (\<open>src/internal/proxy/config/config.go\<close>), and what the command line prints of the token
  (\<open>src/cmd/agent/main.go\<close>). The environment, the files, the parser of JSON text, the YAML
  library and the host name are arguments.
\<close>

section \<open>The configuration\<close>

record Config =
  cf_PollInterval :: duration
  cf_ProcRoot :: gostring
  cf_SysRoot :: gostring
  cf_HTTPListenAddr :: gostring
  cf_EnableBPF :: bool
  cf_BpfProgPath :: gostring
  cf_Verbose :: bool
  cf_ProxyEnabled :: bool
  cf_ProxyListenAddr :: gostring
  cf_ProxyLogFilePath :: gostring
  cf_AgentID :: gostring
  cf_UpstreamEndpoint :: gostring
  cf_AuthToken :: gostring
  cf_RingBufferMaxMB :: int
  cf_DashboardAddr :: gostring
  cf_DetectorEnabled :: bool
  cf_ProfilerEnabled :: bool
  cf_MitigationEnabled :: bool
  cf_MitigationWhitelist :: "gostring list option"
  cf_DockerSocketPath :: gostring
  cf_DockerAPITimeout :: duration
  cf_RouterEnabled :: bool
  cf_RouterTokenCap :: int
  cf_RouterKeepRecent :: int
  cf_RouterFallbackEndpoint :: gostring
  cf_RouterFallbackModel :: gostring
  cf_RouterFallbackAuthToken :: gostring
  cf_RouterCoolingOffSeconds :: int
  cf_PolicyMaxActionsPerPID :: int
  cf_PolicyVelocityWindowMin :: int
  cf_PolicyCooldownSeconds :: int
  cf_PolicyLedgerMaxEntries :: int
  cf_PolicyPidThreshold :: int

definition DefaultConfig :: "gostring \<Rightarrow> Config" where
  "DefaultConfig hostname = \<lparr>
     cf_PollInterval = 500 * 1000000,
     cf_ProcRoot = ''/proc'',
     cf_SysRoot = ''/sys'',
     cf_HTTPListenAddr = '':9090'',
     cf_EnableBPF = True,
     cf_BpfProgPath = '''',
     cf_Verbose = False,
     cf_ProxyEnabled = False,
     cf_ProxyListenAddr = '':9999'',
     cf_ProxyLogFilePath = '''',
     cf_AgentID = hostname,
     cf_UpstreamEndpoint = '''',
     cf_AuthToken = '''',
     cf_RingBufferMaxMB = 50,
     cf_DashboardAddr = ''127.0.0.1:8088'',
     cf_DetectorEnabled = True,
     cf_ProfilerEnabled = True,
     cf_MitigationEnabled = False,
     cf_MitigationWhitelist = None,
     cf_DockerSocketPath = ''unix:///var/run/docker.sock'',
     cf_DockerAPITimeout = 5 * second_ns,
     cf_RouterEnabled = False,
     cf_RouterTokenCap = 20,
     cf_RouterKeepRecent = 10,
     cf_RouterFallbackEndpoint = ''http://127.0.0.1:8000/v1/chat/completions'',
     cf_RouterFallbackModel = ''meta-llama/Llama-3-8b-Instruct'',
     cf_RouterFallbackAuthToken = '''',
     cf_RouterCoolingOffSeconds = 60,
     cf_PolicyMaxActionsPerPID = 5,
     cf_PolicyVelocityWindowMin = 10,
     cf_PolicyCooldownSeconds = 60,
     cf_PolicyLedgerMaxEntries = 10000,
     cf_PolicyPidThreshold = 100\<rparr>"

section \<open>The configuration file\<close>

text \<open>A decoder for one field of the structure.\<close>

definition decode_into :: "('c \<Rightarrow> 'v) \<Rightarrow> (('v \<Rightarrow> 'v) \<Rightarrow> 'c \<Rightarrow> 'c) \<Rightarrow> 'v decoder \<Rightarrow> 'c decoder" where
  "decode_into get upd dec old j = (let (v, ok) = dec (get old) j in (upd (\<lambda>_. v) old, ok))"

text \<open>A list of strings; a \<open>null\<close> element keeps what the array held.\<close>

definition decode_strings :: "gostring list option decoder" where
  "decode_strings old j =
     (case j of
        JArr js \<Rightarrow>
          (let held = (case old of None \<Rightarrow> [] | Some ss \<Rightarrow> ss);
               (vs, ok) = decode_elems decode_string (\<lambda>i. if i < length held then held ! i else '''') 0 js
           in (Some vs, ok))
      | JNull \<Rightarrow> (None, True)
      | _ \<Rightarrow> (old, False))"

definition config_fields :: "(gostring \<times> Config decoder) list" where
  "config_fields =
     [(''poll_interval'', decode_into cf_PollInterval cf_PollInterval_update decode_int),
      (''proc_root'', decode_into cf_ProcRoot cf_ProcRoot_update decode_string),
      (''sys_root'', decode_into cf_SysRoot cf_SysRoot_update decode_string),
      (''http_listen_addr'', decode_into cf_HTTPListenAddr cf_HTTPListenAddr_update decode_string),
      (''enable_bpf'', decode_into cf_EnableBPF cf_EnableBPF_update decode_bool),
      (''bpf_prog_path'', decode_into cf_BpfProgPath cf_BpfProgPath_update decode_string),
      (''verbose'', decode_into cf_Verbose cf_Verbose_update decode_bool),
      (''proxy_enabled'', decode_into cf_ProxyEnabled cf_ProxyEnabled_update decode_bool),
      (''proxy_listen_addr'', decode_into cf_ProxyListenAddr cf_ProxyListenAddr_update decode_string),
      (''proxy_log_file'', decode_into cf_ProxyLogFilePath cf_ProxyLogFilePath_update decode_string),
      (''agent_id'', decode_into cf_AgentID cf_AgentID_update decode_string),
      (''upstream_endpoint'', decode_into cf_UpstreamEndpoint cf_UpstreamEndpoint_update decode_string),
      (''auth_token'', decode_into cf_AuthToken cf_AuthToken_update decode_string),
      (''ring_buffer_max_mb'', decode_into cf_RingBufferMaxMB cf_RingBufferMaxMB_update decode_int),
      (''dashboard_addr'', decode_into cf_DashboardAddr cf_DashboardAddr_update decode_string),
      (''detector_enabled'', decode_into cf_DetectorEnabled cf_DetectorEnabled_update decode_bool),
      (''profiler_enabled'', decode_into cf_ProfilerEnabled cf_ProfilerEnabled_update decode_bool),
      (''mitigation_enabled'', decode_into cf_MitigationEnabled cf_MitigationEnabled_update decode_bool),
      (''mitigation_whitelist'', decode_into cf_MitigationWhitelist cf_MitigationWhitelist_update decode_strings),
      (''docker_socket_path'', decode_into cf_DockerSocketPath cf_DockerSocketPath_update decode_string),
      (''docker_api_timeout'', decode_into cf_DockerAPITimeout cf_DockerAPITimeout_update decode_int),
      (''router_enabled'', decode_into cf_RouterEnabled cf_RouterEnabled_update decode_bool),
      (''router_token_cap'', decode_into cf_RouterTokenCap cf_RouterTokenCap_update decode_int),
      (''router_keep_recent'', decode_into cf_RouterKeepRecent cf_RouterKeepRecent_update decode_int),
      (''router_fallback_endpoint'', decode_into cf_RouterFallbackEndpoint cf_RouterFallbackEndpoint_update decode_string),
      (''router_fallback_model'', decode_into cf_RouterFallbackModel cf_RouterFallbackModel_update decode_string),
      (''router_fallback_auth_token'', decode_into cf_RouterFallbackAuthToken cf_RouterFallbackAuthToken_update decode_string),
      (''router_cooling_off_seconds'', decode_into cf_RouterCoolingOffSeconds cf_RouterCoolingOffSeconds_update decode_int),
      (''policy_max_actions_per_pid'', decode_into cf_PolicyMaxActionsPerPID cf_PolicyMaxActionsPerPID_update decode_int),
      (''policy_velocity_window_min'', decode_into cf_PolicyVelocityWindowMin cf_PolicyVelocityWindowMin_update decode_int),
      (''policy_cooldown_seconds'', decode_into cf_PolicyCooldownSeconds cf_PolicyCooldownSeconds_update decode_int),
      (''policy_ledger_max_entries'', decode_into cf_PolicyLedgerMaxEntries cf_PolicyLedgerMaxEntries_update decode_int),
      (''policy_pid_threshold'', decode_into cf_PolicyPidThreshold cf_PolicyPidThreshold_update decode_int)]"

definition update_config :: "gostring \<Rightarrow> Config decoder" where
  "update_config f = (case map_of config_fields f of None \<Rightarrow> (\<lambda>old _. (old, False)) | Some d \<Rightarrow> d)"

text \<open>The suffix of the last path element that starts at its last dot.\<close>

fun ext_loop :: "gostring \<Rightarrow> gostring \<Rightarrow> gostring" where
  "ext_loop [] seen = ''''"
| "ext_loop (c # s) seen = (if c = CHR ''/'' then '''' else if c = CHR ''.'' then c # seen else ext_loop s (c # seen))"

definition filepath_Ext :: "gostring \<Rightarrow> gostring" where
  "filepath_Ext path = ext_loop (rev path) ''''"

datatype config_error =
    CannotRead gostring | BadJSON gostring | BadYAML gostring | UnsupportedFormat gostring | InvalidPollInterval gostring

text \<open>What a load reads from the outside.\<close>

record load_inputs =
  li_Getenv :: "gostring \<Rightarrow> gostring"
  li_ReadFile :: "gostring \<Rightarrow> bytes option"
  li_parse :: "bytes \<Rightarrow> json option"
  li_yaml :: "bytes \<Rightarrow> Config \<Rightarrow> Config option"
  li_lower :: "gostring \<Rightarrow> gostring"
  li_hostname :: gostring

definition loadConfigFile :: "load_inputs \<Rightarrow> gostring \<Rightarrow> Config \<Rightarrow> config_error + Config" where
  "loadConfigFile x path cfg =
     (case li_ReadFile x path of
        None \<Rightarrow> Inl (CannotRead path)
      | Some data \<Rightarrow>
          (let ext = ToLower (li_lower x) (filepath_Ext path)
           in if ext = ''.json'' then
                (case li_parse x data of
                   None \<Rightarrow> Inl (BadJSON path)
                 | Some j \<Rightarrow>
                     (let (cfg, ok) = decode_struct (map fst config_fields) update_config cfg j
                      in if ok then Inr cfg else Inl (BadJSON path)))
              else if ext = ''.yaml'' \<or> ext = ''.yml'' then
                (case li_yaml x data cfg of None \<Rightarrow> Inl (BadYAML path) | Some cfg \<Rightarrow> Inr cfg)
              else Inl (UnsupportedFormat ext)))"

section \<open>The environment\<close>

definition set_text :: "((gostring \<Rightarrow> gostring) \<Rightarrow> Config \<Rightarrow> Config) \<Rightarrow> gostring \<Rightarrow> Config \<Rightarrow> Config" where
  "set_text upd v = upd (\<lambda>_. v)"

definition set_flag :: "((bool \<Rightarrow> bool) \<Rightarrow> Config \<Rightarrow> Config) \<Rightarrow> gostring \<Rightarrow> Config \<Rightarrow> Config" where
  "set_flag upd v = upd (\<lambda>_. v = ''true'')"

text \<open>A positive number in some unit; anything else is ignored.\<close>

definition set_positive :: "int \<Rightarrow> ((int \<Rightarrow> int) \<Rightarrow> Config \<Rightarrow> Config) \<Rightarrow> gostring \<Rightarrow> Config \<Rightarrow> Config" where
  "set_positive unit upd v cfg =
     (case Atoi v of None \<Rightarrow> cfg | Some n \<Rightarrow> if n > 0 then upd (\<lambda>_. to_i64 (n * unit)) cfg else cfg)"

definition env_settings :: "(gostring \<times> (gostring \<Rightarrow> Config \<Rightarrow> Config)) list" where
  "env_settings =
     [(''PROFILER_PROC_ROOT'', set_text cf_ProcRoot_update),
      (''PROFILER_HTTP_ADDR'', set_text cf_HTTPListenAddr_update),
      (''PROFILER_ENABLE_BPF'', set_flag cf_EnableBPF_update),
      (''PROFILER_VERBOSE'', set_flag cf_Verbose_update),
      (''PROFILER_PROXY_ENABLED'', set_flag cf_ProxyEnabled_update),
      (''PROFILER_PROXY_ADDR'', set_text cf_ProxyListenAddr_update),
      (''PROFILER_PROXY_LOG_FILE'', set_text cf_ProxyLogFilePath_update),
      (''AGENT_ID'', set_text cf_AgentID_update),
      (''UPSTREAM_ENDPOINT'', set_text cf_UpstreamEndpoint_update),
      (''AUTH_TOKEN'', set_text cf_AuthToken_update),
      (''RING_BUFFER_MAX_MB'', set_positive 1 cf_RingBufferMaxMB_update),
      (''PROFILER_DASHBOARD_ADDR'', set_text cf_DashboardAddr_update),
      (''PROFILER_DETECTOR_ENABLED'', set_flag cf_DetectorEnabled_update),
      (''PROFILER_PROFILER_ENABLED'', set_flag cf_ProfilerEnabled_update),
      (''PROFILER_MITIGATION_ENABLED'', set_flag cf_MitigationEnabled_update),
      (''PROFILER_DOCKER_SOCKET'', set_text cf_DockerSocketPath_update),
      (''PROFILER_DOCKER_TIMEOUT_MS'', set_positive 1000000 cf_DockerAPITimeout_update),
      (''PROFILER_ROUTER_ENABLED'', set_flag cf_RouterEnabled_update),
      (''PROFILER_ROUTER_FALLBACK_ENDPOINT'', set_text cf_RouterFallbackEndpoint_update),
      (''PROFILER_ROUTER_FALLBACK_MODEL'', set_text cf_RouterFallbackModel_update),
      (''PROFILER_ROUTER_COOLING_OFF_SECONDS'', set_positive 1 cf_RouterCoolingOffSeconds_update),
      (''PROFILER_POLICY_MAX_ACTIONS'', set_positive 1 cf_PolicyMaxActionsPerPID_update),
      (''PROFILER_POLICY_VELOCITY_WINDOW_MIN'', set_positive 1 cf_PolicyVelocityWindowMin_update),
      (''PROFILER_POLICY_COOLDOWN_SECONDS'', set_positive 1 cf_PolicyCooldownSeconds_update)]"

definition apply_setting :: "load_inputs \<Rightarrow> gostring \<times> (gostring \<Rightarrow> Config \<Rightarrow> Config) \<Rightarrow> Config \<Rightarrow> Config" where
  "apply_setting x s cfg = (let v = li_Getenv x (fst s) in if v = '''' then cfg else snd s v cfg)"

definition load_poll_interval :: "load_inputs \<Rightarrow> Config \<Rightarrow> config_error + Config" where
  "load_poll_interval x cfg =
     (let v = li_Getenv x ''PROFILER_POLL_INTERVAL_MS''
      in if v = '''' then Inr cfg
         else (case Atoi v of
                 None \<Rightarrow> Inl (InvalidPollInterval v)
               | Some ms \<Rightarrow> Inr (cfg\<lparr>cf_PollInterval := to_i64 (ms * 1000000)\<rparr>)))"

definition Load :: "load_inputs \<Rightarrow> config_error + Config" where
  "Load x =
     (let cfg = DefaultConfig (li_hostname x); cfgFile = li_Getenv x ''PROFILER_CONFIG''
      in case (if cfgFile \<noteq> '''' then loadConfigFile x cfgFile cfg else Inr cfg) of
           Inl e \<Rightarrow> Inl e
         | Inr cfg \<Rightarrow>
             (case load_poll_interval x cfg of
                Inl e \<Rightarrow> Inl e
              | Inr cfg \<Rightarrow> Inr (fold (apply_setting x) env_settings cfg)))"

section \<open>What is printed of the token\<close>

definition maskToken :: "gostring \<Rightarrow> gostring \<Rightarrow> gostring" where
  "maskToken endpoint token =
     (if token = '''' then endpoint
      else if length token \<le> 8 then endpoint @ '' [token: ***]''
      else endpoint @ '' [token: '' @ take 4 token @ ''***'' @ drop (length token - 4) token @ '']'')"

section \<open>What a load keeps\<close>

lemma settings_inv:
  assumes "\<And>s v cfg. s \<in> set env_settings \<Longrightarrow> P cfg \<Longrightarrow> P (snd s v cfg)" "P cfg"
  shows "P (fold (apply_setting x) env_settings cfg)"
proof -
  have "set ss \<subseteq> set env_settings \<Longrightarrow> P cfg \<Longrightarrow> P (fold (apply_setting x) ss cfg)" for ss cfg
    by (induction ss arbitrary: cfg) (simp_all add: apply_setting_def Let_def assms(1))
  with assms(2) show ?thesis by blast
qed

lemmas setting_defs = env_settings_def set_text_def set_flag_def set_positive_def

text \<open>The environment variable for the period is the only one that sets it.\<close>

lemma settings_poll: "cf_PollInterval (fold (apply_setting x) env_settings cfg) = cf_PollInterval cfg"
proof (rule settings_inv [where P = "\<lambda>c. cf_PollInterval c = cf_PollInterval cfg"])
  show "cf_PollInterval (snd s v c) = cf_PollInterval cfg" if "s \<in> set env_settings" "cf_PollInterval c = cf_PollInterval cfg" for s v c
    using that unfolding setting_defs by (auto split: option.splits)
qed simp

lemma Load_poll:
  assumes "Load x = Inr cfg" "li_Getenv x ''PROFILER_POLL_INTERVAL_MS'' = v" "v \<noteq> ''''" "Atoi v = Some ms"
  shows "cf_PollInterval cfg = to_i64 (ms * 1000000)"
  using assms by (auto simp: Load_def Let_def load_poll_interval_def settings_poll split: sum.splits if_splits)

text \<open>The limits that the environment cannot lift.\<close>

definition limits_set :: "Config \<Rightarrow> bool" where
  "limits_set cfg \<longleftrightarrow> 0 < cf_RingBufferMaxMB cfg \<and> 0 < cf_RouterCoolingOffSeconds cfg \<and> 0 < cf_PolicyMaxActionsPerPID cfg \<and>
     0 < cf_PolicyVelocityWindowMin cfg \<and> 0 < cf_PolicyCooldownSeconds cfg \<and> cf_PolicyLedgerMaxEntries cfg = 10000 \<and>
     cf_PolicyPidThreshold cfg = 100 \<and> cf_RouterTokenCap cfg = 20 \<and> cf_RouterKeepRecent cfg = 10"

lemma limits_default: "limits_set (DefaultConfig hostname)"
  by (simp add: limits_set_def DefaultConfig_def)

lemma Atoi_range: "Atoi s = Some n \<Longrightarrow> in_i64 n"
  by (auto simp: Atoi_def Let_def in_i64_def split: if_splits option.splits)

lemma Atoi_to_i64: "Atoi s = Some n \<Longrightarrow> to_i64 n = n"
  by (simp add: Atoi_range to_i64_id)

text \<open>
  Without a configuration file the limits hold whatever the environment says: buffer size,
  cooling-off time, actions per process, velocity window and cooldown are positive, since a value
  that is not a positive number is ignored, and the limits without a variable are the defaults.
\<close>

lemma Load_limits:
  assumes "Load x = Inr cfg" "li_Getenv x ''PROFILER_CONFIG'' = ''''"
  shows "limits_set cfg"
proof -
  obtain c where c: "load_poll_interval x (DefaultConfig (li_hostname x)) = Inr c" "cfg = fold (apply_setting x) env_settings c"
    using assms by (auto simp: Load_def Let_def split: sum.splits)
  have "limits_set c"
    using c(1) limits_default by (auto simp: load_poll_interval_def Let_def limits_set_def split: if_splits option.splits)
  then show ?thesis
    unfolding c(2)
  proof (rule settings_inv [rotated])
    show "limits_set (snd s v c)" if "s \<in> set env_settings" "limits_set c" for s v c
      using that
      unfolding env_settings_def by (auto simp: set_text_def set_flag_def limits_set_def set_positive_def split: option.splits if_splits simp: Atoi_to_i64)
  qed
qed

definition sample_env :: load_inputs where
  "sample_env = \<lparr>li_Getenv = (\<lambda>name. if name = ''RING_BUFFER_MAX_MB'' then ''-5'' else ''''), li_ReadFile = (\<lambda>_. None),
     li_parse = (\<lambda>_. None), li_yaml = (\<lambda>_ _. None), li_lower = (\<lambda>s. s), li_hostname = ''node''\<rparr>"

end
