(* ===== verification/Model.thy ===== *)
theory Model
  imports Prelude
begin

text \<open>
  The telemetry records the components exchange: the snapshot of
  \<open>src/internal/proxy/model/types.go\<close> and the token usage event of
  \<open>src/internal/proxy/proxy/model.go\<close>. Unsigned 64-bit quantities are words; floating point
  percentages are reals.
\<close>

record HostMetrics =
  hm_CPUUtilizationPct :: real
  hm_MemoryTotalBytes :: "64 word"
  hm_MemoryUsedBytes :: "64 word"

record ProcessMetrics =
  pm_PID :: int
  pm_ContainerID :: gostring
  pm_ProcessName :: gostring
  pm_CPUUsagePct :: real
  pm_RSSBytes :: "64 word"
  pm_VSizeBytes :: "64 word"

record GPUProcessMetrics =
  gp_PID :: "32 word"
  gp_VRAMUsedBytes :: "64 word"

record GPUDeviceMetrics =
  gd_Index :: "64 word"
  gd_UUID :: gostring
  gd_Model :: gostring
  gd_PCIBusID :: gostring
  gd_MigDeviceGUID :: gostring
  gd_SMUtilizationPct :: real
  gd_MemoryUtilizationPct :: real
  gd_MemoryTotalBytes :: "64 word"
  gd_MemoryUsedBytes :: "64 word"
  gd_PowerDrawWatts :: real
  gd_TemperatureCelsius :: "32 word"
  gd_GraphicsClockMHz :: "32 word"
  gd_MemoryClockMHz :: "32 word"
  gd_RunningProcesses :: "GPUProcessMetrics list"

record Snapshot =
  sn_Timestamp :: int
  sn_HostMetrics :: HostMetrics
  sn_MonitoredProcesses :: "ProcessMetrics list"
  sn_GPUDevices :: "GPUDeviceMetrics list"

datatype AIProvider = ProviderOpenAI | ProviderAnthropic | ProviderCustom | OtherProvider gostring

record TokenMetrics =
  tm_PromptTokens :: int
  tm_CompletionTokens :: int
  tm_TotalTokens :: int

record TokenUsageEvent =
  tu_Timestamp :: int
  tu_ClientPID :: int
  tu_Provider :: AIProvider
  tu_Model :: gostring
  tu_IsStreaming :: bool
  tu_Metrics :: TokenMetrics

end
