(* ===== verification/Policy_Ledger.thy ===== *)
theory Policy_Ledger
  imports Prelude
begin

text \<open>
  The types of \<open>src/internal/proxy/policy/types.go\<close> and the transaction ledger of
  \<open>src/internal/proxy/policy/ledger.go\<close>: the map of mitigation records with its index by
  process, registration, status updates, the queries the engine and the rollback controller
  make, and the sweep that removes expired and surplus records. Reads of the clock and random
  identifiers are arguments; each operation runs under the ledger's mutex and is one definition.
\<close>

section \<open>Types\<close>

datatype ActionType =
    ActionSIGSTOP | ActionContainerPause | ActionAPIRouteSwap | ActionTokenChop | ActionCgroupFreeze
  | OtherAction gostring

datatype MitigationStatus =
    StatusAuthorizedPending | StatusExecuted | StatusCompleted | StatusRejected | StatusExpired

datatype RuleName =
    RuleSystemBlacklist | RuleUserWhitelist | RuleVelocityCap | RulePIDBoundary | NoRule

text \<open>The string constant behind each rule name; the empty string is \<open>NoRule\<close>.\<close>

fun rule_string :: "RuleName \<Rightarrow> gostring" where
  "rule_string RuleSystemBlacklist = ''SYSTEM_BLACKLIST_CHECK''"
| "rule_string RuleUserWhitelist = ''USER_WHITELIST_CHECK''"
| "rule_string RuleVelocityCap = ''VELOCITY_CAP_CHECK''"
| "rule_string RulePIDBoundary = ''PID_BOUNDARY_CHECK''"
| "rule_string NoRule = ''''"

lemma rule_string_empty [simp]: "rule_string r = '''' \<longleftrightarrow> r = NoRule"
  by (cases r) simp_all

record MitigationIntent =
  mi_TargetPID :: int
  mi_ContainerID :: gostring
  mi_ProcessName :: gostring
  mi_ActionType :: ActionType
  mi_AnomalyType :: gostring
  mi_SourceModule :: gostring
  mi_Metadata :: "gostring \<rightharpoonup> go_any"

record MitigationRecord =
  mr_TransactionID :: gostring
  mr_Timestamp :: time_ns
  mr_Expiry :: time_ns
  mr_TargetPID :: int
  mr_ContainerID :: gostring
  mr_ProcessName :: gostring
  mr_ActionType :: ActionType
  mr_Status :: MitigationStatus
  mr_EvaluatedRules :: int
  mr_MatchingPolicies :: "RuleName list"
  mr_RiskScore :: real
  mr_HistoricalCount :: int
  mr_CooldownSeconds :: int
  mr_RejectionReason :: gostring
  mr_Metadata :: "gostring \<rightharpoonup> go_any"

record PolicyConfig =
  pc_BlacklistNames :: "gostring list"
  pc_WhitelistNames :: "gostring list"
  pc_WhitelistIDs :: "gostring list"
  pc_MaxActionsPerPID :: int
  pc_VelocityWindow :: duration
  pc_CooldownSeconds :: int
  pc_LedgerMaxEntries :: int
  pc_SweepInterval :: duration
  pc_PIDThreshold :: int
  pc_BufferSize :: int

definition PolicyDefaultConfig :: PolicyConfig where
  "PolicyDefaultConfig =
     \<lparr>pc_BlacklistNames = [''systemd'', ''dockerd'', ''containerd'', ''kubelet'', ''init'', ''kerneloops''],
      pc_WhitelistNames = [], pc_WhitelistIDs = [],
      pc_MaxActionsPerPID = 5,
      pc_VelocityWindow = 10 * minute_ns,
      pc_CooldownSeconds = 60,
      pc_LedgerMaxEntries = 10000,
      pc_SweepInterval = 5 * minute_ns,
      pc_PIDThreshold = 100,
      pc_BufferSize = 64\<rparr>"

text \<open>\<open>buf\<close> is the 16 random bytes.\<close>

definition generateTxID :: "bytes \<Rightarrow> gostring" where
  "generateTxID buf = ''tx_'' @ hex_encode buf"

section \<open>The ledger\<close>

record TransactionLedger =
  tl_records :: "gostring \<rightharpoonup> MitigationRecord"
  tl_pidIndex :: "int \<rightharpoonup> gostring list"
  tl_maxEntries :: int
  tl_sweepInterval :: duration
  tl_cooldownSecs :: int

definition NewTransactionLedger :: "PolicyConfig \<Rightarrow> TransactionLedger" where
  "NewTransactionLedger cfg =
     (let maxEnt = (if pc_LedgerMaxEntries cfg \<le> 0 then 10000 else pc_LedgerMaxEntries cfg);
          si = (if pc_SweepInterval cfg \<le> 0 then 5 * minute_ns else pc_SweepInterval cfg);
          cd = (if pc_CooldownSeconds cfg < 0 then 60 else pc_CooldownSeconds cfg)
      in \<lparr>tl_records = Map.empty, tl_pidIndex = Map.empty, tl_maxEntries = maxEnt,
          tl_sweepInterval = si, tl_cooldownSecs = cd\<rparr>)"

text \<open>Indexing a Go map of slices: a missing key reads as the nil slice.\<close>

definition txids :: "(int \<rightharpoonup> gostring list) \<Rightarrow> int \<Rightarrow> gostring list" where
  "txids idx pid = (case idx pid of None \<Rightarrow> [] | Some ids \<Rightarrow> ids)"

text \<open>Appending to the slice under a key.\<close>

definition txids_append :: "(int \<rightharpoonup> gostring list) \<Rightarrow> int \<Rightarrow> gostring \<Rightarrow> (int \<rightharpoonup> gostring list)" where
  "txids_append idx pid txID = idx(pid \<mapsto> txids idx pid @ [txID])"

lemma txids_empty [simp]: "txids Map.empty p = []"
  by (simp add: txids_def)

lemma txids_append [simp]:
  "txids (txids_append idx pid tx) p = (if p = pid then txids idx pid @ [tx] else txids idx p)"
  by (simp add: txids_append_def txids_def)

definition Register ::
    "TransactionLedger \<Rightarrow> MitigationIntent \<Rightarrow> MitigationStatus \<Rightarrow> RuleName list \<Rightarrow> real \<Rightarrow> int
     \<Rightarrow> gostring \<Rightarrow> time_ns \<Rightarrow> bytes \<Rightarrow> MitigationRecord \<times> TransactionLedger" where
  "Register led intent status evaluatedRules riskScore cooldownSecs rejectionReason now buf =
     (let txID = generateTxID buf;
          expiry = to_i64 (now + to_i64 (cooldownSecs * second_ns));
          record =
            \<lparr>mr_TransactionID = txID,
             mr_Timestamp = now,
             mr_Expiry = expiry,
             mr_TargetPID = mi_TargetPID intent,
             mr_ContainerID = mi_ContainerID intent,
             mr_ProcessName = mi_ProcessName intent,
             mr_ActionType = mi_ActionType intent,
             mr_Status = status,
             mr_EvaluatedRules = int (length evaluatedRules),
             mr_MatchingPolicies = evaluatedRules,
             mr_RiskScore = riskScore,
             mr_HistoricalCount = int (length (txids (tl_pidIndex led) (mi_TargetPID intent))),
             mr_CooldownSeconds = cooldownSecs,
             mr_RejectionReason = rejectionReason,
             mr_Metadata = mi_Metadata intent\<rparr>
      in (record,
          led\<lparr>tl_records := (tl_records led)(txID \<mapsto> record),
             tl_pidIndex := txids_append (tl_pidIndex led) (mi_TargetPID intent) txID\<rparr>))"

definition UpdateStatus :: "TransactionLedger \<Rightarrow> gostring \<Rightarrow> MitigationStatus \<Rightarrow> bool \<times> TransactionLedger" where
  "UpdateStatus led txID status =
     (case tl_records led txID of
        None \<Rightarrow> (False, led)
      | Some rec \<Rightarrow> (True, led\<lparr>tl_records := (tl_records led)(txID \<mapsto> rec\<lparr>mr_Status := status\<rparr>)\<rparr>))"

definition LedgerLookup :: "TransactionLedger \<Rightarrow> gostring \<Rightarrow> MitigationRecord option" where
  "LedgerLookup led txID = tl_records led txID"

definition HistoricalCount :: "TransactionLedger \<Rightarrow> time_ns \<Rightarrow> int \<Rightarrow> int" where
  "HistoricalCount led now pid =
     int (length (filter (\<lambda>id. case tl_records led id of None \<Rightarrow> False | Some rec \<Rightarrow> now \<le> mr_Expiry rec)
       (txids (tl_pidIndex led) pid)))"

type_synonym record_order = "(gostring \<rightharpoonup> MitigationRecord) \<Rightarrow> gostring list"

definition ListExecutedExpired ::
    "record_order \<Rightarrow> TransactionLedger \<Rightarrow> time_ns \<Rightarrow> MitigationRecord list" where
  "ListExecutedExpired ord led now =
     filter (\<lambda>rec. mr_Status rec = StatusExecuted \<and> now > mr_Expiry rec)
       (range_values ord (tl_records led))"

definition ListActive :: "record_order \<Rightarrow> TransactionLedger \<Rightarrow> time_ns \<Rightarrow> MitigationRecord list" where
  "ListActive ord led now =
     filter (\<lambda>rec. (mr_Status rec = StatusAuthorizedPending \<or> mr_Status rec = StatusExecuted) \<and>
                   now \<le> mr_Expiry rec)
       (range_values ord (tl_records led))"

definition LedgerCount :: "record_order \<Rightarrow> TransactionLedger \<Rightarrow> int" where
  "LedgerCount ord led = int (map_len ord (tl_records led))"

text \<open>
  The inner loop of \<open>sweep\<close> that looks for the oldest record: it starts from \<open>now\<close> and the
  empty identifier and takes every record at most as new as the best so far.
\<close>

definition find_oldest :: "(gostring \<times> MitigationRecord) list \<Rightarrow> time_ns \<Rightarrow> time_ns \<times> gostring" where
  "find_oldest kvs now =
     fold (\<lambda>(txID, rec) (oldestTs, oldest).
             if mr_Timestamp rec \<le> oldestTs then (mr_Timestamp rec, txID) else (oldestTs, oldest))
       kvs (now, '''')"

text \<open>
  The eviction loop. Each round removes one record, so as many rounds as there are records
  are enough (\<open>evict_loop_enough\<close>); running out of fuel is \<open>None\<close>.
\<close>

fun evict_loop ::
    "nat \<Rightarrow> record_order \<Rightarrow> int \<Rightarrow> time_ns \<Rightarrow> (gostring \<rightharpoonup> MitigationRecord)
     \<Rightarrow> (gostring \<rightharpoonup> MitigationRecord) option" where
  "evict_loop 0 ord maxEntries now m = None"
| "evict_loop (Suc fuel) ord maxEntries now m =
     (if int (map_len ord m) > maxEntries
      then (let oldest = snd (find_oldest (range_pairs ord m) now)
            in if oldest = '''' then Some m
               else evict_loop fuel ord maxEntries now (m(oldest := None)))
      else Some m)"

definition rebuildPIDIndex :: "record_order \<Rightarrow> TransactionLedger \<Rightarrow> TransactionLedger" where
  "rebuildPIDIndex ord led =
     led\<lparr>tl_pidIndex :=
       fold (\<lambda>(txID, rec) newIndex. txids_append newIndex (mr_TargetPID rec) txID)
         (range_pairs ord (tl_records led)) Map.empty\<rparr>"

definition sweep :: "record_order \<Rightarrow> time_ns \<Rightarrow> TransactionLedger \<Rightarrow> TransactionLedger option" where
  "sweep ord now led =
     (let live = delete_where (\<lambda>rec. now > mr_Expiry rec) (range_pairs ord (tl_records led)) (tl_records led)
      in case evict_loop (Suc (map_len ord live)) ord (tl_maxEntries led) now live of
           None \<Rightarrow> None
         | Some kept \<Rightarrow> Some (rebuildPIDIndex ord (led\<lparr>tl_records := kept\<rparr>)))"

definition CooldownSeconds :: "TransactionLedger \<Rightarrow> int" where
  "CooldownSeconds led = tl_cooldownSecs led"

section \<open>Well-formed ledgers\<close>

definition records_of :: "TransactionLedger \<Rightarrow> int \<Rightarrow> gostring set" where
  "records_of led p = {tx. \<exists>rec. tl_records led tx = Some rec \<and> mr_TargetPID rec = p}"

text \<open>
  The records are finitely many, each is stored under its own identifier, which starts with
  \<open>tx_\<close>, and the index lists each record of a process exactly once and nothing else.
\<close>

definition ledger_inv :: "TransactionLedger \<Rightarrow> bool" where
  "ledger_inv led \<longleftrightarrow>
     finite (dom (tl_records led)) \<and>
     (\<forall>tx rec. tl_records led tx = Some rec \<longrightarrow> mr_TransactionID rec = tx \<and> prefix ''tx_'' tx) \<and>
     (\<forall>p. distinct (txids (tl_pidIndex led) p) \<and> set (txids (tl_pidIndex led) p) = records_of led p) \<and>
     0 < tl_maxEntries led \<and> 0 \<le> tl_cooldownSecs led"

lemma ledger_inv_finite: "ledger_inv led \<Longrightarrow> finite (dom (tl_records led))"
  by (simp add: ledger_inv_def)

lemma ledger_inv_key: "ledger_inv led \<Longrightarrow> tl_records led tx = Some rec \<Longrightarrow> mr_TransactionID rec = tx \<and> prefix ''tx_'' tx"
  by (simp add: ledger_inv_def)

lemma finite_records_of: "finite (dom (tl_records led)) \<Longrightarrow> finite (records_of led p)"
  by (rule finite_subset [of _ "dom (tl_records led)"]) (auto simp: records_of_def)

lemma ledger_inv_New [inv_intros]: "ledger_inv (NewTransactionLedger cfg)"
  by (simp add: ledger_inv_def NewTransactionLedger_def records_of_def Let_def)

lemma ledger_inv_Register [inv_intros]:
  assumes "ledger_inv led" and "generateTxID buf \<notin> dom (tl_records led)"
  shows "ledger_inv (snd (Register led intent status rules risk cd reason now buf))"
proof -
  have "generateTxID buf \<notin> records_of led p" for p
    using assms(2) by (auto simp: records_of_def)
  then show ?thesis
    using assms by (auto simp: ledger_inv_def Register_def Let_def records_of_def generateTxID_def)
qed

lemma UpdateStatus_records_of [simp]: "records_of (snd (UpdateStatus led tx st)) p = records_of led p"
  by (auto simp: UpdateStatus_def records_of_def split: option.splits)

lemma UpdateStatus_frame [simp]:
  "tl_pidIndex (snd (UpdateStatus led tx st)) = tl_pidIndex led"
  "tl_maxEntries (snd (UpdateStatus led tx st)) = tl_maxEntries led"
  "tl_cooldownSecs (snd (UpdateStatus led tx st)) = tl_cooldownSecs led"
  "dom (tl_records (snd (UpdateStatus led tx st))) = dom (tl_records led)"
  by (auto simp: UpdateStatus_def split: option.splits)

lemma UpdateStatus_lookup:
  "tl_records (snd (UpdateStatus led tx st)) tx' =
     (if tx' = tx then map_option (\<lambda>rec. rec\<lparr>mr_Status := st\<rparr>) (tl_records led tx) else tl_records led tx')"
  by (auto simp: UpdateStatus_def split: option.splits)

lemma ledger_inv_UpdateStatus [inv_intros]: "ledger_inv led \<Longrightarrow> ledger_inv (snd (UpdateStatus led tx st))"
  by (auto simp: ledger_inv_def UpdateStatus_lookup split: if_splits)

section \<open>The sweep\<close>

lemma find_oldest_append:
  "find_oldest (kvs @ [kv]) now =
     (if mr_Timestamp (snd kv) \<le> fst (find_oldest kvs now) then (mr_Timestamp (snd kv), fst kv)
      else find_oldest kvs now)"
  by (simp add: find_oldest_def case_prod_unfold)

text \<open>
  The search ends on a record no newer than any other, or finds nothing, when every record is
  newer than \<open>now\<close>.
\<close>

lemma find_oldest_le:
  "kv \<in> set kvs \<Longrightarrow> fst (find_oldest kvs now) \<le> mr_Timestamp (snd kv)"
  by (induction kvs rule: rev_induct) (auto simp: find_oldest_append)

lemma find_oldest_cases:
  obtains (none_older) "snd (find_oldest kvs now) = ''''" "\<forall>kv \<in> set kvs. now < mr_Timestamp (snd kv)"
  | (found) kv where "kv \<in> set kvs" "find_oldest kvs now = (mr_Timestamp (snd kv), fst kv)"
proof -
  have "(find_oldest kvs now = (now, '''') \<and> (\<forall>kv \<in> set kvs. now < mr_Timestamp (snd kv))) \<or>
      (\<exists>kv \<in> set kvs. find_oldest kvs now = (mr_Timestamp (snd kv), fst kv))"
  proof (induction kvs rule: rev_induct)
    case Nil
    show ?case by (simp add: find_oldest_def)
  next
    case (snoc kv kvs)
    then show ?case
      by (cases "mr_Timestamp (snd kv) \<le> fst (find_oldest kvs now)") (auto simp: find_oldest_append)
  qed
  then show thesis using none_older found by fastforce
qed

text \<open>
  What a run of the eviction loop leaves: a restriction of the map, within the limit unless
  the clock reads earlier than every remaining record, from which only records at most as new
  as every survivor were removed.
\<close>

definition evicted_oldest ::
    "(gostring \<rightharpoonup> MitigationRecord) \<Rightarrow> (gostring \<rightharpoonup> MitigationRecord) \<Rightarrow> bool" where
  "evicted_oldest m m' \<longleftrightarrow>
     m' \<subseteq>\<^sub>m m \<and>
     (\<forall>tx rec tx' rec'. m tx = Some rec \<longrightarrow> m' tx = None \<longrightarrow> m' tx' = Some rec' \<longrightarrow>
        mr_Timestamp rec \<le> mr_Timestamp rec')"

lemma map_le_SomeD: "m' \<subseteq>\<^sub>m m \<Longrightarrow> m' k = Some v \<Longrightarrow> m k = Some v"
  by (metis domI map_le_def)

lemma evicted_oldest_refl: "evicted_oldest m m"
  by (simp add: evicted_oldest_def)

lemma evicted_oldest_step:
  assumes "evicted_oldest (m(tx0 := None)) m'" and "m tx0 = Some rec0"
    and "\<forall>tx rec. m tx = Some rec \<longrightarrow> mr_Timestamp rec0 \<le> mr_Timestamp rec"
  shows "evicted_oldest m m'"
proof -
  have sub: "m' \<subseteq>\<^sub>m m(tx0 := None)" using assms(1) by (simp add: evicted_oldest_def)
  then have "m' \<subseteq>\<^sub>m m"
    by (rule map_le_trans) (rule upd_None_map_le)
  moreover have "mr_Timestamp rec \<le> mr_Timestamp rec'"
    if "m tx = Some rec" "m' tx = None" "m' tx' = Some rec'" for tx rec tx' rec'
  proof (cases "tx = tx0")
    case True
    with that assms(2,3) map_le_SomeD [OF \<open>m' \<subseteq>\<^sub>m m\<close>] show ?thesis by auto
  next
    case False
    then have "(m(tx0 := None)) tx = Some rec" using that(1) by simp
    with that(2,3) assms(1) show ?thesis unfolding evicted_oldest_def by blast
  qed
  ultimately show ?thesis by (auto simp: evicted_oldest_def)
qed

lemma evict_loop_enough:
  assumes "map_range ord"
  shows "finite (dom m) \<Longrightarrow> '''' \<notin> dom m \<Longrightarrow> card (dom m) < fuel \<Longrightarrow>
    \<exists>m'. evict_loop fuel ord maxE now m = Some m' \<and> evicted_oldest m m' \<and>
      (int (card (dom m')) \<le> maxE \<or> (\<forall>tx rec. m' tx = Some rec \<longrightarrow> now < mr_Timestamp rec))"
proof (induction fuel arbitrary: m)
  case 0
  then show ?case by simp
next
  case (Suc fuel)
  note len = map_range.map_len_card [OF assms Suc.prems(1)]
  note pairs = map_range.set_range_pairs [OF assms Suc.prems(1)]
  show ?case
  proof (cases "int (map_len ord m) > maxE")
    case False
    then show ?thesis using len by (auto simp: evicted_oldest_refl)
  next
    case True
    show ?thesis
    proof (cases "range_pairs ord m" now rule: find_oldest_cases)
      case none_older
      with True pairs show ?thesis by (auto simp: evicted_oldest_refl)
    next
      case (found kv)
      obtain tx rec where kv: "kv = (tx, rec)" by (cases kv)
      with found pairs have m: "m tx = Some rec" by auto
      have oldest: "\<forall>tx' rec'. m tx' = Some rec' \<longrightarrow> mr_Timestamp rec \<le> mr_Timestamp rec'"
        using find_oldest_le [of _ "range_pairs ord m" now] found kv pairs by fastforce
      have ne: "tx \<noteq> ''''" using m Suc.prems(2) by auto
      have "card (dom m) = Suc (card (dom m - {tx}))"
        using m Suc.prems(1) by (intro card.remove) auto
      then have small: "card (dom (m(tx := None))) < fuel" using Suc.prems(3) by simp
      have "finite (dom (m(tx := None)))" "'''' \<notin> dom (m(tx := None))"
        using Suc.prems(1,2) by simp_all
      from Suc.IH [OF this small] obtain m' where m': "evict_loop fuel ord maxE now (m(tx := None)) = Some m'"
          "evicted_oldest (m(tx := None)) m'"
          "int (card (dom m')) \<le> maxE \<or> (\<forall>tx rec. m' tx = Some rec \<longrightarrow> now < mr_Timestamp rec)"
        by blast
      moreover have "evicted_oldest m m'"
        by (rule evicted_oldest_step [OF m'(2) m oldest])
      ultimately show ?thesis using True found(2) kv ne by auto
    qed
  qed
qed

lemma rebuild_fold:
  "txids (fold (\<lambda>(txID, rec) idx. txids_append idx (mr_TargetPID rec) txID) kvs idx) p =
   txids idx p @ map fst (filter (\<lambda>(tx, rec). mr_TargetPID rec = p) kvs)"
  by (induction kvs arbitrary: idx) auto

lemma rebuildPIDIndex_txids:
  assumes "map_range ord" and "finite (dom (tl_records led))"
  shows "distinct (txids (tl_pidIndex (rebuildPIDIndex ord led)) p) \<and>
    set (txids (tl_pidIndex (rebuildPIDIndex ord led)) p) = records_of led p"
proof -
  have ids: "txids (tl_pidIndex (rebuildPIDIndex ord led)) p =
      map fst (filter (\<lambda>(tx, rec). mr_TargetPID rec = p) (range_pairs ord (tl_records led)))"
    by (simp add: rebuildPIDIndex_def rebuild_fold)
  moreover have "distinct (map fst (range_pairs ord (tl_records led)))"
    by (rule map_range.distinct_fst_range_pairs [OF assms])
  ultimately show ?thesis
    by (force simp: distinct_map_filter map_range.set_range_pairs [OF assms] records_of_def)
qed

lemma sweep_result:
  fixes led :: TransactionLedger and now :: time_ns
  assumes "map_range ord" and "ledger_inv led"
  defines "live \<equiv> \<lambda>tx. case tl_records led tx of None \<Rightarrow> None
             | Some rec \<Rightarrow> if now > mr_Expiry rec then None else Some rec"
  shows "\<exists>led'. sweep ord now led = Some led' \<and> ledger_inv led' \<and> evicted_oldest live (tl_records led') \<and>
    (int (card (dom (tl_records led'))) \<le> tl_maxEntries led \<or>
     (\<forall>tx rec. tl_records led' tx = Some rec \<longrightarrow> now < mr_Timestamp rec)) \<and>
    tl_maxEntries led' = tl_maxEntries led \<and> tl_cooldownSecs led' = tl_cooldownSecs led"
proof -
  note fin = ledger_inv_finite [OF assms(2)]
  have live: "delete_where (\<lambda>rec. now > mr_Expiry rec) (range_pairs ord (tl_records led)) (tl_records led) = live"
    unfolding live_def by (rule ext) (rule delete_where_range [OF assms(1) fin])
  have sub: "live \<subseteq>\<^sub>m tl_records led"
    by (auto simp: map_le_def live_def split: option.splits if_splits)
  then have fl: "finite (dom live)"
    using fin by (meson finite_subset map_le_implies_dom_le)
  have "'''' \<notin> dom (tl_records led)"
    using ledger_inv_key [OF assms(2)] by fastforce
  then have ne: "'''' \<notin> dom live"
    using map_le_implies_dom_le [OF sub] by blast
  obtain m' where m': "evict_loop (Suc (map_len ord live)) ord (tl_maxEntries led) now live = Some m'"
      "evicted_oldest live m'"
      "int (card (dom m')) \<le> tl_maxEntries led \<or> (\<forall>tx rec. m' tx = Some rec \<longrightarrow> now < mr_Timestamp rec)"
    using evict_loop_enough [OF assms(1) fl ne, of "Suc (map_len ord live)" "tl_maxEntries led" now]
      map_range.map_len_card [OF assms(1) fl] by auto
  have "m' \<subseteq>\<^sub>m tl_records led"
    using m'(2) sub by (auto simp: evicted_oldest_def intro: map_le_trans)
  then have keys: "\<And>tx rec. m' tx = Some rec \<Longrightarrow> tl_records led tx = Some rec"
    by (rule map_le_SomeD)
  have fm: "finite (dom m')"
    using \<open>m' \<subseteq>\<^sub>m tl_records led\<close> fin by (meson finite_subset map_le_implies_dom_le)
  let ?led' = "rebuildPIDIndex ord (led\<lparr>tl_records := m'\<rparr>)"
  have "ledger_inv ?led'"
    using rebuildPIDIndex_txids [OF assms(1), of "led\<lparr>tl_records := m'\<rparr>"] fm keys assms(2)
    by (auto simp: ledger_inv_def rebuildPIDIndex_def records_of_def)
  moreover have "sweep ord now led = Some ?led'"
    by (simp add: sweep_def live m'(1) del: evict_loop.simps)
  ultimately show ?thesis
    using m' by (auto simp: rebuildPIDIndex_def)
qed

section \<open>Counting\<close>

text \<open>On a well-formed ledger the historical count is the number of unexpired records of the process.\<close>

text \<open>What a sweep leaves was there before and has not expired.\<close>

lemma swept_sub:
  assumes "map_range ord" "ledger_inv led" "sweep ord t led = Some led'"
  shows "ledger_inv led' \<and> (\<forall>tx rec. tl_records led' tx = Some rec \<longrightarrow> tl_records led tx = Some rec \<and> t \<le> mr_Expiry rec)"
proof -
  let ?live = "\<lambda>tx. case tl_records led tx of None \<Rightarrow> None | Some rec \<Rightarrow> if t > mr_Expiry rec then None else Some rec"
  have "ledger_inv led'" "evicted_oldest ?live (tl_records led')" using sweep_result [OF assms(1,2), of t] assms(3) by auto
  moreover from this(2) have "tl_records led' \<subseteq>\<^sub>m ?live" by (simp add: evicted_oldest_def)
  ultimately show ?thesis using map_le_SomeD by (fastforce split: option.splits if_splits)
qed

lemma HistoricalCount_card:
  assumes "ledger_inv led"
  shows "HistoricalCount led now p =
    int (card {tx \<in> records_of led p. \<exists>rec. tl_records led tx = Some rec \<and> now \<le> mr_Expiry rec})"
proof -
  let ?P = "\<lambda>id. case tl_records led id of None \<Rightarrow> False | Some rec \<Rightarrow> now \<le> mr_Expiry rec"
  have "card (set (filter ?P (txids (tl_pidIndex led) p))) = length (filter ?P (txids (tl_pidIndex led) p))"
    using assms by (intro distinct_card distinct_filter) (simp add: ledger_inv_def)
  moreover have "set (filter ?P (txids (tl_pidIndex led) p)) =
      {tx \<in> records_of led p. \<exists>rec. tl_records led tx = Some rec \<and> now \<le> mr_Expiry rec}"
    using assms by (auto simp: ledger_inv_def split: option.splits)
  ultimately show ?thesis by (simp add: HistoricalCount_def)
qed

lemma HistoricalCount_ge:
  assumes "records_of led p \<subseteq> set (txids (tl_pidIndex led) p)"
  shows "int (card {tx \<in> records_of led p. \<exists>rec. tl_records led tx = Some rec \<and> now \<le> mr_Expiry rec})
    \<le> HistoricalCount led now p"
proof -
  let ?P = "\<lambda>id. case tl_records led id of None \<Rightarrow> False | Some rec \<Rightarrow> now \<le> mr_Expiry rec"
  have "{tx \<in> records_of led p. \<exists>rec. tl_records led tx = Some rec \<and> now \<le> mr_Expiry rec}
      \<subseteq> set (filter ?P (txids (tl_pidIndex led) p))"
    using assms by (auto split: option.splits)
  then have "card {tx \<in> records_of led p. \<exists>rec. tl_records led tx = Some rec \<and> now \<le> mr_Expiry rec}
      \<le> card (set (filter ?P (txids (tl_pidIndex led) p)))"
    by (intro card_mono) simp_all
  also have "\<dots> \<le> length (filter ?P (txids (tl_pidIndex led) p))"
    by (rule card_length)
  finally show ?thesis by (simp add: HistoricalCount_def)
qed

end
