(* ===== verification/Policy_Engine.thy ===== *)
theory Policy_Engine
  imports Policy_Ledger
begin

text \<open>
  The rule evaluator of \<open>src/internal/proxy/policy/evaluator.go\<close> and the policy engine of
  \<open>src/internal/proxy/policy/engine.go\<close>, which every mitigation passes before it acts. The
  engine's operations are composed into a step relation; its reachable states carry the
  velocity cap and the protection of system processes. The locale \<open>action_gate\<close> is what the
  mitigator and the router rely on.
\<close>

section \<open>The rule evaluator\<close>

record RuleEvaluator =
  re_blacklistNames :: "gostring set"
  re_whitelistNames :: "gostring set"
  re_whitelistIDs :: "gostring set"
  re_pidThreshold :: int
  re_maxActionsPerPID :: int
  re_velocityWindow :: int

text \<open>The names of a list as a set, without the empty string.\<close>

definition name_set :: "gostring list \<Rightarrow> gostring set" where
  "name_set names = set (filter (\<lambda>n. n \<noteq> '''') names)"

definition NewRuleEvaluator :: "PolicyConfig \<Rightarrow> RuleEvaluator" where
  "NewRuleEvaluator cfg =
     \<lparr>re_blacklistNames = name_set (pc_BlacklistNames cfg),
      re_whitelistNames = name_set (pc_WhitelistNames cfg),
      re_whitelistIDs = name_set (pc_WhitelistIDs cfg),
      re_pidThreshold = (if pc_PIDThreshold cfg \<le> 0 then 100 else pc_PIDThreshold cfg),
      re_maxActionsPerPID = (if pc_MaxActionsPerPID cfg \<le> 0 then 5 else pc_MaxActionsPerPID cfg),
      re_velocityWindow = whole_seconds (pc_VelocityWindow cfg)\<rparr>"

definition Evaluate :: "RuleEvaluator \<Rightarrow> MitigationIntent \<Rightarrow> int \<Rightarrow> bool \<times> RuleName list \<times> RuleName" where
  "Evaluate re intent historicalCount =
     (let matchedRules = [];
          pn = mi_ProcessName intent
      in if mi_TargetPID intent \<le> 0
         then (False, matchedRules @ [RulePIDBoundary], RulePIDBoundary)
         else if mi_TargetPID intent < re_pidThreshold re
         then (False, matchedRules @ [RuleSystemBlacklist], RuleSystemBlacklist)
         else if pn \<noteq> '''' \<and> pn \<in> re_blacklistNames re
         then (False, matchedRules @ [RuleSystemBlacklist], RuleSystemBlacklist)
         else if pn \<noteq> '''' \<and> pn \<in> re_whitelistNames re
         then (False, matchedRules @ [RuleUserWhitelist], RuleUserWhitelist)
         else if mi_ContainerID intent \<noteq> '''' \<and> mi_ContainerID intent \<in> re_whitelistIDs re
         then (False, matchedRules @ [RuleUserWhitelist], RuleUserWhitelist)
         else (let matchedRules = matchedRules @ [RulePIDBoundary]
               in if historicalCount \<ge> re_maxActionsPerPID re
                  then (False, matchedRules @ [RuleVelocityCap], RuleVelocityCap)
                  else (True, matchedRules @ [RuleSystemBlacklist], NoRule)))"

definition RiskScore :: "RuleEvaluator \<Rightarrow> gostring \<Rightarrow> int \<Rightarrow> real" where
  "RiskScore re processName historicalCount =
     (let score = (if processName \<in> re_blacklistNames re then 0.9 else 0);
          score = (if re_maxActionsPerPID re > 0
                   then (let ratio = real_of_int historicalCount / real_of_int (re_maxActionsPerPID re);
                             ratio = (if ratio > 1 then 1 else ratio)
                         in score + ratio * 0.3)
                   else score)
      in if score > 1 then 1 else score)"

definition UpdateWhitelist :: "RuleEvaluator \<Rightarrow> gostring list \<Rightarrow> gostring list \<Rightarrow> RuleEvaluator" where
  "UpdateWhitelist re names ids =
     re\<lparr>re_whitelistNames := name_set names, re_whitelistIDs := name_set ids\<rparr>"

definition IsWhitelisted :: "RuleEvaluator \<Rightarrow> gostring \<Rightarrow> gostring \<Rightarrow> bool" where
  "IsWhitelisted re processName containerID =
     (if processName \<noteq> '''' \<and> processName \<in> re_whitelistNames re then True
      else if containerID \<noteq> '''' \<and> containerID \<in> re_whitelistIDs re then True
      else False)"

text \<open>What the evaluator promises: exactly the intents that pass every rule are authorised.\<close>

definition protected_target :: "RuleEvaluator \<Rightarrow> MitigationIntent \<Rightarrow> bool" where
  "protected_target re intent \<longleftrightarrow>
     mi_TargetPID intent \<le> 0 \<or> mi_TargetPID intent < re_pidThreshold re \<or>
     (mi_ProcessName intent \<noteq> '''' \<and> mi_ProcessName intent \<in> re_blacklistNames re) \<or>
     IsWhitelisted re (mi_ProcessName intent) (mi_ContainerID intent)"

lemma Evaluate_authorized:
  "fst (Evaluate re intent h) \<longleftrightarrow> \<not> protected_target re intent \<and> h < re_maxActionsPerPID re"
  by (auto simp: Evaluate_def protected_target_def IsWhitelisted_def Let_def)

lemma Evaluate_rejection:
  "snd (snd (Evaluate re intent h)) = NoRule \<longleftrightarrow> fst (Evaluate re intent h)"
  by (auto simp: Evaluate_def Let_def)

lemma RiskScore_bounds:
  assumes "0 \<le> h" and "0 < re_maxActionsPerPID re"
  shows "0 \<le> RiskScore re n h \<and> RiskScore re n h \<le> 1"
  using assms by (auto simp: RiskScore_def Let_def)

section \<open>The engine\<close>

record PolicyEvaluation =
  ev_IsAuthorized :: bool
  ev_EvaluatedRulesCount :: int
  ev_MatchingPoliciesApplied :: "gostring list"
  ev_RejectionReason :: gostring

record MitigationTargetMetadata =
  mt_TargetPID :: int
  mt_ContainerName :: gostring
  mt_RiskScoreAssigned :: real

record LedgerStateSnapshot =
  ls_CurrentActionStatus :: MitigationStatus
  ls_HistoricalInterventionsOnTargetCount :: int
  ls_EnforcedCooldownDurationSeconds :: int

record PolicyEvent =
  pv_LedgerTransactionID :: gostring
  pv_Timestamp :: int
  pv_PolicyEvaluation :: PolicyEvaluation
  pv_MitigationTarget :: MitigationTargetMetadata
  pv_LedgerState :: LedgerStateSnapshot

record PolicyEngine =
  pe_evaluator :: RuleEvaluator
  pe_ledger :: TransactionLedger
  pe_events :: "PolicyEvent list"
  pe_cfg :: PolicyConfig

text \<open>A negative buffer size panics when the channel is made.\<close>

definition NewPolicyEngine :: "PolicyConfig \<Rightarrow> PolicyEngine option" where
  "NewPolicyEngine cfg =
     (let cfg = (if pc_BufferSize cfg = 0 then cfg\<lparr>pc_BufferSize := 64\<rparr> else cfg)
      in if pc_BufferSize cfg < 0 then None
         else Some \<lparr>pe_evaluator = NewRuleEvaluator cfg, pe_ledger = NewTransactionLedger cfg,
                    pe_events = [], pe_cfg = cfg\<rparr>)"

definition policy_buffer :: "PolicyEngine \<Rightarrow> nat" where
  "policy_buffer e = nat (pc_BufferSize (pe_cfg e))"

definition policy_emitEvent :: "PolicyEngine \<Rightarrow> PolicyEvent \<Rightarrow> PolicyEngine" where
  "policy_emitEvent e evt = e\<lparr>pe_events := try_send (policy_buffer e) (pe_events e) evt\<rparr>"

interpretation policy_sink: event_sink policy_emitEvent pe_events policy_buffer
  by unfold_locales (simp_all add: policy_emitEvent_def policy_buffer_def)

text \<open>
  \<open>th\<close>, \<open>tr\<close> and \<open>te\<close> are the clock readings of \<open>HistoricalCount\<close>, \<open>Register\<close> and the
  event; \<open>buf\<close> is the random bytes of the transaction identifier.
\<close>

record eval_inputs =
  ei_th :: time_ns
  ei_tr :: time_ns
  ei_te :: int
  ei_buf :: bytes

text \<open>
  The code holds no lock from the moment it counts the past actions to the moment it registers the
  new one, so what follows the count is a definition of its own.
\<close>

definition policy_commit ::
    "PolicyEngine \<Rightarrow> MitigationIntent \<Rightarrow> int \<Rightarrow> eval_inputs
     \<Rightarrow> (bool \<times> gostring \<times> PolicyEvent) \<times> PolicyEngine" where
  "policy_commit e intent historicalCount x =
     (let (authorized, matchedRules, rejectionRule) = Evaluate (pe_evaluator e) intent historicalCount;
          riskScore = RiskScore (pe_evaluator e) (mi_ProcessName intent) historicalCount;
          matchedStr = map rule_string matchedRules;
          cooldown = CooldownSeconds (pe_ledger e);
          (status, reason) =
            (if authorized then (StatusAuthorizedPending, '''')
             else (StatusRejected, rule_string rejectionRule));
          (record, ledger) =
            Register (pe_ledger e) intent status matchedRules riskScore cooldown reason (ei_tr x) (ei_buf x);
          txID = mr_TransactionID record;
          event =
            \<lparr>pv_LedgerTransactionID = mr_TransactionID record,
             pv_Timestamp = ei_te x,
             pv_PolicyEvaluation =
               \<lparr>ev_IsAuthorized = authorized,
                ev_EvaluatedRulesCount = mr_EvaluatedRules record,
                ev_MatchingPoliciesApplied = matchedStr,
                ev_RejectionReason = reason\<rparr>,
             pv_MitigationTarget =
               \<lparr>mt_TargetPID = mi_TargetPID intent,
                mt_ContainerName = mi_ContainerID intent,
                mt_RiskScoreAssigned = riskScore\<rparr>,
             pv_LedgerState =
               \<lparr>ls_CurrentActionStatus = status,
                ls_HistoricalInterventionsOnTargetCount = mr_HistoricalCount record,
                ls_EnforcedCooldownDurationSeconds = cooldown\<rparr>\<rparr>
      in ((authorized, txID, event), policy_emitEvent (e\<lparr>pe_ledger := ledger\<rparr>) event))"

definition EvaluateAndRegister ::
    "PolicyEngine \<Rightarrow> MitigationIntent \<Rightarrow> eval_inputs
     \<Rightarrow> (bool \<times> gostring \<times> PolicyEvent) \<times> PolicyEngine" where
  "EvaluateAndRegister e intent x =
     policy_commit e intent (HistoricalCount (pe_ledger e) (ei_th x) (mi_TargetPID intent)) x"

definition ConfirmExecution :: "PolicyEngine \<Rightarrow> gostring \<Rightarrow> PolicyEngine" where
  "ConfirmExecution e txID = e\<lparr>pe_ledger := snd (UpdateStatus (pe_ledger e) txID StatusExecuted)\<rparr>"

definition Complete :: "PolicyEngine \<Rightarrow> gostring \<Rightarrow> PolicyEngine" where
  "Complete e txID = e\<lparr>pe_ledger := snd (UpdateStatus (pe_ledger e) txID StatusCompleted)\<rparr>"

definition Reject :: "PolicyEngine \<Rightarrow> gostring \<Rightarrow> gostring \<Rightarrow> PolicyEngine" where
  "Reject e txID reason = e\<lparr>pe_ledger := snd (UpdateStatus (pe_ledger e) txID StatusRejected)\<rparr>"

definition policy_ActiveCount :: "record_order \<Rightarrow> PolicyEngine \<Rightarrow> time_ns \<Rightarrow> int" where
  "policy_ActiveCount ord e now = int (length (ListActive ord (pe_ledger e) now))"

definition HistoricalForPID :: "PolicyEngine \<Rightarrow> time_ns \<Rightarrow> int \<Rightarrow> int" where
  "HistoricalForPID e now pid = HistoricalCount (pe_ledger e) now pid"

definition TotalTrackedCount :: "record_order \<Rightarrow> PolicyEngine \<Rightarrow> int" where
  "TotalTrackedCount ord e = LedgerCount ord (pe_ledger e)"

section \<open>What one evaluation does\<close>

definition granted :: "PolicyEngine \<Rightarrow> MitigationIntent \<Rightarrow> int \<Rightarrow> bool" where
  "granted e intent n = fst (Evaluate (pe_evaluator e) intent n)"

definition decision :: "PolicyEngine \<Rightarrow> MitigationIntent \<Rightarrow> eval_inputs \<Rightarrow> bool" where
  "decision e intent x =
     fst (Evaluate (pe_evaluator e) intent (HistoricalCount (pe_ledger e) (ei_th x) (mi_TargetPID intent)))"

lemma decision_granted:
  "decision e intent x = granted e intent (HistoricalCount (pe_ledger e) (ei_th x) (mi_TargetPID intent))"
  by (simp add: decision_def granted_def)

lemma policy_commit_answer:
  "fst (fst (policy_commit e intent n x)) = granted e intent n"
  "fst (snd (fst (policy_commit e intent n x))) = generateTxID (ei_buf x)"
  "pv_LedgerTransactionID (snd (snd (fst (policy_commit e intent n x)))) = generateTxID (ei_buf x)"
  by (simp_all add: policy_commit_def granted_def Register_def Let_def case_prod_unfold)

lemma policy_commit_frame [simp]:
  "pe_evaluator (snd (policy_commit e intent n x)) = pe_evaluator e"
  "pe_cfg (snd (policy_commit e intent n x)) = pe_cfg e"
  by (simp_all add: policy_commit_def policy_emitEvent_def Let_def case_prod_unfold)

text \<open>The ledger afterwards is a registration whose status and reason follow the decision.\<close>

lemma policy_commit_ledger:
  obtains rules risk reason where
    "pe_ledger (snd (policy_commit e intent n x)) =
       snd (Register (pe_ledger e) intent (if granted e intent n then StatusAuthorizedPending else StatusRejected)
             rules risk (tl_cooldownSecs (pe_ledger e)) reason (ei_tr x) (ei_buf x))"
    "reason = '''' \<longleftrightarrow> granted e intent n"
proof -
  let ?ev = "Evaluate (pe_evaluator e) intent n"
  let ?reason = "if fst ?ev then '''' else rule_string (snd (snd ?ev))"
  have "pe_ledger (snd (policy_commit e intent n x)) =
       snd (Register (pe_ledger e) intent (if granted e intent n then StatusAuthorizedPending else StatusRejected)
             (fst (snd ?ev)) (RiskScore (pe_evaluator e) (mi_ProcessName intent) n)
             (tl_cooldownSecs (pe_ledger e)) ?reason (ei_tr x) (ei_buf x))"
    by (auto simp: policy_commit_def granted_def CooldownSeconds_def policy_emitEvent_def Let_def case_prod_unfold)
  moreover have "?reason = '''' \<longleftrightarrow> granted e intent n"
    using Evaluate_rejection [of "pe_evaluator e" intent] by (simp add: granted_def)
  ultimately show thesis by (rule that)
qed

lemma policy_commit_record:
  "\<exists>rec. tl_records (pe_ledger (snd (policy_commit e intent n x))) =
       (tl_records (pe_ledger e))(generateTxID (ei_buf x) \<mapsto> rec) \<and>
     mr_TransactionID rec = generateTxID (ei_buf x) \<and>
     mr_TargetPID rec = mi_TargetPID intent \<and> mr_ProcessName rec = mi_ProcessName intent \<and>
     mr_ContainerID rec = mi_ContainerID intent \<and> mr_ActionType rec = mi_ActionType intent \<and>
     mr_Timestamp rec = ei_tr x \<and>
     mr_Expiry rec = to_i64 (ei_tr x + to_i64 (tl_cooldownSecs (pe_ledger e) * second_ns)) \<and>
     mr_Status rec = (if granted e intent n then StatusAuthorizedPending else StatusRejected) \<and>
     (mr_RejectionReason rec = '''' \<longleftrightarrow> granted e intent n)"
proof -
  obtain rules risk reason where
    "pe_ledger (snd (policy_commit e intent n x)) =
       snd (Register (pe_ledger e) intent (if granted e intent n then StatusAuthorizedPending else StatusRejected)
             rules risk (tl_cooldownSecs (pe_ledger e)) reason (ei_tr x) (ei_buf x))"
    "reason = '''' \<longleftrightarrow> granted e intent n"
    by (rule policy_commit_ledger)
  then show ?thesis
    by (intro exI [of _ "fst (Register (pe_ledger e) intent (if granted e intent n then StatusAuthorizedPending else StatusRejected)
             rules risk (tl_cooldownSecs (pe_ledger e)) reason (ei_tr x) (ei_buf x))"])
      (simp add: Register_def Let_def)
qed

lemma ledger_inv_policy_commit [inv_intros]:
  assumes "ledger_inv (pe_ledger e)" and "generateTxID (ei_buf x) \<notin> dom (tl_records (pe_ledger e))"
  shows "ledger_inv (pe_ledger (snd (policy_commit e intent n x)))"
proof -
  obtain rules risk reason where
    "pe_ledger (snd (policy_commit e intent n x)) =
       snd (Register (pe_ledger e) intent (if granted e intent n then StatusAuthorizedPending else StatusRejected)
             rules risk (tl_cooldownSecs (pe_ledger e)) reason (ei_tr x) (ei_buf x))"
    by (rule policy_commit_ledger)
  then show ?thesis using ledger_inv_Register [OF assms] by simp
qed

text \<open>The same of the count and what follows it together.\<close>

lemma EvaluateAndRegister_decision: "fst (fst (EvaluateAndRegister e intent x)) = decision e intent x"
  by (simp add: EvaluateAndRegister_def decision_granted policy_commit_answer)

lemma EvaluateAndRegister_txID: "fst (snd (fst (EvaluateAndRegister e intent x))) = generateTxID (ei_buf x)"
  by (simp add: EvaluateAndRegister_def policy_commit_answer)

lemma EvaluateAndRegister_event_id:
  "pv_LedgerTransactionID (snd (snd (fst (EvaluateAndRegister e intent x)))) = generateTxID (ei_buf x)"
  by (simp add: EvaluateAndRegister_def policy_commit_answer)

lemma EvaluateAndRegister_frame [simp]:
  "pe_evaluator (snd (EvaluateAndRegister e intent x)) = pe_evaluator e"
  "pe_cfg (snd (EvaluateAndRegister e intent x)) = pe_cfg e"
  by (simp_all add: EvaluateAndRegister_def)

lemma EvaluateAndRegister_record:
  "\<exists>rec. tl_records (pe_ledger (snd (EvaluateAndRegister e intent x))) =
       (tl_records (pe_ledger e))(generateTxID (ei_buf x) \<mapsto> rec) \<and>
     mr_TransactionID rec = generateTxID (ei_buf x) \<and>
     mr_TargetPID rec = mi_TargetPID intent \<and> mr_ProcessName rec = mi_ProcessName intent \<and>
     mr_ContainerID rec = mi_ContainerID intent \<and> mr_ActionType rec = mi_ActionType intent \<and>
     mr_Timestamp rec = ei_tr x \<and>
     mr_Expiry rec = to_i64 (ei_tr x + to_i64 (tl_cooldownSecs (pe_ledger e) * second_ns)) \<and>
     mr_Status rec = (if decision e intent x then StatusAuthorizedPending else StatusRejected) \<and>
     (mr_RejectionReason rec = '''' \<longleftrightarrow> decision e intent x)"
  unfolding EvaluateAndRegister_def decision_granted by (rule policy_commit_record)

lemma ledger_inv_EvaluateAndRegister [inv_intros]:
  "ledger_inv (pe_ledger e) \<Longrightarrow> generateTxID (ei_buf x) \<notin> dom (tl_records (pe_ledger e)) \<Longrightarrow>
   ledger_inv (pe_ledger (snd (EvaluateAndRegister e intent x)))"
  unfolding EvaluateAndRegister_def by (rule ledger_inv_policy_commit)

section \<open>The gate the enforcement components rely on\<close>

locale action_gate =
  fixes gate :: "'p \<Rightarrow> 'i \<Rightarrow> 'x \<Rightarrow> (bool \<times> 'tx \<times> 'ev) \<times> 'p"
    and confirm :: "'p \<Rightarrow> 'tx \<Rightarrow> 'p"
    and refuse :: "'p \<Rightarrow> 'tx \<Rightarrow> 'r \<Rightarrow> 'p"
    and status :: "'p \<Rightarrow> 'tx \<Rightarrow> MitigationStatus option"
    and permitted :: "'p \<Rightarrow> 'i \<Rightarrow> bool"
  assumes gate_status: "status (snd (gate p i x)) (fst (snd (fst (gate p i x)))) =
      Some (if fst (fst (gate p i x)) then StatusAuthorizedPending else StatusRejected)"
    and gate_permitted: "fst (fst (gate p i x)) \<Longrightarrow> permitted p i"
    and confirm_status: "status p tx = Some st \<Longrightarrow> status (confirm p tx) tx = Some StatusExecuted"
    and refuse_status: "status p tx = Some st \<Longrightarrow> status (refuse p tx r) tx = Some StatusRejected"
begin

text \<open>Confirming or refusing an action according to its outcome, as the enforcers do.\<close>

definition settle :: "'p \<Rightarrow> 'tx \<Rightarrow> 'r option \<Rightarrow> 'p" where
  "settle p tx err = (case err of None \<Rightarrow> confirm p tx | Some r \<Rightarrow> refuse p tx r)"

lemma settle_status:
  assumes "gate p i x = ((a, tx, ev), p')"
  shows "status (settle p' tx err) tx =
    Some (case err of None \<Rightarrow> StatusExecuted | Some _ \<Rightarrow> StatusRejected)"
proof -
  have "\<exists>st. status p' tx = Some st"
    using gate_status [of p i x] assms by simp
  then show ?thesis
    by (auto simp: settle_def confirm_status refuse_status split: option.splits)
qed

lemma refused_status:
  assumes "gate p i x = ((False, tx, ev), p')"
  shows "status p' tx = Some StatusRejected"
  using gate_status [of p i x] assms by simp

lemma unpermitted_refused:
  assumes "\<not> permitted p i"
  shows "\<not> fst (fst (gate p i x))"
  using gate_permitted [of p i x] assms by blast

end

definition policy_status :: "PolicyEngine \<Rightarrow> gostring \<Rightarrow> MitigationStatus option" where
  "policy_status e tx = map_option mr_Status (tl_records (pe_ledger e) tx)"

definition policy_permitted :: "PolicyEngine \<Rightarrow> MitigationIntent \<Rightarrow> bool" where
  "policy_permitted e intent = (\<not> protected_target (pe_evaluator e) intent)"

interpretation policy_gate: action_gate EvaluateAndRegister ConfirmExecution Reject policy_status policy_permitted
proof unfold_locales
  fix e intent x
  show "policy_status (snd (EvaluateAndRegister e intent x)) (fst (snd (fst (EvaluateAndRegister e intent x)))) =
      Some (if fst (fst (EvaluateAndRegister e intent x)) then StatusAuthorizedPending else StatusRejected)"
    using EvaluateAndRegister_record [of e intent x]
    by (auto simp: policy_status_def EvaluateAndRegister_txID EvaluateAndRegister_decision)
  show "policy_permitted e intent" if "fst (fst (EvaluateAndRegister e intent x))"
    using that by (simp add: EvaluateAndRegister_decision decision_def Evaluate_authorized policy_permitted_def)
qed (auto simp: policy_status_def ConfirmExecution_def Reject_def UpdateStatus_lookup)

end
