(* ===== verification/Chopper.thy ===== *)
theory Chopper
  imports GoJson "HOL-Library.Signed_Division"
begin

text \<open>
  The history chopper of \<open>src/internal/proxy/router/chopper.go\<close>: a long conversation is cut to
  its system message, a line that says what was dropped, and the most recent messages.
\<close>

section \<open>Requests\<close>

record openAIMessage =
  om_Role :: gostring
  om_Content :: gostring

record openAIRequest =
  or_Model :: gostring
  or_Stream :: bool
  or_Messages :: "openAIMessage list"

text \<open>
  A request from the pool: what earlier requests left in its fields, and what they left in the
  backing array of its message slice.
\<close>

record pooled_request =
  pq_request :: openAIRequest
  pq_backing :: "nat \<Rightarrow> openAIMessage"

definition zero_message :: openAIMessage where
  "zero_message = \<lparr>om_Role = '''', om_Content = ''''\<rparr>"

definition fresh_request :: pooled_request where
  "fresh_request = \<lparr>pq_request = \<lparr>or_Model = '''', or_Stream = False, or_Messages = []\<rparr>, pq_backing = (\<lambda>_. zero_message)\<rparr>"

definition message_fields :: "gostring list" where
  "message_fields = [''role'', ''content'']"

definition update_message :: "gostring \<Rightarrow> openAIMessage decoder" where
  "update_message f old j =
     (if f = ''role'' then (let (v, ok) = decode_string (om_Role old) j in (old\<lparr>om_Role := v\<rparr>, ok))
      else (let (v, ok) = decode_string (om_Content old) j in (old\<lparr>om_Content := v\<rparr>, ok)))"

definition decode_message :: "openAIMessage decoder" where
  "decode_message = decode_struct message_fields update_message"

definition request_fields :: "gostring list" where
  "request_fields = [''model'', ''stream'', ''messages'']"

definition decode_messages :: "(nat \<Rightarrow> openAIMessage) \<Rightarrow> openAIMessage list decoder" where
  "decode_messages backing old j =
     (case j of
        JArr js \<Rightarrow> decode_elems decode_message backing 0 js
      | JNull \<Rightarrow> ([], True)
      | _ \<Rightarrow> (old, False))"

definition update_request :: "(nat \<Rightarrow> openAIMessage) \<Rightarrow> gostring \<Rightarrow> openAIRequest decoder" where
  "update_request backing f old j =
     (if f = ''model'' then (let (v, ok) = decode_string (or_Model old) j in (old\<lparr>or_Model := v\<rparr>, ok))
      else if f = ''stream'' then (let (v, ok) = decode_bool (or_Stream old) j in (old\<lparr>or_Stream := v\<rparr>, ok))
      else (let (v, ok) = decode_messages backing (or_Messages old) j in (old\<lparr>or_Messages := v\<rparr>, ok)))"

definition decode_request :: "pooled_request \<Rightarrow> json \<Rightarrow> openAIRequest \<times> bool" where
  "decode_request pool j = decode_struct request_fields (update_request (pq_backing pool)) (pq_request pool) j"

definition encode_message :: "openAIMessage \<Rightarrow> json" where
  "encode_message m = JObj [(''role'', JStr (om_Role m)), (''content'', JStr (om_Content m))]"

definition encode_request :: "openAIRequest \<Rightarrow> json" where
  "encode_request req =
     JObj [(''model'', JStr (or_Model req)), (''stream'', JBool (or_Stream req)),
           (''messages'', JArr (map encode_message (or_Messages req)))]"

section \<open>Numbers in the summary line\<close>

function digits_rev :: "int \<Rightarrow> gostring" where
  "digits_rev n = (if n > 0 then char_of (48 + nat (n mod 10)) # digits_rev (n div 10) else [])"
  by pat_completeness auto
termination
  by (relation "measure nat") auto

declare digits_rev.simps [simp del]

definition itoa :: "int \<Rightarrow> gostring" where
  "itoa n =
     (if n = 0 then ''0''
      else
        (let neg = n < 0;
             n = (if neg then to_i64 (- n) else n);
             buf = digits_rev n;
             buf = (if neg then buf @ ''-'' else buf)
         in rev buf))"

definition summaryLine :: "int \<Rightarrow> int \<Rightarrow> int \<Rightarrow> gostring" where
  "summaryLine dropped droppedChars divisor =
     (let estTokens = droppedChars sdiv divisor
      in ''[... truncated '' @ itoa dropped @ '' historical messages (~'' @ itoa estTokens @ '' tokens) ...]'')"

section \<open>Chopping\<close>

definition content_length :: "openAIMessage list \<Rightarrow> int" where
  "content_length msgs = fold (\<lambda>msg total. total + int (length (om_Content msg))) msgs 0"

definition system_index :: "openAIMessage list \<Rightarrow> int" where
  "system_index msgs =
     (let k = length (takeWhile (\<lambda>m. om_Role m \<noteq> ''system'') msgs)
      in if k < length msgs then int k else - 1)"

definition summary_message :: "int \<Rightarrow> int \<Rightarrow> int \<Rightarrow> openAIMessage" where
  "summary_message dropped originalLen divisor =
     \<lparr>om_Role = ''system'', om_Content = summaryLine dropped originalLen divisor\<rparr>"

text \<open>The messages that are kept; the subtractions cannot overflow for a slice in memory.\<close>

definition chop_kept :: "int \<Rightarrow> int \<Rightarrow> openAIMessage list \<Rightarrow> openAIMessage list" where
  "chop_kept keepRecent divisor msgs =
     (let n = int (length msgs);
          originalLen = content_length msgs;
          systemIdx = system_index msgs
      in if systemIdx \<ge> 0 then
           (let dropped = n - keepRecent;
                dropped = (if systemIdx < n - keepRecent then n - keepRecent - 1 else dropped);
                dropped = (if dropped < 0 then 0 else dropped);
                tailStart = n - keepRecent;
                tailStart = (if tailStart \<le> systemIdx then systemIdx + 1 else tailStart);
                kept = msgs ! nat systemIdx # drop (nat tailStart) msgs
            in if dropped > 0
               then hd kept # summary_message dropped originalLen divisor # tl kept
               else kept)
         else
           (let start = n - keepRecent;
                start = (if start < 0 then 0 else start);
                kept = drop (nat start) msgs;
                dropped = n - keepRecent
            in if dropped > 0 then summary_message dropped originalLen divisor # kept else kept))"

definition ChopMessages ::
  "(bytes \<Rightarrow> json option) \<Rightarrow> (json \<Rightarrow> bytes) \<Rightarrow> pooled_request \<Rightarrow> bytes \<Rightarrow> int \<Rightarrow> int \<Rightarrow> int \<Rightarrow> bytes \<times> int" where
  "ChopMessages parse print pool body maxMessages keepRecent divisor =
     (let maxMessages = (if maxMessages \<le> 0 then 20 else maxMessages);
          keepRecent = (if keepRecent \<le> 0 then 10 else keepRecent);
          divisor = (if divisor \<le> 0 then 4 else divisor)
      in case parse body of
           None \<Rightarrow> (body, 0)
         | Some j \<Rightarrow>
             (let (req, ok) = decode_request pool j
              in if \<not> ok then (body, 0)
                 else if int (length (or_Messages req)) \<le> maxMessages then (body, 0)
                 else
                   (let originalLen = content_length (or_Messages req);
                        kept = chop_kept keepRecent divisor (or_Messages req);
                        modified = print (encode_request (req\<lparr>or_Messages := kept\<rparr>));
                        newLen = content_length kept;
                        tokensSaved = (originalLen - newLen) sdiv divisor
                    in (modified, if tokensSaved < 0 then 0 else tokensSaved))))"

section \<open>Numbers\<close>

lemma digits_rev_dec: "0 < n \<Longrightarrow> rev (digits_rev n) = dec_digits (nat n)"
proof (induction n rule: digits_rev.induct)
  case (1 n)
  show ?case
  proof (cases "n < 10")
    case True
    then have "n div 10 = 0" "n mod 10 = n" using 1(2) by auto
    then show ?thesis
      using 1(2) True by (simp add: digits_rev.simps [of n] digits_rev.simps [of 0] dec_digits.simps [of "nat n"])
  next
    case False
    have "nat (n div 10) = nat n div 10" "nat (n mod 10) = nat n mod 10"
      using 1(2) by (simp_all add: nat_div_distrib nat_mod_distrib)
    moreover have "rev (digits_rev (n div 10)) = dec_digits (nat (n div 10))"
      using 1 False by (intro 1(1)) auto
    ultimately show ?thesis
      using 1(2) False by (simp add: digits_rev.simps [of n] dec_digits.simps [of "nat n"])
  qed
qed

lemma itoa_format_int:
  assumes "in_i64 n" "n \<noteq> - (2 ^ 63)"
  shows "itoa n = format_int n"
proof -
  have neg: "to_i64 (- n) = - n" using assms by (intro to_i64_id) (auto simp: in_i64_def)
  have zero: "CHR ''0'' = char_of (48 :: nat)" by code_simp
  show ?thesis
    using digits_rev_dec [of n] digits_rev_dec [of "- n"] neg
    by (auto simp: itoa_def format_int_def Let_def dec_digits.simps [of 0] zero)
qed

section \<open>What is kept\<close>

lemma system_index_found:
  assumes "system_index msgs \<ge> 0"
  shows "nat (system_index msgs) < length msgs" "om_Role (msgs ! nat (system_index msgs)) = ''system''"
    and "\<And>i. i < nat (system_index msgs) \<Longrightarrow> om_Role (msgs ! i) \<noteq> ''system''"
proof -
  let ?k = "length (takeWhile (\<lambda>m. om_Role m \<noteq> ''system'') msgs)"
  have k: "?k < length msgs" "nat (system_index msgs) = ?k"
    using assms by (auto simp: system_index_def Let_def split: if_splits)
  then show "nat (system_index msgs) < length msgs" by simp
  show "om_Role (msgs ! nat (system_index msgs)) = ''system''"
    using nth_length_takeWhile [OF k(1)] unfolding k(2) by simp
  show "om_Role (msgs ! i) \<noteq> ''system''" if "i < nat (system_index msgs)" for i
    using that set_takeWhileD [of "msgs ! i" "\<lambda>m. om_Role m \<noteq> ''system''" msgs] unfolding k(2)
    by (metis nth_mem takeWhile_nth)
qed

lemma system_index_less: "system_index msgs < int (length msgs)"
  by (simp add: system_index_def Let_def)

text \<open>The original messages that survive, in order, and where the summary goes.\<close>

definition chop_tail :: "int \<Rightarrow> openAIMessage list \<Rightarrow> openAIMessage list" where
  "chop_tail keepRecent msgs =
     drop (nat (if int (length msgs) - keepRecent \<le> system_index msgs then system_index msgs + 1
                else int (length msgs) - keepRecent)) msgs"

lemma chop_kept_system:
  assumes "system_index msgs \<ge> 0"
  shows "\<exists>summary. chop_kept keepRecent divisor msgs = msgs ! nat (system_index msgs) # summary @ chop_tail keepRecent msgs \<and>
    length summary \<le> 1 \<and> (summary = [] \<longleftrightarrow>
      int (length msgs) - keepRecent \<le> (if system_index msgs < int (length msgs) - keepRecent then 1 else 0))"
  using assms by (auto simp: chop_kept_def Let_def chop_tail_def)

lemma chop_kept_plain:
  assumes "system_index msgs < 0"
  shows "\<exists>summary. chop_kept keepRecent divisor msgs = summary @ chop_tail keepRecent msgs \<and> length summary \<le> 1 \<and>
    (summary = [] \<longleftrightarrow> int (length msgs) \<le> keepRecent)"
proof -
  have "system_index msgs = - 1" using assms by (auto simp: system_index_def Let_def split: if_splits)
  then show ?thesis by (auto simp: chop_kept_def Let_def chop_tail_def)
qed

lemma chop_tail_length:
  assumes "0 \<le> keepRecent"
  shows "int (length (chop_tail keepRecent msgs)) \<le> keepRecent"
  using assms by (auto simp: chop_tail_def)

lemma content_length_sum: "content_length msgs = int (sum_list (map (\<lambda>m. length (om_Content m)) msgs))"
proof -
  have "fold (\<lambda>msg total. total + int (length (om_Content msg))) msgs t =
      t + int (sum_list (map (\<lambda>m. length (om_Content m)) msgs))" for t
    by (induction msgs arbitrary: t) simp_all
  then show ?thesis by (simp add: content_length_def)
qed

section \<open>Properties\<close>

text \<open>
  The numbers in the summary line are the decimal numerals of the counts, for every 64-bit
  integer but the smallest.
\<close>

lemma itoa_decimal:
  assumes "in_i64 n" "n \<noteq> - (2 ^ 63)"
  shows "itoa n = format_int n"
  by (rule itoa_format_int [OF assms])

text \<open>
  A conversation without a system message that is longer than the limit is chopped to one
  summary line followed by exactly the most recent messages; one whose system message stands
  before the recent ones keeps that message first, then a summary line if anything else was
  dropped, then exactly the most recent messages. In every case at most two messages more than
  \<open>keepRecent\<close> remain.
\<close>

lemma chop_keeps_recent:
  assumes "0 < keepRecent" "keepRecent < int (length msgs)"
  shows "(system_index msgs < 0 \<longrightarrow>
      (\<exists>summary. chop_kept keepRecent divisor msgs = summary # newest_n (nat keepRecent) msgs)) \<and>
    (0 \<le> system_index msgs \<and> system_index msgs < int (length msgs) - keepRecent \<longrightarrow>
      (\<exists>summary. chop_kept keepRecent divisor msgs =
         msgs ! nat (system_index msgs) # summary @ newest_n (nat keepRecent) msgs \<and>
         (summary = [] \<longleftrightarrow> int (length msgs) = keepRecent + 1))) \<and>
    int (length (chop_kept keepRecent divisor msgs)) \<le> keepRecent + 2"
proof -
  have tail: "chop_tail keepRecent msgs = newest_n (nat keepRecent) msgs"
    if "system_index msgs < int (length msgs) - keepRecent"
    using that assms by (simp add: chop_tail_def newest_n_def max_def nat_diff_distrib)
  have one: "length xs \<le> 1 \<Longrightarrow> xs \<noteq> [] \<Longrightarrow> \<exists>x. xs = [x]" for xs :: "openAIMessage list"
    by (cases xs) auto
  have len: "int (length (chop_tail keepRecent msgs)) \<le> keepRecent" using assms chop_tail_length by simp
  have plain: "\<exists>summary. chop_kept keepRecent divisor msgs = summary # newest_n (nat keepRecent) msgs"
    if "system_index msgs < 0"
    using chop_kept_plain [OF that, of keepRecent divisor] one assms tail that by fastforce
  have sys: "\<exists>summary. chop_kept keepRecent divisor msgs = msgs ! nat (system_index msgs) # summary @ newest_n (nat keepRecent) msgs \<and>
         (summary = [] \<longleftrightarrow> int (length msgs) = keepRecent + 1)"
    if "0 \<le> system_index msgs" "system_index msgs < int (length msgs) - keepRecent"
    using chop_kept_system [OF that(1), of keepRecent divisor] tail [OF that(2)] that(2) assms by auto
  have "int (length (chop_kept keepRecent divisor msgs)) \<le> keepRecent + 2"
  proof (cases "system_index msgs < 0")
    case True
    then show ?thesis using chop_kept_plain [OF True, of keepRecent divisor] len by auto
  next
    case False
    then have "0 \<le> system_index msgs" by simp
    then show ?thesis using chop_kept_system [of msgs keepRecent divisor] len by auto
  qed
  with plain sys show ?thesis by blast
qed

definition turns :: "nat \<Rightarrow> openAIMessage list" where
  "turns n = replicate n \<lparr>om_Role = ''user'', om_Content = ''hi''\<rparr>"

lemma system_index_turns: "system_index (turns n) = - 1"
  by (simp add: system_index_def turns_def)

text \<open>
  When the first system message stands among the most recent messages, every message
  before it is dropped, the recent ones too: nothing but the system message, what follows it
  and the summary line remains, so a conversation that ends with its system message loses
  every turn.
\<close>

lemma chop_drops_recent_before_system:
  assumes "0 \<le> system_index msgs" "int (length msgs) - keepRecent \<le> system_index msgs"
  shows "\<exists>summary. chop_kept keepRecent divisor msgs =
    msgs ! nat (system_index msgs) # summary @ drop (Suc (nat (system_index msgs))) msgs \<and> length summary \<le> 1"
proof -
  have "chop_tail keepRecent msgs = drop (Suc (nat (system_index msgs))) msgs"
    using assms by (simp add: chop_tail_def Suc_nat_eq_nat_zadd1 add.commute)
  then show ?thesis using chop_kept_system [OF assms(1), of keepRecent divisor] by auto
qed

end
