(* ===== verification/Router.thy ===== *)
theory Router
  imports Policy_Engine Chopper GoHttp
begin

text \<open>
  The router of \<open>src/internal/proxy/router\<close>: the registry of processes whose API traffic is
  being treated (\<open>registry.go\<close>), the rewriting of requests and responses for the fallback
  endpoint (\<open>fallback.go\<close>), and the handlers of alerts, requests and responses (\<open>router.go\<close>).
  Parsing and printing JSON text, parsing a URL and the passage of a number through a float64
  are arguments. A panic is \<open>None\<close>.
\<close>

section \<open>Types\<close>

datatype RemedyType = RemedyNone | RemedyTokenChop | RemedyFallbackRoute | RemedyBoth

fun remedy_string :: "RemedyType \<Rightarrow> gostring" where
  "remedy_string RemedyNone = ''NONE''"
| "remedy_string RemedyTokenChop = ''TOKEN_CHOP''"
| "remedy_string RemedyFallbackRoute = ''DYNAMIC_FALLBACK_ROUTING''"
| "remedy_string RemedyBoth = ''BOTH''"

datatype HandshakeStatus =
    HandshakeRoutedAndVerified | HandshakeChoppedOnly | HandshakeNoAction | HandshakeFailed

record MitigationState =
  rm_PID :: int
  rm_Remedy :: RemedyType
  rm_OriginalModel :: gostring
  rm_FallbackModel :: gostring
  rm_ActivatedAt :: int
  rm_LastAlertAt :: int
  rm_CoolingUntil :: int
  rm_TokensSaved :: int
  rm_RequestsProcessed :: int
  rm_Active :: bool

record InterceptedProcess =
  ip_PID :: int
  ip_OriginalTargetModel :: gostring

record RemedyDetails =
  rd_ReroutedToLocalEndpoint :: gostring
  rd_SubstitutedModelString :: gostring
  rd_TokensSavedByChopper :: int

record AppliedRemedy =
  ar_Type :: gostring
  ar_Details :: RemedyDetails

record ExecutionTelemetry =
  et_ProcessingOverheadMs :: real
  et_RoutingHandshakeStatus :: HandshakeStatus

record RouterEvent =
  ro_MitigationTimestamp :: int
  ro_InterceptedProcess :: InterceptedProcess
  ro_AppliedRemedy :: AppliedRemedy
  ro_ExecutionTelemetry :: ExecutionTelemetry

record AlertTrigger =
  at_PID :: int
  at_AnomalyType :: gostring

record RouterConfig =
  xc_Enabled :: bool
  xc_MaxMessagesBeforeChop :: int
  xc_KeepRecentMessages :: int
  xc_FallbackEndpoint :: gostring
  xc_FallbackModel :: gostring
  xc_FallbackAuthToken :: gostring
  xc_CoolingOffDuration :: duration
  xc_BufferSize :: int
  xc_TokenEstimateDivisor :: int

definition RouterDefaultConfig :: RouterConfig where
  "RouterDefaultConfig = \<lparr>
     xc_Enabled = False,
     xc_MaxMessagesBeforeChop = 20,
     xc_KeepRecentMessages = 10,
     xc_FallbackEndpoint = ''http://127.0.0.1:8000/v1/chat/completions'',
     xc_FallbackModel = ''meta-llama/Llama-3-8b-Instruct'',
     xc_FallbackAuthToken = '''',
     xc_CoolingOffDuration = 60 * second_ns,
     xc_BufferSize = 64,
     xc_TokenEstimateDivisor = 4\<rparr>"

section \<open>The registry\<close>

record Registry =
  rg_entries :: "int \<rightharpoonup> MitigationState"
  rg_coolingOffDur :: duration

definition NewRegistry :: "duration \<Rightarrow> Registry" where
  "NewRegistry coolingOff = \<lparr>rg_entries = Map.empty, rg_coolingOffDur = coolingOff\<rparr>"

definition put_entry :: "Registry \<Rightarrow> int \<Rightarrow> MitigationState \<Rightarrow> Registry" where
  "put_entry r pid state = r\<lparr>rg_entries := (rg_entries r)(pid \<mapsto> state)\<rparr>"

definition cool_until :: "Registry \<Rightarrow> time_ns \<Rightarrow> int" where
  "cool_until r now = to_i64 (now + rg_coolingOffDur r)"

definition Activate :: "Registry \<Rightarrow> int \<Rightarrow> RemedyType \<Rightarrow> gostring \<Rightarrow> time_ns \<Rightarrow> Registry" where
  "Activate r pid remedy model now =
     (case rg_entries r pid of
        Some state \<Rightarrow>
          put_entry r pid (state\<lparr>
            rm_Remedy := remedy, rm_LastAlertAt := now, rm_CoolingUntil := cool_until r now, rm_Active := True,
            rm_FallbackModel := (if rm_FallbackModel state = '''' then model else rm_FallbackModel state)\<rparr>)
      | None \<Rightarrow>
          put_entry r pid \<lparr>
            rm_PID = pid, rm_Remedy = remedy, rm_OriginalModel = model, rm_FallbackModel = model,
            rm_ActivatedAt = now, rm_LastAlertAt = now, rm_CoolingUntil = cool_until r now,
            rm_TokensSaved = 0, rm_RequestsProcessed = 0, rm_Active = True\<rparr>)"

definition Deactivate :: "Registry \<Rightarrow> int \<Rightarrow> Registry" where
  "Deactivate r pid = r\<lparr>rg_entries := (rg_entries r)(pid := None)\<rparr>"

definition Lookup :: "Registry \<Rightarrow> int \<Rightarrow> time_ns \<Rightarrow> MitigationState option \<times> Registry" where
  "Lookup r pid now =
     (case rg_entries r pid of
        None \<Rightarrow> (None, r)
      | Some state \<Rightarrow>
          (if \<not> rm_Active state then (None, r)
           else if now > rm_CoolingUntil state then (None, put_entry r pid (state\<lparr>rm_Active := False\<rparr>))
           else (Some state, r)))"

definition RefreshAlert :: "Registry \<Rightarrow> int \<Rightarrow> time_ns \<Rightarrow> Registry" where
  "RefreshAlert r pid now =
     (case rg_entries r pid of
        None \<Rightarrow> r
      | Some state \<Rightarrow>
          put_entry r pid (state\<lparr>rm_LastAlertAt := now, rm_CoolingUntil := cool_until r now, rm_Active := True\<rparr>))"

definition RecordTokensSaved :: "Registry \<Rightarrow> int \<Rightarrow> int \<Rightarrow> Registry" where
  "RecordTokensSaved r pid cnt =
     (case rg_entries r pid of
        None \<Rightarrow> r
      | Some state \<Rightarrow>
          put_entry r pid (state\<lparr>rm_TokensSaved := to_i64 (rm_TokensSaved state + cnt),
            rm_RequestsProcessed := to_i64 (rm_RequestsProcessed state + 1)\<rparr>))"

type_synonym state_order = "(int \<rightharpoonup> MitigationState) \<Rightarrow> int list"

definition live_state :: "time_ns \<Rightarrow> MitigationState \<Rightarrow> bool" where
  "live_state now state \<longleftrightarrow> rm_Active state \<and> now \<le> rm_CoolingUntil state"

definition router_ActiveCount :: "state_order \<Rightarrow> Registry \<Rightarrow> time_ns \<Rightarrow> int \<times> int" where
  "router_ActiveCount ord r now =
     fold (\<lambda>state (chopCount, fallbackCount).
         if \<not> live_state now state then (chopCount, fallbackCount)
         else
           (if rm_Remedy state = RemedyTokenChop \<or> rm_Remedy state = RemedyBoth then chopCount + 1 else chopCount,
            if rm_Remedy state = RemedyFallbackRoute \<or> rm_Remedy state = RemedyBoth then fallbackCount + 1
            else fallbackCount))
       (range_values ord (rg_entries r)) (0, 0)"

definition TotalTokensSaved :: "state_order \<Rightarrow> Registry \<Rightarrow> int" where
  "TotalTokensSaved ord r = fold (\<lambda>state total. to_i64 (total + rm_TokensSaved state)) (range_values ord (rg_entries r)) 0"

definition registry_Snapshot :: "state_order \<Rightarrow> Registry \<Rightarrow> time_ns \<Rightarrow> MitigationState list" where
  "registry_Snapshot ord r now = filter (live_state now) (range_values ord (rg_entries r))"

interpretation registry_store: keyed_store rg_entries put_entry Deactivate
  by unfold_locales (simp_all add: put_entry_def Deactivate_def)

section \<open>The fallback endpoint\<close>

record FallbackRouter =
  fr_endpoint :: gostring
  fr_model :: gostring
  fr_authToken :: gostring

definition NewFallbackRouter :: "gostring \<Rightarrow> gostring \<Rightarrow> gostring \<Rightarrow> FallbackRouter" where
  "NewFallbackRouter endpoint model authToken = \<lparr>fr_endpoint = endpoint, fr_model = model, fr_authToken = authToken\<rparr>"

definition fallback_Update :: "FallbackRouter \<Rightarrow> gostring \<Rightarrow> gostring \<Rightarrow> gostring \<Rightarrow> FallbackRouter" where
  "fallback_Update fr endpoint model authToken =
     (let fr = (if endpoint \<noteq> '''' then fr\<lparr>fr_endpoint := endpoint\<rparr> else fr);
          fr = (if model \<noteq> '''' then fr\<lparr>fr_model := model\<rparr> else fr)
      in (if authToken \<noteq> '''' then fr\<lparr>fr_authToken := authToken\<rparr> else fr))"

definition fallback_Config :: "FallbackRouter \<Rightarrow> gostring \<times> gostring \<times> gostring" where
  "fallback_Config fr = (fr_endpoint fr, fr_model fr, fr_authToken fr)"

text \<open>What the handlers read and write of an outgoing \<open>http.Request\<close>.\<close>

record HttpRequest =
  hr_URL :: gostring
  hr_Host :: gostring
  hr_Header :: http_header
  hr_ContentLength :: int

text \<open>The parameters: JSON text, numbers through a float64, and the host part of a URL.\<close>

record codec =
  cd_parse :: "bytes \<Rightarrow> json option"
  cd_print :: "json \<Rightarrow> bytes"
  cd_renumber :: "gostring \<Rightarrow> gostring option"
  cd_urlHost :: "gostring \<Rightarrow> gostring option"

text \<open>
  \<open>substituteModel\<close> sets a key of the decoded map. A body that is \<open>null\<close> decodes without an
  error into a nil map, and the assignment panics.
\<close>

definition substituteModel :: "codec \<Rightarrow> bytes \<Rightarrow> gostring \<Rightarrow> bytes option" where
  "substituteModel c body fallbackModel =
     (case cd_parse c body of
        None \<Rightarrow> Some body
      | Some JNull \<Rightarrow> None
      | Some (JObj kvs) \<Rightarrow>
          (case canon (cd_renumber c) (JObj kvs) of
             Some (JObj raw) \<Rightarrow> Some (cd_print c (JObj (set_key ''model'' (JStr fallbackModel) raw)))
           | _ \<Rightarrow> Some body)
      | Some _ \<Rightarrow> Some body)"

definition RewriteRequest :: "codec \<Rightarrow> FallbackRouter \<Rightarrow> HttpRequest \<Rightarrow> bytes \<Rightarrow> (bytes \<times> HttpRequest) option" where
  "RewriteRequest c fr proxyReq body =
     (case cd_urlHost c (fr_endpoint fr) of
        None \<Rightarrow> Some (body, proxyReq)
      | Some host \<Rightarrow>
          (let proxyReq = proxyReq\<lparr>hr_URL := fr_endpoint fr, hr_Host := host\<rparr>;
               proxyReq = (if fr_authToken fr \<noteq> ''''
                           then proxyReq\<lparr>hr_Header := header_Set (hr_Header proxyReq) ''Authorization'' (''Bearer '' @ fr_authToken fr)\<rparr>
                           else proxyReq)
           in case substituteModel c body (fr_model fr) of
                None \<Rightarrow> None
              | Some modifiedBody \<Rightarrow> Some (modifiedBody, proxyReq)))"

text \<open>The response structure of \<open>RewriteResponse\<close>.\<close>

record ResponseChoice =
  rc_Index :: int
  rc_Message :: json
  rc_FinishReason :: gostring

record ResponseUsage =
  ru_PromptTokens :: int
  ru_CompletionTokens :: int
  ru_TotalTokens :: int

record OpenAIResponse =
  rp_ID :: gostring
  rp_Object :: gostring
  rp_Created :: int
  rp_Model :: gostring
  rp_Choices :: "ResponseChoice list option"
  rp_Usage :: "ResponseUsage option"

definition update_choice :: "gostring \<Rightarrow> ResponseChoice decoder" where
  "update_choice f old j =
     (if f = ''index'' then (let (v, ok) = decode_int (rc_Index old) j in (old\<lparr>rc_Index := v\<rparr>, ok))
      else if f = ''message'' then (old\<lparr>rc_Message := j\<rparr>, True)
      else (let (v, ok) = decode_string (rc_FinishReason old) j in (old\<lparr>rc_FinishReason := v\<rparr>, ok)))"

definition update_usage :: "gostring \<Rightarrow> ResponseUsage decoder" where
  "update_usage f old j =
     (if f = ''prompt_tokens'' then (let (v, ok) = decode_int (ru_PromptTokens old) j in (old\<lparr>ru_PromptTokens := v\<rparr>, ok))
      else if f = ''completion_tokens'' then
        (let (v, ok) = decode_int (ru_CompletionTokens old) j in (old\<lparr>ru_CompletionTokens := v\<rparr>, ok))
      else (let (v, ok) = decode_int (ru_TotalTokens old) j in (old\<lparr>ru_TotalTokens := v\<rparr>, ok)))"

definition decode_choices :: "ResponseChoice list option decoder" where
  "decode_choices old j =
     (case j of
        JArr js \<Rightarrow>
          (let (vs, ok) = decode_elems (decode_struct [''index'', ''message'', ''finish_reason''] update_choice)
             (\<lambda>_. \<lparr>rc_Index = 0, rc_Message = JNull, rc_FinishReason = ''''\<rparr>) 0 js in (Some vs, ok))
      | JNull \<Rightarrow> (None, True)
      | _ \<Rightarrow> (old, False))"

definition decode_usage :: "ResponseUsage option decoder" where
  "decode_usage old j =
     (case j of
        JNull \<Rightarrow> (None, True)
      | _ \<Rightarrow>
          (let u = (case old of None \<Rightarrow> \<lparr>ru_PromptTokens = 0, ru_CompletionTokens = 0, ru_TotalTokens = 0\<rparr> | Some u \<Rightarrow> u);
               (v, ok) = decode_struct [''prompt_tokens'', ''completion_tokens'', ''total_tokens''] update_usage u j
           in (Some v, ok)))"

definition update_response :: "gostring \<Rightarrow> OpenAIResponse decoder" where
  "update_response f old j =
     (if f = ''id'' then (let (v, ok) = decode_string (rp_ID old) j in (old\<lparr>rp_ID := v\<rparr>, ok))
      else if f = ''object'' then (let (v, ok) = decode_string (rp_Object old) j in (old\<lparr>rp_Object := v\<rparr>, ok))
      else if f = ''created'' then (let (v, ok) = decode_int (rp_Created old) j in (old\<lparr>rp_Created := v\<rparr>, ok))
      else if f = ''model'' then (let (v, ok) = decode_string (rp_Model old) j in (old\<lparr>rp_Model := v\<rparr>, ok))
      else if f = ''choices'' then (let (v, ok) = decode_choices (rp_Choices old) j in (old\<lparr>rp_Choices := v\<rparr>, ok))
      else (let (v, ok) = decode_usage (rp_Usage old) j in (old\<lparr>rp_Usage := v\<rparr>, ok)))"

definition decode_response :: "json \<Rightarrow> OpenAIResponse \<times> bool" where
  "decode_response j =
     decode_struct [''id'', ''object'', ''created'', ''model'', ''choices'', ''usage''] update_response
       \<lparr>rp_ID = '''', rp_Object = '''', rp_Created = 0, rp_Model = '''', rp_Choices = None, rp_Usage = None\<rparr> j"

definition json_int :: "int \<Rightarrow> json" where
  "json_int i = JNum (format_int i)"

definition encode_choice :: "ResponseChoice \<Rightarrow> json" where
  "encode_choice ch = JObj [(''index'', json_int (rc_Index ch)), (''message'', rc_Message ch),
     (''finish_reason'', JStr (rc_FinishReason ch))]"

definition encode_usage :: "ResponseUsage \<Rightarrow> json" where
  "encode_usage u = JObj [(''prompt_tokens'', json_int (ru_PromptTokens u)),
     (''completion_tokens'', json_int (ru_CompletionTokens u)), (''total_tokens'', json_int (ru_TotalTokens u))]"

definition encode_response :: "OpenAIResponse \<Rightarrow> json" where
  "encode_response r = JObj
     ([(''id'', JStr (rp_ID r)), (''object'', JStr (rp_Object r)), (''created'', json_int (rp_Created r)),
       (''model'', JStr (rp_Model r)),
       (''choices'', case rp_Choices r of None \<Rightarrow> JNull | Some cs \<Rightarrow> JArr (map encode_choice cs))] @
      (case rp_Usage r of None \<Rightarrow> [] | Some u \<Rightarrow> [(''usage'', encode_usage u)]))"

definition RewriteResponse :: "codec \<Rightarrow> bytes \<Rightarrow> gostring \<Rightarrow> bytes" where
  "RewriteResponse c originalBody originalModel =
     (case cd_parse c originalBody of
        None \<Rightarrow> originalBody
      | Some j \<Rightarrow>
          (let (openAIResp, ok) = decode_response j
           in if \<not> ok then originalBody
              else cd_print c (encode_response
                     (openAIResp\<lparr>rp_Model := originalModel, rp_Object := ''chat.completion''\<rparr>))))"

definition extractModel :: "codec \<Rightarrow> bytes \<Rightarrow> gostring" where
  "extractModel c body =
     (case cd_parse c body of
        None \<Rightarrow> ''''
      | Some j \<Rightarrow>
          (let (m, ok) = decode_struct [''model''] (\<lambda>_. decode_string) '''' j in if ok then m else ''''))"

definition ExtractFallbackModelName :: "codec \<Rightarrow> bytes \<Rightarrow> gostring \<Rightarrow> gostring" where
  "ExtractFallbackModelName c body originalModel =
     (let m = extractModel c body in if m = '''' then originalModel else m)"

definition responseIsOpenAICompatible :: "bytes \<Rightarrow> bool" where
  "responseIsOpenAICompatible body \<longleftrightarrow>
     Contains body (CHR 0x22 # ''choices'' @ [CHR 0x22]) \<and> Contains body (CHR 0x22 # ''message'' @ [CHR 0x22])"

section \<open>The router\<close>

record Router =
  rt_cfg :: RouterConfig
  rt_reg :: Registry
  rt_fr :: FallbackRouter
  rt_events :: "RouterEvent list"
  rt_console :: "RouterEvent list"

definition NewRouter :: "RouterConfig \<Rightarrow> Router" where
  "NewRouter cfg =
     (let cfg = (if xc_BufferSize cfg \<le> 0 then cfg\<lparr>xc_BufferSize := 64\<rparr> else cfg);
          cfg = (if xc_MaxMessagesBeforeChop cfg = 0 then cfg\<lparr>xc_MaxMessagesBeforeChop := 20\<rparr> else cfg);
          cfg = (if xc_KeepRecentMessages cfg \<le> 0 then cfg\<lparr>xc_KeepRecentMessages := 10\<rparr> else cfg);
          cfg = (if xc_TokenEstimateDivisor cfg \<le> 0 then cfg\<lparr>xc_TokenEstimateDivisor := 4\<rparr> else cfg)
      in \<lparr>rt_cfg = cfg, rt_reg = NewRegistry (xc_CoolingOffDuration cfg),
          rt_fr = NewFallbackRouter (xc_FallbackEndpoint cfg) (xc_FallbackModel cfg) (xc_FallbackAuthToken cfg),
          rt_events = [], rt_console = []\<rparr>)"

definition router_capacity :: "Router \<Rightarrow> nat" where
  "router_capacity r = nat (xc_BufferSize (rt_cfg r))"

definition router_publish :: "Router \<Rightarrow> RouterEvent \<Rightarrow> Router" where
  "router_publish r evt = r\<lparr>rt_events := try_send (router_capacity r) (rt_events r) evt\<rparr>"

definition router_emitEvent :: "Router \<Rightarrow> RouterEvent \<Rightarrow> Router" where
  "router_emitEvent r evt = (router_publish r evt)\<lparr>rt_console := rt_console r @ [evt]\<rparr>"

interpretation router_sink: event_sink router_publish rt_events router_capacity
  by unfold_locales (simp_all add: router_publish_def router_capacity_def)

definition remedyForAnomaly :: "gostring \<Rightarrow> RemedyType" where
  "remedyForAnomaly anomalyType =
     (if anomalyType = ''SEMANTIC_REPETITION_LOOP'' then RemedyTokenChop
      else if anomalyType = ''HOST_MEMORY_LEAK'' then RemedyFallbackRoute
      else if anomalyType = ''IDLE_GPU_HOG'' then RemedyFallbackRoute
      else RemedyTokenChop)"

definition router_intent :: "int \<Rightarrow> RemedyType \<Rightarrow> gostring \<Rightarrow> MitigationIntent" where
  "router_intent pid rm anomalyType = \<lparr>
     mi_TargetPID = pid,
     mi_ContainerID = '''',
     mi_ProcessName = '''',
     mi_ActionType = (if rm = RemedyFallbackRoute \<or> rm = RemedyBoth then ActionAPIRouteSwap else ActionTokenChop),
     mi_AnomalyType = anomalyType,
     mi_SourceModule = ''router'',
     mi_Metadata = Map.empty\<rparr>"

text \<open>Activation or refreshing, after the policy has agreed.\<close>

definition apply_remedy :: "Router \<Rightarrow> int \<Rightarrow> RemedyType \<Rightarrow> time_ns \<Rightarrow> time_ns \<Rightarrow> Router" where
  "apply_remedy r pid rm t_lookup t_update =
     (let (st, reg) = Lookup (rt_reg r) pid t_lookup
      in r\<lparr>rt_reg := (case st of None \<Rightarrow> Activate reg pid rm '''' t_update | Some _ \<Rightarrow> RefreshAlert reg pid t_update)\<rparr>)"

definition handleAlert ::
  "PolicyEngine option \<Rightarrow> Router \<Rightarrow> AlertTrigger \<Rightarrow> eval_inputs \<Rightarrow> time_ns \<Rightarrow> time_ns \<Rightarrow> PolicyEngine option \<times> Router" where
  "handleAlert pe r alert x t_lookup t_update =
     (let p = at_PID alert; rm = remedyForAnomaly (at_AnomalyType alert)
      in if rm = RemedyNone then (pe, r)
         else (case pe of
                 None \<Rightarrow> (None, apply_remedy r p rm t_lookup t_update)
               | Some e \<Rightarrow>
                   (let ((authorized, txID, polEvt), e) = EvaluateAndRegister e (router_intent p rm (at_AnomalyType alert)) x
                    in if \<not> authorized then (Some e, r)
                       else (Some (ConfirmExecution e txID), apply_remedy r p rm t_lookup t_update))))"

text \<open>The clock readings and the pooled request of one interception.\<close>

record intercept_inputs =
  ii_lookup :: time_ns
  ii_elapsed :: real
  ii_now :: int
  ii_pool :: pooled_request

definition chop_request :: "codec \<Rightarrow> Router \<Rightarrow> pooled_request \<Rightarrow> bytes \<Rightarrow> bytes \<times> int" where
  "chop_request c r pool body = ChopMessages (cd_parse c) (cd_print c) pool body
     (xc_MaxMessagesBeforeChop (rt_cfg r)) (xc_KeepRecentMessages (rt_cfg r)) (xc_TokenEstimateDivisor (rt_cfg r))"

definition count_tokens :: "Router \<Rightarrow> int \<Rightarrow> int \<Rightarrow> Router" where
  "count_tokens r pid tokensSaved =
     (if tokensSaved > 0 then r\<lparr>rt_reg := RecordTokensSaved (rt_reg r) pid tokensSaved\<rparr> else r)"

definition json_request :: "HttpRequest \<Rightarrow> bytes \<Rightarrow> HttpRequest" where
  "json_request req body =
     req\<lparr>hr_ContentLength := int (length body), hr_Header := header_Set (hr_Header req) ''Content-Type'' ''application/json''\<rparr>"

text \<open>The remedy itself: the new body and request, the tokens saved, the type and the handshake.\<close>

definition treat_request ::
  "codec \<Rightarrow> Router \<Rightarrow> MitigationState \<Rightarrow> pooled_request \<Rightarrow> bytes \<Rightarrow> HttpRequest \<Rightarrow> int \<Rightarrow>
   (bytes \<times> HttpRequest \<times> int \<times> gostring \<times> HandshakeStatus \<times> Router) option" where
  "treat_request c r state pool body proxyReq clientPID =
     (case rm_Remedy state of
        RemedyTokenChop \<Rightarrow>
          (let (modifiedBody, tokensSaved) = chop_request c r pool body
           in Some (modifiedBody, proxyReq, tokensSaved, remedy_string RemedyTokenChop, HandshakeChoppedOnly,
                    count_tokens r clientPID tokensSaved))
      | RemedyFallbackRoute \<Rightarrow>
          (case RewriteRequest c (rt_fr r) proxyReq body of
             None \<Rightarrow> None
           | Some (modifiedBody, proxyReq) \<Rightarrow>
               Some (modifiedBody, json_request proxyReq modifiedBody, 0, remedy_string RemedyFallbackRoute,
                     HandshakeRoutedAndVerified, r))
      | RemedyBoth \<Rightarrow>
          (let (choppedBody, tokensSaved) = chop_request c r pool body; r = count_tokens r clientPID tokensSaved
           in case RewriteRequest c (rt_fr r) proxyReq choppedBody of
                None \<Rightarrow> None
              | Some (modifiedBody, proxyReq) \<Rightarrow>
                  Some (modifiedBody, json_request proxyReq modifiedBody, tokensSaved, remedy_string RemedyBoth,
                        HandshakeRoutedAndVerified, r))
      | RemedyNone \<Rightarrow> Some (body, proxyReq, 0, '''', HandshakeNoAction, r))"

definition router_event ::
  "Router \<Rightarrow> intercept_inputs \<Rightarrow> int \<Rightarrow> gostring \<Rightarrow> RemedyType \<Rightarrow> gostring \<Rightarrow> int \<Rightarrow> HandshakeStatus \<Rightarrow> RouterEvent" where
  "router_event r x clientPID model remedy appliedType tokensSaved handshake = \<lparr>
     ro_MitigationTimestamp = ii_now x,
     ro_InterceptedProcess = \<lparr>ip_PID = clientPID, ip_OriginalTargetModel = model\<rparr>,
     ro_AppliedRemedy = \<lparr>
       ar_Type = appliedType,
       ar_Details = (let (ep, fbModel, _) = fallback_Config (rt_fr r); routed = remedy = RemedyFallbackRoute \<or> remedy = RemedyBoth
         in \<lparr>rd_ReroutedToLocalEndpoint = (if routed then ep else ''''),
             rd_SubstitutedModelString = (if routed then fbModel else ''''),
             rd_TokensSavedByChopper = tokensSaved\<rparr>)\<rparr>,
     ro_ExecutionTelemetry = \<lparr>et_ProcessingOverheadMs = ii_elapsed x, et_RoutingHandshakeStatus = handshake\<rparr>\<rparr>"

definition InterceptRequest ::
  "codec \<Rightarrow> Router \<Rightarrow> bytes \<Rightarrow> HttpRequest \<Rightarrow> int \<Rightarrow> gostring \<Rightarrow> intercept_inputs \<Rightarrow>
   ((bytes \<times> bool \<times> RouterEvent option) \<times> HttpRequest \<times> Router) option" where
  "InterceptRequest c r body proxyReq clientPID model x =
     (if clientPID \<le> 0 then Some ((body, False, None), proxyReq, r)
      else
        (let (st, reg) = Lookup (rt_reg r) clientPID (ii_lookup x); r = r\<lparr>rt_reg := reg\<rparr>
         in case st of
              None \<Rightarrow> Some ((body, False, None), proxyReq, r)
            | Some state \<Rightarrow>
                (case treat_request c r state (ii_pool x) body proxyReq clientPID of
                   None \<Rightarrow> None
                 | Some (modifiedBody, proxyReq, tokensSaved, appliedType, handshake, r) \<Rightarrow>
                     (let evt = router_event r x clientPID model (rm_Remedy state) appliedType tokensSaved handshake
                      in Some ((modifiedBody, True, Some evt),
                               proxyReq\<lparr>hr_ContentLength := int (length modifiedBody)\<rparr>, router_emitEvent r evt)))))"

definition RecordResponse ::
  "codec \<Rightarrow> Router \<Rightarrow> bytes \<Rightarrow> int \<Rightarrow> gostring \<Rightarrow> time_ns \<Rightarrow> (bytes \<times> bool) \<times> Router" where
  "RecordResponse c r body clientPID originalModel t_lookup =
     (if clientPID \<le> 0 then ((body, False), r)
      else
        (let (st, reg) = Lookup (rt_reg r) clientPID t_lookup; r = r\<lparr>rt_reg := reg\<rparr>
         in case st of
              None \<Rightarrow> ((body, False), r)
            | Some state \<Rightarrow>
                (if rm_Remedy state \<noteq> RemedyFallbackRoute \<and> rm_Remedy state \<noteq> RemedyBoth then ((body, False), r)
                 else if \<not> responseIsOpenAICompatible body then ((body, False), r)
                 else ((RewriteResponse c body originalModel, True), r))))"

section \<open>Lookups and updates\<close>

text \<open>Whether a process is under treatment, which \<open>Lookup\<close> answers.\<close>

definition treated :: "Registry \<Rightarrow> int \<Rightarrow> time_ns \<Rightarrow> MitigationState option" where
  "treated r pid now = (case rg_entries r pid of None \<Rightarrow> None | Some st \<Rightarrow> if live_state now st then Some st else None)"

lemma Lookup_treated: "fst (Lookup r pid now) = treated r pid now"
  by (auto simp: Lookup_def treated_def live_state_def split: option.splits)

lemma Lookup_other: "pid' \<noteq> pid \<Longrightarrow> rg_entries (snd (Lookup r pid now)) pid' = rg_entries r pid'"
  by (auto simp: Lookup_def registry_store.get_put split: option.splits)

lemma Lookup_keeps_treated: "treated (snd (Lookup r pid now)) pid' now = treated r pid' now"
  by (cases "pid' = pid") (auto simp: Lookup_def treated_def live_state_def registry_store.get_put split: option.splits)

lemma coolingOff_frame [simp]:
  "rg_coolingOffDur (put_entry r pid st) = rg_coolingOffDur r"
  "rg_coolingOffDur (snd (Lookup r pid now)) = rg_coolingOffDur r"
  by (auto simp: put_entry_def Lookup_def split: option.splits)

lemma cool_until_frame [simp]: "cool_until (snd (Lookup r pid now)) t = cool_until r t"
  by (simp add: cool_until_def)

lemma apply_remedy_entry:
  "\<exists>st. rg_entries (rt_reg (apply_remedy r pid rm t_lk t_up)) pid = Some st \<and> rm_Active st \<and>
     rm_CoolingUntil st = cool_until (rt_reg r) t_up \<and>
     rm_Remedy st = (case treated (rt_reg r) pid t_lk of None \<Rightarrow> rm | Some old \<Rightarrow> rm_Remedy old)"
proof (cases "treated (rt_reg r) pid t_lk")
  case None
  then have l: "fst (Lookup (rt_reg r) pid t_lk) = None" by (simp add: Lookup_treated)
  then show ?thesis
    using None by (auto simp: apply_remedy_def case_prod_unfold Let_def Activate_def registry_store.get_put split: option.splits)
next
  case (Some old)
  then have l: "fst (Lookup (rt_reg r) pid t_lk) = Some old" by (simp add: Lookup_treated)
  have "rg_entries (rt_reg r) pid = Some old" "snd (Lookup (rt_reg r) pid t_lk) = rt_reg r"
    using Some by (auto simp: treated_def Lookup_def live_state_def split: option.splits if_splits)
  then show ?thesis
    using Some l by (simp add: apply_remedy_def case_prod_unfold Let_def RefreshAlert_def registry_store.get_put)
qed

lemma apply_remedy_other:
  "pid' \<noteq> pid \<Longrightarrow> rg_entries (rt_reg (apply_remedy r pid rm t_lk t_up)) pid' = rg_entries (rt_reg r) pid'"
  by (auto simp: apply_remedy_def case_prod_unfold Let_def Activate_def RefreshAlert_def registry_store.get_put
      Lookup_other split: option.splits)

lemma remedyForAnomaly_some: "remedyForAnomaly ty \<noteq> RemedyNone"
  by (simp add: remedyForAnomaly_def)

lemma handleAlert_policy:
  "handleAlert (Some e) r alert x t_lk t_up =
    (let rm = remedyForAnomaly (at_AnomalyType alert); i = router_intent (at_PID alert) rm (at_AnomalyType alert)
     in if decision e i x
        then (Some (ConfirmExecution (snd (EvaluateAndRegister e i x)) (generateTxID (ei_buf x))),
              apply_remedy r (at_PID alert) rm t_lk t_up)
        else (Some (snd (EvaluateAndRegister e i x)), r))"
  using remedyForAnomaly_some
  by (simp add: handleAlert_def Let_def case_prod_unfold EvaluateAndRegister_decision EvaluateAndRegister_txID)

lemma RewriteRequest_panics:
  "RewriteRequest c fr req body = None \<longleftrightarrow> cd_urlHost c (fr_endpoint fr) \<noteq> None \<and> cd_parse c body = Some JNull"
  by (auto simp: RewriteRequest_def substituteModel_def Let_def split: option.splits json.splits)

section \<open>Responses\<close>

text \<open>The numbers of a response are machine integers.\<close>

definition choice_wf :: "ResponseChoice \<Rightarrow> bool" where
  "choice_wf ch \<longleftrightarrow> in_i64 (rc_Index ch)"

definition usage_wf :: "ResponseUsage \<Rightarrow> bool" where
  "usage_wf u \<longleftrightarrow> in_i64 (ru_PromptTokens u) \<and> in_i64 (ru_CompletionTokens u) \<and> in_i64 (ru_TotalTokens u)"

definition response_wf :: "OpenAIResponse \<Rightarrow> bool" where
  "response_wf r \<longleftrightarrow> in_i64 (rp_Created r) \<and> (\<forall>cs ch. rp_Choices r = Some cs \<longrightarrow> ch \<in> set cs \<longrightarrow> choice_wf ch) \<and>
     (\<forall>u. rp_Usage r = Some u \<longrightarrow> usage_wf u)"

lemma decode_json_int [simp]: "in_i64 i \<Longrightarrow> decode_int old (json_int i) = (i, True)"
  by (simp add: json_int_def Atoi_format_int)

lemma decode_int_wf: "in_i64 old \<Longrightarrow> in_i64 (fst (decode_int old j))"
  by (cases "(old, j)" rule: decode_int.cases) (auto simp: Atoi_def Let_def split: option.splits if_splits)

lemma decode_encode_choice:
  assumes "choice_wf ch"
  shows "decode_struct [''index'', ''message'', ''finish_reason''] update_choice old (encode_choice ch) = (ch, True)"
  using assms by (simp add: encode_choice_def select_field_def update_choice_def choice_wf_def)

lemma decode_encode_choices:
  assumes "\<And>ch. ch \<in> set cs \<Longrightarrow> choice_wf ch"
  shows "decode_elems (decode_struct [''index'', ''message'', ''finish_reason''] update_choice) stale i (map encode_choice cs) =
    (cs, True)"
  using assms by (induction cs arbitrary: i) (simp_all add: decode_encode_choice)

lemma decode_encode_usage:
  assumes "usage_wf u"
  shows "decode_usage old (encode_usage u) = (Some u, True)"
  using assms by (simp add: decode_usage_def encode_usage_def select_field_def update_usage_def usage_wf_def Let_def)

lemma decode_encode_response:
  assumes "response_wf r"
  shows "decode_response (encode_response r) = (r, True)"
proof (cases "rp_Usage r")
  case None
  then show ?thesis
    using assms by (cases "rp_Choices r") (simp_all add: decode_response_def encode_response_def select_field_def
        update_response_def response_wf_def decode_choices_def decode_encode_choices)
next
  case (Some u)
  then show ?thesis
    using assms by (cases "rp_Choices r") (simp_all add: decode_response_def encode_response_def select_field_def
        update_response_def response_wf_def decode_choices_def decode_encode_choices decode_encode_usage)
qed


text \<open>Decoding yields machine integers.\<close>

lemma choice_wf_update: "choice_wf v \<Longrightarrow> choice_wf (fst (update_choice f v j))"
  by (simp add: choice_wf_def update_choice_def case_prod_unfold Let_def decode_int_wf)

lemma usage_wf_update: "usage_wf v \<Longrightarrow> usage_wf (fst (update_usage f v j))"
  by (simp add: usage_wf_def update_usage_def case_prod_unfold Let_def decode_int_wf)

lemma decode_choices_wf:
  assumes "fst (decode_choices old j) = Some cs" "\<And>cs ch. old = Some cs \<Longrightarrow> ch \<in> set cs \<Longrightarrow> choice_wf ch" "ch \<in> set cs"
  shows "choice_wf ch"
proof (cases "\<exists>js. j = JArr js")
  case True
  then obtain js where j: "j = JArr js" by blast
  have "\<forall>v \<in> set (fst (decode_elems (decode_struct [''index'', ''message'', ''finish_reason''] update_choice)
      (\<lambda>_. \<lparr>rc_Index = 0, rc_Message = JNull, rc_FinishReason = ''''\<rparr>) 0 js)). choice_wf v"
    by (rule decode_elems_inv [where P = choice_wf])
      (rule decode_struct_inv [where P = choice_wf, OF choice_wf_update], assumption+, simp add: choice_wf_def in_i64_def)
  then show ?thesis using assms(1,3) j by (simp add: decode_choices_def case_prod_unfold Let_def)
next
  case False
  then show ?thesis using assms by (auto simp: decode_choices_def split: json.splits)
qed

lemma decode_usage_wf:
  assumes "fst (decode_usage old j) = Some u" "\<And>u. old = Some u \<Longrightarrow> usage_wf u"
  shows "usage_wf u"
proof -
  let ?u = "case old of None \<Rightarrow> \<lparr>ru_PromptTokens = 0, ru_CompletionTokens = 0, ru_TotalTokens = 0\<rparr> | Some u \<Rightarrow> u"
  have "usage_wf ?u" using assms(2) by (cases old) (simp_all add: usage_wf_def in_i64_def)
  then have wf: "usage_wf (fst (decode_struct fs update_usage ?u j'))" for fs j'
    by (intro decode_struct_inv [where P = usage_wf]) (erule usage_wf_update)
  have "fst (decode_usage old j) = None \<or>
      (\<exists>fs. fst (decode_usage old j) = Some (fst (decode_struct fs update_usage ?u j)))"
    by (cases j) (simp_all only: decode_usage_def json.case case_prod_unfold Let_def fst_conv, blast+)
  with wf assms(1) show ?thesis by auto
qed

lemma response_wf_update:
  assumes "response_wf v"
  shows "response_wf (fst (update_response f v j))"
proof -
  have "choice_wf ch" if "fst (decode_choices (rp_Choices v) j) = Some cs" "ch \<in> set cs" for cs ch
    by (rule decode_choices_wf [OF that(1) _ that(2)]) (use assms in \<open>auto simp: response_wf_def\<close>)
  moreover have "usage_wf u" if "fst (decode_usage (rp_Usage v) j) = Some u" for u
    by (rule decode_usage_wf [OF that]) (use assms in \<open>auto simp: response_wf_def\<close>)
  ultimately show ?thesis
    using assms by (simp add: update_response_def response_wf_def case_prod_unfold Let_def decode_int_wf)
qed

lemma decode_response_wf: "response_wf (fst (decode_response j))"
  unfolding decode_response_def
  by (rule decode_struct_inv [where P = response_wf, OF response_wf_update]) (assumption, simp add: response_wf_def in_i64_def)

end
