(* ===== verification/Metering.thy ===== *)
theory Metering
  imports Model Router
begin

text \<open>
  How the reverse proxy of \<open>src/internal/proxy/proxy\<close> reads requests and counts tokens: the model
  and the streaming flag of a request (\<open>request.go\<close>), the usage of a response, whole or as a
  stream of server-sent events (\<open>response.go\<close>), and the routes and the metrics logger
  (\<open>model.go\<close>). Reading JSON text is an argument, as is what a float64 keeps of a number.
\<close>

section \<open>Requests\<close>

record RequestMeta =
  me_Model :: gostring
  me_Stream :: bool
  me_Metadata :: "gostring \<rightharpoonup> go_any"

definition zero_meta :: RequestMeta where
  "zero_meta = \<lparr>me_Model = '''', me_Stream = False, me_Metadata = Map.empty\<rparr>"

text \<open>A value of type \<open>[]any\<close> is not read again: only whether it can be decoded matters.\<close>

definition decode_any_list :: "codec \<Rightarrow> json \<Rightarrow> bool" where
  "decode_any_list c j =
     (case j of JArr js \<Rightarrow> canon_list (cd_renumber c) js \<noteq> None | JNull \<Rightarrow> True | _ \<Rightarrow> False)"

definition update_openai :: "codec \<Rightarrow> gostring \<Rightarrow> RequestMeta decoder" where
  "update_openai c f old j =
     (if f = ''model'' then (let (v, ok) = decode_string (me_Model old) j in (old\<lparr>me_Model := v\<rparr>, ok))
      else if f = ''stream'' then (let (v, ok) = decode_bool (me_Stream old) j in (old\<lparr>me_Stream := v\<rparr>, ok))
      else (old, decode_any_list c j))"

definition update_anthropic :: "gostring \<Rightarrow> (RequestMeta \<times> int) decoder" where
  "update_anthropic f old j =
     (if f = ''model'' then (let (v, ok) = decode_string (me_Model (fst old)) j in ((fst old\<lparr>me_Model := v\<rparr>, snd old), ok))
      else if f = ''stream'' then (let (v, ok) = decode_bool (me_Stream (fst old)) j in ((fst old\<lparr>me_Stream := v\<rparr>, snd old), ok))
      else (let (v, ok) = decode_int (snd old) j in ((fst old, v), ok)))"

definition extractRequestMeta :: "codec \<Rightarrow> bytes \<Rightarrow> AIProvider \<Rightarrow> RequestMeta" where
  "extractRequestMeta c body provider =
     (if provider = ProviderOpenAI \<or> provider = ProviderCustom then
        (case cd_parse c body of
           None \<Rightarrow> zero_meta
         | Some j \<Rightarrow>
             (let (req, ok) = decode_struct [''model'', ''stream'', ''messages''] (update_openai c) zero_meta j
              in if ok then req else zero_meta))
      else if provider = ProviderAnthropic then
        (case cd_parse c body of
           None \<Rightarrow> zero_meta
         | Some j \<Rightarrow>
             (let (req, ok) = decode_struct [''model'', ''stream'', ''max_tokens''] update_anthropic (zero_meta, 0) j
              in if ok then fst req else zero_meta))
      else zero_meta)"

section \<open>Whole responses\<close>

definition zero_metrics :: TokenMetrics where
  "zero_metrics = \<lparr>tm_PromptTokens = 0, tm_CompletionTokens = 0, tm_TotalTokens = 0\<rparr>"

definition countTokens :: "gostring \<Rightarrow> int" where
  "countTokens s = (if s = '''' then 0 else int (length (Fields s)))"

text \<open>A pointer to a struct: \<open>null\<close> sets it to nil, anything else decodes into what it points to.\<close>

definition decode_pointer :: "'a \<Rightarrow> 'a decoder \<Rightarrow> 'a option decoder" where
  "decode_pointer zero dec old j =
     (case j of
        JNull \<Rightarrow> (None, True)
      | _ \<Rightarrow> (let (v, ok) = dec (case old of None \<Rightarrow> zero | Some v \<Rightarrow> v) j in (Some v, ok)))"

definition extractOpenAIResponse :: "codec \<Rightarrow> bytes \<Rightarrow> TokenMetrics" where
  "extractOpenAIResponse c body =
     (case cd_parse c body of
        None \<Rightarrow> zero_metrics\<lparr>tm_TotalTokens := countTokens body\<rparr>
      | Some j \<Rightarrow>
          (case decode_struct [''usage''] (\<lambda>_. decode_usage) None j of
             (Some u, True) \<Rightarrow>
               \<lparr>tm_PromptTokens = ru_PromptTokens u, tm_CompletionTokens = ru_CompletionTokens u,
                tm_TotalTokens = ru_TotalTokens u\<rparr>
           | _ \<Rightarrow> zero_metrics\<lparr>tm_TotalTokens := countTokens body\<rparr>))"

definition update_io_tokens :: "gostring \<Rightarrow> (int \<times> int) decoder" where
  "update_io_tokens f old j =
     (if f = ''input_tokens'' then (let (v, ok) = decode_int (fst old) j in ((v, snd old), ok))
      else (let (v, ok) = decode_int (snd old) j in ((fst old, v), ok)))"

definition decode_io_usage :: "(int \<times> int) option decoder" where
  "decode_io_usage = decode_pointer (0, 0) (decode_struct [''input_tokens'', ''output_tokens''] update_io_tokens)"

definition extractAnthropicResponse :: "codec \<Rightarrow> bytes \<Rightarrow> TokenMetrics" where
  "extractAnthropicResponse c body =
     (case cd_parse c body of
        None \<Rightarrow> zero_metrics\<lparr>tm_TotalTokens := countTokens body\<rparr>
      | Some j \<Rightarrow>
          (case decode_struct [''usage''] (\<lambda>_. decode_io_usage) None j of
             (Some (inTokens, outTokens), True) \<Rightarrow>
               \<lparr>tm_PromptTokens = inTokens, tm_CompletionTokens = outTokens, tm_TotalTokens = to_i64 (inTokens + outTokens)\<rparr>
           | _ \<Rightarrow> zero_metrics\<lparr>tm_TotalTokens := countTokens body\<rparr>))"

definition extractNonStreaming :: "codec \<Rightarrow> AIProvider \<Rightarrow> bytes \<Rightarrow> TokenMetrics" where
  "extractNonStreaming c provider body =
     (if length body = 0 then zero_metrics
      else if provider = ProviderOpenAI \<or> provider = ProviderCustom then extractOpenAIResponse c body
      else if provider = ProviderAnthropic then extractAnthropicResponse c body
      else zero_metrics)"

section \<open>Streams\<close>

record sseAccumulator =
  sa_provider :: AIProvider
  sa_completion :: gostring

definition newSSEAccumulator :: "AIProvider \<Rightarrow> sseAccumulator" where
  "newSSEAccumulator provider = \<lparr>sa_provider = provider, sa_completion = ''''\<rparr>"

text \<open>
  The contents of the choices of a chunk. A slice is its backing array and its length: decoding
  again into it decodes into the elements it had.
\<close>

definition decode_delta :: "gostring decoder" where
  "decode_delta = decode_struct [''delta''] (\<lambda>_. decode_struct [''content''] (\<lambda>_. decode_string))"

definition decode_contents :: "(gostring list \<times> nat) decoder" where
  "decode_contents old j =
     (case j of
        JArr [] \<Rightarrow> (([], 0), True)
      | JArr js \<Rightarrow>
          (let (vs, ok) = decode_elems decode_delta (\<lambda>i. if i < length (fst old) then fst old ! i else '''') 0 js
           in ((vs @ drop (length js) (fst old), length js), ok))
      | JNull \<Rightarrow> (([], 0), True)
      | _ \<Rightarrow> (old, False))"

record OpenAIChunk =
  oc_contents :: "gostring list \<times> nat"
  oc_usage :: "ResponseUsage option"

definition update_chunk :: "gostring \<Rightarrow> OpenAIChunk decoder" where
  "update_chunk f old j =
     (if f = ''choices'' then (let (v, ok) = decode_contents (oc_contents old) j in (old\<lparr>oc_contents := v\<rparr>, ok))
      else (let (v, ok) = decode_usage (oc_usage old) j in (old\<lparr>oc_usage := v\<rparr>, ok)))"

definition decode_chunk :: "json \<Rightarrow> OpenAIChunk \<times> bool" where
  "decode_chunk j = decode_struct [''choices'', ''usage''] update_chunk \<lparr>oc_contents = ([], 0), oc_usage = None\<rparr> j"

record AnthropicChunk =
  ac_type :: gostring
  ac_delta :: "gostring option"
  ac_message :: "(int \<times> int) option option"

definition update_anthropic_chunk :: "gostring \<Rightarrow> AnthropicChunk decoder" where
  "update_anthropic_chunk f old j =
     (if f = ''type'' then (let (v, ok) = decode_string (ac_type old) j in (old\<lparr>ac_type := v\<rparr>, ok))
      else if f = ''delta'' then
        (let (v, ok) = decode_pointer '''' (decode_struct [''text''] (\<lambda>_. decode_string)) (ac_delta old) j in (old\<lparr>ac_delta := v\<rparr>, ok))
      else
        (let (v, ok) = decode_pointer None (decode_struct [''usage''] (\<lambda>_. decode_io_usage)) (ac_message old) j
         in (old\<lparr>ac_message := v\<rparr>, ok)))"

definition decode_anthropic_chunk :: "json \<Rightarrow> AnthropicChunk \<times> bool" where
  "decode_anthropic_chunk j = decode_struct [''type'', ''delta'', ''message''] update_anthropic_chunk
     \<lparr>ac_type = '''', ac_delta = None, ac_message = None\<rparr> j"

definition processData :: "codec \<Rightarrow> sseAccumulator \<Rightarrow> bytes \<Rightarrow> sseAccumulator" where
  "processData c sa data =
     (if data = ''[DONE]'' then sa
      else if sa_provider sa = ProviderOpenAI \<or> sa_provider sa = ProviderCustom then
        (case cd_parse c data of
           None \<Rightarrow> sa
         | Some j \<Rightarrow>
             (let (chunk, ok) = decode_chunk j
              in if \<not> ok then sa
                 else if oc_usage chunk \<noteq> None then sa\<lparr>sa_completion := ''''\<rparr>
                 else sa\<lparr>sa_completion := sa_completion sa @ concat (take (snd (oc_contents chunk)) (fst (oc_contents chunk)))\<rparr>))
      else if sa_provider sa = ProviderAnthropic then
        (case cd_parse c data of
           None \<Rightarrow> sa
         | Some j \<Rightarrow>
             (let (chunk, ok) = decode_anthropic_chunk j
              in if \<not> ok then sa
                 else if ac_type chunk = ''content_block_delta'' then
                   (case ac_delta chunk of None \<Rightarrow> sa | Some text \<Rightarrow> sa\<lparr>sa_completion := sa_completion sa @ text\<rparr>)
                 else sa))
      else sa)"

definition feedLine :: "codec \<Rightarrow> sseAccumulator \<Rightarrow> bytes \<Rightarrow> sseAccumulator" where
  "feedLine c sa line =
     (let s = TrimSpace line in if HasPrefix s ''data: '' then processData c sa (drop 6 s) else sa)"

definition finalMetrics :: "sseAccumulator \<Rightarrow> TokenMetrics" where
  "finalMetrics sa =
     (let completed = sa_completion sa
      in \<lparr>tm_PromptTokens = countTokens (take 0 completed), tm_CompletionTokens = countTokens completed,
          tm_TotalTokens = countTokens completed\<rparr>)"

record interceptReader =
  ir_provider :: AIProvider
  ir_sse :: sseAccumulator
  ir_buf :: bytes
  ir_done :: bool
  ir_final :: "TokenMetrics option"

definition newInterceptReader :: "AIProvider \<Rightarrow> interceptReader" where
  "newInterceptReader provider =
     \<lparr>ir_provider = provider, ir_sse = newSSEAccumulator provider, ir_buf = [], ir_done = False, ir_final = None\<rparr>"

definition detectSSE :: "bytes \<Rightarrow> bool" where
  "detectSSE body = Contains body ''data: ''"

text \<open>How a read of the body ends.\<close>

datatype read_status = ReadMore | ReadEOF | ReadFailed

text \<open>One read that returned the bytes \<open>p\<close>: complete lines are fed, the rest stays in the buffer.\<close>

definition feed_buffer :: "codec \<Rightarrow> interceptReader \<Rightarrow> interceptReader" where
  "feed_buffer c ir =
     (let lines = split_on (CHR 10) (ir_buf ir)
      in ir\<lparr>ir_sse := fold (\<lambda>line sa. feedLine c sa line) (butlast lines) (ir_sse ir), ir_buf := last lines\<rparr>)"

definition ir_Read :: "codec \<Rightarrow> interceptReader \<Rightarrow> bytes \<Rightarrow> read_status \<Rightarrow> interceptReader" where
  "ir_Read c ir p status =
     (let ir = (if length p > 0
                then (let ir = ir\<lparr>ir_buf := ir_buf ir @ p\<rparr>
                      in if ir_provider ir = ProviderAnthropic \<or> detectSSE (ir_buf ir) then feed_buffer c ir else ir)
                else ir)
      in if status = ReadEOF \<and> \<not> ir_done ir
         then ir\<lparr>ir_done := True, ir_final := Some (finalMetrics (ir_sse ir))\<rparr> else ir)"

section \<open>Routes and the logger\<close>

record UpstreamRoute =
  ur_HostPattern :: gostring
  ur_Provider :: AIProvider
  ur_BaseURL :: gostring

definition DefaultRoutes :: "UpstreamRoute list" where
  "DefaultRoutes =
     [\<lparr>ur_HostPattern = ''api.openai.com'', ur_Provider = ProviderOpenAI, ur_BaseURL = ''https://api.openai.com''\<rparr>,
      \<lparr>ur_HostPattern = ''api.anthropic.com'', ur_Provider = ProviderAnthropic, ur_BaseURL = ''https://api.anthropic.com''\<rparr>]"

fun provider_string :: "AIProvider \<Rightarrow> gostring" where
  "provider_string ProviderOpenAI = ''openai''"
| "provider_string ProviderAnthropic = ''anthropic''"
| "provider_string ProviderCustom = ''custom''"
| "provider_string (OtherProvider s) = s"

text \<open>The text of a quoted string is an argument.\<close>

definition LogLine :: "(gostring \<Rightarrow> gostring) \<Rightarrow> TokenUsageEvent \<Rightarrow> gostring" where
  "LogLine quote e =
     ''timestamp='' @ format_int (tu_Timestamp e) @ '' pid='' @ format_int (tu_ClientPID e) @
     '' provider='' @ provider_string (tu_Provider e) @ '' model='' @ quote (tu_Model e) @
     '' streaming='' @ (if tu_IsStreaming e then ''true'' else ''false'') @
     '' prompt_tokens='' @ format_int (tm_PromptTokens (tu_Metrics e)) @
     '' completion_tokens='' @ format_int (tm_CompletionTokens (tu_Metrics e)) @
     '' total_tokens='' @ format_int (tm_TotalTokens (tu_Metrics e)) @ [CHR 10]"

record MetricsLogger =
  lg_events :: "TokenUsageEvent list"
  lg_written :: "bytes list"

definition NewMetricsLogger :: MetricsLogger where
  "NewMetricsLogger = \<lparr>lg_events = [], lg_written = []\<rparr>"

definition logger_capacity :: nat where
  "logger_capacity = 4096"

definition LogEvent :: "MetricsLogger \<Rightarrow> TokenUsageEvent \<Rightarrow> MetricsLogger" where
  "LogEvent ml ev = ml\<lparr>lg_events := try_send logger_capacity (lg_events ml) ev\<rparr>"

text \<open>One turn of the loop of the logger, if there is an event.\<close>

definition logger_step :: "(gostring \<Rightarrow> gostring) \<Rightarrow> MetricsLogger \<Rightarrow> int \<Rightarrow> MetricsLogger option" where
  "logger_step quote ml now =
     (case lg_events ml of
        [] \<Rightarrow> None
      | ev # evs \<Rightarrow> Some \<lparr>lg_events = evs, lg_written = lg_written ml @ [LogLine quote (ev\<lparr>tu_Timestamp := now\<rparr>)]\<rparr>)"

interpretation metrics_sink: event_sink LogEvent lg_events "\<lambda>_. logger_capacity"
  by unfold_locales (simp_all add: LogEvent_def)

section \<open>Lines and their contents\<close>

lemma split_on_join: "split_on c (a @ c # b) = split_on c a @ split_on c b"
proof (induction a)
  case (Cons x a)
  obtain p ps where "split_on c a = p # ps" by (cases "split_on c a") simp_all
  with Cons show ?case by simp
qed simp

lemma butlast_split_append:
  assumes "X = [] \<or> last X = c"
  shows "butlast (split_on c (X @ b)) = butlast (split_on c X) @ butlast (split_on c b)"
proof (cases "X = []")
  case False
  with assms obtain X0 where X: "X = X0 @ [c]" by (metis append_butlast_last_id)
  have "split_on c (X @ b) = split_on c X0 @ split_on c b" "split_on c X = split_on c X0 @ [[]]"
    using split_on_join [of c X0 b] split_on_join [of c X0 "[]"] X by simp_all
  then show ?thesis by (simp add: butlast_append)
qed simp

lemma split_last_line:
  obtains Y where "b = Y @ last (split_on c b)" "Y = [] \<or> last Y = c"
    "butlast (split_on c Y) = butlast (split_on c b)" "c \<notin> set (last (split_on c b))"
proof (cases "c \<in> set b")
  case True
  then obtain a r where b: "b = a @ c # r" "c \<notin> set r" by (meson split_list_last)
  then have l: "last (split_on c b) = r" by (simp add: split_on_join split_on_absent)
  have "butlast (split_on c (a @ [c])) = butlast (split_on c b)"
    using b split_on_join [of c a "[]"] by (simp add: split_on_join split_on_absent)
  then show ?thesis using that [of "a @ [c]"] b l by simp
next
  case False
  then show ?thesis using that [of "[]"] by (simp add: split_on_absent)
qed

lemma split_on_hd: "split_on c s = p # ps \<Longrightarrow> prefix p s"
proof (induction s arbitrary: p ps)
  case (Cons x s)
  then show ?case by (cases "split_on c s") (auto split: if_splits)
qed simp

lemma split_on_sublist: "l \<in> set (split_on c s) \<Longrightarrow> sublist l s"
proof (induction s arbitrary: l)
  case (Cons x s)
  obtain p ps where p: "split_on c s = p # ps" by (cases "split_on c s") simp_all
  show ?case
  proof (cases "x = c")
    case True
    then show ?thesis using Cons by (auto intro: sublist_Cons_right [THEN iffD2])
  next
    case False
    then consider "l = x # p" | "l \<in> set (split_on c s)" using Cons.prems p by auto
    then show ?thesis
    proof cases
      case 1
      then show ?thesis using split_on_hd [OF p] by (simp add: prefix_imp_sublist)
    next
      case 2
      then show ?thesis using Cons.IH by (auto intro: sublist_Cons_right [THEN iffD2])
    qed
  qed
qed simp

lemma suffix_trim_left: "suffix (trim_left s) s"
proof (induction s rule: trim_left.induct)
  case (1 s)
  show ?case
  proof (cases "0 < space_width s \<and> s \<noteq> []")
    case True
    then have "suffix (trim_left (drop (space_width s) s)) (drop (space_width s) s)" using 1 by simp
    with True show ?thesis by (subst trim_left.simps) (auto simp: Let_def intro: suffix_order.trans suffix_drop)
  next
    case False
    then show ?thesis by (subst trim_left.simps) (auto simp: Let_def)
  qed
qed

lemma suffix_trim_right: "suffix (trim_right_rev r) r"
proof (induction r rule: trim_right_rev.induct)
  case (1 r)
  show ?case
  proof (cases "0 < space_width_rev r \<and> r \<noteq> []")
    case True
    then have "suffix (trim_right_rev (drop (space_width_rev r) r)) (drop (space_width_rev r) r)" using 1 by simp
    with True show ?thesis by (subst trim_right_rev.simps) (auto simp: Let_def intro: suffix_order.trans suffix_drop)
  next
    case False
    then show ?thesis by (subst trim_right_rev.simps) (auto simp: Let_def)
  qed
qed

lemma sublist_TrimSpace: "sublist (TrimSpace s) s"
proof -
  have "prefix (TrimSpace s) (trim_left s)"
    using suffix_trim_right [of "rev (trim_left s)"] by (simp add: TrimSpace_def suffix_to_prefix)
  then show ?thesis using suffix_trim_left by (meson prefix_imp_sublist suffix_imp_sublist sublist_order.order.trans)
qed

text \<open>Lines without the marker of an event are ignored.\<close>

lemma feedLine_plain: "\<not> detectSSE line \<Longrightarrow> feedLine c sa line = sa"
proof -
  assume "\<not> detectSSE line"
  then have "\<not> sublist ''data: '' line" by (simp add: detectSSE_def Contains_def)
  moreover have "sublist ''data: '' (TrimSpace line)" if "HasPrefix (TrimSpace line) ''data: ''"
    using that by (metis HasPrefix_def prefix_imp_sublist take_is_prefix)
  ultimately have "\<not> HasPrefix (TrimSpace line) ''data: ''"
    using sublist_TrimSpace sublist_order.order.trans by blast
  then show ?thesis by (simp add: feedLine_def Let_def)
qed

section \<open>Streams in pieces\<close>

definition feed_lines :: "codec \<Rightarrow> sseAccumulator \<Rightarrow> bytes list \<Rightarrow> sseAccumulator" where
  "feed_lines c sa ls = fold (\<lambda>line sa. feedLine c sa line) ls sa"

text \<open>What the accumulator makes of a whole stream: of each of its complete lines, in order.\<close>

definition feed_stream :: "codec \<Rightarrow> AIProvider \<Rightarrow> bytes \<Rightarrow> sseAccumulator" where
  "feed_stream c provider d = feed_lines c (newSSEAccumulator provider) (butlast (split_on (CHR 10) d))"

lemma feed_lines_append [simp]: "feed_lines c sa (xs @ ys) = feed_lines c (feed_lines c sa xs) ys"
  by (simp add: feed_lines_def)

lemma feed_lines_plain: "\<forall>l \<in> set ls. \<not> detectSSE l \<Longrightarrow> feed_lines c sa ls = sa"
  unfolding feed_lines_def by (induction ls) (simp_all add: feedLine_plain)

lemma plain_lines:
  assumes "\<not> detectSSE b" "l \<in> set (split_on c b)"
  shows "\<not> detectSSE l"
  using assms split_on_sublist [OF assms(2)] unfolding detectSSE_def Contains_def by (meson sublist_order.order.trans)

text \<open>
  The reader has fed the complete lines of a first part \<open>X\<close> of the stream and holds the rest,
  which has no complete line unless there was nothing to detect in it.
\<close>

definition stream_inv :: "codec \<Rightarrow> AIProvider \<Rightarrow> bytes \<Rightarrow> interceptReader \<Rightarrow> bool" where
  "stream_inv c provider d ir \<longleftrightarrow> ir_provider ir = provider \<and> \<not> ir_done ir \<and>
     (\<exists>X. d = X @ ir_buf ir \<and> (X = [] \<or> last X = CHR 10) \<and> ir_sse ir = feed_stream c provider X) \<and>
     (CHR 10 \<notin> set (ir_buf ir) \<or> \<not> detectSSE (ir_buf ir))"

lemma stream_inv_new: "stream_inv c provider [] (newInterceptReader provider)"
  by (simp add: stream_inv_def newInterceptReader_def feed_stream_def feed_lines_def)

lemma feed_stream_append:
  "X = [] \<or> last X = CHR 10 \<Longrightarrow>
   feed_stream c provider (X @ b) = feed_lines c (feed_stream c provider X) (butlast (split_on (CHR 10) b))"
  by (simp add: feed_stream_def butlast_split_append)

lemma stream_inv_sse:
  assumes "stream_inv c provider d ir"
  shows "ir_sse ir = feed_stream c provider d"
proof -
  from assms obtain X where X: "d = X @ ir_buf ir" "X = [] \<or> last X = CHR 10" "ir_sse ir = feed_stream c provider X"
    unfolding stream_inv_def by blast
  have "feed_lines c (ir_sse ir) (butlast (split_on (CHR 10) (ir_buf ir))) = ir_sse ir"
  proof (cases "CHR 10 \<in> set (ir_buf ir)")
    case True
    then have "\<not> detectSSE (ir_buf ir)" using assms by (simp add: stream_inv_def)
    then show ?thesis by (intro feed_lines_plain) (meson in_set_butlastD plain_lines)
  next
    case False
    then show ?thesis by (simp add: split_on_absent feed_lines_def)
  qed
  then show ?thesis using X feed_stream_append by metis
qed

lemma feed_buffer_inv:
  assumes "stream_inv c provider d (ir\<lparr>ir_buf := b\<rparr>)" "d' = d @ p"
  shows "stream_inv c provider d' (feed_buffer c (ir\<lparr>ir_buf := b @ p\<rparr>))"
proof -
  from assms(1) obtain X where X: "d = X @ b" "X = [] \<or> last X = CHR 10" "ir_sse ir = feed_stream c provider X"
    unfolding stream_inv_def by auto
  obtain Y where Y: "b @ p = Y @ last (split_on (CHR 10) (b @ p))" "Y = [] \<or> last Y = CHR 10"
    "butlast (split_on (CHR 10) Y) = butlast (split_on (CHR 10) (b @ p))" "CHR 10 \<notin> set (last (split_on (CHR 10) (b @ p)))"
    using split_last_line [of "b @ p" "CHR 10"] by metis
  let ?ir = "feed_buffer c (ir\<lparr>ir_buf := b @ p\<rparr>)"
  have "ir_sse ?ir = feed_stream c provider (X @ Y)"
    using feed_stream_append [OF X(2), of c provider Y] X(3) Y(3) by (simp add: feed_buffer_def Let_def feed_lines_def)
  moreover have "d' = (X @ Y) @ ir_buf ?ir" using assms(2) X(1) Y(1) by (simp add: feed_buffer_def Let_def)
  moreover have "X @ Y = [] \<or> last (X @ Y) = CHR 10" using X(2) Y(2) by (cases "Y = []") simp_all
  moreover have "CHR 10 \<notin> set (ir_buf ?ir)" using Y(4) by (simp add: feed_buffer_def Let_def)
  moreover have "ir_provider ?ir = provider \<and> \<not> ir_done ?ir"
    using assms(1) by (simp add: stream_inv_def feed_buffer_def Let_def)
  ultimately show ?thesis unfolding stream_inv_def by blast
qed

lemma ir_Read_inv:
  assumes "stream_inv c provider d ir"
  shows "stream_inv c provider (d @ p) (ir_Read c ir p ReadMore)"
proof (cases "p = []")
  case True
  then show ?thesis using assms by (simp add: ir_Read_def)
next
  case False
  have prov: "ir_provider ir = provider" using assms by (simp add: stream_inv_def)
  show ?thesis
  proof (cases "provider = ProviderAnthropic \<or> detectSSE (ir_buf ir @ p)")
    case True
    then have "ir_Read c ir p ReadMore = feed_buffer c (ir\<lparr>ir_buf := ir_buf ir @ p\<rparr>)"
      using False prov by (simp add: ir_Read_def Let_def)
    then show ?thesis using feed_buffer_inv [of c provider d "ir_buf ir" ir] assms by simp
  next
    case c: False
    then have "ir_Read c ir p ReadMore = ir\<lparr>ir_buf := ir_buf ir @ p\<rparr>"
      using False prov by (simp add: ir_Read_def Let_def)
    then show ?thesis using assms c by (auto simp: stream_inv_def)
  qed
qed

lemma ir_Reads_inv:
  "stream_inv c provider d ir \<Longrightarrow> stream_inv c provider (d @ concat ps) (fold (\<lambda>p ir. ir_Read c ir p ReadMore) ps ir)"
proof (induction ps arbitrary: d ir)
  case (Cons p ps)
  from Cons.IH [OF ir_Read_inv [OF Cons.prems, of p]] show ?case by simp
qed simp

lemma ir_Read_last:
  assumes "stream_inv c provider d ir"
  shows "ir_final (ir_Read c ir p ReadEOF) = Some (finalMetrics (feed_stream c provider (d @ p)))"
proof -
  let ?ir = "ir_Read c ir p ReadMore"
  have "\<not> ir_done ?ir" "ir_sse ?ir = feed_stream c provider (d @ p)"
    using ir_Read_inv [OF assms, of p] stream_inv_sse [OF ir_Read_inv [OF assms, of p]] by (simp_all add: stream_inv_def)
  moreover have "ir_Read c ir p ReadEOF = ?ir\<lparr>ir_done := True, ir_final := Some (finalMetrics (ir_sse ?ir))\<rparr>"
    using \<open>\<not> ir_done ?ir\<close> by (simp add: ir_Read_def Let_def)
  ultimately show ?thesis by simp
qed

text \<open>A chunk with a usage report empties the accumulator.\<close>

lemma feed_usage:
  assumes "TrimSpace line = ''data: '' @ data" "data \<noteq> ''[DONE]''" "sa_provider sa \<in> {ProviderOpenAI, ProviderCustom}"
    and "cd_parse c data = Some j" "decode_chunk j = (chunk, True)" "oc_usage chunk \<noteq> None"
  shows "feedLine c sa line = sa\<lparr>sa_completion := ''''\<rparr>"
  using assms by (auto simp: feedLine_def Let_def HasPrefix_def processData_def)

lemma sa_provider_processData [simp]: "sa_provider (processData c sa d) = sa_provider sa"
  by (simp add: processData_def Let_def case_prod_unfold split: option.splits)

lemma sa_provider_feed [simp]: "sa_provider (feedLine c sa line) = sa_provider sa" "sa_provider (feed_lines c sa ls) = sa_provider sa"
proof -
  show f: "sa_provider (feedLine c sa line) = sa_provider sa" for sa line by (simp add: feedLine_def Let_def)
  show "sa_provider (feed_lines c sa ls) = sa_provider sa"
    unfolding feed_lines_def by (induction ls arbitrary: sa) (simp_all add: f)
qed

end
