(* ===== verification/Cgroup.thy ===== *)
theory Cgroup
  imports GoStrings
begin

text \<open>
  The container resolver of \<open>src/internal/proxy/cgroup/resolver.go\<close>: reading the first line
  of \<open>/proc/<pid>/cgroup\<close>, choosing a container identifier from its path segments, and the
  cache of resolved identifiers. The file system is the parameter \<open>read\<close>: the bytes one
  \<open>Read\<close> of a file returns, \<open>None\<close> when opening or reading fails.
\<close>

section \<open>Identifiers in path segments\<close>

definition hex_char :: "char \<Rightarrow> bool" where
  "hex_char c =
     (let n = of_char c :: nat
      in (48 \<le> n \<and> n \<le> 57) \<or> (97 \<le> n \<and> n \<le> 102) \<or> (65 \<le> n \<and> n \<le> 70))"

definition isHex :: "gostring \<Rightarrow> bool" where
  "isHex s = (length s \<noteq> 0 \<and> (\<forall>c \<in> set s. hex_char c))"

text \<open>\<open>if isHex(c) && len(c) >= 8 { return c }\<close>, with what happens otherwise.\<close>

definition accept_id :: "gostring \<Rightarrow> gostring \<Rightarrow> gostring" where
  "accept_id candidate otherwise =
     (if isHex candidate \<and> length candidate \<ge> 8 then candidate else otherwise)"

definition containerIDFromScope :: "gostring \<Rightarrow> gostring" where
  "containerIDFromScope seg =
     (if \<not> HasSuffix seg ''.scope'' then ''''
      else
        (let base = take (length seg - 6) seg;
             lastHyphen = LastIndexByte base (CHR ''-'');
             whole = accept_id base ''''
         in if lastHyphen \<ge> 0 then
              accept_id (drop (nat (lastHyphen + 1)) base)
                (let prevHyphen = LastIndexByte (take (nat lastHyphen) base) (CHR ''-'')
                 in if prevHyphen \<ge> 0 then accept_id (drop (nat (prevHyphen + 1)) base) whole else whole)
            else whole))"

definition containerIDFromSlice :: "gostring \<Rightarrow> gostring" where
  "containerIDFromSlice seg =
     (if \<not> HasSuffix seg ''.slice'' then ''''
      else
        (let base = take (length seg - 6) seg;
             podIdx = LastIndex base ''pod''
         in if Contains base ''pod'' \<and> podIdx \<ge> 0 \<and> podIdx + 3 < int (length base)
            then drop (nat (podIdx + 3)) base
            else
              (let lastHyphen = LastIndexByte base (CHR ''-'')
               in if lastHyphen \<ge> 0 then accept_id (drop (nat (lastHyphen + 1)) base) '''' else '''')))"

text \<open>The loop over the segments; a bare hexadecimal segment of 32 or more digits returns at once.\<close>

definition skip_segment :: "gostring \<Rightarrow> bool" where
  "skip_segment s =
     (s \<in> {'''', ''system.slice'', ''kubepods.slice'', ''docker''} \<or> s \<in> {''.scope'', ''.slice''})"

definition longer_of :: "gostring \<Rightarrow> gostring \<Rightarrow> gostring" where
  "longer_of best cid = (if cid \<noteq> '''' \<and> length cid > length best then cid else best)"

fun best_segment :: "gostring \<Rightarrow> gostring list \<Rightarrow> gostring" where
  "best_segment best [] = best"
| "best_segment best (s # segs) =
     (if skip_segment s then best_segment best segs
      else if HasSuffix s ''.scope'' then best_segment (longer_of best (containerIDFromScope s)) segs
      else if HasSuffix s ''.slice'' then best_segment (longer_of best (containerIDFromSlice s)) segs
      else if length s \<ge> 32 \<and> isHex s then s
      else best_segment best segs)"

definition extractContainerID :: "bytes \<Rightarrow> gostring" where
  "extractContainerID cgroupData =
     (let nl = IndexByte cgroupData (CHR ''\<newline>'');
          line = TrimSpace (if nl \<ge> 0 then take (nat nl) cgroupData else cgroupData);
          colonParts = split_on (CHR '':'') line
      in if length colonParts < 3 then ''''
         else
           (let path = TrimSpace (colonParts ! 2)
            in if length path = 0 \<or> hd path \<noteq> CHR ''/'' then ''''
               else best_segment '''' (split_on (CHR ''/'') path)))"

section \<open>The resolver\<close>

record Resolver =
  rs_procRoot :: gostring
  rs_cache :: "int \<rightharpoonup> gostring"

definition NewResolver :: "gostring \<Rightarrow> Resolver" where
  "NewResolver procRoot = \<lparr>rs_procRoot = procRoot, rs_cache = Map.empty\<rparr>"

definition cgroup_path :: "gostring \<Rightarrow> int \<Rightarrow> gostring" where
  "cgroup_path procRoot pid = procRoot @ ''/'' @ format_int pid @ ''/cgroup''"

definition readCgroupContainerID :: "(gostring \<Rightarrow> bytes option) \<Rightarrow> int \<Rightarrow> gostring \<Rightarrow> gostring option" where
  "readCgroupContainerID read pid procRoot =
     (case read (cgroup_path procRoot pid) of
        None \<Rightarrow> None
      | Some data \<Rightarrow> Some (extractContainerID (take 1024 data)))"

definition Resolve :: "(gostring \<Rightarrow> bytes option) \<Rightarrow> Resolver \<Rightarrow> int \<Rightarrow> gostring \<times> Resolver" where
  "Resolve read r pid =
     (case rs_cache r pid of
        Some cached \<Rightarrow> (cached, r)
      | None \<Rightarrow>
          (case readCgroupContainerID read pid (rs_procRoot r) of
             None \<Rightarrow> ('''', r)
           | Some cid \<Rightarrow> (cid, if length cid > 0 then r\<lparr>rs_cache := (rs_cache r)(pid \<mapsto> cid)\<rparr> else r)))"

definition Evict :: "Resolver \<Rightarrow> int \<Rightarrow> Resolver" where
  "Evict r pid = r\<lparr>rs_cache := (rs_cache r)(pid := None)\<rparr>"

section \<open>What an identifier looks like\<close>

lemma isHex_no_hyphen: "isHex s \<Longrightarrow> CHR ''-'' \<notin> set s"
  by (auto simp: isHex_def hex_char_def)

text \<open>
  The second hyphen is never needed: what follows it still contains the last hyphen, so it is
  not hexadecimal.
\<close>

lemma prev_hyphen_not_hex:
  assumes "0 \<le> LastIndexByte base (CHR ''-'')"
    and "0 \<le> LastIndexByte (take (nat (LastIndexByte base (CHR ''-''))) base) (CHR ''-'')"
  shows "\<not> isHex (drop (nat (LastIndexByte (take (nat (LastIndexByte base (CHR ''-''))) base) (CHR ''-'') + 1)) base)"
proof -
  obtain xs ys where b: "base = xs @ CHR ''-'' # ys" "CHR ''-'' \<notin> set ys"
      "LastIndexByte base (CHR ''-'') = int (length xs)"
    using assms(1) split_at_last_byte LastIndexByte_nonneg by metis
  then have t: "take (nat (LastIndexByte base (CHR ''-''))) base = xs" by simp
  with assms(2) obtain us vs where "xs = us @ CHR ''-'' # vs" "LastIndexByte xs (CHR ''-'') = int (length us)"
    using split_at_last_byte LastIndexByte_nonneg by metis
  then have "drop (nat (LastIndexByte xs (CHR ''-'') + 1)) base = vs @ CHR ''-'' # ys"
    using b by (simp add: nat_add_distrib)
  then show ?thesis
    unfolding t using isHex_no_hyphen [of "vs @ CHR ''-'' # ys"] by auto
qed

definition container_id_ok :: "gostring \<Rightarrow> bool" where
  "container_id_ok r \<longleftrightarrow> r = '''' \<or> isHex r \<and> 8 \<le> length r"

lemma container_id_ok_empty [simp]: "container_id_ok ''''"
  by (simp add: container_id_ok_def)

lemma container_id_ok_accept [simp]: "container_id_ok d \<Longrightarrow> container_id_ok (accept_id c d)"
  by (simp add: container_id_ok_def accept_id_def)

lemma containerIDFromScope_hex: "container_id_ok (containerIDFromScope seg)"
  by (simp add: containerIDFromScope_def Let_def)

lemma take_scope: "take (length (b @ ''.scope'') - 6) (b @ ''.scope'') = b"
  by simp

lemma HasSuffix_append [simp]: "HasSuffix (b @ p) p"
  by (simp add: HasSuffix_def)

text \<open>The identifier of a \<open><runtime>-<id>.scope\<close> segment.\<close>

lemma containerIDFromScope_runtime:
  assumes "isHex cid" and "8 \<le> length cid"
  shows "containerIDFromScope (p @ ''-'' @ cid @ ''.scope'') = cid"
proof -
  let ?base = "p @ ''-'' @ cid"
  have "LastIndexByte ?base (CHR ''-'') = int (length p)"
    using LastIndexByte_split [OF isHex_no_hyphen [OF assms(1)], of p] by simp
  moreover have "drop (nat (int (length p) + 1)) ?base = cid"
    by (simp add: nat_add_distrib)
  moreover have "take (length (?base @ ''.scope'') - 6) (?base @ ''.scope'') = ?base"
    by (rule take_scope)
  ultimately have "containerIDFromScope (?base @ ''.scope'') = cid"
    using assms HasSuffix_append [of ?base "''.scope''"]
    unfolding containerIDFromScope_def Let_def by (simp add: accept_id_def)
  then show ?thesis by simp
qed

text \<open>The segment loop never gives up an identifier for a shorter one, except for a full one.\<close>

definition no_shorter :: "gostring \<Rightarrow> gostring \<Rightarrow> bool" where
  "no_shorter best r \<longleftrightarrow> length best \<le> length r \<or> isHex r \<and> 32 \<le> length r"

lemma no_shorter_longer: "no_shorter (longer_of best i) r \<Longrightarrow> no_shorter best r"
  by (auto simp: no_shorter_def longer_of_def split: if_splits)

lemma best_segment_no_shorter: "no_shorter best (best_segment best segs)"
proof (induction segs arbitrary: best)
  case Nil
  show ?case by (simp add: no_shorter_def)
next
  case (Cons s segs)
  have "no_shorter best (best_segment (longer_of best cid) segs)" for cid
    using no_shorter_longer [OF Cons.IH] .
  with Cons.IH show ?case by (simp add: no_shorter_def)
qed

end
