(* ===== verification/GoPaths.thy ===== *)
theory GoPaths
  imports GoStrings
begin

text \<open>
  More of Go's standard library: \<open>bufio.Scanner\<close> over lines with its limit on the length of a
  token, \<open>strings.SplitN\<close> with two parts, and the lexical \<open>filepath.Clean\<close> and
  \<open>filepath.Join\<close> on slash-separated paths.
\<close>

section \<open>Scanning lines\<close>

definition max_scan_token :: nat where "max_scan_token = 64 * 1024"

definition drop_cr :: "gostring \<Rightarrow> gostring" where
  "drop_cr line = (if line \<noteq> [] \<and> last line = char_of (13::nat) then butlast line else line)"

text \<open>
  The tokens of \<open>bufio.ScanLines\<close>: lines without their terminator and without one trailing
  carriage return. The scan ends at the first line that does not fit into the buffer.
\<close>

definition raw_lines :: "bytes \<Rightarrow> gostring list" where
  "raw_lines data =
     (let parts = split_on (CHR 0x0A) data in if last parts = [] then butlast parts else parts)"

definition scan_lines :: "bytes \<Rightarrow> gostring list" where
  "scan_lines data = map drop_cr (takeWhile (\<lambda>l. length l < max_scan_token) (raw_lines data))"

lemma raw_lines_no_newline: "l \<in> set (raw_lines data) \<Longrightarrow> CHR 0x0A \<notin> set l"
  by (auto simp: raw_lines_def Let_def dest!: in_set_butlastD split_on_parts split: if_splits)

lemma scan_lines_no_newline: "l \<in> set (scan_lines data) \<Longrightarrow> CHR 0x0A \<notin> set l"
  by (auto simp: scan_lines_def drop_cr_def dest!: set_takeWhileD in_set_butlastD
      dest: raw_lines_no_newline in_set_butlastD split: if_splits)

section \<open>Cutting at a separator\<close>

text \<open>\<open>strings.SplitN(s, sep, 2)\<close>: \<open>None\<close> when the separator does not occur.\<close>

fun cut :: "gostring \<Rightarrow> gostring \<Rightarrow> (gostring \<times> gostring) option" where
  "cut sep [] = (if sep = [] then Some ([], []) else None)"
| "cut sep (c # s) =
     (if HasPrefix (c # s) sep then Some ([], drop (length sep) (c # s))
      else (case cut sep s of None \<Rightarrow> None | Some (a, b) \<Rightarrow> Some (c # a, b)))"

lemma cut_join: "cut sep s = Some (a, b) \<Longrightarrow> s = a @ sep @ b"
proof (induction sep s arbitrary: a rule: cut.induct)
  case (1 sep)
  then show ?case by (simp split: if_splits)
next
  case (2 sep c s)
  show ?case
  proof (cases "HasPrefix (c # s) sep")
    case True
    with 2(2) show ?thesis by (metis HasPrefix_def append_Nil append_take_drop_id cut.simps(2) option.inject prod.inject)
  next
    case False
    with 2 show ?thesis by (auto split: option.splits)
  qed
qed

section \<open>Lexical paths\<close>

definition clean_step :: "bool \<Rightarrow> gostring \<Rightarrow> gostring list \<Rightarrow> gostring list" where
  "clean_step rooted seg out =
     (if seg = '''' \<or> seg = ''.'' then out
      else if seg = ''..'' then
        (if out \<noteq> [] \<and> last out \<noteq> ''..'' then butlast out
         else if rooted then out else out @ [''..''])
      else out @ [seg])"

fun join_slash :: "gostring list \<Rightarrow> gostring" where
  "join_slash [] = ''''"
| "join_slash [s] = s"
| "join_slash (s # ss) = s @ CHR ''/'' # join_slash ss"

definition clean_segments :: "gostring \<Rightarrow> gostring list" where
  "clean_segments p = fold (clean_step (HasPrefix p ''/'')) (split_on (CHR ''/'') p) []"

definition path_Clean :: "gostring \<Rightarrow> gostring" where
  "path_Clean p =
     (let out = join_slash (clean_segments p)
      in if HasPrefix p ''/'' then CHR ''/'' # out else if out = '''' then ''.'' else out)"

definition path_Join :: "gostring list \<Rightarrow> gostring" where
  "path_Join elems =
     (let elems = filter (\<lambda>e. e \<noteq> '''') elems
      in if elems = [] then '''' else path_Clean (join_slash elems))"

end
