(* ===== verification/Host.thy ===== *)
theory Host
  imports GoPaths
begin

text \<open>
  What the enforcement components see of the machine and of the Docker daemon, neither of which
  is code of the repository. \<open>Host\<close> is a record of answers, an argument of every operation that
  asks; \<open>World\<close> adds the log of the actions tried, each with whether it was accepted. The
  errors of \<open>src/internal/proxy/mitigator/signal.go\<close> are here too.
\<close>

section \<open>Errors\<close>

datatype errno = EPERM | ESRCH | EACCES | ENOENT | OtherErrno nat

text \<open>The error that \<open>errors.Is\<close> finds inside a wrapped error.\<close>

datatype sentinel =
    ErrProcessNotExist | ErrPermissionDenied | ErrProcessAlreadyExited | SystemError gostring

text \<open>An error is its text and the wrapped cause.\<close>

datatype go_error = GoError (error_text: gostring) (error_cause: sentinel)

fun sentinel_text :: "sentinel \<Rightarrow> gostring" where
  "sentinel_text ErrProcessNotExist = ''process does not exist''"
| "sentinel_text ErrPermissionDenied = ''permission denied: requires root or CAP_KILL''"
| "sentinel_text ErrProcessAlreadyExited = ''process has already exited''"
| "sentinel_text (SystemError text) = text"

text \<open>\<open>fmt.Errorf("<text>: %w", cause)\<close>\<close>

definition wrap_cause :: "gostring \<Rightarrow> sentinel \<Rightarrow> go_error" where
  "wrap_cause text cause = GoError (text @ '': '' @ sentinel_text cause) cause"

definition wrap_error :: "gostring \<Rightarrow> go_error \<Rightarrow> go_error" where
  "wrap_error text err = GoError (text @ '': '' @ error_text err) (error_cause err)"

section \<open>The host\<close>

datatype Signal = SIGSTOP | SIGCONT

text \<open>How \<open>os.FindProcess\<close> followed by \<open>Process.Signal\<close> ends.\<close>

datatype signal_result =
    SignalDelivered | FindProcessFailed gostring | ProcessDone | SignalErrno errno | SignalFailed gostring

record Host =
  h_signal :: "Signal \<Rightarrow> int \<Rightarrow> signal_result"
  h_dockerClient :: "gostring \<Rightarrow> bool"
  h_dockerPing :: bool
  h_containerPause :: "gostring \<Rightarrow> bool"
  h_containerUnpause :: "gostring \<Rightarrow> bool"
  h_writeFile :: "gostring \<Rightarrow> bytes \<Rightarrow> errno option"
  h_readFile :: "gostring \<Rightarrow> bytes option"
  h_readDir :: "gostring \<Rightarrow> gostring + (gostring \<times> bool) list"
  h_exists :: "gostring \<Rightarrow> bool"
  h_errnoText :: "errno \<Rightarrow> gostring"

datatype Attempt =
    SendSignal Signal int | DockerPause gostring | DockerUnpause gostring | WriteFile gostring bytes

record World =
  w_host :: Host
  w_log :: "(Attempt \<times> bool) list"

definition attempt :: "World \<Rightarrow> Attempt \<Rightarrow> bool \<Rightarrow> World" where
  "attempt w a accepted = w\<lparr>w_log := w_log w @ [(a, accepted)]\<rparr>"

lemma attempt_simps [simp]:
  "w_host (attempt w a ok) = w_host w" "w_log (attempt w a ok) = w_log w @ [(a, ok)]"
  by (simp_all add: attempt_def)

definition deliver :: "World \<Rightarrow> Signal \<Rightarrow> int \<Rightarrow> signal_result \<times> World" where
  "deliver w sig pid =
     (let r = h_signal (w_host w) sig pid in (r, attempt w (SendSignal sig pid) (r = SignalDelivered)))"

text \<open>The processes stopped by the accepted signals of a log.\<close>

definition stopped_after :: "(Attempt \<times> bool) list \<Rightarrow> int set \<Rightarrow> int set" where
  "stopped_after entries S = fold (\<lambda>(a, ok) S.
     if ok then (case a of SendSignal SIGSTOP pid \<Rightarrow> insert pid S | SendSignal SIGCONT pid \<Rightarrow> S - {pid} | _ \<Rightarrow> S)
     else S) entries S"

lemma stopped_after_simps [simp]:
  "stopped_after [] S = S"
  "stopped_after (xs @ ys) S = stopped_after ys (stopped_after xs S)"
  by (simp_all add: stopped_after_def)

end
