(* ===== verification/Containers.thy ===== *)
theory Containers
  imports Host
begin

text \<open>
  Freezing and thawing: the signals of \<open>src/internal/proxy/mitigator/signal_linux.go\<close> and the
  container manager of \<open>src/internal/proxy/mitigator/container_linux.go\<close>, which pauses through
  Docker and falls back on the cgroup freezer. An operation returns its error, if any, and the
  world with the attempts it made.
\<close>

section \<open>Signals\<close>

definition signal_process :: "gostring \<Rightarrow> Signal \<Rightarrow> World \<Rightarrow> int \<Rightarrow> go_error option \<times> World" where
  "signal_process verb sig w pid =
     (let (r, w) = deliver w sig pid; what = verb @ '' pid '' @ format_int pid
      in (case r of
            SignalDelivered \<Rightarrow> None
          | FindProcessFailed text \<Rightarrow> Some (wrap_cause (verb @ '': find pid '' @ format_int pid) (SystemError text))
          | ProcessDone \<Rightarrow> Some (wrap_cause what ErrProcessAlreadyExited)
          | SignalErrno EPERM \<Rightarrow> Some (wrap_cause what ErrPermissionDenied)
          | SignalErrno ESRCH \<Rightarrow> Some (wrap_cause what ErrProcessNotExist)
          | SignalErrno e \<Rightarrow> Some (wrap_cause what (SystemError (h_errnoText (w_host w) e)))
          | SignalFailed text \<Rightarrow> Some (wrap_cause what (SystemError text)), w))"

definition FreezeProcess :: "World \<Rightarrow> int \<Rightarrow> go_error option \<times> World" where
  "FreezeProcess w pid = signal_process ''freeze'' SIGSTOP w pid"

definition UnfreezeProcess :: "World \<Rightarrow> int \<Rightarrow> go_error option \<times> World" where
  "UnfreezeProcess w pid = signal_process ''unfreeze'' SIGCONT w pid"

section \<open>The container manager\<close>

record containerManager =
  cm_dockerEnabled :: bool
  cm_dockerOnce :: bool
  cm_dockerClient :: bool
  cm_dockerHost :: gostring
  cm_dockerTimeout :: duration
  cm_cgroupRoot :: gostring
  cm_procRoot :: gostring

definition newContainerManager :: "gostring \<Rightarrow> bool \<Rightarrow> duration \<Rightarrow> gostring \<Rightarrow> gostring \<Rightarrow> containerManager" where
  "newContainerManager dockerHost dockerEnabled dockerTimeout cgroupRoot procRoot =
     \<lparr>cm_dockerEnabled = dockerEnabled, cm_dockerOnce = False, cm_dockerClient = False,
      cm_dockerHost = dockerHost, cm_dockerTimeout = dockerTimeout,
      cm_cgroupRoot = cgroupRoot, cm_procRoot = procRoot\<rparr>"

text \<open>
  \<open>docker\<close> connects on its first call only. Its result is whether there is a client and
  whether this call failed to make one.
\<close>

definition docker :: "containerManager \<Rightarrow> World \<Rightarrow> (bool \<times> bool) \<times> containerManager" where
  "docker cm w =
     (if cm_dockerOnce cm then ((cm_dockerClient cm, False), cm)
      else
        (let cm = cm\<lparr>cm_dockerOnce := True\<rparr>
         in if \<not> h_dockerClient (w_host w) (cm_dockerHost cm) then ((cm_dockerClient cm, True), cm)
            else if \<not> h_dockerPing (w_host w) then ((cm_dockerClient cm, True), cm)
            else (let cm = cm\<lparr>cm_dockerClient := True\<rparr> in ((cm_dockerClient cm, False), cm))))"

text \<open>The path below the cgroup root in one line of \<open>/proc/<pid>/cgroup\<close>; \<open>None\<close> continues the scan.\<close>

definition strip_slash :: "gostring \<Rightarrow> gostring" where
  "strip_slash path = (if path \<noteq> '''' \<and> path ! 0 = CHR ''/'' then drop 1 path else path)"

definition cgroup_line_path :: "gostring \<Rightarrow> gostring \<Rightarrow> gostring option" where
  "cgroup_line_path containerID raw =
     (let line = TrimSpace raw
      in if line = '''' then None
         else if \<not> Contains line containerID then None
         else (case cut ''::'' line of
                 Some (_, rest) \<Rightarrow> Some (strip_slash (TrimSpace rest))
               | None \<Rightarrow>
                   (let idx = LastIndexByte line (CHR '':'')
                    in if idx < 0 then None else Some (strip_slash (TrimSpace (drop (nat (idx + 1)) line))))))"

fun first_path :: "gostring \<Rightarrow> gostring list \<Rightarrow> gostring" where
  "first_path containerID [] = ''''"
| "first_path containerID (line # lines) =
     (case cgroup_line_path containerID line of None \<Rightarrow> first_path containerID lines | Some path \<Rightarrow> path)"

definition matchCgroupPath :: "bytes \<Rightarrow> gostring \<Rightarrow> gostring" where
  "matchCgroupPath data containerID = first_path containerID (scan_lines data)"

text \<open>A directory entry whose name starts with a digit. A name in a directory is never empty.\<close>

definition pid_entry :: "gostring \<times> bool \<Rightarrow> bool" where
  "pid_entry entry \<longleftrightarrow> snd entry \<and> (CHR ''0'' \<le> fst entry ! 0 \<and> fst entry ! 0 \<le> CHR ''9'')"

fun search_entries :: "containerManager \<Rightarrow> Host \<Rightarrow> gostring \<Rightarrow> (gostring \<times> bool) list \<Rightarrow> gostring option" where
  "search_entries cm h containerID [] = None"
| "search_entries cm h containerID (entry # entries) =
     (if \<not> pid_entry entry then search_entries cm h containerID entries
      else (case h_readFile h (path_Join [cm_procRoot cm, fst entry, ''cgroup'']) of
              None \<Rightarrow> search_entries cm h containerID entries
            | Some data \<Rightarrow>
                (let path = matchCgroupPath data containerID
                 in if path \<noteq> '''' then Some path else search_entries cm h containerID entries)))"

definition resolveCgroupPath :: "containerManager \<Rightarrow> Host \<Rightarrow> gostring \<Rightarrow> go_error + gostring" where
  "resolveCgroupPath cm h containerID =
     (case h_readDir h (cm_procRoot cm) of
        Inl text \<Rightarrow> Inl (wrap_cause (''read '' @ cm_procRoot cm) (SystemError text))
      | Inr entries \<Rightarrow>
          (case search_entries cm h containerID entries of
             None \<Rightarrow> Inl (let text = ''container '' @ containerID @ '': cgroup path not found''
                          in GoError text (SystemError text))
           | Some path \<Rightarrow> Inr path))"

definition cgroupFreeze :: "containerManager \<Rightarrow> World \<Rightarrow> gostring \<Rightarrow> bool \<Rightarrow> go_error option \<times> World" where
  "cgroupFreeze cm w containerID freeze =
     (case resolveCgroupPath cm (w_host w) containerID of
        Inl err \<Rightarrow> (Some (wrap_error ''cgroup freeze'' err), w)
      | Inr path \<Rightarrow>
          (let freezePath = path_Join [cm_cgroupRoot cm, path, ''cgroup.freeze''];
               val = (if freeze then ''1'' else ''0'');
               r = h_writeFile (w_host w) freezePath val;
               w = attempt w (WriteFile freezePath val) (r = None)
           in (case r of
                 None \<Rightarrow> None
               | Some e \<Rightarrow>
                   if e = EACCES \<or> e = EPERM
                   then Some (wrap_cause (''cgroup freeze write '' @ freezePath) ErrPermissionDenied)
                   else if e = ENOENT
                   then Some (wrap_cause (''cgroup freeze path '' @ freezePath) ErrProcessNotExist)
                   else Some (wrap_cause (''cgroup freeze write '' @ freezePath)
                     (SystemError (h_errnoText (w_host w) e))), w)))"

definition Pause :: "containerManager \<Rightarrow> World \<Rightarrow> gostring \<Rightarrow> go_error option \<times> containerManager \<times> World" where
  "Pause cm w containerID =
     (let ((cli, initErr), cm) = (if cm_dockerEnabled cm then docker cm w else ((False, False), cm))
      in if cli \<and> \<not> initErr
         then (let ok = h_containerPause (w_host w) containerID; w = attempt w (DockerPause containerID) ok
               in if ok then (None, cm, w)
                  else (let (err, w) = cgroupFreeze cm w containerID True in (err, cm, w)))
         else (let (err, w) = cgroupFreeze cm w containerID True in (err, cm, w)))"

definition Unpause :: "containerManager \<Rightarrow> World \<Rightarrow> gostring \<Rightarrow> go_error option \<times> containerManager \<times> World" where
  "Unpause cm w containerID =
     (let ((cli, initErr), cm) = (if cm_dockerEnabled cm then docker cm w else ((False, False), cm))
      in if cli \<and> \<not> initErr
         then (let ok = h_containerUnpause (w_host w) containerID; w = attempt w (DockerUnpause containerID) ok
               in if ok then (None, cm, w)
                  else (let (err, w) = cgroupFreeze cm w containerID False in (err, cm, w)))
         else (let (err, w) = cgroupFreeze cm w containerID False in (err, cm, w)))"

section \<open>What an operation does to the world\<close>

text \<open>The attempts that freezing (or thawing) a container makes.\<close>

fun container_attempt :: "gostring \<Rightarrow> bool \<Rightarrow> Attempt \<Rightarrow> bool" where
  "container_attempt cid freeze (SendSignal s p) = False"
| "container_attempt cid freeze (DockerPause c) = (freeze \<and> c = cid)"
| "container_attempt cid freeze (DockerUnpause c) = (\<not> freeze \<and> c = cid)"
| "container_attempt cid freeze (WriteFile p v) = (v = (if freeze then ''1'' else ''0''))"

text \<open>
  \<open>tried w P err w'\<close>: the same host, some attempts of kind \<open>P\<close>, and the last of them accepted
  when there is no error.
\<close>

definition tried :: "World \<Rightarrow> (Attempt \<Rightarrow> bool) \<Rightarrow> go_error option \<Rightarrow> World \<Rightarrow> bool" where
  "tried w P err w' \<longleftrightarrow> w_host w' = w_host w \<and>
     (\<exists>new. w_log w' = w_log w @ new \<and> (\<forall>(a, ok) \<in> set new. P a) \<and> (err = None \<longrightarrow> new \<noteq> [] \<and> snd (last new)))"

lemma signal_process_result:
  assumes "signal_process verb sig w pid = (err, w')"
  shows "w_host w' = w_host w" and "w_log w' = w_log w @ [(SendSignal sig pid, err = None)]"
  using assms
  by (auto simp: signal_process_def deliver_def Let_def split: signal_result.splits errno.splits)

lemma FreezeProcess_result:
  "FreezeProcess w pid = (err, w') \<Longrightarrow> w_host w' = w_host w \<and> w_log w' = w_log w @ [(SendSignal SIGSTOP pid, err = None)]"
  unfolding FreezeProcess_def using signal_process_result by blast

lemma UnfreezeProcess_result:
  "UnfreezeProcess w pid = (err, w') \<Longrightarrow> w_host w' = w_host w \<and> w_log w' = w_log w @ [(SendSignal SIGCONT pid, err = None)]"
  unfolding UnfreezeProcess_def using signal_process_result by blast

lemma signal_process_delivered:
  "h_signal (w_host w) sig pid = SignalDelivered \<Longrightarrow> fst (signal_process verb sig w pid) = None"
  by (simp add: signal_process_def deliver_def Let_def)

lemma cgroupFreeze_tried:
  assumes "cgroupFreeze cm w cid freeze = (err, w')"
  shows "tried w (container_attempt cid freeze) err w'"
proof (cases "resolveCgroupPath cm (w_host w) cid")
  case (Inl e)
  then show ?thesis using assms by (auto simp: cgroupFreeze_def tried_def)
next
  case (Inr path)
  let ?p = "path_Join [cm_cgroupRoot cm, path, ''cgroup.freeze'']" and ?v = "if freeze then ''1'' else ''0''"
  have "w' = attempt w (WriteFile ?p ?v) (h_writeFile (w_host w) ?p ?v = None)"
    and "err = None \<longleftrightarrow> h_writeFile (w_host w) ?p ?v = None"
    using assms Inr by (auto simp: cgroupFreeze_def Let_def split: option.splits if_splits)
  then show ?thesis by (simp add: tried_def)
qed

lemma tried_after_attempt:
  assumes "tried (attempt w a False) P err w'" "P a"
  shows "tried w P err w'"
proof -
  obtain new where "w_host w' = w_host w" "w_log w' = w_log w @ (a, False) # new"
    "\<forall>(a, ok) \<in> set new. P a" "err = None \<longrightarrow> new \<noteq> [] \<and> snd (last new)"
    using assms(1) by (auto simp: tried_def)
  then show ?thesis
    unfolding tried_def using assms(2) by (intro conjI exI [of _ "(a, False) # new"]) auto
qed

lemma Pause_tried:
  assumes "Pause cm w cid = (err, cm', w')"
  shows "tried w (container_attempt cid True) err w'"
proof -
  obtain cli initErr cm1 where d: "(if cm_dockerEnabled cm then docker cm w else ((False, False), cm)) = ((cli, initErr), cm1)"
    by (metis prod.collapse)
  consider (frozen) "cgroupFreeze cm1 w cid True = (err, w')"
    | (paused) "err = None" "w' = attempt w (DockerPause cid) True"
    | (fallback) "cgroupFreeze cm1 (attempt w (DockerPause cid) False) cid True = (err, w')"
    using assms unfolding Pause_def d by (auto simp: Let_def split: if_splits prod.splits)
  then show ?thesis
  proof cases
    case frozen
    then show ?thesis by (rule cgroupFreeze_tried)
  next
    case paused
    then show ?thesis by (simp add: tried_def)
  next
    case fallback
    then show ?thesis by (rule tried_after_attempt [OF cgroupFreeze_tried]) simp
  qed
qed

lemma Unpause_tried:
  assumes "Unpause cm w cid = (err, cm', w')"
  shows "tried w (container_attempt cid False) err w'"
proof -
  obtain cli initErr cm1 where d: "(if cm_dockerEnabled cm then docker cm w else ((False, False), cm)) = ((cli, initErr), cm1)"
    by (metis prod.collapse)
  consider (thawed) "cgroupFreeze cm1 w cid False = (err, w')"
    | (unpaused) "err = None" "w' = attempt w (DockerUnpause cid) True"
    | (fallback) "cgroupFreeze cm1 (attempt w (DockerUnpause cid) False) cid False = (err, w')"
    using assms unfolding Unpause_def d by (auto simp: Let_def split: if_splits prod.splits)
  then show ?thesis
  proof cases
    case thawed
    then show ?thesis by (rule cgroupFreeze_tried)
  next
    case unpaused
    then show ?thesis by (simp add: tried_def)
  next
    case fallback
    then show ?thesis by (rule tried_after_attempt [OF cgroupFreeze_tried]) simp
  qed
qed

text \<open>The set of stopped processes is untouched by what is done to containers.\<close>

lemma stopped_after_container:
  "\<forall>(a, ok) \<in> set new. container_attempt cid fr a \<Longrightarrow> stopped_after new S = S"
  by (induction new arbitrary: S) (auto simp: stopped_after_def split: Attempt.splits)

end
