(* ===== verification/RingBuffer.thy ===== *)
theory RingBuffer
  imports Prelude
begin

text \<open>
  The telemetry ring buffer of \<open>src/internal/proxy/pipeline/ringbuffer.go\<close>: a byte-bounded
  queue of payloads that drops the oldest entries to make room. Each operation runs under the
  buffer's mutex and is one definition; an out-of-range index would panic and is the value
  \<open>None\<close>. The section on the abstract buffer states the contract the streamer relies on as a
  locale and interprets it on these operations.
\<close>

section \<open>State and operations\<close>

record RingBuffer =
  rb_entries :: "bytes list"
  rb_writeIdx :: int
  rb_count :: int
  rb_curBytes :: int
  rb_maxBytes :: int

definition DefaultRingBufferMaxBytes :: int where
  "DefaultRingBufferMaxBytes = 50 * 1024 * 1024"

definition NewRingBuffer :: "int \<Rightarrow> RingBuffer" where
  "NewRingBuffer maxBytes =
     (let maxBytes = (if maxBytes \<le> 0 then DefaultRingBufferMaxBytes else maxBytes)
      in \<lparr>rb_entries = [], rb_writeIdx = 0, rb_count = 0, rb_curBytes = 0, rb_maxBytes = maxBytes\<rparr>)"

text \<open>Taking the head entry out, as \<open>popLocked\<close> and the body of \<open>Drain\<close> do.\<close>

definition take_head :: "RingBuffer \<Rightarrow> (bytes \<times> RingBuffer) option" where
  "take_head rb =
     (case rb_entries rb of
        [] \<Rightarrow> None
      | entry # rest \<Rightarrow>
          Some (entry, rb\<lparr>rb_entries := rest,
                          rb_curBytes := rb_curBytes rb - int (length entry),
                          rb_count := rb_count rb - 1\<rparr>))"

definition popLocked :: "RingBuffer \<Rightarrow> (bytes \<times> RingBuffer) option" where
  "popLocked rb = (if rb_count rb = 0 then Some ([], rb) else take_head rb)"

lemma popLocked_decreases:
  "popLocked rb = Some (e, rb') \<Longrightarrow> 0 < rb_count rb \<Longrightarrow> length (rb_entries rb') < length (rb_entries rb)"
  by (auto simp: popLocked_def take_head_def split: list.splits)

function push_evict :: "RingBuffer \<Rightarrow> int \<Rightarrow> RingBuffer option" where
  "push_evict rb dataLen =
     (if rb_curBytes rb + dataLen > rb_maxBytes rb \<and> rb_count rb > 0
      then (case popLocked rb of None \<Rightarrow> None | Some (_, rb') \<Rightarrow> push_evict rb' dataLen)
      else Some rb)"
  by pat_completeness auto
termination
  by (relation "measure (\<lambda>(rb, n). length (rb_entries rb))") (auto dest: popLocked_decreases)

declare push_evict.simps [simp del]

definition Push :: "RingBuffer \<Rightarrow> bytes \<Rightarrow> RingBuffer option" where
  "Push rb data =
     (if length data = 0 then Some rb
      else (case push_evict rb (int (length data)) of
              None \<Rightarrow> None
            | Some rb' \<Rightarrow>
                Some (rb'\<lparr>rb_entries := rb_entries rb' @ [data],
                          rb_curBytes := rb_curBytes rb' + int (length data),
                          rb_count := rb_count rb' + 1\<rparr>)))"

definition Pop :: "RingBuffer \<Rightarrow> (bytes option \<times> RingBuffer) option" where
  "Pop rb =
     (if rb_count rb = 0 then Some (None, rb)
      else (case popLocked rb of None \<Rightarrow> None | Some (entry, rb') \<Rightarrow> Some (Some entry, rb')))"

fun drain_loop :: "nat \<Rightarrow> RingBuffer \<Rightarrow> (bytes list \<times> RingBuffer) option" where
  "drain_loop 0 rb = Some ([], rb)"
| "drain_loop (Suc n) rb =
     (case take_head rb of
        None \<Rightarrow> None
      | Some (entry, rb') \<Rightarrow>
          (case drain_loop n rb' of None \<Rightarrow> None | Some (out, rb'') \<Rightarrow> Some (entry # out, rb'')))"

definition Drain :: "RingBuffer \<Rightarrow> int \<Rightarrow> (bytes list \<times> RingBuffer) option" where
  "Drain rb maxEntries =
     (let maxEntries = (if maxEntries \<le> 0 then 100 else maxEntries)
      in if rb_count rb = 0 then Some ([], rb)
         else (let n = (if maxEntries > rb_count rb then rb_count rb else maxEntries)
               in if n < 0 then None else drain_loop (nat n) rb))"

definition Peek :: "RingBuffer \<Rightarrow> bytes option option" where
  "Peek rb =
     (if rb_count rb = 0 then Some None
      else (case rb_entries rb of [] \<Rightarrow> None | entry # _ \<Rightarrow> Some (Some entry)))"

definition Len :: "RingBuffer \<Rightarrow> int" where "Len rb = rb_count rb"

definition Bytes :: "RingBuffer \<Rightarrow> int" where "Bytes rb = rb_curBytes rb"

definition Capacity :: "RingBuffer \<Rightarrow> int" where "Capacity rb = rb_maxBytes rb"

definition Close :: "RingBuffer \<Rightarrow> RingBuffer" where
  "Close rb = rb\<lparr>rb_entries := [], rb_count := 0, rb_curBytes := 0\<rparr>"

definition Reset :: "RingBuffer \<Rightarrow> RingBuffer" where
  "Reset rb = rb\<lparr>rb_entries := [], rb_count := 0, rb_curBytes := 0, rb_writeIdx := 0\<rparr>"

section \<open>Well-formed buffers\<close>

definition total_bytes :: "bytes list \<Rightarrow> int" where
  "total_bytes xs = int (sum_list (map length xs))"

lemma total_bytes_simps [simp]:
  "total_bytes [] = 0"
  "total_bytes (x # xs) = int (length x) + total_bytes xs"
  "total_bytes (xs @ ys) = total_bytes xs + total_bytes ys"
  by (simp_all add: total_bytes_def)

lemma total_bytes_nonneg [simp]: "0 \<le> total_bytes xs"
  by (simp add: total_bytes_def)

text \<open>
  The cached counters agree with the entries, no entry is empty, and the byte bound holds,
  except that a single entry larger than the whole buffer is kept on its own.
\<close>

definition rb_inv :: "RingBuffer \<Rightarrow> bool" where
  "rb_inv rb \<longleftrightarrow>
     rb_count rb = int (length (rb_entries rb)) \<and>
     rb_curBytes rb = total_bytes (rb_entries rb) \<and>
     [] \<notin> set (rb_entries rb) \<and>
     (rb_curBytes rb \<le> rb_maxBytes rb \<or> length (rb_entries rb) = 1) \<and>
     0 < rb_maxBytes rb"

lemma rb_inv_count: "rb_inv rb \<Longrightarrow> rb_count rb = int (length (rb_entries rb))"
  by (simp add: rb_inv_def)

lemma rb_inv_count_0 [simp]: "rb_inv rb \<Longrightarrow> rb_count rb = 0 \<longleftrightarrow> rb_entries rb = []"
  by (simp add: rb_inv_def)

lemma rb_inv_NewRingBuffer [inv_intros]: "rb_inv (NewRingBuffer n)"
  by (simp add: rb_inv_def NewRingBuffer_def DefaultRingBufferMaxBytes_def Let_def)

lemma rb_inv_tail:
  assumes "rb_inv rb" and "take_head rb = Some (e, rb')"
  shows "rb_inv rb' \<and> rb_entries rb = e # rb_entries rb' \<and> rb_maxBytes rb' = rb_maxBytes rb"
  using assms by (auto simp: rb_inv_def take_head_def split: list.splits)

lemma take_head_Cons:
  "rb_entries rb = e # es \<Longrightarrow> \<exists>rb'. take_head rb = Some (e, rb') \<and> rb_entries rb' = es"
  by (simp add: take_head_def)

lemma rb_inv_Close [inv_intros]: "rb_inv rb \<Longrightarrow> rb_inv (Close rb)"
  by (simp add: rb_inv_def Close_def)

lemma rb_inv_Reset [inv_intros]: "rb_inv rb \<Longrightarrow> rb_inv (Reset rb)"
  by (simp add: rb_inv_def Reset_def)

section \<open>The abstract buffer: a queue that drops its oldest entries\<close>

text \<open>
  Dropping from the front until \<open>n\<close> more bytes fit, or nothing is left.
\<close>

fun drop_oldest :: "int \<Rightarrow> int \<Rightarrow> bytes list \<Rightarrow> bytes list" where
  "drop_oldest bnd n [] = []"
| "drop_oldest bnd n (x # xs) =
     (if total_bytes (x # xs) + n > bnd then drop_oldest bnd n xs else x # xs)"

lemma drop_oldest_fits: "drop_oldest bnd n xs \<noteq> [] \<Longrightarrow> total_bytes (drop_oldest bnd n xs) + n \<le> bnd"
  by (induction xs) (auto split: if_splits)

lemma suffix_drop_oldest: "suffix (drop_oldest bnd n xs) xs"
  by (induction xs) (auto simp: suffix_ConsI)

lemma drop_oldest_id: "total_bytes xs + n \<le> bnd \<Longrightarrow> drop_oldest bnd n xs = xs"
  by (cases xs) auto

text \<open>It drops no more than needed: any longer suffix would not leave room.\<close>

lemma drop_oldest_maximal:
  "suffix ys xs \<Longrightarrow> total_bytes ys + n \<le> bnd \<Longrightarrow> suffix ys (drop_oldest bnd n xs)"
proof (induction xs)
  case Nil
  then show ?case by simp
next
  case (Cons x xs)
  show ?case
  proof (cases "ys = x # xs")
    case True
    with Cons.prems show ?thesis by auto
  next
    case False
    with Cons.prems(1) have "suffix ys xs" by (simp add: suffix_Cons)
    with Cons show ?thesis by (auto simp: suffix_ConsI)
  qed
qed

lemma push_evict_spec:
  "rb_inv rb \<Longrightarrow> \<exists>rb'. push_evict rb n = Some rb' \<and> rb_inv rb' \<and> rb_maxBytes rb' = rb_maxBytes rb \<and>
     rb_entries rb' = drop_oldest (rb_maxBytes rb) n (rb_entries rb)"
proof (induction rb n rule: push_evict.induct)
  case (1 rb n)
  show ?case
  proof (cases "rb_curBytes rb + n > rb_maxBytes rb \<and> rb_count rb > 0")
    case True
    then obtain e es where es: "rb_entries rb = e # es"
      using 1(2) by (cases "rb_entries rb") (simp_all add: rb_inv_def)
    then obtain rb' where rb': "take_head rb = Some (e, rb')" "rb_entries rb' = es"
      using take_head_Cons by blast
    then have pop: "popLocked rb = Some (e, rb')"
      using True by (simp add: popLocked_def)
    have tail: "rb_inv rb'" "rb_maxBytes rb' = rb_maxBytes rb"
      using rb_inv_tail [OF 1(2) rb'(1)] by auto
    have "rb_curBytes rb = total_bytes (e # es)"
      using 1(2) es by (simp add: rb_inv_def)
    then show ?thesis
      using 1(1) [OF True pop, of e rb'] True pop es rb' tail by (auto simp: push_evict.simps [of rb])
  next
    case False
    then have "rb_entries rb = [] \<or> total_bytes (rb_entries rb) + n \<le> rb_maxBytes rb"
      using 1(2) by (auto simp: rb_inv_def)
    with False 1(2) show ?thesis
      by (auto simp: push_evict.simps [of rb] drop_oldest_id)
  qed
qed

lemma Push_spec:
  assumes "rb_inv rb"
  shows "\<exists>rb'. Push rb d = Some rb' \<and> rb_inv rb' \<and> rb_maxBytes rb' = rb_maxBytes rb \<and>
    rb_entries rb' =
      (if d = [] then rb_entries rb
       else drop_oldest (rb_maxBytes rb) (int (length d)) (rb_entries rb) @ [d])"
proof (cases "d = []")
  case True
  with assms show ?thesis by (simp add: Push_def)
next
  case False
  obtain rb' where rb': "push_evict rb (int (length d)) = Some rb'" "rb_inv rb'"
      "rb_maxBytes rb' = rb_maxBytes rb"
      "rb_entries rb' = drop_oldest (rb_maxBytes rb) (int (length d)) (rb_entries rb)"
    using push_evict_spec [OF assms] by blast
  moreover have "rb_curBytes rb' + int (length d) \<le> rb_maxBytes rb \<or> rb_entries rb' = []"
    using rb' drop_oldest_fits [of "rb_maxBytes rb" "int (length d)" "rb_entries rb"]
    by (auto simp: rb_inv_def)
  ultimately show ?thesis
    using False by (auto simp: Push_def rb_inv_def)
qed

lemma drain_loop_spec:
  "rb_inv rb \<Longrightarrow> n \<le> length (rb_entries rb) \<Longrightarrow>
   \<exists>rb'. drain_loop n rb = Some (take n (rb_entries rb), rb') \<and> rb_inv rb' \<and>
     rb_maxBytes rb' = rb_maxBytes rb \<and> rb_entries rb' = drop n (rb_entries rb)"
proof (induction n arbitrary: rb)
  case 0
  then show ?case by simp
next
  case (Suc n)
  then obtain e es where es: "rb_entries rb = e # es"
    by (cases "rb_entries rb") auto
  then obtain rb' where rb': "take_head rb = Some (e, rb')" "rb_entries rb' = es"
    using take_head_Cons by blast
  then have "rb_inv rb'" "rb_maxBytes rb' = rb_maxBytes rb"
    using rb_inv_tail [OF Suc.prems(1) rb'(1)] by auto
  moreover have "n \<le> length (rb_entries rb')"
    using Suc.prems(2) es rb' by simp
  ultimately show ?case
    using Suc.IH [of rb'] es rb' by auto
qed

definition drain_count :: "int \<Rightarrow> nat" where
  "drain_count n = nat (if n \<le> 0 then 100 else n)"

lemma drain_count_pos [simp]: "0 < drain_count n"
  by (simp add: drain_count_def)

lemma Drain_spec:
  assumes "rb_inv rb"
  shows "\<exists>rb'. Drain rb n = Some (take (drain_count n) (rb_entries rb), rb') \<and> rb_inv rb' \<and>
     rb_maxBytes rb' = rb_maxBytes rb \<and> rb_entries rb' = drop (drain_count n) (rb_entries rb)"
proof -
  let ?k = "min (drain_count n) (length (rb_entries rb))"
  obtain rb' where "drain_loop ?k rb = Some (take ?k (rb_entries rb), rb')" "rb_inv rb'"
      "rb_maxBytes rb' = rb_maxBytes rb" "rb_entries rb' = drop ?k (rb_entries rb)"
    using drain_loop_spec [OF assms, of ?k] by auto
  moreover have "Drain rb n = (if rb_entries rb = [] then Some ([], rb) else drain_loop ?k rb)"
    using assms rb_inv_count [OF assms]
    by (auto simp: Drain_def drain_count_def Let_def min_def)
  ultimately show ?thesis
    using assms by (auto simp: min_def split: if_splits)
qed

section \<open>The contract other components rely on\<close>

locale drop_oldest_queue =
  fixes push :: "'b \<Rightarrow> bytes \<Rightarrow> 'b option"
    and drain :: "'b \<Rightarrow> int \<Rightarrow> (bytes list \<times> 'b) option"
    and contents :: "'b \<Rightarrow> bytes list"
    and limit :: "'b \<Rightarrow> int"
    and invar :: "'b \<Rightarrow> bool"
  assumes push_law: "invar b \<Longrightarrow> \<exists>b'. push b d = Some b' \<and> invar b' \<and> limit b' = limit b \<and>
      contents b' = (if d = [] then contents b else drop_oldest (limit b) (int (length d)) (contents b) @ [d])"
    and drain_law: "invar b \<Longrightarrow> \<exists>b'. drain b n = Some (take (drain_count n) (contents b), b') \<and> invar b' \<and>
      limit b' = limit b \<and> contents b' = drop (drain_count n) (contents b)"
    and bound_law: "invar b \<Longrightarrow> total_bytes (contents b) \<le> limit b \<or> length (contents b) = 1"
    and nonempty_law: "invar b \<Longrightarrow> [] \<notin> set (contents b)"
begin

fun push_all :: "'b \<Rightarrow> bytes list \<Rightarrow> 'b option" where
  "push_all b [] = Some b"
| "push_all b (d # ds) = (case push b d of None \<Rightarrow> None | Some b' \<Rightarrow> push_all b' ds)"

text \<open>Payloads that fit are appended in order and push nothing out.\<close>

lemma push_all_fits:
  "invar b \<Longrightarrow> [] \<notin> set ds \<Longrightarrow> total_bytes (contents b) + total_bytes ds \<le> limit b \<Longrightarrow>
   \<exists>b'. push_all b ds = Some b' \<and> invar b' \<and> limit b' = limit b \<and> contents b' = contents b @ ds"
proof (induction ds arbitrary: b)
  case Nil
  then show ?case by simp
next
  case (Cons d ds)
  have fits: "total_bytes (contents b) + int (length d) \<le> limit b"
    using Cons.prems(3) total_bytes_nonneg [of ds] by (simp del: total_bytes_nonneg)
  have "d \<noteq> []" using Cons.prems(2) by auto
  then obtain b' where b': "push b d = Some b'" "invar b'" "limit b' = limit b" "contents b' = contents b @ [d]"
    using push_law [OF Cons.prems(1), of d] fits by (auto simp: drop_oldest_id)
  then have "total_bytes (contents b') + total_bytes ds \<le> limit b'"
    using Cons.prems(3) by simp
  then obtain b'' where "push_all b' ds = Some b''" "invar b''" "limit b'' = limit b'"
      "contents b'' = contents b' @ ds"
    using Cons.IH [OF b'(2)] Cons.prems(2) by auto
  with b' show ?case by auto
qed

text \<open>
  Putting back the tail of a drained batch loses nothing: what was drained and what stayed
  fitted together before.
\<close>

lemma requeue_lossless:
  assumes "invar b" and "drain b n = Some (sent @ ds, b1)"
  shows "\<exists>b2. push_all b1 ds = Some b2 \<and> invar b2 \<and> limit b2 = limit b \<and>
    contents b2 = drop (drain_count n) (contents b) @ ds"
proof -
  have b1': "invar b1" "limit b1 = limit b" and c1: "contents b1 = drop (drain_count n) (contents b)"
    and out: "sent @ ds = take (drain_count n) (contents b)"
    using drain_law [OF assms(1), of n] assms(2) by auto
  have parts: "contents b = (sent @ ds) @ contents b1"
    using out c1 by simp
  have ne: "[] \<notin> set ds" using nonempty_law [OF assms(1)] parts by auto
  consider (fits) "total_bytes (contents b) \<le> limit b" | (single) "length (contents b) = 1"
    using bound_law [OF assms(1)] by blast
  then show ?thesis
  proof cases
    case fits
    then have "total_bytes (contents b1) + total_bytes ds \<le> limit b1"
      using parts b1'(2) total_bytes_nonneg [of sent] by (simp del: total_bytes_nonneg)
    from push_all_fits [OF b1'(1) ne this] show ?thesis using b1'(2) c1 by simp
  next
    case single
    then have "ds = [] \<or> (contents b1 = [] \<and> (\<exists>d. ds = [d]))"
      using parts by (cases ds) auto
    then show ?thesis
    proof
      assume "ds = []"
      then show ?thesis using b1' c1 by simp
    next
      assume one: "contents b1 = [] \<and> (\<exists>d. ds = [d])"
      then obtain d where d: "ds = [d]" by blast
      with ne have "d \<noteq> []" by simp
      then obtain b2 where b2: "push b1 d = Some b2" "invar b2" "limit b2 = limit b" "contents b2 = contents b1 @ ds"
        using push_law [OF b1'(1), of d] one b1'(2) d by auto
      show ?thesis
        by (rule exI [of _ b2]) (simp add: b2(1-3) b2(4) [unfolded c1] d)
    qed
  qed
qed

end

interpretation rb: drop_oldest_queue Push Drain rb_entries rb_maxBytes rb_inv
proof unfold_locales
  fix rb :: RingBuffer
  assume inv: "rb_inv rb"
  show "\<exists>rb'. Push rb d = Some rb' \<and> rb_inv rb' \<and> rb_maxBytes rb' = rb_maxBytes rb \<and>
      rb_entries rb' = (if d = [] then rb_entries rb
        else drop_oldest (rb_maxBytes rb) (int (length d)) (rb_entries rb) @ [d])" for d
    by (rule Push_spec [OF inv])
  show "\<exists>rb'. Drain rb n = Some (take (drain_count n) (rb_entries rb), rb') \<and> rb_inv rb' \<and>
      rb_maxBytes rb' = rb_maxBytes rb \<and> rb_entries rb' = drop (drain_count n) (rb_entries rb)" for n
    by (rule Drain_spec [OF inv])
qed (auto simp: rb_inv_def)

lemmas rb_push_law = rb.push_law and rb_drain_law = rb.drain_law

end
