(* ===== verification/SimHash.thy ===== *)
theory SimHash
  imports GoStrings
begin

unbundle bit_operations_syntax

text \<open>
  The SimHash fingerprint of \<open>src/internal/analytics/detector/simhash.go\<close> on 64-bit words,
  with the FNV-1a hash of \<open>hash/fnv\<close> it uses. The lemmas characterise each bit as a majority
  vote of the tokens and make the Hamming distance a metric.
\<close>

section \<open>FNV-1a\<close>

definition fnv_offset :: "64 word" where "fnv_offset = 14695981039346656037"

definition fnv_prime :: "64 word" where "fnv_prime = 1099511628211"

definition fnv_byte :: "char \<Rightarrow> 64 word \<Rightarrow> 64 word" where
  "fnv_byte b h = (h XOR of_nat (of_char b)) * fnv_prime"

definition fnv64a :: "bytes \<Rightarrow> 64 word" where
  "fnv64a bs = fold fnv_byte bs fnv_offset"

definition hashToken :: "gostring \<Rightarrow> 64 word" where
  "hashToken token = fnv64a token"

section \<open>The fingerprint\<close>

definition simhashBitSize :: nat where "simhashBitSize = 64"

text \<open>One token's votes: the inner loop over the bit positions.\<close>

definition cast_votes :: "64 word \<Rightarrow> int list \<Rightarrow> int list" where
  "cast_votes h votes =
     map (\<lambda>i. if bit h i then votes ! i + 1 else votes ! i - 1) [0..<simhashBitSize]"

definition SimHash :: "gostring \<Rightarrow> 64 word" where
  "SimHash text =
     (let tokens = Fields text
      in if length tokens = 0 then 0
         else
           (let votes = fold (\<lambda>token votes. cast_votes (hashToken token) votes) tokens
                          (replicate simhashBitSize 0)
            in fold (\<lambda>i fp. if votes ! i > 0 then fp OR push_bit i 1 else fp)
                 [0..<simhashBitSize] 0))"

definition OnesCount64 :: "64 word \<Rightarrow> nat" where
  "OnesCount64 w = length (filter (bit w) [0..<64])"

definition HammingDistance :: "64 word \<Rightarrow> 64 word \<Rightarrow> nat" where
  "HammingDistance a b = OnesCount64 (a XOR b)"

definition NormalizedSimilarity :: "64 word \<Rightarrow> 64 word \<Rightarrow> real" where
  "NormalizedSimilarity a b = 1 - real (HammingDistance a b) / real simhashBitSize"

section \<open>Each bit is a majority vote\<close>

text \<open>The net vote of a list of token hashes for bit \<open>i\<close>.\<close>

definition net_vote :: "64 word list \<Rightarrow> nat \<Rightarrow> int" where
  "net_vote hs i = (\<Sum>h \<leftarrow> hs. if bit h i then 1 else - 1)"

lemma net_vote_count:
  "net_vote hs i = 2 * int (length (filter (\<lambda>h. bit h i) hs)) - int (length hs)"
  by (induction hs) (auto simp: net_vote_def)

lemma votes_net_vote:
  assumes "length votes = 64" and "i < 64"
  shows "fold (\<lambda>t v. cast_votes (hashToken t) v) ts votes ! i = votes ! i + net_vote (map hashToken ts) i"
  using assms
proof (induction ts arbitrary: votes)
  case Nil
  then show ?case by (simp add: net_vote_def)
next
  case (Cons t ts)
  have "length (cast_votes (hashToken t) votes) = 64"
    by (simp add: cast_votes_def simhashBitSize_def)
  then have "fold (\<lambda>t v. cast_votes (hashToken t) v) (t # ts) votes ! i =
      cast_votes (hashToken t) votes ! i + net_vote (map hashToken ts) i"
    using Cons.IH [of "cast_votes (hashToken t) votes"] Cons.prems(2) by simp
  then show ?case
    using Cons.prems by (simp add: cast_votes_def simhashBitSize_def net_vote_def)
qed

lemma bit_assemble:
  "bit (fold (\<lambda>i fp. if P i then fp OR push_bit i 1 else fp) is fp) j =
   (bit (fp :: 64 word) j \<or> (j < 64 \<and> j \<in> set is \<and> P j))"
  by (induction "is" arbitrary: fp) (auto simp: bit_simps)

lemma bit_SimHash:
  "bit (SimHash text) i \<longleftrightarrow> i < 64 \<and> net_vote (map hashToken (Fields text)) i > 0"
proof (cases "Fields text = []")
  case True
  then show ?thesis by (simp add: SimHash_def net_vote_def)
next
  case False
  let ?v = "fold (\<lambda>token votes. cast_votes (hashToken token) votes) (Fields text) (replicate simhashBitSize 0)"
  have v: "?v ! j = net_vote (map hashToken (Fields text)) j" if "j < 64" for j
    using votes_net_vote [of "replicate simhashBitSize 0" j "Fields text"] that by (simp add: simhashBitSize_def)
  have "SimHash text = fold (\<lambda>i fp. if ?v ! i > 0 then fp OR push_bit i 1 else fp) [0..<64] 0"
    using False by (simp add: SimHash_def Let_def simhashBitSize_def)
  then show ?thesis
    unfolding bit_assemble [where P = "\<lambda>i. ?v ! i > 0"] by (auto simp: bit_assemble v)
qed

lemma net_vote_mset:
  assumes "mset hs = mset hs'"
  shows "net_vote hs i = net_vote hs' i"
proof -
  have "mset (filter (\<lambda>h. bit h i) hs) = mset (filter (\<lambda>h. bit h i) hs')"
    using assms by simp
  then have "length (filter (\<lambda>h. bit h i) hs) = length (filter (\<lambda>h. bit h i) hs')"
    by (rule mset_eq_length)
  with mset_eq_length [OF assms] show ?thesis by (simp add: net_vote_count)
qed

lemma SimHash_bag_of_words:
  assumes "mset (Fields t) = mset (Fields t')"
  shows "SimHash t = SimHash t'"
proof (rule bit_eqI)
  fix i :: nat
  have "net_vote (map hashToken (Fields t)) i = net_vote (map hashToken (Fields t')) i"
    using assms by (intro net_vote_mset) simp
  then show "bit (SimHash t) i = bit (SimHash t') i" by (simp add: bit_SimHash)
qed

section \<open>The Hamming distance\<close>

lemma OnesCount64_card: "OnesCount64 w = card {i. i < 64 \<and> bit w i}"
proof -
  have "card (set (filter (bit w) [0..<64])) = length (filter (bit w) [0..<64])"
    by (intro distinct_card) simp
  moreover have "set (filter (bit w) [0..<64]) = {i. i < 64 \<and> bit w i}" by auto
  ultimately show ?thesis by (simp add: OnesCount64_def)
qed

lemma HammingDistance_card: "HammingDistance a b = card {i. i < 64 \<and> bit a i \<noteq> bit b i}"
  by (simp add: HammingDistance_def OnesCount64_card bit_simps)

lemma HammingDistance_le: "HammingDistance a b \<le> 64"
proof -
  have "card {i. i < 64 \<and> bit a i \<noteq> bit b i} \<le> card {..<64::nat}"
    by (rule card_mono) auto
  then show ?thesis by (simp add: HammingDistance_card)
qed

lemma HammingDistance_refl [simp]: "HammingDistance a a = 0"
  by (simp add: HammingDistance_card)

lemma HammingDistance_eq_0: "HammingDistance a b = 0 \<longleftrightarrow> a = b"
proof
  assume "HammingDistance a b = 0"
  then have "{i. i < 64 \<and> bit a i \<noteq> bit b i} = {}"
    by (simp add: HammingDistance_card)
  then have "\<And>i. i < 64 \<Longrightarrow> bit a i = bit b i" by blast
  then show "a = b" by (intro bit_word_eqI) simp
qed simp

lemma HammingDistance_sym: "HammingDistance a b = HammingDistance b a"
  by (simp add: HammingDistance_def xor.commute)

lemma HammingDistance_triangle: "HammingDistance a c \<le> HammingDistance a b + HammingDistance b c"
proof -
  have "{i. i < 64 \<and> bit a i \<noteq> bit c i} \<subseteq> {i. i < 64 \<and> bit a i \<noteq> bit b i} \<union> {i. i < 64 \<and> bit b i \<noteq> bit c i}"
    by auto
  then have "card {i. i < 64 \<and> bit a i \<noteq> bit c i} \<le>
      card ({i. i < 64 \<and> bit a i \<noteq> bit b i} \<union> {i. i < 64 \<and> bit b i \<noteq> bit c i})"
    by (intro card_mono) auto
  also have "\<dots> \<le> card {i. i < 64 \<and> bit a i \<noteq> bit b i} + card {i. i < 64 \<and> bit b i \<noteq> bit c i}"
    by (rule card_Un_le)
  finally show ?thesis by (simp add: HammingDistance_card)
qed

lemma NormalizedSimilarity_bounds: "0 \<le> NormalizedSimilarity a b \<and> NormalizedSimilarity a b \<le> 1"
  using HammingDistance_le [of a b] by (simp add: NormalizedSimilarity_def simhashBitSize_def)

lemma NormalizedSimilarity_refl [simp]: "NormalizedSimilarity a a = 1"
  by (simp add: NormalizedSimilarity_def)

end
