(* ===== verification/Detector.thy ===== *)
theory Detector
  imports SimHash
begin

text \<open>
  The semantic-loop detector of \<open>src/internal/analytics/detector\<close>: a sliding window of recent
  requests per process, the frequency test, the similarity analysis and the alert channel.
  Readings of the clock are arguments, one for each call of \<open>time.Now\<close> or \<open>time.Since\<close> in the
  source. A window that cannot be allocated (\<open>make\<close> with a negative capacity) panics, which is
  the result \<open>None\<close>.
\<close>

section \<open>Types\<close>

type_synonym LoopType = gostring

definition LoopSemanticRepetition :: LoopType where
  "LoopSemanticRepetition = ''SEMANTIC_REPETITION_LOOP''"

record DetectorConfig =
  dc_WindowSize :: int
  dc_TTL :: duration
  dc_FreqThreshold :: int
  dc_FreqWindow :: duration
  dc_SimilarityThreshold :: real
  dc_AlertCooldown :: duration
  dc_GCInterval :: duration

definition DetectorDefaultConfig :: DetectorConfig where
  "DetectorDefaultConfig = \<lparr>
     dc_WindowSize = 20,
     dc_TTL = 5 * minute_ns,
     dc_FreqThreshold = 5,
     dc_FreqWindow = 10 * second_ns,
     dc_SimilarityThreshold = 88 / 100,
     dc_AlertCooldown = 30 * second_ns,
     dc_GCInterval = 30 * second_ns\<rparr>"

record DetectorEvent =
  de_PID :: int
  de_Timestamp :: int
  de_Provider :: gostring
  de_Model :: gostring
  de_Payload :: gostring

record AlertMetrics =
  am_RequestsInWindow :: int
  am_TimeWindowSeconds :: real
  am_MeanSimilarityIndex :: real

record AlertEvidence =
  ae_Provider :: gostring
  ae_Model :: gostring
  ae_RepeatedPayloadSnippet :: gostring

record AlertSummary =
  as_TargetPID :: int
  as_IsDeadlocked :: bool
  as_ConfidenceScore :: real
  as_LoopType :: LoopType
  as_Metrics :: AlertMetrics

record Alert =
  al_Timestamp :: int
  al_Summary :: AlertSummary
  al_Evidence :: AlertEvidence

record DetectorRecord =
  dr_Timestamp :: int
  dr_Provider :: gostring
  dr_Model :: gostring
  dr_Payload :: gostring
  dr_SimHash :: "64 word"

record ProcessWindow =
  pw_records :: "DetectorRecord list"
  pw_maxSize :: int
  pw_lastAccess :: "time_ns option"
  pw_lastAlertAt :: "time_ns option"

record Detector =
  dt_cfg :: DetectorConfig
  dt_windows :: "int \<rightharpoonup> ProcessWindow"
  dt_alerts :: "Alert list"

section \<open>Operations\<close>

definition NewDetector :: "DetectorConfig \<Rightarrow> Detector" where
  "NewDetector cfg = \<lparr>dt_cfg = cfg, dt_windows = Map.empty, dt_alerts = []\<rparr>"

text \<open>The capacity of the alert channel that \<open>NewDetector\<close> makes.\<close>

definition detector_buffer :: nat where "detector_buffer = 64"

definition getOrCreateWindow :: "Detector \<Rightarrow> int \<Rightarrow> (ProcessWindow \<times> Detector) option" where
  "getOrCreateWindow d pid =
     (case dt_windows d pid of
        Some pw \<Rightarrow> Some (pw, d)
      | None \<Rightarrow>
          if dc_WindowSize (dt_cfg d) < 0 then None
          else
            (let pw = \<lparr>pw_records = [], pw_maxSize = dc_WindowSize (dt_cfg d),
                       pw_lastAccess = None, pw_lastAlertAt = None\<rparr>
             in Some (pw, d\<lparr>dt_windows := (dt_windows d)(pid \<mapsto> pw)\<rparr>)))"

definition isFrequentLocked :: "Detector \<Rightarrow> ProcessWindow \<Rightarrow> int \<Rightarrow> bool" where
  "isFrequentLocked d pw now =
     (if dc_FreqThreshold (dt_cfg d) \<le> 0 then False
      else
        (let cutoff = to_i64 (now - whole_seconds (dc_FreqWindow (dt_cfg d)));
             count = length (takeWhile (\<lambda>r. dr_Timestamp r \<ge> cutoff) (rev (pw_records pw)))
         in int count \<ge> dc_FreqThreshold (dt_cfg d)))"

definition truncatePayload :: "gostring \<Rightarrow> nat \<Rightarrow> gostring" where
  "truncatePayload s maxLen = (if length s \<le> maxLen then s else take maxLen s @ ''...'')"

text \<open>One iteration of the comparison loop: the oldest timestamp, the total and the count.\<close>

definition compare_record :: "DetectorRecord \<Rightarrow> DetectorRecord \<Rightarrow> int \<times> real \<times> int \<Rightarrow> int \<times> real \<times> int" where
  "compare_record newest r = (\<lambda>(oldestTime, totalSimilarity, comparisons).
     (if dr_Timestamp r < oldestTime then dr_Timestamp r else oldestTime,
      totalSimilarity + NormalizedSimilarity (dr_SimHash newest) (dr_SimHash r),
      comparisons + 1))"

text \<open>The alert that \<open>analyzeAndAlert\<close> builds, when it passes every guard.\<close>

definition analyze :: "DetectorConfig \<Rightarrow> int \<Rightarrow> ProcessWindow \<Rightarrow> int \<Rightarrow> time_ns \<Rightarrow> Alert option" where
  "analyze cfg pid pw now t_check =
     (let n = length (pw_records pw)
      in if n < 2 then None
         else
           (let newest = pw_records pw ! (n - 1);
                (oldestTime, totalSimilarity, comparisons) =
                  fold (compare_record newest) (take (n - 1) (pw_records pw)) (dr_Timestamp newest, 0, 0)
            in if comparisons = 0 then None
               else
                 (let meanSim = totalSimilarity / real_of_int comparisons
                  in if meanSim < dc_SimilarityThreshold cfg then None
                     else if cooling_down t_check (pw_lastAlertAt pw) (dc_AlertCooldown cfg) then None
                     else
                       (let timeWindow = real_of_int (to_i64 (dr_Timestamp newest - oldestTime));
                            timeWindow = (if timeWindow < 1 then 1 else timeWindow)
                        in Some \<lparr>al_Timestamp = now,
                             al_Summary = \<lparr>
                               as_TargetPID = pid,
                               as_IsDeadlocked = True,
                               as_ConfidenceScore = meanSim,
                               as_LoopType = LoopSemanticRepetition,
                               as_Metrics = \<lparr>
                                 am_RequestsInWindow = int n,
                                 am_TimeWindowSeconds = timeWindow,
                                 am_MeanSimilarityIndex = meanSim\<rparr>\<rparr>,
                             al_Evidence = \<lparr>
                               ae_Provider = dr_Provider newest,
                               ae_Model = dr_Model newest,
                               ae_RepeatedPayloadSnippet = truncatePayload (dr_Payload newest) 200\<rparr>\<rparr>))))"

definition detector_emit :: "Detector \<Rightarrow> Alert \<Rightarrow> Detector" where
  "detector_emit d a = d\<lparr>dt_alerts := try_send detector_buffer (dt_alerts d) a\<rparr>"

definition analyzeAndAlert ::
  "Detector \<Rightarrow> int \<Rightarrow> ProcessWindow \<Rightarrow> int \<Rightarrow> time_ns \<Rightarrow> time_ns \<Rightarrow> ProcessWindow \<times> Detector" where
  "analyzeAndAlert d pid pw now t_check t_alert =
     (case analyze (dt_cfg d) pid pw now t_check of
        None \<Rightarrow> (pw, d)
      | Some alert \<Rightarrow> (pw\<lparr>pw_lastAlertAt := Some t_alert\<rparr>, detector_emit d alert))"

definition detector_record :: "DetectorEvent \<Rightarrow> DetectorRecord" where
  "detector_record ev = \<lparr>
     dr_Timestamp = de_Timestamp ev,
     dr_Provider = de_Provider ev,
     dr_Model = de_Model ev,
     dr_Payload = de_Payload ev,
     dr_SimHash = SimHash (de_Payload ev)\<rparr>"

text \<open>The append and the cut to the newest \<open>maxSize\<close> records.\<close>

definition window_append :: "ProcessWindow \<Rightarrow> DetectorEvent \<Rightarrow> time_ns \<Rightarrow> ProcessWindow" where
  "window_append pw ev t_access =
     (let records = pw_records pw @ [detector_record ev];
          pw = pw\<lparr>pw_records := records, pw_lastAccess := Some t_access\<rparr>
      in if int (length records) > pw_maxSize pw
         then pw\<lparr>pw_records := drop (nat (int (length records) - pw_maxSize pw)) records\<rparr>
         else pw)"

definition Ingest :: "Detector \<Rightarrow> DetectorEvent \<Rightarrow> time_ns \<Rightarrow> time_ns \<Rightarrow> time_ns \<Rightarrow> Detector option" where
  "Ingest d ev t_access t_check t_alert =
     (case getOrCreateWindow d (de_PID ev) of
        None \<Rightarrow> None
      | Some (pw, d) \<Rightarrow>
          (let pw = window_append pw ev t_access;
               (pw, d) =
                 (if isFrequentLocked d pw (de_Timestamp ev)
                  then analyzeAndAlert d (de_PID ev) pw (de_Timestamp ev) t_check t_alert
                  else (pw, d))
           in Some (d\<lparr>dt_windows := (dt_windows d)(de_PID ev \<mapsto> pw)\<rparr>)))"

definition stale_window :: "duration \<Rightarrow> time_ns \<Rightarrow> ProcessWindow \<Rightarrow> bool" where
  "stale_window ttl now pw \<longleftrightarrow> time_since now (pw_lastAccess pw) > ttl"

definition detector_runGC ::
  "((int \<rightharpoonup> ProcessWindow) \<Rightarrow> int list) \<Rightarrow> Detector \<Rightarrow> time_ns \<Rightarrow> Detector" where
  "detector_runGC ord d now =
     d\<lparr>dt_windows := delete_where (stale_window (dc_TTL (dt_cfg d)) now)
         (range_pairs ord (dt_windows d)) (dt_windows d)\<rparr>"

section \<open>The alert channel\<close>

interpretation detector_sink: event_sink detector_emit dt_alerts "\<lambda>_. detector_buffer"
  by unfold_locales (simp_all add: detector_emit_def)

section \<open>The similarity analysis\<close>

definition mean_similarity :: "DetectorRecord list \<Rightarrow> real" where
  "mean_similarity rs =
     (\<Sum>r \<leftarrow> butlast rs. NormalizedSimilarity (dr_SimHash (last rs)) (dr_SimHash r)) / real (length rs - 1)"

lemma compare_fold:
  "fold (compare_record newest) rs (t, s, c) =
     (foldl min t (map dr_Timestamp rs),
      s + (\<Sum>r \<leftarrow> rs. NormalizedSimilarity (dr_SimHash newest) (dr_SimHash r)),
      c + int (length rs))"
  by (induction rs arbitrary: t s c) (simp_all add: compare_record_def min_def)

lemma analyze_raises:
  "analyze cfg pid pw now t_check \<noteq> None \<longleftrightarrow>
     2 \<le> length (pw_records pw) \<and>
     mean_similarity (pw_records pw) \<ge> dc_SimilarityThreshold cfg \<and>
     \<not> cooling_down t_check (pw_lastAlertAt pw) (dc_AlertCooldown cfg)"
proof (cases "length (pw_records pw) < 2")
  case True
  then show ?thesis by (simp add: analyze_def)
next
  case False
  then have ne: "pw_records pw \<noteq> []" by auto
  have n: "real (length (pw_records pw) - 1) = real (length (pw_records pw)) - 1" using ne by (simp add: of_nat_diff Suc_leI)
  show ?thesis
    using False by (simp add: analyze_def Let_def compare_fold mean_similarity_def last_conv_nth ne
        butlast_conv_take not_less n)
qed

lemma analyze_alert:
  assumes "analyze cfg pid pw now t_check = Some a"
  shows "al_Timestamp a = now \<and> as_TargetPID (al_Summary a) = pid \<and>
    as_ConfidenceScore (al_Summary a) = mean_similarity (pw_records pw) \<and>
    am_RequestsInWindow (as_Metrics (al_Summary a)) = int (length (pw_records pw)) \<and>
    length (ae_RepeatedPayloadSnippet (al_Evidence a)) \<le> 203"
proof (cases "length (pw_records pw) < 2")
  case True
  then show ?thesis using assms by (simp add: analyze_def)
next
  case False
  then have ne: "pw_records pw \<noteq> []" by auto
  have n: "real (length (pw_records pw) - 1) = real (length (pw_records pw)) - 1" using ne by (simp add: of_nat_diff Suc_leI)
  show ?thesis
    using assms False
    by (auto simp: analyze_def Let_def compare_fold mean_similarity_def last_conv_nth ne
        butlast_conv_take not_less truncatePayload_def n split: if_splits)
qed

lemma mean_similarity_bounds:
  assumes "2 \<le> length rs"
  shows "0 \<le> mean_similarity rs \<and> mean_similarity rs \<le> 1"
proof -
  let ?f = "\<lambda>r. NormalizedSimilarity (dr_SimHash (last rs)) (dr_SimHash r)"
  have "0 \<le> (\<Sum>r \<leftarrow> xs. ?f r) \<and> (\<Sum>r \<leftarrow> xs. ?f r) \<le> real (length xs)" for xs
    using NormalizedSimilarity_bounds by (induction xs) (simp_all, smt (verit))
  from this [of "butlast rs"] show ?thesis
    using assms by (simp add: mean_similarity_def divide_le_eq)
qed

lemma mean_similarity_same:
  assumes "2 \<le> length rs" "\<forall>r \<in> set rs. dr_SimHash r = h"
  shows "mean_similarity rs = 1"
proof -
  have "rs \<noteq> []" using assms(1) by auto
  then have "dr_SimHash (last rs) = h" using assms(2) by simp
  moreover have "(\<Sum>r \<leftarrow> xs. NormalizedSimilarity h (dr_SimHash r)) = real (length xs)"
    if "set xs \<subseteq> set rs" for xs
    using that assms(2) by (induction xs) simp_all
  from this [of "butlast rs"] have
    "(\<Sum>r \<leftarrow> butlast rs. NormalizedSimilarity h (dr_SimHash r)) = real (length rs - 1)"
    by (simp add: in_set_butlastD subsetI)
  ultimately show ?thesis
    using assms(1) by (simp add: mean_similarity_def)
qed

section \<open>One call of Ingest\<close>

text \<open>The alert one call of \<open>Ingest\<close> raises, if any.\<close>

definition ingest_alert :: "Detector \<Rightarrow> DetectorEvent \<Rightarrow> time_ns \<Rightarrow> time_ns \<Rightarrow> Alert option" where
  "ingest_alert d ev t_access t_check =
     (case getOrCreateWindow d (de_PID ev) of
        None \<Rightarrow> None
      | Some (pw, d) \<Rightarrow>
          (let pw = window_append pw ev t_access
           in if isFrequentLocked d pw (de_Timestamp ev)
              then analyze (dt_cfg d) (de_PID ev) pw (de_Timestamp ev) t_check else None))"

lemma window_append_records:
  assumes "0 \<le> pw_maxSize pw"
  shows "pw_records (window_append pw ev t) = newest_n (nat (pw_maxSize pw)) (pw_records pw @ [detector_record ev])"
proof -
  have "nat (1 + int n - k) = Suc n - nat k" if "0 \<le> k" for k :: int and n
    using that by simp
  then show ?thesis
    using assms by (auto simp: window_append_def newest_n_def Let_def)
qed

lemma window_append_frame [simp]:
  "pw_maxSize (window_append pw ev t) = pw_maxSize pw"
  "pw_lastAccess (window_append pw ev t) = Some t"
  "pw_lastAlertAt (window_append pw ev t) = pw_lastAlertAt pw"
  by (simp_all add: window_append_def Let_def)

definition empty_window :: "DetectorConfig \<Rightarrow> ProcessWindow" where
  "empty_window cfg = \<lparr>pw_records = [], pw_maxSize = dc_WindowSize cfg, pw_lastAccess = None, pw_lastAlertAt = None\<rparr>"

definition window_of :: "Detector \<Rightarrow> int \<Rightarrow> ProcessWindow" where
  "window_of d pid = (case dt_windows d pid of None \<Rightarrow> empty_window (dt_cfg d) | Some pw \<Rightarrow> pw)"

text \<open>The state after a call that does not panic, in one equation.\<close>

lemma Ingest_result:
  assumes "0 \<le> dc_WindowSize (dt_cfg d)"
  shows "Ingest d ev ta tc t_al = Some
    (case ingest_alert d ev ta tc of
       None \<Rightarrow> d\<lparr>dt_windows := (dt_windows d)(de_PID ev \<mapsto> window_append (window_of d (de_PID ev)) ev ta)\<rparr>
     | Some a \<Rightarrow> d\<lparr>dt_windows := (dt_windows d)(de_PID ev \<mapsto>
           (window_append (window_of d (de_PID ev)) ev ta)\<lparr>pw_lastAlertAt := Some t_al\<rparr>),
         dt_alerts := try_send detector_buffer (dt_alerts d) a\<rparr>)"
  using assms
  by (auto simp: Ingest_def ingest_alert_def getOrCreateWindow_def window_of_def empty_window_def Let_def
      analyzeAndAlert_def detector_emit_def isFrequentLocked_def split: option.splits)

lemma Ingest_windows:
  assumes "0 \<le> dc_WindowSize (dt_cfg d)" "Ingest d ev ta tc t_al = Some d'"
  shows "dt_windows d' = (dt_windows d)(de_PID ev \<mapsto>
      (window_append (window_of d (de_PID ev)) ev ta)\<lparr>pw_lastAlertAt :=
        (if ingest_alert d ev ta tc = None then pw_lastAlertAt (window_of d (de_PID ev)) else Some t_al)\<rparr>)"
    and "dt_cfg d' = dt_cfg d"
proof -
  have "pw\<lparr>pw_lastAlertAt := pw_lastAlertAt pw\<rparr> = pw" for pw :: ProcessWindow by simp
  from this [of "window_append (window_of d (de_PID ev)) ev ta"]
  show "dt_windows d' = (dt_windows d)(de_PID ev \<mapsto>
      (window_append (window_of d (de_PID ev)) ev ta)\<lparr>pw_lastAlertAt :=
        (if ingest_alert d ev ta tc = None then pw_lastAlertAt (window_of d (de_PID ev)) else Some t_al)\<rparr>)"
    using assms(2) unfolding Ingest_result [OF assms(1)] by (auto split: option.splits)
  show "dt_cfg d' = dt_cfg d"
    using assms(2) unfolding Ingest_result [OF assms(1)] by (auto split: option.splits)
qed

lemma window_of_Ingest:
  assumes "0 \<le> dc_WindowSize (dt_cfg d)" "Ingest d ev ta tc t_al = Some d'"
  shows "window_of d' pid =
    (if pid = de_PID ev
     then (window_append (window_of d pid) ev ta)\<lparr>pw_lastAlertAt :=
        (if ingest_alert d ev ta tc = None then pw_lastAlertAt (window_of d pid) else Some t_al)\<rparr>
     else window_of d pid)"
  unfolding window_of_def [of d'] Ingest_windows [OF assms] by (simp add: window_of_def [of d pid])

lemma ingest_alert_analyze:
  assumes "ingest_alert d ev ta tc = Some a"
  shows "analyze (dt_cfg d) (de_PID ev) (window_append (window_of d (de_PID ev)) ev ta) (de_Timestamp ev) tc = Some a"
  using assms
  by (auto simp: ingest_alert_def getOrCreateWindow_def window_of_def empty_window_def Let_def
      split: option.splits if_splits)

section \<open>The invariant and the sliding window\<close>

definition window_ok :: "DetectorConfig \<Rightarrow> ProcessWindow \<Rightarrow> bool" where
  "window_ok cfg pw \<longleftrightarrow> pw_maxSize pw = dc_WindowSize cfg \<and>
     int (length (pw_records pw)) \<le> dc_WindowSize cfg \<and> pw_lastAccess pw \<noteq> None"

definition detector_inv :: "DetectorConfig \<Rightarrow> Detector \<Rightarrow> bool" where
  "detector_inv cfg d \<longleftrightarrow> dt_cfg d = cfg \<and> finite (dom (dt_windows d)) \<and>
     (\<forall>pid pw. dt_windows d pid = Some pw \<longrightarrow> window_ok cfg pw) \<and>
     length (dt_alerts d) \<le> detector_buffer"

lemma NewDetector_inv [inv_intros]: "detector_inv cfg (NewDetector cfg)"
  by (simp add: detector_inv_def NewDetector_def)

lemma window_of_maxSize: "detector_inv cfg d \<Longrightarrow> pw_maxSize (window_of d pid) = dc_WindowSize cfg"
  by (auto simp: window_of_def detector_inv_def window_ok_def empty_window_def split: option.splits)

lemma window_append_ok:
  assumes "detector_inv cfg d" "0 \<le> dc_WindowSize cfg"
  shows "window_ok cfg (window_append (window_of d pid) ev t)"
  using assms by (simp add: window_ok_def window_of_maxSize window_append_records)

lemma window_ok_alerted [simp]: "window_ok cfg (pw\<lparr>pw_lastAlertAt := l\<rparr>) = window_ok cfg pw"
  by (simp add: window_ok_def)

lemma detector_inv_update:
  assumes "detector_inv cfg d" "window_ok cfg w"
  shows "detector_inv cfg (d\<lparr>dt_windows := (dt_windows d)(p \<mapsto> w)\<rparr>)"
  using assms by (simp add: detector_inv_def)

lemma detector_inv_send:
  "detector_inv cfg d \<Longrightarrow> detector_inv cfg (d\<lparr>dt_alerts := try_send detector_buffer (dt_alerts d) a\<rparr>)"
  by (simp add: detector_inv_def length_try_send)

lemma Ingest_inv [inv_intros]:
  assumes "detector_inv cfg d" "Ingest d ev ta tc t_al = Some d'" "0 \<le> dc_WindowSize cfg"
  shows "detector_inv cfg d'"
proof -
  have cfg: "dt_cfg d = cfg" using assms(1) by (simp add: detector_inv_def)
  note ok = window_append_ok [OF assms(1,3), of "de_PID ev" ev ta]
  show ?thesis
  proof (cases "ingest_alert d ev ta tc")
    case None
    then show ?thesis
      using assms(2) detector_inv_update [OF assms(1) ok, of "de_PID ev"] by (simp add: Ingest_result cfg assms(3))
  next
    case (Some a)
    let ?w = "(window_append (window_of d (de_PID ev)) ev ta)\<lparr>pw_lastAlertAt := Some t_al\<rparr>"
    have "window_ok cfg ?w" using ok by simp
    from detector_inv_send [OF detector_inv_update [OF assms(1) this], of "de_PID ev" a] show ?thesis
      using assms(2) Some by (simp add: Ingest_result cfg assms(3))
  qed
qed

lemma detector_runGC_windows:
  assumes "map_range ord" "detector_inv cfg d"
  shows "dt_windows (detector_runGC ord d now) pid =
    (case dt_windows d pid of None \<Rightarrow> None
     | Some pw \<Rightarrow> if stale_window (dc_TTL cfg) now pw then None else Some pw)"
  using assms(2) by (simp add: detector_runGC_def detector_inv_def delete_where_range [OF assms(1)])

lemma detector_runGC_inv [inv_intros]:
  assumes "map_range ord" "detector_inv cfg d"
  shows "detector_inv cfg (detector_runGC ord d now)"
proof -
  have "dom (dt_windows (detector_runGC ord d now)) \<subseteq> dom (dt_windows d)"
    by (auto simp: detector_runGC_windows [OF assms] split: option.splits if_splits)
  then have "finite (dom (dt_windows (detector_runGC ord d now)))"
    using assms(2) by (auto simp: detector_inv_def intro: finite_subset)
  then show ?thesis
    using assms(2) detector_runGC_windows [OF assms]
    by (auto simp: detector_inv_def detector_runGC_def split: option.splits if_splits)
qed

text \<open>A sequence of calls of \<open>Ingest\<close>, each with its readings of the clock.\<close>

fun ingest_all :: "(DetectorEvent \<times> time_ns \<times> time_ns \<times> time_ns) list \<Rightarrow> Detector \<Rightarrow> Detector option" where
  "ingest_all [] d = Some d"
| "ingest_all ((ev, ta, tc, t_al) # calls) d =
     (case Ingest d ev ta tc t_al of None \<Rightarrow> None | Some d \<Rightarrow> ingest_all calls d)"

text \<open>The specification: the records of one process, in order of arrival.\<close>

definition records_for :: "int \<Rightarrow> (DetectorEvent \<times> time_ns \<times> time_ns \<times> time_ns) list \<Rightarrow> DetectorRecord list" where
  "records_for pid calls = map (detector_record \<circ> fst) (filter (\<lambda>c. de_PID (fst c) = pid) calls)"

lemma Ingest_records:
  assumes "detector_inv cfg d" "0 \<le> dc_WindowSize cfg" "Ingest d ev ta tc t_al = Some d'"
  shows "pw_records (window_of d' pid) =
    newest_n (nat (dc_WindowSize cfg)) (pw_records (window_of d pid) @ records_for pid [(ev, ta, tc, t_al)])"
proof -
  have cfg: "dt_cfg d = cfg" using assms(1) by (simp add: detector_inv_def)
  have short: "length (pw_records (window_of d pid)) \<le> nat (dc_WindowSize cfg)"
    using assms(1,2) by (force simp: detector_inv_def window_of_def window_ok_def empty_window_def split: option.splits)
  have new: "pw_records (window_append (window_of d (de_PID ev)) ev ta) =
      newest_n (nat (dc_WindowSize cfg)) (pw_records (window_of d (de_PID ev)) @ [detector_record ev])"
    using window_of_maxSize [OF assms(1)] assms(2) by (simp add: window_append_records)
  have "0 \<le> dc_WindowSize (dt_cfg d)" using cfg assms(2) by simp
  from window_of_Ingest [OF this assms(3)] show ?thesis
    using short new by (simp add: records_for_def)
qed

lemma ingest_all_records:
  assumes "detector_inv cfg d" "0 \<le> dc_WindowSize cfg"
  shows "\<exists>d'. ingest_all calls d = Some d' \<and> detector_inv cfg d' \<and>
    (\<forall>pid. pw_records (window_of d' pid) =
       newest_n (nat (dc_WindowSize cfg)) (pw_records (window_of d pid) @ records_for pid calls))"
  using assms(1)
proof (induction calls d rule: ingest_all.induct)
  case (1 d)
  have "length (pw_records (window_of d pid)) \<le> nat (dc_WindowSize cfg)" for pid
    using 1 assms(2) by (force simp: detector_inv_def window_of_def window_ok_def empty_window_def split: option.splits)
  then show ?case using 1 by (simp add: records_for_def)
next
  case (2 ev ta tc t_al calls d)
  have "0 \<le> dc_WindowSize (dt_cfg d)" using 2(2) assms(2) by (simp add: detector_inv_def)
  then obtain d1 where d1: "Ingest d ev ta tc t_al = Some d1" using Ingest_result by blast
  have inv: "detector_inv cfg d1" using Ingest_inv [OF 2(2) d1 assms(2)] .
  obtain d' where "ingest_all calls d1 = Some d'" "detector_inv cfg d'"
    and r: "\<And>pid. pw_records (window_of d' pid) =
       newest_n (nat (dc_WindowSize cfg)) (pw_records (window_of d1 pid) @ records_for pid calls)"
    using 2(1) [OF d1 inv] by blast
  moreover have "records_for pid ((ev, ta, tc, t_al) # calls) = records_for pid [(ev, ta, tc, t_al)] @ records_for pid calls" for pid
    by (simp add: records_for_def)
  ultimately show ?case
    using d1 by (simp add: Ingest_records [OF 2(2) assms(2) d1] newest_n_absorb)
qed

section \<open>Alerts are rate limited\<close>

text \<open>
  One step of the detector in a timed run: a call of \<open>Ingest\<close> whose readings of the clock are
  in order and at most \<open>slack\<close> apart, or a garbage collection.
\<close>

inductive detector_step ::
  "duration \<Rightarrow> Detector \<Rightarrow> time_ns \<Rightarrow> time_ns \<Rightarrow> int option \<Rightarrow> Detector \<Rightarrow> bool"
  for slack where
  step_ingest: "Ingest d ev ta tc t1 = Some d' \<Longrightarrow> t0 \<le> ta \<Longrightarrow> ta \<le> tc \<Longrightarrow> tc \<le> t1 \<Longrightarrow> t1 \<le> ta + slack \<Longrightarrow>
     r = (case ingest_alert d ev ta tc of None \<Rightarrow> None | Some _ \<Rightarrow> Some (de_PID ev)) \<Longrightarrow>
     detector_step slack d t0 t1 r d'"
| step_gc: "map_range ord \<Longrightarrow> detector_step slack d t0 t1 None (detector_runGC ord d t1)"

inductive_cases detector_stepE: "detector_step slack d t0 t1 r d'"

definition last_alert :: "Detector \<Rightarrow> int \<Rightarrow> time_ns option" where
  "last_alert d pid = (case dt_windows d pid of None \<Rightarrow> None | Some pw \<Rightarrow> pw_lastAlertAt pw)"

text \<open>
  What the run keeps at time \<open>now\<close>: no window was accessed or raised an alert in the future,
  and the last alert of a window is not later than its last access, up to the slack.
\<close>

definition window_times :: "duration \<Rightarrow> time_ns \<Rightarrow> ProcessWindow \<Rightarrow> bool" where
  "window_times slack now pw \<longleftrightarrow>
     (\<exists>a. pw_lastAccess pw = Some a \<and> a \<le> now \<and>
        (\<forall>l. pw_lastAlertAt pw = Some l \<longrightarrow> l \<le> a + slack \<and> l \<le> now))"

definition access_inv :: "DetectorConfig \<Rightarrow> duration \<Rightarrow> time_ns \<Rightarrow> Detector \<Rightarrow> bool" where
  "access_inv cfg slack now d \<longleftrightarrow> detector_inv cfg d \<and>
     (\<forall>pid pw. dt_windows d pid = Some pw \<longrightarrow> window_times slack now pw)"

text \<open>A configuration under which forgetting an idle window forgets no recent alert.\<close>

definition detector_cfg_ok :: "DetectorConfig \<Rightarrow> duration \<Rightarrow> bool" where
  "detector_cfg_ok cfg slack \<longleftrightarrow> 0 \<le> dc_WindowSize cfg \<and> in_i64 (dc_AlertCooldown cfg) \<and> in_i64 (dc_TTL cfg) \<and>
     0 \<le> slack \<and> dc_AlertCooldown cfg + slack \<le> dc_TTL cfg"

lemma last_alert_window_of: "last_alert d pid = pw_lastAlertAt (window_of d pid)"
  by (simp add: last_alert_def window_of_def empty_window_def split: option.splits)

lemma window_of_times:
  assumes "access_inv cfg slack now d" "pw_lastAlertAt (window_of d pid) = Some l"
  shows "l \<le> now"
  using assms by (auto simp: access_inv_def window_of_def window_times_def empty_window_def split: option.splits)

lemma window_times_mono: "window_times slack now pw \<Longrightarrow> now \<le> now' \<Longrightarrow> window_times slack now' pw"
  by (force simp: window_times_def)

lemma access_inv_Ingest:
  assumes "detector_cfg_ok cfg slack" "access_inv cfg slack t0 d" "Ingest d ev ta tc t1 = Some d'"
    and "t0 \<le> ta" "ta \<le> tc" "tc \<le> t1" "t1 \<le> ta + slack"
  shows "access_inv cfg slack t1 d'"
proof -
  have inv: "detector_inv cfg d" using assms(2) by (simp add: access_inv_def)
  have W: "0 \<le> dc_WindowSize (dt_cfg d)" using inv assms(1) by (simp add: detector_inv_def detector_cfg_ok_def)
  have "detector_inv cfg d'"
    using Ingest_inv [OF inv assms(3)] assms(1) by (simp add: detector_cfg_ok_def)
  moreover have "l \<le> ta + slack \<and> l \<le> t1" if "pw_lastAlertAt (window_of d (de_PID ev)) = Some l" for l
    using window_of_times [OF assms(2) that] assms by (simp add: detector_cfg_ok_def)
  moreover have "window_times slack t1 pw" if "dt_windows d pid = Some pw" for pid pw
    using assms that window_times_mono [of slack t0 pw t1] by (simp add: access_inv_def)
  ultimately show ?thesis
    using assms unfolding access_inv_def Ingest_windows(1) [OF W assms(3)]
    by (simp add: window_times_def)
qed

lemma access_inv_gc:
  assumes "map_range ord" "access_inv cfg slack t0 d" "t0 \<le> t1"
  shows "access_inv cfg slack t1 (detector_runGC ord d t1)"
proof -
  have inv: "detector_inv cfg d" using assms(2) by (simp add: access_inv_def)
  show ?thesis
    using assms detector_runGC_inv [OF assms(1) inv] window_times_mono [of slack t0 _ t1]
    by (auto simp: access_inv_def detector_runGC_windows [OF assms(1) inv] split: option.splits if_splits)
qed

lemma last_alert_Ingest:
  assumes "detector_cfg_ok cfg slack" "access_inv cfg slack t0 d" "Ingest d ev ta tc t1 = Some d'"
  shows "last_alert d' pid =
    (if pid = de_PID ev \<and> ingest_alert d ev ta tc \<noteq> None then Some t1 else last_alert d pid)"
proof -
  have W: "0 \<le> dc_WindowSize (dt_cfg d)"
    using assms(1,2) by (simp add: access_inv_def detector_inv_def detector_cfg_ok_def)
  show ?thesis
    by (auto simp: last_alert_window_of window_of_Ingest [OF W assms(3)])
qed

text \<open>An alert is raised only when the process is past its cooldown.\<close>

lemma ingest_alert_waits:
  assumes "detector_cfg_ok cfg slack" "access_inv cfg slack t0 d" "ingest_alert d ev ta tc = Some a"
    and "last_alert d (de_PID ev) = Some l" "l \<le> tc"
  shows "l + dc_AlertCooldown cfg \<le> tc"
proof -
  have "dt_cfg d = cfg" using assms(2) by (simp add: access_inv_def detector_inv_def)
  then have "\<not> cooling_down tc (Some l) (dc_AlertCooldown cfg)"
    using ingest_alert_analyze [OF assms(3)] analyze_raises [of cfg "de_PID ev"] assms(4)
    by (force simp: last_alert_window_of)
  then show ?thesis
    using assms by (intro not_cooling_down) (simp_all add: detector_cfg_ok_def)
qed

text \<open>The garbage collector forgets only alerts that are past the cooldown.\<close>

lemma gc_forgets:
  assumes "detector_cfg_ok cfg slack" "access_inv cfg slack t0 d" "map_range ord"
    and "last_alert (detector_runGC ord d t1) pid \<noteq> last_alert d pid"
  shows "last_alert (detector_runGC ord d t1) pid = None \<and>
    (\<forall>l. last_alert d pid = Some l \<longrightarrow> l + dc_AlertCooldown cfg \<le> t1)"
proof -
  have inv: "detector_inv cfg d" using assms(2) by (simp add: access_inv_def)
  obtain pw where pw: "dt_windows d pid = Some pw" and stale: "stale_window (dc_TTL cfg) t1 pw"
    using assms(4) by (auto simp: last_alert_def detector_runGC_windows [OF assms(3) inv] split: option.splits if_splits)
  obtain acc where acc: "pw_lastAccess pw = Some acc" "\<And>l. pw_lastAlertAt pw = Some l \<Longrightarrow> l \<le> acc + slack"
    using assms(2) pw unfolding access_inv_def window_times_def by blast
  have "acc + dc_TTL cfg < t1"
    using stale acc(1) assms(1) time_since_greater by (simp add: stale_window_def detector_cfg_ok_def)
  then show ?thesis
    using pw stale acc(2) assms(1)
    by (force simp: last_alert_def detector_runGC_windows [OF assms(3) inv] detector_cfg_ok_def)
qed

lemma detector_rate_limited:
  assumes "detector_cfg_ok cfg slack"
  shows "rate_limited (detector_step slack) last_alert (access_inv cfg slack) (NewDetector cfg) (dc_AlertCooldown cfg)"
proof (unfold_locales, goal_cases init first keep sets waits keeps)
  case (init t)
  then show ?case by (simp add: access_inv_def NewDetector_inv) (simp add: NewDetector_def)
next
  case (first k)
  then show ?case by (simp add: last_alert_def NewDetector_def)
next
  case (keep t0 s t1 r s')
  from keep(3) show ?case
    using access_inv_Ingest [OF assms keep(1)] access_inv_gc [OF _ keep(1,2)] by (cases rule: detector_stepE) auto
next
  case (sets t0 s t1 k s')
  from sets(3) show ?case
    using last_alert_Ingest [OF assms sets(1)] by (cases rule: detector_stepE) (auto split: option.splits)
next
  case (waits t0 s t1 k s' l)
  from waits(3) show ?case
    using ingest_alert_waits [OF assms waits(1) _ _ ] waits(4,5)
    by (cases rule: detector_stepE) (force split: option.splits)+
next
  case (keeps t0 s t1 r s' k)
  from keeps(3) show ?case
  proof (cases rule: detector_step.cases)
    case (step_ingest ev ta tc)
    then show ?thesis
      using last_alert_Ingest [OF assms keeps(1) step_ingest(1)] keeps(4,5) by (auto split: option.splits if_splits)
  next
    case (step_gc ord)
    then show ?thesis using gc_forgets [OF assms keeps(1) step_gc(3), of t1 k] keeps(5) by simp
  qed
qed

lemma detector_default_ok: "detector_cfg_ok DetectorDefaultConfig minute_ns"
  by (simp add: detector_cfg_ok_def DetectorDefaultConfig_def in_i64_def)

interpretation detector_limiter: rate_limited "detector_step minute_ns" last_alert
    "access_inv DetectorDefaultConfig minute_ns" "NewDetector DetectorDefaultConfig"
    "dc_AlertCooldown DetectorDefaultConfig"
  by (rule detector_rate_limited [OF detector_default_ok])

section \<open>Properties\<close>

lemma takeWhile_rev_sorted:
  "sorted (map f xs) \<Longrightarrow> takeWhile (\<lambda>x. c \<le> f x) (rev xs) = rev (filter (\<lambda>x. c \<le> f x) xs)"
proof (induction xs rule: rev_induct)
  case (snoc x xs)
  show ?case
  proof (cases "c \<le> f x")
    case False
    then have "\<not> c \<le> f y" if "y \<in> set xs" for y
      using snoc.prems that by (force simp: sorted_append)
    with False show ?thesis by (auto simp: filter_empty_conv)
  next
    case True
    then show ?thesis using snoc by (simp add: sorted_append)
  qed
qed simp

lemma isFrequentLocked_sorted:
  assumes "sorted (map dr_Timestamp (pw_records pw))"
  shows "isFrequentLocked d pw now \<longleftrightarrow> 0 < dc_FreqThreshold (dt_cfg d) \<and>
    dc_FreqThreshold (dt_cfg d) \<le> int (length (filter
      (\<lambda>r. dr_Timestamp r \<ge> to_i64 (now - whole_seconds (dc_FreqWindow (dt_cfg d)))) (pw_records pw)))"
  using takeWhile_rev_sorted [OF assms] by (simp add: isFrequentLocked_def Let_def not_le)

lemma isFrequentLocked_cfg [simp]:
  "isFrequentLocked (d\<lparr>dt_windows := ws\<rparr>) pw now = isFrequentLocked d pw now"
  by (simp add: isFrequentLocked_def)

lemma ingest_alert_eq:
  assumes "0 \<le> dc_WindowSize (dt_cfg d)"
  shows "ingest_alert d ev ta tc =
    (let w = window_append (window_of d (de_PID ev)) ev ta
     in if isFrequentLocked d w (de_Timestamp ev) then analyze (dt_cfg d) (de_PID ev) w (de_Timestamp ev) tc else None)"
  using assms
  by (cases "dt_windows d (de_PID ev)")
    (simp_all add: ingest_alert_def getOrCreateWindow_def window_of_def empty_window_def Let_def)

lemma ingest_alert_iff:
  assumes "0 \<le> dc_WindowSize (dt_cfg d)"
  shows "ingest_alert d ev ta tc \<noteq> None \<longleftrightarrow>
    (let w = window_append (window_of d (de_PID ev)) ev ta
     in isFrequentLocked d w (de_Timestamp ev) \<and> 2 \<le> length (pw_records w) \<and>
        mean_similarity (pw_records w) \<ge> dc_SimilarityThreshold (dt_cfg d) \<and>
        \<not> cooling_down tc (pw_lastAlertAt w) (dc_AlertCooldown (dt_cfg d)))"
  using analyze_raises [of "dt_cfg d" "de_PID ev" _ "de_Timestamp ev" tc]
  by (simp add: ingest_alert_eq [OF assms] Let_def del: not_None_eq)

text \<open>
  C27: After any sequence of calls of \<open>Ingest\<close> on a new detector, whatever the clock reads,
  the window of each process holds exactly the newest \<open>WindowSize\<close> records of that process in
  order of arrival; no call panics when the window size is not negative.
\<close>

theorem detector_window:
  assumes "0 \<le> dc_WindowSize cfg"
  shows "\<exists>d. ingest_all calls (NewDetector cfg) = Some d \<and>
    (\<forall>pid. pw_records (window_of d pid) = newest_n (nat (dc_WindowSize cfg)) (records_for pid calls))"
  using ingest_all_records [OF NewDetector_inv assms, of calls]
  by (auto simp: window_of_def NewDetector_def empty_window_def)

theorem detector_window_witness:
  "\<exists>d. ingest_all
      [(\<lparr>de_PID = 7, de_Timestamp = 1, de_Provider = ''p'', de_Model = ''m'', de_Payload = []\<rparr>, 1, 2, 3),
       (\<lparr>de_PID = 8, de_Timestamp = 2, de_Provider = ''p'', de_Model = ''m'', de_Payload = []\<rparr>, 4, 5, 6)]
      (NewDetector DetectorDefaultConfig) = Some d \<and> length (pw_records (window_of d 7)) = 1"
  using detector_window [of DetectorDefaultConfig
      "[(\<lparr>de_PID = 7, de_Timestamp = 1, de_Provider = ''p'', de_Model = ''m'', de_Payload = []\<rparr>, 1, 2, 3),
        (\<lparr>de_PID = 8, de_Timestamp = 2, de_Provider = ''p'', de_Model = ''m'', de_Payload = []\<rparr>, 4, 5, 6)]"]
  by (auto simp: DetectorDefaultConfig_def records_for_def)

text \<open>
  C18: A call of \<open>Ingest\<close> publishes an alert exactly when the alert channel has room, the window
  (with the new request in it, timestamps not decreasing) holds at least \<open>FreqThreshold\<close>
  requests of the last \<open>FreqWindow\<close> and at least two in all, the mean similarity of the newest
  request to the others reaches the threshold, and the process is not cooling down.
\<close>

theorem detector_alert_iff:
  assumes "0 \<le> dc_WindowSize (dt_cfg d)" "Ingest d ev ta tc t_al = Some d'"
    and "w = window_append (window_of d (de_PID ev)) ev ta"
    and "sorted (map dr_Timestamp (pw_records w))"
  shows "length (dt_alerts d') = Suc (length (dt_alerts d)) \<longleftrightarrow>
    length (dt_alerts d) < 64 \<and> 0 < dc_FreqThreshold (dt_cfg d) \<and>
    dc_FreqThreshold (dt_cfg d) \<le> int (length (filter
      (\<lambda>r. dr_Timestamp r \<ge> to_i64 (de_Timestamp ev - whole_seconds (dc_FreqWindow (dt_cfg d)))) (pw_records w))) \<and>
    2 \<le> length (pw_records w) \<and>
    dc_SimilarityThreshold (dt_cfg d) \<le> mean_similarity (pw_records w) \<and>
    \<not> cooling_down tc (pw_lastAlertAt (window_of d (de_PID ev))) (dc_AlertCooldown (dt_cfg d))"
proof -
  have "length (dt_alerts d') = Suc (length (dt_alerts d)) \<longleftrightarrow>
      length (dt_alerts d) < 64 \<and> ingest_alert d ev ta tc \<noteq> None"
    using assms(2) unfolding Ingest_result [OF assms(1)]
    by (auto simp: try_send_def detector_buffer_def split: option.splits if_splits)
  moreover have "ingest_alert d ev ta tc \<noteq> None \<longleftrightarrow> isFrequentLocked d w (de_Timestamp ev) \<and>
      2 \<le> length (pw_records w) \<and> dc_SimilarityThreshold (dt_cfg d) \<le> mean_similarity (pw_records w) \<and>
      \<not> cooling_down tc (pw_lastAlertAt (window_of d (de_PID ev))) (dc_AlertCooldown (dt_cfg d))"
    unfolding ingest_alert_iff [OF assms(1)] by (simp add: Let_def assms(3))
  ultimately show ?thesis
    unfolding isFrequentLocked_sorted [OF assms(4)] by blast
qed

text \<open>Two identical requests with a frequency threshold of two, for the witnesses below.\<close>

definition probe_cfg :: DetectorConfig where
  "probe_cfg = DetectorDefaultConfig\<lparr>dc_FreqThreshold := 2\<rparr>"

definition probe_event :: "int \<Rightarrow> DetectorEvent" where
  "probe_event t = \<lparr>de_PID = 7, de_Timestamp = t, de_Provider = [], de_Model = [], de_Payload = []\<rparr>"

definition probe_first :: Detector where
  "probe_first = the (Ingest (NewDetector probe_cfg) (probe_event 1) 1 1 1)"

definition probe_second :: Detector where
  "probe_second = the (Ingest probe_first (probe_event 2) 2 2 2)"

lemma SimHash_empty [simp]: "SimHash [] = 0"
  by (simp add: SimHash_def Fields_def)

lemma probe_event_simps [simp]:
  "de_PID (probe_event t) = 7" "de_Timestamp (probe_event t) = t"
  "dr_Timestamp (detector_record (probe_event t)) = t" "dr_SimHash (detector_record (probe_event t)) = 0"
  by (simp_all add: probe_event_def detector_record_def)

lemmas probe_defs = probe_cfg_def DetectorDefaultConfig_def probe_event_def window_of_def empty_window_def
  NewDetector_def

lemma probe_first_ok:
  "Ingest (NewDetector probe_cfg) (probe_event 1) 1 1 1 = Some probe_first"
  "dt_cfg probe_first = probe_cfg" "dt_alerts probe_first = []"
  "window_of probe_first 7 = \<lparr>pw_records = [detector_record (probe_event 1)], pw_maxSize = 20,
     pw_lastAccess = Some 1, pw_lastAlertAt = None\<rparr>"
  by (simp_all add: probe_first_def Ingest_def getOrCreateWindow_def probe_defs Let_def window_append_def
      isFrequentLocked_def detector_record_def whole_seconds_def to_i64_def)

lemma probe_second_ok:
  "Ingest probe_first (probe_event 2) 2 2 2 = Some probe_second"
  using Ingest_result [of probe_first "probe_event 2" 2 2 2]
  by (simp add: probe_second_def probe_first_ok) (simp add: probe_cfg_def DetectorDefaultConfig_def)

lemma probe_window:
  "pw_records (window_append (window_of probe_first 7) (probe_event 2) 2) =
     [detector_record (probe_event 1), detector_record (probe_event 2)]"
  by (simp add: window_append_def probe_first_ok Let_def)

theorem detector_alert_iff_witness:
  "length (dt_alerts probe_second) = 1"
  using detector_alert_iff [of probe_first "probe_event 2" 2 2 2 probe_second
      "window_append (window_of probe_first 7) (probe_event 2) 2"]
  by (simp add: probe_second_ok probe_first_ok(2,3) probe_window)
    (simp add: probe_first_ok probe_cfg_def DetectorDefaultConfig_def mean_similarity_def whole_seconds_def to_i64_def)

text \<open>
  C13: In every timed run of calls of \<open>Ingest\<close> and garbage collections from a new detector, two
  alerts for the same process are at least the alert cooldown apart, provided a window lives
  longer than the cooldown and the time one call takes.
\<close>

theorem detector_alerts_spaced:
  assumes "detector_cfg_ok cfg slack" "timed_run (detector_step slack) (NewDetector cfg) now alog d"
  shows "spaced (dc_AlertCooldown cfg) alog"
  using rate_limited.run_spaced [OF detector_rate_limited [OF assms(1)] assms(2)] .

lemma probe_run: "timed_run (detector_step 0) (NewDetector probe_cfg) 2 [(2, 7)] probe_second"
proof -
  have quiet: "ingest_alert (NewDetector probe_cfg) (probe_event 1) 1 1 = None"
    by (simp add: ingest_alert_def getOrCreateWindow_def probe_defs Let_def window_append_def
      isFrequentLocked_def detector_record_def whole_seconds_def to_i64_def)
  have "0 \<le> dc_WindowSize (dt_cfg probe_first)"
    by (simp add: probe_first_ok probe_cfg_def DetectorDefaultConfig_def)
  from ingest_alert_iff [OF this, of "probe_event 2" 2 2]
  have loud: "ingest_alert probe_first (probe_event 2) 2 2 \<noteq> None"
    by (simp add: Let_def probe_window)
      (simp add: probe_first_ok probe_cfg_def DetectorDefaultConfig_def mean_similarity_def whole_seconds_def to_i64_def
        isFrequentLocked_def probe_window [unfolded probe_first_ok])
  have "detector_step 0 (NewDetector probe_cfg) 0 1 None probe_first"
    using probe_first_ok(1) quiet by (intro step_ingest [of _ "probe_event 1" 1 1]) simp_all
  then have "timed_run (detector_step 0) (NewDetector probe_cfg) 1 [] probe_first"
    by (intro run_quiet [OF run_init [of _ _ 0]]) simp_all
  moreover have "detector_step 0 probe_first 1 2 (Some 7) probe_second"
    using probe_second_ok loud by (intro step_ingest [of _ "probe_event 2" 2 2]) auto
  ultimately show ?thesis
    using run_raise [of "detector_step 0" "NewDetector probe_cfg" 1 "[]" probe_first 2 7 probe_second] by simp
qed

theorem detector_alerts_spaced_witness: "spaced (dc_AlertCooldown probe_cfg) [(2, 7 :: int)]"
  by (rule detector_alerts_spaced [OF _ probe_run])
    (simp add: detector_cfg_ok_def probe_cfg_def DetectorDefaultConfig_def in_i64_def)

end
