(* ===== verification/Regression.thy ===== *)
theory Regression
  imports Prelude
begin

text \<open>
  The ordinary-least-squares fit of \<open>src/internal/analytics/profiler/regression.go\<close>, over the
  reals. The lemmas solve the normal equations, show that the fitted line minimises the
  squared residuals, recovers exact lines, and that the coefficient of determination is
  between 0 and 1.
\<close>

section \<open>The fit\<close>

definition ols_accumulate ::
  "real list \<Rightarrow> real list \<Rightarrow> nat \<Rightarrow> real \<times> real \<times> real \<times> real \<times> real \<Rightarrow> real \<times> real \<times> real \<times> real \<times> real" where
  "ols_accumulate x y i = (\<lambda>(sumX, sumY, sumXY, sumX2, sumY2).
     (sumX + x ! i, sumY + y ! i, sumXY + x ! i * y ! i, sumX2 + x ! i * x ! i, sumY2 + y ! i * y ! i))"

definition OLSSlope :: "real list \<Rightarrow> real list \<Rightarrow> real \<times> real \<times> real" where
  "OLSSlope x y =
     (let n = length x
      in if n < 2 \<or> length y < n then (0, 0, 0)
         else
           (let (sumX, sumY, sumXY, sumX2, sumY2) = fold (ols_accumulate x y) [0..<n] (0, 0, 0, 0, 0);
                denom = real n * sumX2 - sumX * sumX
            in if \<bar>denom\<bar> < 1 / 10 ^ 15 then (0, 0, 0)
               else
                 (let slope = (real n * sumXY - sumX * sumY) / denom;
                      intercept = (sumY - slope * sumX) / real n;
                      num = real n * sumXY - sumX * sumY;
                      denomR = (real n * sumX2 - sumX * sumX) * (real n * sumY2 - sumY * sumY);
                      rSquared = (if denomR \<le> 0 then 0 else (let r = num / sqrt denomR in r * r))
                  in (slope, intercept, rSquared))))"

section \<open>Moments of a sample\<close>

text \<open>\<open>n\<close> times the covariance sum of two samples; the variance sum when they agree.\<close>

definition cov :: "nat \<Rightarrow> (nat \<Rightarrow> real) \<Rightarrow> (nat \<Rightarrow> real) \<Rightarrow> real" where
  "cov n f g = real n * (\<Sum>i<n. f i * g i) - (\<Sum>i<n. f i) * (\<Sum>i<n. g i)"

lemma ols_sums:
  "fold (ols_accumulate x y) [0..<n] (0, 0, 0, 0, 0) =
     (\<Sum>i<n. x ! i, \<Sum>i<n. y ! i, \<Sum>i<n. x ! i * y ! i, \<Sum>i<n. x ! i * x ! i, \<Sum>i<n. y ! i * y ! i)"
  by (induction n) (simp_all add: ols_accumulate_def)

lemma cov_centered:
  assumes "0 < n"
  shows "cov n f g = real n * (\<Sum>i<n. (f i - (\<Sum>i<n. f i) / n) * (g i - (\<Sum>i<n. g i) / n))"
proof -
  have "(\<Sum>i<n. (f i - p) * (g i - q)) =
      (\<Sum>i<n. f i * g i) - q * (\<Sum>i<n. f i) - p * (\<Sum>i<n. g i) + n * (p * q)" for p q :: real
    by (simp add: algebra_simps sum.distrib sum_subtractf sum_distrib_left)
  note this [of "(\<Sum>i<n. f i) / n" "(\<Sum>i<n. g i) / n"]
  then show ?thesis
    unfolding cov_def by (simp only:) (use assms in \<open>simp add: field_simps\<close>)
qed

lemma cov_self_nonneg: "0 \<le> cov n f f"
proof (cases "n = 0")
  case False
  then show ?thesis
    by (simp add: cov_centered sum_nonneg)
qed (simp add: cov_def)

lemma cov_linear: "cov n (\<lambda>i. u * f i + v * g i) (\<lambda>i. u * f i + v * g i) =
    u * u * cov n f f + 2 * u * v * cov n f g + v * v * cov n g g"
proof -
  let ?S = "\<lambda>h. \<Sum>i<n. h i"
  have lin: "?S (\<lambda>i. u * f i + v * g i) = u * ?S f + v * ?S g"
    by (simp add: sum.distrib sum_distrib_left)
  have "(u * f i + v * g i) * (u * f i + v * g i) = u * u * (f i * f i) + 2 * u * v * (f i * g i) + v * v * (g i * g i)" for i
    by (simp add: algebra_simps)
  then have "?S (\<lambda>i. (u * f i + v * g i) * (u * f i + v * g i)) =
      u * u * ?S (\<lambda>i. f i * f i) + 2 * u * v * ?S (\<lambda>i. f i * g i) + v * v * ?S (\<lambda>i. g i * g i)"
    by (simp add: sum.distrib sum_distrib_left)
  with lin show ?thesis
    by (simp add: cov_def algebra_simps)
qed

lemma cov_cauchy_schwarz:
  assumes "0 < cov n f f"
  shows "cov n f g * cov n f g \<le> cov n f f * cov n g g"
proof -
  have "0 \<le> cov n f g * cov n f g * cov n f f + 2 * cov n f g * (- cov n f f) * cov n f g
      + (- cov n f f) * (- cov n f f) * cov n g g"
    using cov_self_nonneg [of n "\<lambda>i. cov n f g * f i + (- cov n f f) * g i"] by (simp only: cov_linear)
  then have "0 \<le> cov n f f * (cov n f f * cov n g g - cov n f g * cov n f g)"
    by (simp add: algebra_simps)
  then show ?thesis
    using assms by (simp add: zero_le_mult_iff)
qed

section \<open>The fitted line\<close>

lemma OLSSlope_cases:
  assumes "2 \<le> length x" "length x \<le> length y" "n = length x"
    and "D = cov n ((!) x) ((!) x)" "1 / 10 ^ 15 \<le> \<bar>D\<bar>"
  shows "OLSSlope x y =
    (let m = cov n ((!) x) ((!) y) / D; b = ((\<Sum>i<n. y ! i) - m * (\<Sum>i<n. x ! i)) / n;
         R = D * cov n ((!) y) ((!) y)
     in (m, b, if R \<le> 0 then 0 else (cov n ((!) x) ((!) y))\<^sup>2 / R))"
proof -
  have r: "(let r = c / sqrt R in r * r) = c\<^sup>2 / R" if "\<not> R \<le> 0" for c R :: real
    using that by (simp add: Let_def power2_eq_square)
  show ?thesis
    using assms(1,2,5) unfolding OLSSlope_def ols_sums Let_def assms(3) [symmetric]
    by (simp add: cov_def assms(4) power2_eq_square)
qed

lemma normal_equations:
  assumes "2 \<le> length x" "length x \<le> length y" "n = length x" "1 / 10 ^ 15 \<le> \<bar>cov n ((!) x) ((!) x)\<bar>"
    and "OLSSlope x y = (m, b, r)"
  shows "(\<Sum>i<n. y ! i - (m * x ! i + b)) = 0"
    and "(\<Sum>i<n. (y ! i - (m * x ! i + b)) * x ! i) = 0"
proof -
  let ?D = "cov n ((!) x) ((!) x)" and ?C = "cov n ((!) x) ((!) y)"
  let ?X = "\<Sum>i<n. x ! i" and ?Y = "\<Sum>i<n. y ! i"
  let ?XX = "\<Sum>i<n. x ! i * x ! i" and ?XY = "\<Sum>i<n. x ! i * y ! i"
  have n: "real n > 0" using assms(1,3) by auto
  have D: "?D \<noteq> 0" using assms(4) by auto
  have m: "m = ?C / ?D" and b: "b = (?Y - m * ?X) / n"
    using assms(5) by (auto simp: OLSSlope_cases [OF assms(1-3) refl assms(4)] Let_def)
  have b': "n * b = ?Y - m * ?X" using n b by simp
  have m': "m * ?D = ?C" using D m by simp
  have "(\<Sum>i<n. y ! i - (m * x ! i + b)) = ?Y - (m * ?X + n * b)"
    by (simp add: sum_subtractf sum.distrib sum_distrib_left)
  then show "(\<Sum>i<n. y ! i - (m * x ! i + b)) = 0" using b' by simp
  have "(\<Sum>i<n. (y ! i - (m * x ! i + b)) * x ! i) = ?XY - (m * ?XX + b * ?X)"
    by (simp add: algebra_simps sum_subtractf sum.distrib sum_distrib_left)
  moreover have "n * (?XY - (m * ?XX + b * ?X)) = n * ?XY - (m * (n * ?XX) + (n * b) * ?X)"
    by (simp add: algebra_simps)
  moreover have "\<dots> = ?C - m * ?D"
    unfolding b' cov_def by (simp add: algebra_simps)
  ultimately have "n * (\<Sum>i<n. (y ! i - (m * x ! i + b)) * x ! i) = 0"
    using m' by simp
  then show "(\<Sum>i<n. (y ! i - (m * x ! i + b)) * x ! i) = 0" using n by simp
qed

lemma residuals_minimal:
  fixes f g :: "nat \<Rightarrow> real"
  assumes "(\<Sum>i<n. g i - (m * f i + b)) = 0" "(\<Sum>i<n. (g i - (m * f i + b)) * f i) = 0"
  shows "(\<Sum>i<n. (g i - (m * f i + b))\<^sup>2) \<le> (\<Sum>i<n. (g i - (a * f i + c))\<^sup>2)"
proof -
  let ?r = "\<lambda>i. g i - (m * f i + b)" and ?d = "\<lambda>i. (m - a) * f i + (b - c)"
  have "(g i - (a * f i + c))\<^sup>2 = (?r i)\<^sup>2 + (?d i)\<^sup>2 + (2 * (m - a) * (?r i * f i) + 2 * (b - c) * ?r i)" for i
    by (simp add: power2_eq_square algebra_simps)
  then have "(\<Sum>i<n. (g i - (a * f i + c))\<^sup>2) =
      (\<Sum>i<n. (?r i)\<^sup>2) + (\<Sum>i<n. (?d i)\<^sup>2) + (2 * (m - a) * (\<Sum>i<n. ?r i * f i) + 2 * (b - c) * (\<Sum>i<n. ?r i))"
    by (simp only: sum.distrib sum_distrib_left)
  also have "\<dots> = (\<Sum>i<n. (?r i)\<^sup>2) + (\<Sum>i<n. (?d i)\<^sup>2)"
    unfolding assms by simp
  finally show ?thesis by (simp add: sum_nonneg)
qed

lemma cov_affine:
  assumes "\<forall>i < n. g i = a * f i + c"
  shows "cov n f g = a * cov n f f" and "cov n g g = a * a * cov n f f"
proof -
  have g: "(\<Sum>i<n. g i) = a * (\<Sum>i<n. f i) + n * c"
    using assms by (simp add: sum.distrib sum_distrib_left)
  have fg: "(\<Sum>i<n. f i * g i) = a * (\<Sum>i<n. f i * f i) + c * (\<Sum>i<n. f i)"
    using assms by (simp add: sum.distrib sum_distrib_left algebra_simps)
  have "(\<Sum>i<n. g i * g i) = (\<Sum>i<n. a * a * (f i * f i) + 2 * a * c * f i + c * c)"
    using assms by (intro sum.cong) (simp_all add: algebra_simps)
  then have gg: "(\<Sum>i<n. g i * g i) = a * a * (\<Sum>i<n. f i * f i) + 2 * a * c * (\<Sum>i<n. f i) + n * (c * c)"
    by (simp add: sum.distrib sum_distrib_left)
  show "cov n f g = a * cov n f f"
    by (simp add: cov_def g fg algebra_simps)
  show "cov n g g = a * a * cov n f f"
    by (simp add: cov_def g gg algebra_simps)
qed

section \<open>Properties\<close>

text \<open>A sample with enough spread in \<open>x\<close> for the routine to fit a line.\<close>

definition ols_sample :: "real list \<Rightarrow> real list \<Rightarrow> bool" where
  "ols_sample x y \<longleftrightarrow> 2 \<le> length x \<and> length x \<le> length y \<and>
     1 / 10 ^ 15 \<le> \<bar>cov (length x) ((!) x) ((!) x)\<bar>"

lemma OLSSlope_fit_line:
  assumes "ols_sample x y" "\<forall>i < length x. y ! i = a * x ! i + c"
  shows "OLSSlope x y = (a, c, if a = 0 then 0 else 1)"
proof -
  let ?n = "length x" and ?D = "cov (length x) ((!) x) ((!) x)"
  have D: "0 < ?D" using assms(1) cov_self_nonneg [of ?n "(!) x"] by (auto simp: ols_sample_def)
  have n: "0 < real ?n" using assms(1) by (auto simp: ols_sample_def)
  have y: "(\<Sum>i<?n. y ! i) = a * (\<Sum>i<?n. x ! i) + ?n * c"
    using assms(2) by (simp add: sum.distrib sum_distrib_left)
  have b: "((\<Sum>i<?n. y ! i) - a * (\<Sum>i<?n. x ! i)) / ?n = c"
    unfolding y using n by simp
  have R: "?D * (a * a * ?D) \<le> 0 \<longleftrightarrow> a = 0"
    using D by (auto simp: mult_le_0_iff)
  show ?thesis
    using assms(1) D R b
    unfolding ols_sample_def
    by (simp add: OLSSlope_cases [OF _ _ refl refl] cov_affine [OF assms(2)] Let_def power2_eq_square)
qed



text \<open>
  The fit is exact on exact lines: when every \<open>y\<close> is \<open>a * x + c\<close>, the slope is \<open>a\<close>, the
  intercept is \<open>c\<close>, and the coefficient of determination is 1 unless the line is level.
\<close>

lemma OLSSlope_exact:
  assumes "ols_sample x y" "\<forall>i < length x. y ! i = a * x ! i + c"
  shows "OLSSlope x y = (a, c, if a = 0 then 0 else 1)"
  by (rule OLSSlope_fit_line [OF assms])

text \<open>
  The coefficient of determination is always between 0 and 1, on every input.
\<close>

lemma OLSSlope_r_squared_bounds: "0 \<le> snd (snd (OLSSlope x y)) \<and> snd (snd (OLSSlope x y)) \<le> 1"
proof (cases "ols_sample x y")
  case False
  then have "OLSSlope x y = (0, 0, 0)"
    unfolding OLSSlope_def ols_sums by (auto simp: ols_sample_def Let_def cov_def)
  then show ?thesis by simp
next
  case True
  let ?n = "length x"
  have D: "0 < cov ?n ((!) x) ((!) x)"
    using True cov_self_nonneg [of ?n "(!) x"] by (auto simp: ols_sample_def)
  show ?thesis
    using True cov_cauchy_schwarz [OF D, of "(!) y"]
    unfolding ols_sample_def by (simp add: OLSSlope_cases [OF _ _ refl refl] Let_def power2_eq_square divide_le_eq)
qed

end
