(* ===== verification/Profiler.thy ===== *)
theory Profiler
  imports Model Regression
begin

text \<open>
  The resource profiler of \<open>src/internal/analytics/profiler\<close>: the bounded history of samples
  per process and device (\<open>resource_history.go\<close>), the idle-GPU check made on every snapshot and
  the memory-leak analysis (\<open>profiler.go\<close>). The readings of the clock inside one call are one
  argument. A slice expression or allocation out of range panics, which is \<open>None\<close>.
\<close>

section \<open>Types\<close>

datatype AnomalyType = AnomalyIdleGPU | AnomalyMemoryLeak

datatype Severity = SeverityWarning | SeverityCritical

fun anomaly_string :: "AnomalyType \<Rightarrow> gostring" where
  "anomaly_string AnomalyIdleGPU = ''IDLE_GPU_HOG''"
| "anomaly_string AnomalyMemoryLeak = ''HOST_MEMORY_LEAK''"

fun severity_string :: "Severity \<Rightarrow> gostring" where
  "severity_string SeverityWarning = ''WARNING''"
| "severity_string SeverityCritical = ''CRITICAL''"

record ProfilerConfig =
  fc_WindowSize :: int
  fc_MaxAge :: duration
  fc_IdleVRAMThreshold :: "64 word"
  fc_IdleSMThresholdPct :: real
  fc_IdleDuration :: duration
  fc_LeakSlopeThreshold :: real
  fc_LeakRSquaredThreshold :: real
  fc_AnalysisInterval :: duration
  fc_AlertCooldown :: duration
  fc_GCInterval :: duration

definition ProfilerDefaultConfig :: ProfilerConfig where
  "ProfilerDefaultConfig = \<lparr>
     fc_WindowSize = 60,
     fc_MaxAge = 5 * minute_ns,
     fc_IdleVRAMThreshold = 4 * 1024 * 1024 * 1024,
     fc_IdleSMThresholdPct = 2,
     fc_IdleDuration = 3 * minute_ns,
     fc_LeakSlopeThreshold = 1024 * 1024,
     fc_LeakRSquaredThreshold = 90 / 100,
     fc_AnalysisInterval = 30 * second_ns,
     fc_AlertCooldown = 5 * minute_ns,
     fc_GCInterval = 60 * second_ns\<rparr>"

datatype ResourceKey = ResourceKey (rk_PID: int) (rk_GPUUID: gostring)

text \<open>Keys are ordered by process and device, so that the order of keys is an order of visits.\<close>

instantiation ResourceKey :: linorder
begin

definition less_eq_ResourceKey :: "ResourceKey \<Rightarrow> ResourceKey \<Rightarrow> bool" where
  "less_eq_ResourceKey a b \<longleftrightarrow> rk_PID a < rk_PID b \<or> rk_PID a = rk_PID b \<and> rk_GPUUID a \<le> rk_GPUUID b"

definition less_ResourceKey :: "ResourceKey \<Rightarrow> ResourceKey \<Rightarrow> bool" where
  "less_ResourceKey a b \<longleftrightarrow> a \<le> b \<and> \<not> b \<le> a" for a b :: ResourceKey

instance
  by standard (auto simp: less_eq_ResourceKey_def less_ResourceKey_def intro: ResourceKey.expand)

end

record TimeSeriesPoint =
  ts_Timestamp :: int
  ts_SMUtilPct :: real
  ts_VRAMUsed :: "64 word"
  ts_VRAMTotal :: "64 word"
  ts_RSSBytes :: "64 word"
  ts_CPUUsagePct :: real

record ResourceHistory =
  rh_key :: ResourceKey
  rh_points :: "TimeSeriesPoint list"
  rh_maxSize :: int
  rh_maxAge :: duration
  rh_lastAccess :: "time_ns option"
  rh_lastAlertAt :: "time_ns option"

record MetricsSummary =
  ms_DurationSeconds :: real
  ms_CurrentVRAMAllocationBytes :: "64 word"
  ms_RollingAvgSMUtilizationPct :: real
  ms_CalculatedEfficiencyCoefficient :: real

record MemoryTrendAnalysis =
  mt_OLSSlopeBytesPerSec :: real
  mt_LinearityRSquared :: real

record AnomalyAlertBody =
  ab_TargetPID :: int
  ab_GPUUID :: gostring
  ab_AnomalyType :: AnomalyType
  ab_Severity :: Severity
  ab_MetricsSummary :: MetricsSummary
  ab_MemoryTrend :: MemoryTrendAnalysis

record AnomalyAlert =
  aa_Timestamp :: int
  aa_Alert :: AnomalyAlertBody

section \<open>The resource history\<close>

definition newResourceHistory :: "ResourceKey \<Rightarrow> int \<Rightarrow> duration \<Rightarrow> ResourceHistory option" where
  "newResourceHistory key maxSize maxAge =
     (if maxSize < 0 then None
      else Some \<lparr>rh_key = key, rh_points = [], rh_maxSize = maxSize, rh_maxAge = maxAge,
                 rh_lastAccess = None, rh_lastAlertAt = None\<rparr>)"

definition Append :: "ResourceHistory \<Rightarrow> TimeSeriesPoint \<Rightarrow> time_ns \<Rightarrow> ResourceHistory option" where
  "Append rh p now =
     (let cutoff = to_i64 (ts_Timestamp p - whole_seconds (rh_maxAge rh));
          trimmed = length (takeWhile (\<lambda>pt. \<not> ts_Timestamp pt \<ge> cutoff) (rh_points rh));
          points = drop trimmed (rh_points rh);
          excess = int (length points) + 1 - rh_maxSize rh
      in if int (length points) \<ge> rh_maxSize rh \<and> excess > int (length points) then None
         else
           (let points = (if int (length points) \<ge> rh_maxSize rh then drop (nat excess) points else points)
            in Some (rh\<lparr>rh_points := points @ [p], rh_lastAccess := Some now\<rparr>)))"

definition rh_Len :: "ResourceHistory \<Rightarrow> nat" where
  "rh_Len rh = length (rh_points rh)"

definition Points :: "ResourceHistory \<Rightarrow> TimeSeriesPoint list" where
  "Points rh = rh_points rh"

definition OldestTimestamp :: "ResourceHistory \<Rightarrow> int" where
  "OldestTimestamp rh = (if length (rh_points rh) = 0 then 0 else ts_Timestamp (rh_points rh ! 0))"

definition NewestTimestamp :: "ResourceHistory \<Rightarrow> int" where
  "NewestTimestamp rh =
     (case rh_points rh of
        [] \<Rightarrow> 0
      | p # ps \<Rightarrow> fold (\<lambda>p maxTS. if ts_Timestamp p > maxTS then ts_Timestamp p else maxTS) ps (ts_Timestamp p))"

definition RollingAvgSMUtil :: "ResourceHistory \<Rightarrow> real" where
  "RollingAvgSMUtil rh =
     (if length (rh_points rh) = 0 then 0
      else fold (\<lambda>p total. total + ts_SMUtilPct p) (rh_points rh) 0 / real (length (rh_points rh)))"

definition RollingAvgCPU :: "ResourceHistory \<Rightarrow> real" where
  "RollingAvgCPU rh =
     (if length (rh_points rh) = 0 then 0
      else fold (\<lambda>p total. total + ts_CPUUsagePct p) (rh_points rh) 0 / real (length (rh_points rh)))"

definition MaxVRAMUsed :: "ResourceHistory \<Rightarrow> 64 word" where
  "MaxVRAMUsed rh = fold (\<lambda>p m. if ts_VRAMUsed p > m then ts_VRAMUsed p else m) (rh_points rh) 0"

definition LatestVRAMUsed :: "ResourceHistory \<Rightarrow> 64 word" where
  "LatestVRAMUsed rh =
     (if length (rh_points rh) = 0 then 0 else ts_VRAMUsed (rh_points rh ! (length (rh_points rh) - 1)))"

definition LatestCPUUsage :: "ResourceHistory \<Rightarrow> real" where
  "LatestCPUUsage rh =
     (if length (rh_points rh) = 0 then 0 else ts_CPUUsagePct (rh_points rh ! (length (rh_points rh) - 1)))"

section \<open>The profiler\<close>

record Profiler =
  pf_cfg :: ProfilerConfig
  pf_histories :: "ResourceKey \<rightharpoonup> ResourceHistory"
  pf_alerts :: "AnomalyAlert list"

definition NewProfiler :: "ProfilerConfig \<Rightarrow> Profiler" where
  "NewProfiler cfg = \<lparr>pf_cfg = cfg, pf_histories = Map.empty, pf_alerts = []\<rparr>"

definition profiler_buffer :: nat where "profiler_buffer = 64"

definition profiler_emit :: "Profiler \<Rightarrow> AnomalyAlert \<Rightarrow> Profiler" where
  "profiler_emit p a = p\<lparr>pf_alerts := try_send profiler_buffer (pf_alerts p) a\<rparr>"

definition put_history :: "Profiler \<Rightarrow> ResourceKey \<Rightarrow> ResourceHistory \<Rightarrow> Profiler" where
  "put_history p key rh = p\<lparr>pf_histories := (pf_histories p)(key \<mapsto> rh)\<rparr>"

definition getOrCreate :: "Profiler \<Rightarrow> ResourceKey \<Rightarrow> (ResourceHistory \<times> Profiler) option" where
  "getOrCreate p key =
     (case pf_histories p key of
        Some rh \<Rightarrow> Some (rh, p)
      | None \<Rightarrow>
          (case newResourceHistory key (fc_WindowSize (pf_cfg p)) (fc_MaxAge (pf_cfg p)) of
             None \<Rightarrow> None
           | Some rh \<Rightarrow> Some (rh, put_history p key rh)))"

definition gpuEfficiency :: "real \<Rightarrow> real \<Rightarrow> real \<Rightarrow> real" where
  "gpuEfficiency smUtilPct vramUsed vramTotal =
     (let vramPct = (vramUsed / max 1 vramTotal) * 100;
          denom = max 1 vramPct
      in smUtilPct / denom)"

text \<open>The alert of \<open>checkGPUIdle\<close>, when every guard passes.\<close>

definition idle_alert ::
  "ProfilerConfig \<Rightarrow> int \<Rightarrow> gostring \<Rightarrow> ResourceHistory \<Rightarrow> time_ns \<Rightarrow> AnomalyAlert option" where
  "idle_alert cfg pid gpuUUID rh t =
     (if rh_Len rh < 2 then None
      else
        (let newest = rh_points rh ! (rh_Len rh - 1);
             avgSM = RollingAvgSMUtil rh;
             dur = real_of_int (to_i64 (ts_Timestamp newest - OldestTimestamp rh))
         in if ts_VRAMUsed newest < fc_IdleVRAMThreshold cfg then None
            else if avgSM \<ge> fc_IdleSMThresholdPct cfg then None
            else if dur < seconds_of (fc_IdleDuration cfg) then None
            else if cooling_down t (rh_lastAlertAt rh) (fc_AlertCooldown cfg) then None
            else Some \<lparr>aa_Timestamp = ts_Timestamp newest,
              aa_Alert = \<lparr>
                ab_TargetPID = pid,
                ab_GPUUID = gpuUUID,
                ab_AnomalyType = AnomalyIdleGPU,
                ab_Severity = SeverityCritical,
                ab_MetricsSummary = \<lparr>
                  ms_DurationSeconds = dur,
                  ms_CurrentVRAMAllocationBytes = ts_VRAMUsed newest,
                  ms_RollingAvgSMUtilizationPct = avgSM,
                  ms_CalculatedEfficiencyCoefficient = gpuEfficiency (ts_SMUtilPct newest)
                    (real (unat (ts_VRAMUsed newest))) (real (unat (ts_VRAMTotal newest)))\<rparr>,
                ab_MemoryTrend = \<lparr>mt_OLSSlopeBytesPerSec = 0, mt_LinearityRSquared = 0\<rparr>\<rparr>\<rparr>))"

text \<open>Recording an alert: the time on the history, the alert on the channel.\<close>

definition raise_alert ::
  "Profiler \<Rightarrow> ResourceKey \<Rightarrow> ResourceHistory \<Rightarrow> AnomalyAlert option \<Rightarrow> time_ns \<Rightarrow> Profiler" where
  "raise_alert p key rh alert t =
     (case alert of
        None \<Rightarrow> put_history p key rh
      | Some a \<Rightarrow> profiler_emit (put_history p key (rh\<lparr>rh_lastAlertAt := Some t\<rparr>)) a)"

definition checkGPUIdle ::
  "Profiler \<Rightarrow> int \<Rightarrow> gostring \<Rightarrow> ResourceHistory \<Rightarrow> time_ns \<Rightarrow> Profiler" where
  "checkGPUIdle p pid gpuUUID rh t =
     raise_alert p (ResourceKey pid gpuUUID) rh (idle_alert (pf_cfg p) pid gpuUUID rh t) t"

definition gpu_point :: "int \<Rightarrow> GPUDeviceMetrics \<Rightarrow> GPUProcessMetrics \<Rightarrow> ProcessMetrics option \<Rightarrow> TimeSeriesPoint" where
  "gpu_point now gpu gp tracked = \<lparr>
     ts_Timestamp = now,
     ts_SMUtilPct = gd_SMUtilizationPct gpu,
     ts_VRAMUsed = gp_VRAMUsedBytes gp,
     ts_VRAMTotal = gd_MemoryTotalBytes gpu,
     ts_RSSBytes = (case tracked of None \<Rightarrow> 0 | Some pm \<Rightarrow> pm_RSSBytes pm),
     ts_CPUUsagePct = (case tracked of None \<Rightarrow> 0 | Some pm \<Rightarrow> pm_CPUUsagePct pm)\<rparr>"

definition host_point :: "int \<Rightarrow> ProcessMetrics \<Rightarrow> TimeSeriesPoint" where
  "host_point now pm = \<lparr>ts_Timestamp = now, ts_SMUtilPct = 0, ts_VRAMUsed = 0, ts_VRAMTotal = 0,
     ts_RSSBytes = pm_RSSBytes pm, ts_CPUUsagePct = pm_CPUUsagePct pm\<rparr>"

text \<open>The body of the loop over the processes of a device.\<close>

definition ingest_gpu_process ::
  "int \<Rightarrow> (int \<rightharpoonup> ProcessMetrics) \<Rightarrow> time_ns \<Rightarrow> GPUDeviceMetrics \<Rightarrow> GPUProcessMetrics \<Rightarrow> Profiler \<Rightarrow> Profiler option" where
  "ingest_gpu_process now procMap t gpu gp p =
     (let pid = uint (gp_PID gp); key = ResourceKey pid (gd_UUID gpu)
      in case getOrCreate p key of
           None \<Rightarrow> None
         | Some (rh, p) \<Rightarrow>
             (case Append rh (gpu_point now gpu gp None) t of
                None \<Rightarrow> None
              | Some rh \<Rightarrow>
                  (let rh = (case procMap pid of
                               None \<Rightarrow> rh
                             | Some pm \<Rightarrow> rh\<lparr>rh_points := (rh_points rh)[rh_Len rh - 1 := gpu_point now gpu gp (Some pm)]\<rparr>)
                   in Some (checkGPUIdle p pid (gd_UUID gpu) rh t))))"

definition ingest_host_process :: "int \<Rightarrow> time_ns \<Rightarrow> ProcessMetrics \<Rightarrow> Profiler \<Rightarrow> Profiler option" where
  "ingest_host_process now t pm p =
     (let key = ResourceKey (pm_PID pm) ''''
      in case getOrCreate p key of
           None \<Rightarrow> None
         | Some (rh, p) \<Rightarrow>
             (case Append rh (host_point now pm) t of
                None \<Rightarrow> None
              | Some rh \<Rightarrow> Some (put_history p key rh)))"

definition proc_map :: "ProcessMetrics list \<Rightarrow> int \<rightharpoonup> ProcessMetrics" where
  "proc_map pms = fold (\<lambda>pm m. m(pm_PID pm \<mapsto> pm)) pms Map.empty"

definition profiler_Ingest :: "Profiler \<Rightarrow> Snapshot option \<Rightarrow> time_ns \<Rightarrow> Profiler option" where
  "profiler_Ingest p snap t =
     (case snap of
        None \<Rightarrow> Some p
      | Some snap \<Rightarrow>
          (let now = (if sn_Timestamp snap = 0 then t div second_ns else sn_Timestamp snap);
               procMap = proc_map (sn_MonitoredProcesses snap)
           in case fold_opt (\<lambda>gpu. fold_opt (ingest_gpu_process now procMap t gpu) (gd_RunningProcesses gpu))
                     (sn_GPUDevices snap) p of
                None \<Rightarrow> None
              | Some p \<Rightarrow> fold_opt (ingest_host_process now t) (sn_MonitoredProcesses snap) p))"

text \<open>The two halves of the CPU readings, compared by \<open>analyzeMemoryLeak\<close>.\<close>

definition cpu_increasing :: "TimeSeriesPoint list \<Rightarrow> bool" where
  "cpu_increasing points =
     (let n = length points; half = n div 2;
          firstHalfCPU = fold (\<lambda>i total. total + ts_CPUUsagePct (points ! i)) [0..<half] 0 / real half;
          secondHalfCPU = fold (\<lambda>i total. total + ts_CPUUsagePct (points ! i)) [half..<n] 0 / real (n - half)
      in n \<ge> 3 \<and> secondHalfCPU > firstHalfCPU * (11 / 10))"

definition leak_alert :: "ProfilerConfig \<Rightarrow> int \<Rightarrow> ResourceHistory \<Rightarrow> time_ns \<Rightarrow> AnomalyAlert option" where
  "leak_alert cfg pid rh t =
     (let n = rh_Len rh; points = rh_points rh
      in if n < 10 then None
         else
           (let firstTS = real_of_int (ts_Timestamp (points ! 0));
                x = map (\<lambda>pt. real_of_int (ts_Timestamp pt) - firstTS) points;
                y = map (\<lambda>pt. real (unat (ts_RSSBytes pt))) points;
                (slope, _, rSquared) = OLSSlope x y
            in if slope < fc_LeakSlopeThreshold cfg then None
               else if rSquared < fc_LeakRSquaredThreshold cfg then None
               else if cpu_increasing points then None
               else if cooling_down t (rh_lastAlertAt rh) (fc_AlertCooldown cfg) then None
               else
                 (let newest = points ! (n - 1);
                      dur = real_of_int (to_i64 (ts_Timestamp newest - ts_Timestamp (points ! 0)))
                  in Some \<lparr>aa_Timestamp = ts_Timestamp newest,
                       aa_Alert = \<lparr>
                         ab_TargetPID = pid,
                         ab_GPUUID = '''',
                         ab_AnomalyType = AnomalyMemoryLeak,
                         ab_Severity = SeverityWarning,
                         ab_MetricsSummary = \<lparr>
                           ms_DurationSeconds = dur,
                           ms_CurrentVRAMAllocationBytes = 0,
                           ms_RollingAvgSMUtilizationPct = 0,
                           ms_CalculatedEfficiencyCoefficient = 0\<rparr>,
                         ab_MemoryTrend = \<lparr>
                           mt_OLSSlopeBytesPerSec = slope,
                           mt_LinearityRSquared = rSquared\<rparr>\<rparr>\<rparr>)))"

definition analyzeMemoryLeak :: "Profiler \<Rightarrow> ResourceKey \<Rightarrow> ResourceHistory \<Rightarrow> time_ns \<Rightarrow> Profiler" where
  "analyzeMemoryLeak p key rh t = raise_alert p key rh (leak_alert (pf_cfg p) (rk_PID key) rh t) t"

definition runMemoryLeakAnalysis ::
  "((ResourceKey \<rightharpoonup> ResourceHistory) \<Rightarrow> ResourceKey list) \<Rightarrow> Profiler \<Rightarrow> time_ns \<Rightarrow> Profiler" where
  "runMemoryLeakAnalysis ord p t =
     fold (\<lambda>key p.
         if rk_GPUUID key \<noteq> '''' then p
         else (case pf_histories p key of None \<Rightarrow> p | Some rh \<Rightarrow> analyzeMemoryLeak p key rh t))
       (ord (pf_histories p)) p"

definition stale_history :: "duration \<Rightarrow> time_ns \<Rightarrow> ResourceHistory \<Rightarrow> bool" where
  "stale_history maxAge now rh \<longleftrightarrow> time_since now (rh_lastAccess rh) > maxAge"

definition profiler_runGC ::
  "((ResourceKey \<rightharpoonup> ResourceHistory) \<Rightarrow> ResourceKey list) \<Rightarrow> Profiler \<Rightarrow> time_ns \<Rightarrow> Profiler" where
  "profiler_runGC ord p now =
     p\<lparr>pf_histories := delete_where (stale_history (fc_MaxAge (pf_cfg p)) now)
         (range_pairs ord (pf_histories p)) (pf_histories p)\<rparr>"

interpretation profiler_sink: event_sink profiler_emit pf_alerts "\<lambda>_. profiler_buffer"
  by unfold_locales (simp_all add: profiler_emit_def)

section \<open>The bounded history\<close>

text \<open>The samples not older than the history's age limit when \<open>p\<close> arrives, oldest ones cut.\<close>

definition fresh_points :: "ResourceHistory \<Rightarrow> TimeSeriesPoint \<Rightarrow> TimeSeriesPoint list" where
  "fresh_points rh p =
     dropWhile (\<lambda>pt. ts_Timestamp pt < to_i64 (ts_Timestamp p - whole_seconds (rh_maxAge rh))) (rh_points rh)"

lemma drop_length_takeWhile: "drop (length (takeWhile P xs)) xs = dropWhile P xs"
  by (induction xs) auto

lemma Append_spec:
  assumes "1 \<le> rh_maxSize rh"
  shows "Append rh p now =
    Some (rh\<lparr>rh_points := newest_n (nat (rh_maxSize rh)) (fresh_points rh p @ [p]), rh_lastAccess := Some now\<rparr>)"
proof -
  have pts: "drop (length (takeWhile (\<lambda>pt. \<not> ts_Timestamp pt \<ge> to_i64 (ts_Timestamp p - whole_seconds (rh_maxAge rh)))
      (rh_points rh))) (rh_points rh) = fresh_points rh p"
    by (simp add: fresh_points_def drop_length_takeWhile not_le)
  have "newest_n (nat k) (xs @ [p]) = (if int (length xs) \<ge> k then drop (nat (int (length xs) + 1 - k)) xs else xs) @ [p]"
    if "1 \<le> k" for k and xs :: "TimeSeriesPoint list"
    using that by (auto simp: newest_n_def nat_diff_distrib nat_add_distrib Suc_nat_eq_nat_zadd1 add.commute)
  from this [OF assms, of "fresh_points rh p"] show ?thesis
    using assms unfolding Append_def Let_def pts by simp
qed

lemma Append_panics: "rh_maxSize rh \<le> 0 \<Longrightarrow> Append rh p now = None"
  by (simp add: Append_def Let_def)

lemma fresh_points_young:
  assumes "sorted (map ts_Timestamp (rh_points rh))" "pt \<in> set (fresh_points rh p)"
  shows "to_i64 (ts_Timestamp p - whole_seconds (rh_maxAge rh)) \<le> ts_Timestamp pt"
proof -
  have "sorted (map ts_Timestamp xs) \<Longrightarrow> x \<in> set (dropWhile (\<lambda>pt. ts_Timestamp pt < c) xs) \<Longrightarrow> c \<le> ts_Timestamp x"
    for xs :: "TimeSeriesPoint list" and x c
    by (induction xs) (force split: if_splits)+
  with assms show ?thesis unfolding fresh_points_def by blast
qed

section \<open>The invariant\<close>

definition history_ok :: "ProfilerConfig \<Rightarrow> ResourceKey \<Rightarrow> ResourceHistory \<Rightarrow> bool" where
  "history_ok cfg key rh \<longleftrightarrow> rh_key rh = key \<and> rh_maxSize rh = fc_WindowSize cfg \<and> rh_maxAge rh = fc_MaxAge cfg \<and>
     int (rh_Len rh) \<le> fc_WindowSize cfg"

definition profiler_inv :: "ProfilerConfig \<Rightarrow> Profiler \<Rightarrow> bool" where
  "profiler_inv cfg p \<longleftrightarrow> pf_cfg p = cfg \<and> finite (dom (pf_histories p)) \<and>
     (\<forall>key rh. pf_histories p key = Some rh \<longrightarrow> history_ok cfg key rh) \<and>
     length (pf_alerts p) \<le> profiler_buffer"

lemma NewProfiler_inv [inv_intros]: "profiler_inv cfg (NewProfiler cfg)"
  by (simp add: profiler_inv_def NewProfiler_def)

lemma put_history_inv [inv_intros]:
  "profiler_inv cfg p \<Longrightarrow> history_ok cfg key rh \<Longrightarrow> profiler_inv cfg (put_history p key rh)"
  by (simp add: profiler_inv_def put_history_def)

lemma profiler_emit_inv [inv_intros]: "profiler_inv cfg p \<Longrightarrow> profiler_inv cfg (profiler_emit p a)"
  by (simp add: profiler_inv_def profiler_emit_def length_try_send)

lemma raise_alert_inv [inv_intros]:
  assumes "profiler_inv cfg p" "history_ok cfg key rh"
  shows "profiler_inv cfg (raise_alert p key rh alert t)"
proof (cases alert)
  case None
  then show ?thesis using assms by (simp add: raise_alert_def put_history_inv)
next
  case (Some a)
  have "history_ok cfg key (rh\<lparr>rh_lastAlertAt := Some t\<rparr>)"
    using assms(2) by (simp add: history_ok_def rh_Len_def)
  then show ?thesis using Some assms by (simp add: raise_alert_def put_history_inv profiler_emit_inv)
qed

lemma getOrCreate_ok:
  assumes "profiler_inv cfg p" "0 \<le> fc_WindowSize cfg"
  obtains rh p' where "getOrCreate p key = Some (rh, p')" "history_ok cfg key rh" "profiler_inv cfg p'"
proof (cases "pf_histories p key")
  case None
  let ?rh = "\<lparr>rh_key = key, rh_points = [], rh_maxSize = fc_WindowSize cfg, rh_maxAge = fc_MaxAge cfg,
    rh_lastAccess = None, rh_lastAlertAt = None\<rparr>"
  have ok: "history_ok cfg key ?rh" using assms(2) by (simp add: history_ok_def rh_Len_def)
  have "getOrCreate p key = Some (?rh, put_history p key ?rh)"
    using None assms by (simp add: getOrCreate_def newResourceHistory_def profiler_inv_def)
  then show ?thesis using that ok put_history_inv [OF assms(1) ok] by blast
next
  case (Some rh)
  then show ?thesis using that assms(1) by (simp add: getOrCreate_def profiler_inv_def)
qed

lemma Append_ok:
  assumes "history_ok cfg key rh" "1 \<le> fc_WindowSize cfg"
  obtains rh' where "Append rh p t = Some rh'" "history_ok cfg key rh'" "rh_points rh' \<noteq> []"
proof -
  let ?rh' = "rh\<lparr>rh_points := newest_n (nat (rh_maxSize rh)) (fresh_points rh p @ [p]), rh_lastAccess := Some t\<rparr>"
  have "1 \<le> rh_maxSize rh" using assms by (simp add: history_ok_def)
  then have "Append rh p t = Some ?rh'" by (rule Append_spec)
  moreover have "history_ok cfg key ?rh'"
    using assms by (simp add: history_ok_def rh_Len_def)
  moreover have "length (rh_points ?rh') \<noteq> 0"
    using \<open>1 \<le> rh_maxSize rh\<close> by simp
  then have "rh_points ?rh' \<noteq> []" by (simp only: length_0_conv) simp
  ultimately show ?thesis using that by blast
qed

lemma ingest_gpu_process_ok:
  assumes "profiler_inv cfg p" "1 \<le> fc_WindowSize cfg"
  shows "\<exists>p'. ingest_gpu_process now procMap t gpu gp p = Some p' \<and> profiler_inv cfg p'"
proof -
  let ?key = "ResourceKey (uint (gp_PID gp)) (gd_UUID gpu)"
  obtain rh p1 where g: "getOrCreate p ?key = Some (rh, p1)" "history_ok cfg ?key rh" "profiler_inv cfg p1"
    using getOrCreate_ok [OF assms(1)] assms(2) by (metis order_trans zero_le_one)
  obtain rh' where a: "Append rh (gpu_point now gpu gp None) t = Some rh'" "history_ok cfg ?key rh'"
    using Append_ok [OF g(2) assms(2)] by blast
  have "history_ok cfg ?key (rh'\<lparr>rh_points := (rh_points rh')[i := pt]\<rparr>)" for i pt
    using a(2) by (simp add: history_ok_def rh_Len_def)
  then show ?thesis
    using g a by (auto simp: ingest_gpu_process_def Let_def checkGPUIdle_def split: option.splits intro: raise_alert_inv)
qed

lemma ingest_host_process_ok:
  assumes "profiler_inv cfg p" "1 \<le> fc_WindowSize cfg"
  shows "\<exists>p'. ingest_host_process now t pm p = Some p' \<and> profiler_inv cfg p'"
proof -
  let ?key = "ResourceKey (pm_PID pm) ''''"
  obtain rh p1 where g: "getOrCreate p ?key = Some (rh, p1)" "history_ok cfg ?key rh" "profiler_inv cfg p1"
    using getOrCreate_ok [OF assms(1)] assms(2) by (metis order_trans zero_le_one)
  obtain rh' where a: "Append rh (host_point now pm) t = Some rh'" "history_ok cfg ?key rh'"
    using Append_ok [OF g(2) assms(2)] by blast
  then show ?thesis
    using g put_history_inv [OF g(3) a(2)] by (simp add: ingest_host_process_def Let_def)
qed

lemma profiler_Ingest_ok:
  assumes "profiler_inv cfg p" "1 \<le> fc_WindowSize cfg"
  shows "\<exists>p'. profiler_Ingest p snap t = Some p' \<and> profiler_inv cfg p'"
proof (cases snap)
  case None
  then show ?thesis using assms by (simp add: profiler_Ingest_def)
next
  case (Some s)
  define now where "now = (if sn_Timestamp s = 0 then t div second_ns else sn_Timestamp s)"
  define pm where "pm = proc_map (sn_MonitoredProcesses s)"
  have gpu: "\<exists>q'. fold_opt (ingest_gpu_process now pm t gpu) (gd_RunningProcesses gpu) q = Some q' \<and> profiler_inv cfg q'"
    if "profiler_inv cfg q" for q gpu
    by (rule fold_opt_inv [where P = "profiler_inv cfg", OF that ingest_gpu_process_ok [OF _ assms(2)]])
  obtain p1 where p1: "fold_opt (\<lambda>gpu. fold_opt (ingest_gpu_process now pm t gpu) (gd_RunningProcesses gpu))
      (sn_GPUDevices s) p = Some p1" "profiler_inv cfg p1"
    using fold_opt_inv [where P = "profiler_inv cfg" and xs = "sn_GPUDevices s"
        and f = "\<lambda>gpu. fold_opt (ingest_gpu_process now pm t gpu) (gd_RunningProcesses gpu)", OF assms(1) gpu] by blast
  obtain p2 where "fold_opt (ingest_host_process now t) (sn_MonitoredProcesses s) p1 = Some p2" "profiler_inv cfg p2"
    using fold_opt_inv [where P = "profiler_inv cfg" and xs = "sn_MonitoredProcesses s"
        and f = "ingest_host_process now t", OF p1(2) ingest_host_process_ok [OF _ assms(2)]] by blast
  then show ?thesis
    using Some p1 unfolding profiler_Ingest_def now_def pm_def Let_def by (simp del: One_nat_def)
qed

lemma analyzeMemoryLeak_inv [inv_intros]:
  "profiler_inv cfg p \<Longrightarrow> history_ok cfg key rh \<Longrightarrow> profiler_inv cfg (analyzeMemoryLeak p key rh t)"
  by (simp add: analyzeMemoryLeak_def raise_alert_inv)

lemma runMemoryLeakAnalysis_inv [inv_intros]:
  assumes "profiler_inv cfg p"
  shows "profiler_inv cfg (runMemoryLeakAnalysis ord p t)"
proof -
  have "profiler_inv cfg p \<Longrightarrow> profiler_inv cfg (fold (\<lambda>key p. if rk_GPUUID key \<noteq> '''' then p
         else (case pf_histories p key of None \<Rightarrow> p | Some rh \<Rightarrow> analyzeMemoryLeak p key rh t)) ks p)" for ks
  proof (induction ks arbitrary: p)
    case (Cons k ks)
    have "profiler_inv cfg (if rk_GPUUID k \<noteq> '''' then p
         else (case pf_histories p k of None \<Rightarrow> p | Some rh \<Rightarrow> analyzeMemoryLeak p k rh t))"
      using Cons.prems analyzeMemoryLeak_inv [OF Cons.prems, of k]
      by (auto simp: profiler_inv_def split: option.splits)
    with Cons.IH show ?case by simp
  qed simp
  with assms show ?thesis by (simp add: runMemoryLeakAnalysis_def)
qed

lemma profiler_runGC_histories:
  assumes "map_range ord" "profiler_inv cfg p"
  shows "pf_histories (profiler_runGC ord p now) key =
    (case pf_histories p key of None \<Rightarrow> None
     | Some rh \<Rightarrow> if stale_history (fc_MaxAge cfg) now rh then None else Some rh)"
  using assms(2) by (simp add: profiler_runGC_def profiler_inv_def delete_where_range [OF assms(1)])

lemma profiler_runGC_inv [inv_intros]:
  assumes "map_range ord" "profiler_inv cfg p"
  shows "profiler_inv cfg (profiler_runGC ord p now)"
proof -
  have "dom (pf_histories (profiler_runGC ord p now)) \<subseteq> dom (pf_histories p)"
    by (auto simp: profiler_runGC_histories [OF assms] split: option.splits if_splits)
  then have "finite (dom (pf_histories (profiler_runGC ord p now)))"
    using assms(2) by (auto simp: profiler_inv_def intro: finite_subset)
  then show ?thesis
    using assms(2) profiler_runGC_histories [OF assms]
    by (auto simp: profiler_inv_def profiler_runGC_def split: option.splits if_splits)
qed

section \<open>Reachable profilers\<close>

inductive profiler_reach :: "ProfilerConfig \<Rightarrow> Profiler \<Rightarrow> bool" for cfg where
  reach_new: "profiler_reach cfg (NewProfiler cfg)"
| reach_ingest: "profiler_reach cfg p \<Longrightarrow> profiler_Ingest p snap t = Some p' \<Longrightarrow> profiler_reach cfg p'"
| reach_analysis: "profiler_reach cfg p \<Longrightarrow> profiler_reach cfg (runMemoryLeakAnalysis ord p t)"
| reach_gc: "profiler_reach cfg p \<Longrightarrow> map_range ord \<Longrightarrow> profiler_reach cfg (profiler_runGC ord p t)"
| reach_alert: "profiler_reach cfg p \<Longrightarrow> pf_alerts p = a # rest \<Longrightarrow> profiler_reach cfg (p\<lparr>pf_alerts := rest\<rparr>)"

lemma profiler_reach_inv:
  assumes "profiler_reach cfg p" "1 \<le> fc_WindowSize cfg"
  shows "profiler_inv cfg p"
  using assms(1)
proof induction
  case (reach_ingest p snap t p')
  then show ?case using profiler_Ingest_ok [OF _ assms(2), of p snap t] by auto
next
  case (reach_alert p a rest)
  then show ?case by (simp add: profiler_inv_def)
qed (simp_all add: inv_intros)

section \<open>Memory leaks are found\<close>

text \<open>Timestamps are whole seconds, so that a sample with two different ones can be fitted.\<close>

lemma cov_int_spread:
  fixes k :: "nat \<Rightarrow> int"
  assumes "i < n" "j < n" "k i \<noteq> k j"
  shows "1 \<le> cov n (\<lambda>i. real_of_int (k i)) (\<lambda>i. real_of_int (k i))"
proof -
  let ?f = "\<lambda>i. real_of_int (k i)"
  let ?m = "(\<Sum>i<n. ?f i) / n"
  have "n > 0" using assms(1) by simp
  have "?f i \<noteq> ?m \<or> ?f j \<noteq> ?m" using assms(3) by auto
  then obtain l where l: "l < n" "?f l \<noteq> ?m" using assms(1,2) by blast
  have "0 < (\<Sum>i<n. (?f i - ?m) * (?f i - ?m))"
    using l by (intro sum_pos2 [of _ l]) (auto simp: zero_less_mult_iff)
  then have "0 < cov n ?f ?f" using \<open>n > 0\<close> by (simp add: cov_centered)
  moreover obtain z :: int where "cov n ?f ?f = real_of_int z"
    by (rule that [of "int n * (\<Sum>i<n. k i * k i) - (\<Sum>i<n. k i) * (\<Sum>i<n. k i)"]) (simp add: cov_def)
  ultimately show ?thesis by simp
qed

definition leak_x :: "TimeSeriesPoint list \<Rightarrow> real list" where
  "leak_x points = map (\<lambda>pt. real_of_int (ts_Timestamp pt) - real_of_int (ts_Timestamp (points ! 0))) points"

definition leak_y :: "TimeSeriesPoint list \<Rightarrow> real list" where
  "leak_y points = map (\<lambda>pt. real (unat (ts_RSSBytes pt))) points"

lemma leak_sample:
  assumes "2 \<le> length points" "i < length points" "j < length points"
    and "ts_Timestamp (points ! i) \<noteq> ts_Timestamp (points ! j)"
  shows "ols_sample (leak_x points) (leak_y points)"
proof -
  let ?k = "\<lambda>i. ts_Timestamp (points ! i) - ts_Timestamp (points ! 0)"
  have "cov (length points) ((!) (leak_x points)) ((!) (leak_x points)) =
      cov (length points) (\<lambda>i. real_of_int (?k i)) (\<lambda>i. real_of_int (?k i))"
    by (simp add: cov_def leak_x_def)
  moreover have "1 \<le> \<dots>" using assms by (intro cov_int_spread [of i _ j]) simp_all
  ultimately show ?thesis
    using assms(1) by (simp add: ols_sample_def leak_x_def leak_y_def)
qed

lemma leak_alert_fit:
  assumes "OLSSlope (leak_x (rh_points rh)) (leak_y (rh_points rh)) = (m, b, r)" "10 \<le> rh_Len rh"
  shows "leak_alert cfg pid rh t \<noteq> None \<longleftrightarrow> fc_LeakSlopeThreshold cfg \<le> m \<and> fc_LeakRSquaredThreshold cfg \<le> r \<and>
      \<not> cpu_increasing (rh_points rh) \<and> \<not> cooling_down t (rh_lastAlertAt rh) (fc_AlertCooldown cfg)"
    and "leak_alert cfg pid rh t = Some a \<Longrightarrow>
      ab_TargetPID (aa_Alert a) = pid \<and> ab_AnomalyType (aa_Alert a) = AnomalyMemoryLeak \<and>
      ab_MemoryTrend (aa_Alert a) = \<lparr>mt_OLSSlopeBytesPerSec = m, mt_LinearityRSquared = r\<rparr>"
  using assms unfolding leak_alert_def leak_x_def leak_y_def Let_def by (auto split: if_splits)

section \<open>Properties\<close>

text \<open>
  C24: With a window size of at least one, the profiler never panics on a snapshot, and in every
  state it can reach each history belongs to its key and holds at most \<open>WindowSize\<close> samples,
  and at most 64 alerts wait on the channel.
\<close>

theorem profiler_bounded:
  assumes "profiler_reach cfg p" "1 \<le> fc_WindowSize cfg"
  shows "(\<exists>p'. profiler_Ingest p snap t = Some p') \<and> length (pf_alerts p) \<le> 64 \<and>
    (\<forall>key rh. pf_histories p key = Some rh \<longrightarrow> rh_key rh = key \<and> int (length (rh_points rh)) \<le> fc_WindowSize cfg)"
proof -
  have inv: "profiler_inv cfg p" using profiler_reach_inv [OF assms] .
  then have "\<exists>p'. profiler_Ingest p snap t = Some p'"
    using profiler_Ingest_ok [OF inv assms(2)] by blast
  with inv show ?thesis
    by (simp add: profiler_inv_def history_ok_def rh_Len_def profiler_buffer_def)
qed

theorem profiler_bounded_witness:
  "\<exists>p'. profiler_Ingest (NewProfiler ProfilerDefaultConfig)
     (Some \<lparr>sn_Timestamp = 5, sn_HostMetrics = \<lparr>hm_CPUUtilizationPct = 0, hm_MemoryTotalBytes = 0, hm_MemoryUsedBytes = 0\<rparr>,
        sn_MonitoredProcesses = [\<lparr>pm_PID = 7, pm_ContainerID = [], pm_ProcessName = [], pm_CPUUsagePct = 1,
          pm_RSSBytes = 9, pm_VSizeBytes = 9\<rparr>], sn_GPUDevices = []\<rparr>) 1 = Some p'"
  using profiler_bounded [OF reach_new, of ProfilerDefaultConfig] by (simp add: ProfilerDefaultConfig_def)

text \<open>
  Appending a sample to a history whose timestamps do not decrease keeps a suffix of the
  old samples followed by the new one, at most \<open>maxSize\<close> of them, none older than \<open>maxAge\<close>.
\<close>

lemma Append_window:
  assumes "1 \<le> rh_maxSize rh" "sorted (map ts_Timestamp (rh_points rh))"
  shows "\<exists>rh' kept. Append rh p now = Some rh' \<and> rh_points rh' = kept @ [p] \<and> suffix kept (rh_points rh) \<and>
    int (length (rh_points rh')) \<le> rh_maxSize rh \<and>
    (\<forall>pt \<in> set kept. to_i64 (ts_Timestamp p - whole_seconds (rh_maxAge rh)) \<le> ts_Timestamp pt)"
proof -
  let ?n = "nat (rh_maxSize rh)"
  define kept where "kept = newest_n (?n - 1) (fresh_points rh p)"
  have "newest_n ?n (fresh_points rh p @ [p]) = kept @ [p]"
    using assms(1) by (auto simp: kept_def newest_n_def)
  moreover have sub: "suffix kept (fresh_points rh p)"
    by (simp add: kept_def suffix_newest_n)
  moreover have "suffix (fresh_points rh p) (rh_points rh)"
    by (simp add: fresh_points_def suffix_dropWhile)
  moreover have "\<forall>pt \<in> set kept. to_i64 (ts_Timestamp p - whole_seconds (rh_maxAge rh)) \<le> ts_Timestamp pt"
    using fresh_points_young [OF assms(2)] set_mono_suffix [OF sub] by blast
  moreover have "int (length (kept @ [p])) \<le> rh_maxSize rh"
    using assms(1) by (auto simp: kept_def min_def)
  ultimately show ?thesis
    unfolding Append_spec [OF assms(1)] by (auto intro: suffix_order.trans)
qed


text \<open>Ten samples, one a second, two mebibytes more each time.\<close>

definition leak_rss :: "nat \<Rightarrow> 64 word" where "leak_rss k = of_nat (2097152 * k + 5)"

lemma unat_leak_rss: "k < 10 \<Longrightarrow> unat (leak_rss k) = 2097152 * k + 5"
  unfolding leak_rss_def unat_of_nat by (rule mod_less) simp

definition leaking_history :: ResourceHistory where
  "leaking_history = \<lparr>rh_key = ResourceKey 7 [],
     rh_points = map (\<lambda>k. \<lparr>ts_Timestamp = int k, ts_SMUtilPct = 0, ts_VRAMUsed = 0, ts_VRAMTotal = 0,
       ts_RSSBytes = leak_rss k, ts_CPUUsagePct = 1\<rparr>) [0..<10],
     rh_maxSize = 60, rh_maxAge = 5 * minute_ns, rh_lastAccess = Some 0, rh_lastAlertAt = None\<rparr>"


end
