(* ===== verification/Alerter.thy ===== *)
theory Alerter
  imports RingBuffer Detector Profiler
begin

text \<open>
  The alert multiplexer of \<open>src/internal/proxy/alerter\<close>: alerts of the detector and of the
  profiler are brought into one form, suppressed when an alert with the same key was forwarded
  within the suppression window, and fanned out to the console, the ring buffer and the
  subscribers. A key is the FNV-1a hash of process, anomaly and device. The JSON encoder is the
  parameter \<open>marshal\<close> (the text of a floating point number is not determined by its real value),
  and the eight random bytes of an event identifier are an argument.
\<close>

section \<open>Types\<close>

record AlerterConfig =
  lc_SuppressionWindow :: duration
  lc_InternalBufferSize :: int
  lc_FanOutCount :: int
  lc_EventIDPrefix :: gostring

definition AlerterDefaultConfig :: AlerterConfig where
  "AlerterDefaultConfig = \<lparr>
     lc_SuppressionWindow = 30 * second_ns,
     lc_InternalBufferSize = 256,
     lc_FanOutCount = 2,
     lc_EventIDPrefix = ''evt_''\<rparr>"

record PropagationMetadata =
  md_IsDeduplicated :: bool
  md_CumulativeOccurrences :: int
  md_SuppressionWindowSeconds :: int

record TelemetrySnapshot =
  tl_SMUtilizationPct :: real
  tl_VRAMUsedBytes :: "64 word"

record AlertPayload =
  ap_TargetPID :: int
  ap_GPUUID :: gostring
  ap_AnomalyType :: gostring
  ap_Severity :: gostring
  ap_Telemetry :: TelemetrySnapshot

record ConsolidatedAlert =
  ca_EventID :: gostring
  ca_Timestamp :: int
  ca_Metadata :: PropagationMetadata
  ca_Payload :: AlertPayload

record DedupEntry =
  dd_FirstSeen :: int
  dd_OccurrenceCount :: int

record AlertMultiplexer =
  mx_cfg :: AlerterConfig
  mx_ringBuf :: "RingBuffer option"
  mx_console :: "ConsolidatedAlert list"
  mx_dedup :: "64 word \<rightharpoonup> DedupEntry"
  mx_internal :: "ConsolidatedAlert list"
  mx_subs :: "ConsolidatedAlert list list"

definition generateEventID :: "gostring \<Rightarrow> bytes \<Rightarrow> gostring" where
  "generateEventID pre buf = pre @ hex_encode buf"

section \<open>Operations\<close>

definition NewAlertMultiplexer :: "AlerterConfig \<Rightarrow> RingBuffer option \<Rightarrow> AlertMultiplexer" where
  "NewAlertMultiplexer cfg ringBuf =
     (let cfg = (if lc_InternalBufferSize cfg \<le> 0 then cfg\<lparr>lc_InternalBufferSize := 256\<rparr> else cfg);
          cfg = (if lc_FanOutCount cfg \<le> 0 then cfg\<lparr>lc_FanOutCount := 2\<rparr> else cfg);
          cfg = (if lc_EventIDPrefix cfg = '''' then cfg\<lparr>lc_EventIDPrefix := ''evt_''\<rparr> else cfg)
      in \<lparr>mx_cfg = cfg, mx_ringBuf = ringBuf, mx_console = [], mx_dedup = Map.empty, mx_internal = [],
          mx_subs = []\<rparr>)"

text \<open>The capacity of the internal channel and of every subscriber's channel.\<close>

definition mx_capacity :: "AlertMultiplexer \<Rightarrow> nat" where
  "mx_capacity am = nat (lc_InternalBufferSize (mx_cfg am))"

definition Subscribe :: "AlertMultiplexer \<Rightarrow> AlertMultiplexer" where
  "Subscribe am = am\<lparr>mx_subs := mx_subs am @ [[]]\<rparr>"

definition dedup_text :: "int \<Rightarrow> gostring \<Rightarrow> gostring \<Rightarrow> bytes" where
  "dedup_text pid anomalyType gpuUUID = format_int pid @ ''|'' @ anomalyType @ ''|'' @ gpuUUID"

definition dedupKey :: "int \<Rightarrow> gostring \<Rightarrow> gostring \<Rightarrow> 64 word" where
  "dedupKey pid anomalyType gpuUUID = fnv64a (dedup_text pid anomalyType gpuUUID)"

definition alert_key :: "ConsolidatedAlert \<Rightarrow> 64 word" where
  "alert_key alert =
     dedupKey (ap_TargetPID (ca_Payload alert)) (ap_AnomalyType (ca_Payload alert)) (ap_GPUUID (ca_Payload alert))"

definition empty_metadata :: PropagationMetadata where
  "empty_metadata = \<lparr>md_IsDeduplicated = False, md_CumulativeOccurrences = 0, md_SuppressionWindowSeconds = 0\<rparr>"

definition fromDetectorAlert :: "Alert \<Rightarrow> ConsolidatedAlert" where
  "fromDetectorAlert a = \<lparr>
     ca_EventID = '''',
     ca_Timestamp = al_Timestamp a,
     ca_Metadata = empty_metadata,
     ca_Payload = \<lparr>
       ap_TargetPID = as_TargetPID (al_Summary a),
       ap_GPUUID = '''',
       ap_AnomalyType = as_LoopType (al_Summary a),
       ap_Severity = ''CRITICAL'',
       ap_Telemetry = \<lparr>tl_SMUtilizationPct = 0, tl_VRAMUsedBytes = 0\<rparr>\<rparr>\<rparr>"

definition fromProfilerAlert :: "AnomalyAlert \<Rightarrow> ConsolidatedAlert" where
  "fromProfilerAlert a = \<lparr>
     ca_EventID = '''',
     ca_Timestamp = aa_Timestamp a,
     ca_Metadata = empty_metadata,
     ca_Payload = \<lparr>
       ap_TargetPID = ab_TargetPID (aa_Alert a),
       ap_GPUUID = ab_GPUUID (aa_Alert a),
       ap_AnomalyType = anomaly_string (ab_AnomalyType (aa_Alert a)),
       ap_Severity = severity_string (ab_Severity (aa_Alert a)),
       ap_Telemetry = \<lparr>
         tl_SMUtilizationPct = ms_RollingAvgSMUtilizationPct (ab_MetricsSummary (aa_Alert a)),
         tl_VRAMUsedBytes = ms_CurrentVRAMAllocationBytes (ab_MetricsSummary (aa_Alert a))\<rparr>\<rparr>\<rparr>"

definition mx_enqueue :: "AlertMultiplexer \<Rightarrow> ConsolidatedAlert \<Rightarrow> AlertMultiplexer" where
  "mx_enqueue am alert = am\<lparr>mx_internal := try_send (mx_capacity am) (mx_internal am) alert\<rparr>"

definition mx_window :: "AlertMultiplexer \<Rightarrow> int" where
  "mx_window am = whole_seconds (lc_SuppressionWindow (mx_cfg am))"

definition suppressed :: "AlertMultiplexer \<Rightarrow> ConsolidatedAlert \<Rightarrow> bool" where
  "suppressed am alert \<longleftrightarrow>
     (case mx_dedup am (alert_key alert) of
        None \<Rightarrow> False
      | Some entry \<Rightarrow> to_i64 (ca_Timestamp alert - dd_FirstSeen entry) < mx_window am)"

definition route :: "AlertMultiplexer \<Rightarrow> ConsolidatedAlert \<Rightarrow> bytes \<Rightarrow> AlertMultiplexer" where
  "route am alert buf =
     (let key = alert_key alert; now = ca_Timestamp alert
      in case mx_dedup am key of
           Some entry \<Rightarrow>
             if to_i64 (now - dd_FirstSeen entry) < mx_window am
             then am\<lparr>mx_dedup := (mx_dedup am)(key \<mapsto>
                    entry\<lparr>dd_OccurrenceCount := to_i64 (dd_OccurrenceCount entry + 1)\<rparr>)\<rparr>
             else mx_enqueue
                    (am\<lparr>mx_dedup := (mx_dedup am)(key \<mapsto> \<lparr>dd_FirstSeen = now, dd_OccurrenceCount = 1\<rparr>)\<rparr>)
                    (alert\<lparr>ca_Metadata := \<lparr>md_IsDeduplicated = False, md_CumulativeOccurrences = 1,
                        md_SuppressionWindowSeconds = mx_window am\<rparr>,
                      ca_EventID := generateEventID (lc_EventIDPrefix (mx_cfg am)) buf,
                      ca_Timestamp := now\<rparr>)
         | None \<Rightarrow> mx_enqueue
                    (am\<lparr>mx_dedup := (mx_dedup am)(key \<mapsto> \<lparr>dd_FirstSeen = now, dd_OccurrenceCount = 1\<rparr>)\<rparr>)
                    (alert\<lparr>ca_Metadata := \<lparr>md_IsDeduplicated = False, md_CumulativeOccurrences = 1,
                        md_SuppressionWindowSeconds = mx_window am\<rparr>,
                      ca_EventID := generateEventID (lc_EventIDPrefix (mx_cfg am)) buf,
                      ca_Timestamp := now\<rparr>))"

text \<open>One iteration of \<open>multiplexLoop\<close>, from either channel.\<close>

definition multiplex_detector :: "Detector \<Rightarrow> AlertMultiplexer \<Rightarrow> bytes \<Rightarrow> (Detector \<times> AlertMultiplexer) option" where
  "multiplex_detector d am buf =
     (case dt_alerts d of
        [] \<Rightarrow> None
      | a # rest \<Rightarrow> Some (d\<lparr>dt_alerts := rest\<rparr>, route am (fromDetectorAlert a) buf))"

definition multiplex_profiler :: "Profiler \<Rightarrow> AlertMultiplexer \<Rightarrow> bytes \<Rightarrow> (Profiler \<times> AlertMultiplexer) option" where
  "multiplex_profiler p am buf =
     (case pf_alerts p of
        [] \<Rightarrow> None
      | a # rest \<Rightarrow> Some (p\<lparr>pf_alerts := rest\<rparr>, route am (fromProfilerAlert a) buf))"

definition dispatchToSubscribers :: "AlertMultiplexer \<Rightarrow> ConsolidatedAlert \<Rightarrow> AlertMultiplexer" where
  "dispatchToSubscribers am alert =
     am\<lparr>mx_subs := map (\<lambda>ch. try_send (mx_capacity am) ch alert) (mx_subs am)\<rparr>"

definition writeConsole :: "(ConsolidatedAlert \<Rightarrow> bytes option) \<Rightarrow> AlertMultiplexer \<Rightarrow> ConsolidatedAlert \<Rightarrow> AlertMultiplexer" where
  "writeConsole marshal am alert =
     (case marshal alert of None \<Rightarrow> am | Some _ \<Rightarrow> am\<lparr>mx_console := mx_console am @ [alert]\<rparr>)"

definition writeRingBuf ::
  "(ConsolidatedAlert \<Rightarrow> bytes option) \<Rightarrow> AlertMultiplexer \<Rightarrow> ConsolidatedAlert \<Rightarrow> AlertMultiplexer option" where
  "writeRingBuf marshal am alert =
     (case mx_ringBuf am of
        None \<Rightarrow> Some am
      | Some rb \<Rightarrow>
          (case marshal alert of
             None \<Rightarrow> Some am
           | Some data \<Rightarrow>
               (case Push rb data of
                  None \<Rightarrow> None
                | Some rb \<Rightarrow> Some (am\<lparr>mx_ringBuf := Some rb\<rparr>))))"

text \<open>One iteration of \<open>fanOutLoop\<close>; the outer \<open>None\<close> is an empty channel.\<close>

definition fanOut_step ::
  "(ConsolidatedAlert \<Rightarrow> bytes option) \<Rightarrow> AlertMultiplexer \<Rightarrow> AlertMultiplexer option option" where
  "fanOut_step marshal am =
     (case mx_internal am of
        [] \<Rightarrow> None
      | alert # rest \<Rightarrow>
          Some (case writeRingBuf marshal (writeConsole marshal (am\<lparr>mx_internal := rest\<rparr>) alert) alert of
                  None \<Rightarrow> None
                | Some am \<Rightarrow> Some (dispatchToSubscribers am alert)))"

interpretation mx_sink: event_sink mx_enqueue mx_internal mx_capacity
  by unfold_locales (simp_all add: mx_enqueue_def mx_capacity_def)

section \<open>Routing\<close>

text \<open>The form in which an alert is forwarded.\<close>

definition forwarded :: "AlertMultiplexer \<Rightarrow> ConsolidatedAlert \<Rightarrow> bytes \<Rightarrow> ConsolidatedAlert" where
  "forwarded am alert buf = alert\<lparr>
     ca_Metadata := \<lparr>md_IsDeduplicated = False, md_CumulativeOccurrences = 1, md_SuppressionWindowSeconds = mx_window am\<rparr>,
     ca_EventID := generateEventID (lc_EventIDPrefix (mx_cfg am)) buf\<rparr>"

lemma route_forward:
  assumes "\<not> suppressed am alert"
  shows "route am alert buf = mx_enqueue
    (am\<lparr>mx_dedup := (mx_dedup am)(alert_key alert \<mapsto> \<lparr>dd_FirstSeen = ca_Timestamp alert, dd_OccurrenceCount = 1\<rparr>)\<rparr>)
    (forwarded am alert buf)"
  using assms by (simp add: route_def suppressed_def Let_def forwarded_def split: option.splits)

lemma route_suppress:
  assumes "suppressed am alert" "mx_dedup am (alert_key alert) = Some e"
  shows "route am alert buf = am\<lparr>mx_dedup := (mx_dedup am)(alert_key alert \<mapsto>
    e\<lparr>dd_OccurrenceCount := to_i64 (dd_OccurrenceCount e + 1)\<rparr>)\<rparr>"
  using assms by (simp add: route_def suppressed_def Let_def)

lemma suppressed_entry: "suppressed am alert \<Longrightarrow> \<exists>e. mx_dedup am (alert_key alert) = Some e"
  by (auto simp: suppressed_def split: option.splits)

lemma route_frame:
  "mx_cfg (route am alert buf) = mx_cfg am" "mx_subs (route am alert buf) = mx_subs am"
  "mx_ringBuf (route am alert buf) = mx_ringBuf am" "mx_console (route am alert buf) = mx_console am"
  by (simp_all add: route_def Let_def mx_enqueue_def split: option.splits)

lemma mx_window_route [simp]: "mx_window (route am alert buf) = mx_window am"
  by (simp add: mx_window_def route_frame)

section \<open>Suppression over a stream of alerts\<close>

fun route_all :: "(ConsolidatedAlert \<times> bytes) list \<Rightarrow> AlertMultiplexer \<Rightarrow> AlertMultiplexer" where
  "route_all [] am = am"
| "route_all ((alert, buf) # calls) am = route_all calls (route am alert buf)"

text \<open>Timestamp and key of every alert that is forwarded, in order.\<close>

fun forward_log :: "(ConsolidatedAlert \<times> bytes) list \<Rightarrow> AlertMultiplexer \<Rightarrow> (int \<times> 64 word) list" where
  "forward_log [] am = []"
| "forward_log ((alert, buf) # calls) am =
     (if suppressed am alert then [] else [(ca_Timestamp alert, alert_key alert)]) @
     forward_log calls (route am alert buf)"

text \<open>A timestamp for which differences do not overflow.\<close>

definition sane_time :: "int \<Rightarrow> bool" where
  "sane_time t \<longleftrightarrow> 0 \<le> t \<and> t < 2 ^ 62"

lemma sane_diff: "sane_time t \<Longrightarrow> sane_time u \<Longrightarrow> to_i64 (t - u) = t - u"
  by (intro to_i64_id) (simp add: sane_time_def in_i64_def)

definition dedup_sane :: "AlertMultiplexer \<Rightarrow> bool" where
  "dedup_sane am \<longleftrightarrow> (\<forall>k e. mx_dedup am k = Some e \<longrightarrow> sane_time (dd_FirstSeen e))"

lemma dedup_sane_route:
  assumes "dedup_sane am" "sane_time (ca_Timestamp alert)"
  shows "dedup_sane (route am alert buf)"
proof (cases "suppressed am alert")
  case True
  then obtain e where "mx_dedup am (alert_key alert) = Some e" using suppressed_entry by blast
  with True assms show ?thesis by (simp add: route_suppress dedup_sane_def)
next
  case False
  with assms show ?thesis by (simp add: route_forward mx_enqueue_def dedup_sane_def)
qed

text \<open>Everything forwarded from now on is a window away from the entry of its key.\<close>

lemma forward_log_after:
  assumes "\<forall>(a, b) \<in> set calls. sane_time (ca_Timestamp a)" "dedup_sane am"
    and "mx_dedup am k = Some e" "(t, k) \<in> set (forward_log calls am)" "0 \<le> mx_window am"
  shows "dd_FirstSeen e + mx_window am \<le> t"
  using assms
proof (induction calls am arbitrary: e rule: forward_log.induct)
  case (2 alert buf calls am)
  have sane: "sane_time (ca_Timestamp alert)" "sane_time (dd_FirstSeen e)"
    using 2(2,3,4) by (auto simp: dedup_sane_def)
  have dedup: "dedup_sane (route am alert buf)" using 2(3) sane(1) by (rule dedup_sane_route)
  have prems: "\<forall>(a, b) \<in> set calls. sane_time (ca_Timestamp a)" using 2(2) by simp
  note IH = 2(1) [OF prems dedup]
  show ?case
  proof (cases "suppressed am alert")
    case True
    then obtain e' where e': "mx_dedup am (alert_key alert) = Some e'" using suppressed_entry by blast
    have "\<exists>e''. mx_dedup (route am alert buf) k = Some e'' \<and> dd_FirstSeen e'' = dd_FirstSeen e"
      using 2(4) e' by (auto simp: route_suppress [OF True e'])
    then show ?thesis using IH 2(5,6) True by fastforce
  next
    case False
    show ?thesis
    proof (cases "alert_key alert = k")
      case True
      then have now: "dd_FirstSeen e + mx_window am \<le> ca_Timestamp alert"
        using False 2(4) sane by (simp add: suppressed_def sane_diff not_less)
      have "mx_dedup (route am alert buf) k = Some \<lparr>dd_FirstSeen = ca_Timestamp alert, dd_OccurrenceCount = 1\<rparr>"
        using True by (simp add: route_forward [OF False] mx_enqueue_def)
      from IH [OF this] show ?thesis using 2(5,6) False now by auto
    next
      case other: False
      then have "mx_dedup (route am alert buf) k = Some e"
        using 2(4) by (simp add: route_forward [OF False] mx_enqueue_def)
      from IH [OF this] show ?thesis using 2(5,6) False other by auto
    qed
  qed
qed simp

lemma forward_log_spaced:
  assumes "\<forall>(a, b) \<in> set calls. sane_time (ca_Timestamp a)" "dedup_sane am" "0 \<le> mx_window am"
  shows "spaced (mx_window am) (forward_log calls am)"
  using assms
proof (induction calls am rule: forward_log.induct)
  case (2 alert buf calls am)
  have sane: "sane_time (ca_Timestamp alert)" and prems: "\<forall>(a, b) \<in> set calls. sane_time (ca_Timestamp a)"
    using 2(2) by auto
  have dedup: "dedup_sane (route am alert buf)" using 2(3) sane by (rule dedup_sane_route)
  have IH: "spaced (mx_window am) (forward_log calls (route am alert buf))"
    using 2(1) [OF prems dedup] 2(4) by simp
  show ?case
  proof (cases "suppressed am alert")
    case False
    have "mx_dedup (route am alert buf) (alert_key alert) = Some \<lparr>dd_FirstSeen = ca_Timestamp alert, dd_OccurrenceCount = 1\<rparr>"
      by (simp add: route_forward [OF False] mx_enqueue_def)
    from forward_log_after [OF prems dedup this] 2(4)
    have "ca_Timestamp alert + mx_window am \<le> t" if "(t, alert_key alert) \<in> set (forward_log calls (route am alert buf))" for t
      using that by simp
    with IH False show ?thesis by (auto simp: spaced_def)
  qed (simp add: IH)
qed (simp add: spaced_def)

section \<open>The invariant\<close>

definition mx_inv :: "AlertMultiplexer \<Rightarrow> bool" where
  "mx_inv am \<longleftrightarrow> length (mx_internal am) \<le> mx_capacity am \<and>
     (\<forall>ch \<in> set (mx_subs am). length ch \<le> mx_capacity am) \<and>
     (case mx_ringBuf am of None \<Rightarrow> True | Some rb \<Rightarrow> rb_inv rb)"

lemma mx_inv_new [inv_intros]: "mx_inv (NewAlertMultiplexer cfg None)"
  by (simp add: mx_inv_def NewAlertMultiplexer_def Let_def)

lemma mx_inv_Subscribe [inv_intros]: "mx_inv am \<Longrightarrow> mx_inv (Subscribe am)"
  by (auto simp: mx_inv_def Subscribe_def mx_capacity_def)

lemma mx_inv_route [inv_intros]:
  assumes "mx_inv am"
  shows "mx_inv (route am alert buf)"
proof -
  have "length (mx_internal (route am alert buf)) \<le> mx_capacity am"
    using assms by (auto simp: mx_inv_def route_def Let_def mx_enqueue_def mx_capacity_def length_try_send split: option.splits)
  then show ?thesis
    using assms by (simp add: mx_inv_def route_frame mx_capacity_def)
qed

lemma fanOut_result:
  assumes "mx_inv am" "mx_internal am = alert # rest" "marshal alert = Some data"
  shows "\<exists>am'. fanOut_step marshal am = Some (Some am') \<and> mx_inv am' \<and>
    mx_internal am' = rest \<and> mx_console am' = mx_console am @ [alert] \<and>
    mx_subs am' = map (\<lambda>ch. try_send (mx_capacity am) ch alert) (mx_subs am) \<and>
    mx_dedup am' = mx_dedup am \<and> mx_cfg am' = mx_cfg am \<and>
    map_option rb_entries (mx_ringBuf am') =
      map_option (\<lambda>rb. if data = [] then rb_entries rb
        else drop_oldest (rb_maxBytes rb) (int (length data)) (rb_entries rb) @ [data]) (mx_ringBuf am)"
proof (cases "mx_ringBuf am")
  case None
  then show ?thesis
    using assms by (auto simp: fanOut_step_def writeRingBuf_def writeConsole_def dispatchToSubscribers_def mx_inv_def
        mx_capacity_def length_try_send)
next
  case (Some rb)
  then have "rb_inv rb" using assms(1) by (simp add: mx_inv_def)
  then obtain rb' where "Push rb data = Some rb'" "rb_inv rb'"
    "rb_entries rb' = (if data = [] then rb_entries rb
       else drop_oldest (rb_maxBytes rb) (int (length data)) (rb_entries rb) @ [data])"
    using Push_spec by blast
  then show ?thesis
    using assms Some by (auto simp: fanOut_step_def writeRingBuf_def writeConsole_def dispatchToSubscribers_def mx_inv_def
        mx_capacity_def length_try_send)
qed

lemma dedup_text_inject:
  assumes "CHR ''|'' \<notin> set ty" "CHR ''|'' \<notin> set ty'" "dedup_text pid ty gpu = dedup_text pid' ty' gpu'"
  shows "pid = pid' \<and> ty = ty' \<and> gpu = gpu'"
proof -
  have sep: "CHR ''|'' \<notin> set (format_int p)" for p by (rule format_int_not_sep) simp
  have "format_int pid = format_int pid' \<and> ty @ CHR ''|'' # gpu = ty' @ CHR ''|'' # gpu'"
    using assms(3) by (intro append_sep_inject [OF sep sep]) (simp add: dedup_text_def)
  then show ?thesis
    using append_sep_inject [OF assms(1,2)] format_int_inject by blast
qed

section \<open>Properties\<close>

lemma mx_window_new:
  "mx_window (NewAlertMultiplexer cfg rb) = whole_seconds (lc_SuppressionWindow cfg)"
  by (simp add: mx_window_def NewAlertMultiplexer_def Let_def)


definition probe_alert :: "int \<Rightarrow> ConsolidatedAlert" where
  "probe_alert t = \<lparr>ca_EventID = [], ca_Timestamp = t, ca_Metadata = empty_metadata,
     ca_Payload = \<lparr>ap_TargetPID = 7, ap_GPUUID = [], ap_AnomalyType = [], ap_Severity = [],
       ap_Telemetry = \<lparr>tl_SMUtilizationPct = 0, tl_VRAMUsedBytes = 0\<rparr>\<rparr>\<rparr>"

lemma probe_alert_key: "alert_key (probe_alert t) = alert_key (probe_alert 0)"
  by (simp add: alert_key_def probe_alert_def)

lemma probe_alert_time [simp]: "ca_Timestamp (probe_alert t) = t"
  by (simp add: probe_alert_def)

definition probe_mx :: AlertMultiplexer where
  "probe_mx = NewAlertMultiplexer AlerterDefaultConfig None"

lemma probe_mx_window [simp]: "mx_window probe_mx = 30"
  using whole_seconds_of_seconds [of 30] by (simp add: probe_mx_def mx_window_new AlerterDefaultConfig_def)

lemma mx_window_update [simp]:
  "mx_window (am\<lparr>mx_dedup := d\<rparr>) = mx_window am" "mx_window (am\<lparr>mx_internal := q\<rparr>) = mx_window am"
  by (simp_all add: mx_window_def)

lemma probe_forward_log:
  "forward_log [(probe_alert 1, []), (probe_alert 2, []), (probe_alert 40, [])] probe_mx =
     [(1, alert_key (probe_alert 0)), (40, alert_key (probe_alert 0))]"
proof -
  define k where "k = alert_key (probe_alert 0)"
  have key: "alert_key (probe_alert t) = k" for t using probe_alert_key by (simp add: k_def)
  have "mx_dedup probe_mx = Map.empty" by (simp add: probe_mx_def NewAlertMultiplexer_def Let_def)
  then show ?thesis
    by (simp add: suppressed_def key route_def Let_def mx_enqueue_def to_i64_def k_def [symmetric])
qed


text \<open>
  An alert that reaches the internal channel is delivered once to the console, to every
  subscriber whose channel has room and to the ring buffer, where it evicts only as many of the
  oldest entries as its size needs; the alerts behind it stay queued in order and the sizes
  of all channels stay within the configured buffer.
\<close>

lemma fanOut_delivers:
  assumes "mx_inv am" "mx_internal am = alert # rest" "marshal alert = Some data" "data \<noteq> []"
  shows "\<exists>am'. fanOut_step marshal am = Some (Some am') \<and> mx_inv am' \<and>
    mx_internal am' = rest \<and> mx_console am' = mx_console am @ [alert] \<and>
    mx_subs am' = map (\<lambda>ch. if length ch < mx_capacity am then ch @ [alert] else ch) (mx_subs am) \<and>
    (\<forall>rb. mx_ringBuf am = Some rb \<longrightarrow> (\<exists>rb'. mx_ringBuf am' = Some rb' \<and>
       rb_entries rb' = drop_oldest (rb_maxBytes rb) (int (length data)) (rb_entries rb) @ [data]))"
proof -
  obtain am' where am': "fanOut_step marshal am = Some (Some am')" "mx_inv am'" "mx_internal am' = rest"
    "mx_console am' = mx_console am @ [alert]"
    "mx_subs am' = map (\<lambda>ch. try_send (mx_capacity am) ch alert) (mx_subs am)"
    "map_option rb_entries (mx_ringBuf am') = map_option (\<lambda>rb. if data = [] then rb_entries rb
        else drop_oldest (rb_maxBytes rb) (int (length data)) (rb_entries rb) @ [data]) (mx_ringBuf am)"
    using fanOut_result [of am alert rest marshal data] assms(1-3) by auto
  moreover have "\<exists>rb'. mx_ringBuf am' = Some rb' \<and>
      rb_entries rb' = drop_oldest (rb_maxBytes rb) (int (length data)) (rb_entries rb) @ [data]"
    if "mx_ringBuf am = Some rb" for rb
    using am'(6) assms(4) that by auto
  ultimately show ?thesis by (auto simp: try_send_def)
qed

text \<open>
  Alerts for different processes, anomalies or devices are never confused before hashing:
  the text that \<open>dedupKey\<close> hashes determines all three, since no anomaly name holds the
  separator.
\<close>

lemma dedup_text_determines_alert:
  assumes "dedup_text pid (anomaly_string ty) gpu = dedup_text pid' (anomaly_string ty') gpu'"
  shows "pid = pid' \<and> ty = ty' \<and> gpu = gpu'"
proof -
  have bar: "CHR ''|'' \<notin> set (anomaly_string ty)" for ty by (cases ty) simp_all
  have "pid = pid' \<and> anomaly_string ty = anomaly_string ty' \<and> gpu = gpu'"
    using dedup_text_inject [OF bar bar assms] .
  moreover have "anomaly_string ty = anomaly_string ty' \<Longrightarrow> ty = ty'"
    by (cases ty; cases ty') simp_all
  ultimately show ?thesis by blast
qed

end
