(* ===== verification/Mitigator.thy ===== *)
theory Mitigator
  imports Policy_Engine Cgroup Containers Alerter
begin

text \<open>
  The mitigator of \<open>src/internal/proxy/mitigator\<close>: it turns an alert into an intent, asks the
  policy engine, freezes the process or its container, settles the transaction, records a
  reversible entry in its own ledger and publishes an event; \<open>Resume\<close> and \<open>RollbackPID\<close> undo
  it. The policy engine is shared with other components and is therefore an argument and a
  result, \<open>None\<close> when the mitigator runs without one. Random bytes and clock readings of a
  handler are its last argument.
\<close>

section \<open>Types\<close>

datatype ActionState = ActionPaused | ActionThrottle | ActionResumed | ActionOrphaned | ActionDriftSynced

datatype MechanismType = MechanismSignalStop | MechanismContainerPause | MechanismCgroupFreeze | NoMechanism

datatype ActionStatus = ActionStatusSuccess | ActionStatusSkipped | ActionStatusFailed

record TargetIdentifier =
  ti_PID :: int
  ti_ContainerID :: gostring
  ti_ProcessName :: gostring

record ActionExecuted =
  ax_Mechanism :: MechanismType
  ax_SignalSent :: gostring
  ax_Status :: ActionStatus
  ax_ExecutionDurationMs :: real

record PolicyContext =
  px_IsWhitelistedEntity :: bool
  px_ReversibilityToken :: gostring

record MitigationEvent =
  me_MitigationEventID :: gostring
  me_Timestamp :: int
  me_Target :: TargetIdentifier
  me_Action :: ActionExecuted
  me_Policy :: PolicyContext

record LedgerEntry =
  le_PID :: int
  le_ContainerID :: gostring
  le_ProcessName :: gostring
  le_AnomalyType :: gostring
  le_Timestamp :: int
  le_State :: ActionState
  le_ReversibilityToken :: gostring
  le_Mechanism :: MechanismType
  le_EventID :: gostring

record MitigatorConfig =
  mc_DockerSocketPath :: gostring
  mc_DockerTimeout :: duration
  mc_CgroupRoot :: gostring
  mc_ProcRoot :: gostring
  mc_WhitelistNames :: "gostring list"
  mc_WhitelistIDs :: "gostring list"
  mc_BufferSize :: int

definition MitigatorDefaultConfig :: MitigatorConfig where
  "MitigatorDefaultConfig = \<lparr>
     mc_DockerSocketPath = ''unix:///var/run/docker.sock'',
     mc_DockerTimeout = 5 * second_ns,
     mc_CgroupRoot = ''/sys/fs/cgroup'',
     mc_ProcRoot = ''/proc'',
     mc_WhitelistNames = [''systemd'', ''dockerd'', ''containerd'', ''kubelet'', ''sshd'', ''init'', ''kerneloops''],
     mc_WhitelistIDs = [],
     mc_BufferSize = 64\<rparr>"

definition mit_generateEventID :: "bytes \<Rightarrow> gostring" where
  "mit_generateEventID buf = ''mit_'' @ hex_encode buf"

definition generateRevToken :: "bytes \<Rightarrow> gostring" where
  "generateRevToken buf = ''rev_token_'' @ hex_encode buf"

section \<open>The mitigator's ledger\<close>

record MitLedger =
  ml_entries :: "gostring \<rightharpoonup> LedgerEntry"

definition NewLedger :: MitLedger where
  "NewLedger = \<lparr>ml_entries = Map.empty\<rparr>"

definition timeNowUnix :: int where "timeNowUnix = 0"

definition ledger_Record :: "MitLedger \<Rightarrow> LedgerEntry \<Rightarrow> bytes \<Rightarrow> gostring \<times> MitLedger" where
  "ledger_Record l entry buf =
     (let token = generateRevToken buf;
          entry = entry\<lparr>le_ReversibilityToken := token, le_Timestamp := timeNowUnix, le_State := ActionPaused\<rparr>
      in (token, l\<lparr>ml_entries := (ml_entries l)(token \<mapsto> entry)\<rparr>))"

definition ResolveByToken :: "MitLedger \<Rightarrow> gostring \<Rightarrow> LedgerEntry option" where
  "ResolveByToken l token = ml_entries l token"

definition UpdateState :: "MitLedger \<Rightarrow> gostring \<Rightarrow> ActionState \<Rightarrow> bool \<times> MitLedger" where
  "UpdateState l token state =
     (case ml_entries l token of
        None \<Rightarrow> (False, l)
      | Some entry \<Rightarrow> (True, l\<lparr>ml_entries := (ml_entries l)(token \<mapsto> entry\<lparr>le_State := state\<rparr>)\<rparr>))"

type_synonym entry_order = "(gostring \<rightharpoonup> LedgerEntry) \<Rightarrow> gostring list"

definition mit_ListActive :: "entry_order \<Rightarrow> MitLedger \<Rightarrow> LedgerEntry list" where
  "mit_ListActive ord l =
     filter (\<lambda>entry. le_State entry = ActionPaused \<or> le_State entry = ActionThrottle) (range_values ord (ml_entries l))"

definition mit_Count :: "entry_order \<Rightarrow> MitLedger \<Rightarrow> nat" where
  "mit_Count ord l = map_len ord (ml_entries l)"

section \<open>Names and identifiers from the process file system\<close>

definition mit_isHex :: "gostring \<Rightarrow> bool" where
  "mit_isHex s = (if length s = 0 then False else (\<forall>c \<in> set s. hex_char c))"

fun last_index_from :: "nat \<Rightarrow> gostring \<Rightarrow> char \<Rightarrow> int" where
  "last_index_from 0 s c = - 1"
| "last_index_from (Suc i) s c = (if s ! i = c then int i else last_index_from i s c)"

definition stringsLastIndexByte :: "gostring \<Rightarrow> char \<Rightarrow> int" where
  "stringsLastIndexByte s c = last_index_from (length s) s c"

definition extractCmdline :: "bytes \<Rightarrow> gostring" where
  "extractCmdline data =
     (let name = takeWhile (\<lambda>b. b \<noteq> CHR 0x00) data;
          idx = stringsLastIndexByte name (CHR ''/'')
      in if idx \<ge> 0 then drop (nat (idx + 1)) name else name)"

definition splitLines :: "bytes \<Rightarrow> gostring list" where
  "splitLines data = split_loop (CHR 0x0A) [] data"

definition lastField :: "gostring \<Rightarrow> gostring" where
  "lastField s =
     (let idx = stringsLastIndexByte s (CHR '':'') in if idx < 0 then s else drop (nat (idx + 1)) s)"

definition mit_split :: "gostring \<Rightarrow> char \<Rightarrow> gostring list" where
  "mit_split s sep = split_loop sep [] s"

text \<open>\<open>len(s) >= 12 && isHex(s)\<close>\<close>

definition long_hex :: "gostring \<Rightarrow> bool" where
  "long_hex s \<longleftrightarrow> length s \<ge> 12 \<and> mit_isHex s"

definition before_dot :: "gostring \<Rightarrow> gostring" where
  "before_dot s =
     (let dot = stringsLastIndexByte s (CHR ''.'') in if dot \<ge> 0 then take (nat dot) s else s)"

definition hexFromSegment :: "gostring \<Rightarrow> gostring" where
  "hexFromSegment seg =
     (let idx = stringsLastIndexByte seg (CHR ''-'');
          candidate = before_dot (drop (nat (idx + 1)) seg);
          dot = stringsLastIndexByte seg (CHR ''.'');
          before = take (nat dot) seg;
          idx2 = stringsLastIndexByte before (CHR ''-'');
          candidate2 = drop (nat (idx2 + 1)) before
      in if long_hex seg then seg
         else if idx \<ge> 0 \<and> long_hex candidate then candidate
         else if dot \<ge> 0 \<and> idx2 \<ge> 0 \<and> long_hex candidate2 then candidate2
         else if dot \<ge> 0 \<and> long_hex before then before
         else '''')"

text \<open>The first segment, in the order of lines and segments, that yields an identifier.\<close>

fun first_hex :: "gostring list \<Rightarrow> gostring" where
  "first_hex [] = ''''"
| "first_hex (seg # segs) = (let i = hexFromSegment seg in if i \<noteq> '''' then i else first_hex segs)"

definition extractHexContainerID :: "bytes \<Rightarrow> gostring" where
  "extractHexContainerID data =
     first_hex (concat (map (\<lambda>line. mit_split (lastField line) (CHR ''/'')) (splitLines data)))"

section \<open>The mitigator\<close>

record Mitigator =
  mg_cfg :: MitigatorConfig
  mg_ledger :: MitLedger
  mg_cm :: containerManager
  mg_events :: "MitigationEvent list"
  mg_console :: "MitigationEvent list"

definition NewMitigator :: "MitigatorConfig \<Rightarrow> Mitigator" where
  "NewMitigator cfg =
     (let cfg = (if mc_BufferSize cfg \<le> 0 then cfg\<lparr>mc_BufferSize := 64\<rparr> else cfg)
      in \<lparr>mg_cfg = cfg, mg_ledger = NewLedger,
          mg_cm = newContainerManager (mc_DockerSocketPath cfg) (mc_DockerSocketPath cfg \<noteq> '''')
            (mc_DockerTimeout cfg) (mc_CgroupRoot cfg) (mc_ProcRoot cfg),
          mg_events = [], mg_console = []\<rparr>)"

definition mit_capacity :: "Mitigator \<Rightarrow> nat" where
  "mit_capacity m = nat (mc_BufferSize (mg_cfg m))"

definition publish_event :: "Mitigator \<Rightarrow> MitigationEvent \<Rightarrow> Mitigator" where
  "publish_event m evt = m\<lparr>mg_events := try_send (mit_capacity m) (mg_events m) evt\<rparr>"

definition mit_emitEvent :: "Mitigator \<Rightarrow> MitigationEvent \<Rightarrow> Mitigator" where
  "mit_emitEvent m evt = (publish_event m evt)\<lparr>mg_console := mg_console m @ [evt]\<rparr>"

definition proc_file :: "gostring \<Rightarrow> int \<Rightarrow> gostring \<Rightarrow> gostring" where
  "proc_file proc pid name = proc @ ''/'' @ format_int pid @ ''/'' @ name"

definition resolveProcessName :: "Mitigator \<Rightarrow> Host \<Rightarrow> int \<Rightarrow> gostring" where
  "resolveProcessName m h pid =
     (case h_readFile h (proc_file (mc_ProcRoot (mg_cfg m)) pid ''cmdline'') of
        None \<Rightarrow> '''' | Some data \<Rightarrow> extractCmdline data)"

definition resolveContainerID :: "Mitigator \<Rightarrow> Host \<Rightarrow> int \<Rightarrow> gostring" where
  "resolveContainerID m h pid =
     (case h_readFile h (proc_file (mc_ProcRoot (mg_cfg m)) pid ''cgroup'') of
        None \<Rightarrow> '''' | Some data \<Rightarrow> extractHexContainerID data)"

definition policy_IsWhitelisted :: "PolicyEngine option \<Rightarrow> gostring \<Rightarrow> gostring \<Rightarrow> bool" where
  "policy_IsWhitelisted pe containerID processName =
     (case pe of None \<Rightarrow> False | Some e \<Rightarrow> IsWhitelisted (pe_evaluator e) processName containerID)"

text \<open>The clock readings and random bytes of one handler.\<close>

record act_inputs =
  ai_eval :: eval_inputs
  ai_event :: bytes
  ai_token :: bytes
  ai_now :: int
  ai_elapsed :: real

text \<open>Freezing the container, or the process when there is none or the container cannot be frozen.\<close>

definition enforce ::
  "containerManager \<Rightarrow> World \<Rightarrow> int \<Rightarrow> gostring \<Rightarrow>
   (MechanismType \<times> gostring \<times> go_error option) \<times> containerManager \<times> World" where
  "enforce cm w pid containerID =
     (if containerID \<noteq> '''' then
        (let (actionErr, cm, w) = Pause cm w containerID
         in if actionErr \<noteq> None
            then (let (actionErr, w) = FreezeProcess w pid in ((MechanismSignalStop, ''SIGSTOP'', actionErr), cm, w))
            else ((MechanismContainerPause, ''SIGSTOP'', actionErr), cm, w))
      else
        (let (actionErr, w) = FreezeProcess w pid in ((MechanismSignalStop, ''SIGSTOP'', actionErr), cm, w)))"

definition mit_intent :: "int \<Rightarrow> gostring \<Rightarrow> gostring \<Rightarrow> gostring \<Rightarrow> MitigationIntent" where
  "mit_intent pid containerID processName anomalyType = \<lparr>
     mi_TargetPID = pid,
     mi_ContainerID = containerID,
     mi_ProcessName = processName,
     mi_ActionType = (if containerID \<noteq> '''' then ActionContainerPause else ActionSIGSTOP),
     mi_AnomalyType = anomalyType,
     mi_SourceModule = ''mitigator'',
     mi_Metadata = Map.empty\<rparr>"

definition mit_entry :: "TargetIdentifier \<Rightarrow> gostring \<Rightarrow> MechanismType \<Rightarrow> LedgerEntry" where
  "mit_entry target anomalyType mech = \<lparr>
     le_PID = ti_PID target,
     le_ContainerID = ti_ContainerID target,
     le_ProcessName = ti_ProcessName target,
     le_AnomalyType = anomalyType,
     le_Timestamp = 0,
     le_State = ActionPaused,
     le_ReversibilityToken = '''',
     le_Mechanism = mech,
     le_EventID = ''''\<rparr>"

definition mit_event ::
  "act_inputs \<Rightarrow> TargetIdentifier \<Rightarrow> ActionExecuted \<Rightarrow> bool \<Rightarrow> gostring \<Rightarrow> MitigationEvent" where
  "mit_event x target act whitelisted token = \<lparr>
     me_MitigationEventID = mit_generateEventID (ai_event x),
     me_Timestamp = ai_now x,
     me_Target = target,
     me_Action = act,
     me_Policy = \<lparr>px_IsWhitelistedEntity = whitelisted, px_ReversibilityToken = token\<rparr>\<rparr>"

text \<open>What follows the action: the ledger entry on success, then the event.\<close>

definition report_action ::
  "Mitigator \<Rightarrow> TargetIdentifier \<Rightarrow> gostring \<Rightarrow> MechanismType \<Rightarrow> gostring \<Rightarrow> go_error option \<Rightarrow> act_inputs \<Rightarrow> Mitigator" where
  "report_action m target anomalyType mech signalSent actionErr x =
     (let status = (if actionErr = None then ActionStatusSuccess else ActionStatusFailed);
          (revToken, ledger) =
            (if status = ActionStatusSuccess
             then ledger_Record (mg_ledger m) (mit_entry target anomalyType mech) (ai_token x)
             else ('''', mg_ledger m))
      in mit_emitEvent (m\<lparr>mg_ledger := ledger\<rparr>)
           (mit_event x target
              \<lparr>ax_Mechanism = mech, ax_SignalSent = signalSent, ax_Status = status,
               ax_ExecutionDurationMs = ai_elapsed x\<rparr> False revToken))"

definition mitigateFromAlert ::
  "PolicyEngine option \<Rightarrow> Mitigator \<Rightarrow> World \<Rightarrow> ConsolidatedAlert \<Rightarrow> act_inputs \<Rightarrow>
   PolicyEngine option \<times> Mitigator \<times> World" where
  "mitigateFromAlert pe m w alert x =
     (let pid = ap_TargetPID (ca_Payload alert);
          anomalyType = ap_AnomalyType (ca_Payload alert);
          processName = resolveProcessName m (w_host w) pid;
          containerID = resolveContainerID m (w_host w) pid;
          target = \<lparr>ti_PID = pid, ti_ContainerID = containerID, ti_ProcessName = processName\<rparr>
      in case pe of
           Some e \<Rightarrow>
             (let ((authorized, txID, polEvt), e) =
                    EvaluateAndRegister e (mit_intent pid containerID processName anomalyType) (ai_eval x)
              in if \<not> authorized then
                   (Some e,
                    mit_emitEvent m
                      (mit_event x target
                         \<lparr>ax_Mechanism = NoMechanism, ax_SignalSent = '''', ax_Status = ActionStatusSkipped,
                          ax_ExecutionDurationMs = 0\<rparr>
                         (policy_IsWhitelisted (Some e) containerID processName) (pv_LedgerTransactionID polEvt)),
                    w)
                 else
                   (let ((mech, signalSent, actionErr), cm, w) = enforce (mg_cm m) w pid containerID;
                        e = (case actionErr of
                               None \<Rightarrow> ConfirmExecution e txID
                             | Some err \<Rightarrow> Reject e txID (error_text err))
                    in (Some e,
                        report_action (m\<lparr>mg_cm := cm\<rparr>) target anomalyType mech signalSent actionErr x,
                        w)))
         | None \<Rightarrow>
             (let ((mech, signalSent, actionErr), cm, w) = enforce (mg_cm m) w pid containerID
              in (None, report_action (m\<lparr>mg_cm := cm\<rparr>) target anomalyType mech signalSent actionErr x, w)))"

text \<open>The action of \<open>Resume\<close>: the mechanism of the entry decides what is undone.\<close>

definition resume_action ::
  "containerManager \<Rightarrow> World \<Rightarrow> LedgerEntry \<Rightarrow> (MechanismType \<times> go_error option) \<times> containerManager \<times> World" where
  "resume_action cm w entry =
     (case le_Mechanism entry of
        MechanismContainerPause \<Rightarrow>
          (let (err, cm, w) = Unpause cm w (le_ContainerID entry)
           in ((MechanismContainerPause,
                map_option (wrap_error (''resume container '' @ le_ContainerID entry)) err), cm, w))
      | NoMechanism \<Rightarrow> ((NoMechanism, None), cm, w)
      | _ \<Rightarrow>
          (let (err, w) = UnfreezeProcess w (le_PID entry)
           in ((MechanismSignalStop, map_option (wrap_error (''resume pid '' @ format_int (le_PID entry))) err), cm, w)))"

definition token_not_found :: "gostring \<Rightarrow> go_error" where
  "token_not_found token =
     (let text = ''resume: token '' @ token @ '' not found'' in GoError text (SystemError text))"

definition resume_event :: "act_inputs \<Rightarrow> LedgerEntry \<Rightarrow> MechanismType \<Rightarrow> gostring \<Rightarrow> MitigationEvent" where
  "resume_event x entry mech token = mit_event x
     \<lparr>ti_PID = le_PID entry, ti_ContainerID = le_ContainerID entry, ti_ProcessName = le_ProcessName entry\<rparr>
     \<lparr>ax_Mechanism = mech, ax_SignalSent = ''SIGCONT'', ax_Status = ActionStatusSuccess,
      ax_ExecutionDurationMs = ai_elapsed x\<rparr>
     False token"

definition Resume ::
  "PolicyEngine option \<Rightarrow> Mitigator \<Rightarrow> World \<Rightarrow> gostring \<Rightarrow> act_inputs \<Rightarrow>
   (go_error + MitigationEvent) \<times> PolicyEngine option \<times> Mitigator \<times> World" where
  "Resume pe m w token x =
     (case ResolveByToken (mg_ledger m) token of
        None \<Rightarrow> (Inl (token_not_found token), pe, m, w)
      | Some entry \<Rightarrow>
          (let ((mech, actionErr), cm, w) = resume_action (mg_cm m) w entry;
               m = m\<lparr>mg_cm := cm\<rparr>
           in case actionErr of
                Some err \<Rightarrow> (Inl err, pe, m, w)
              | None \<Rightarrow>
                  (let m = m\<lparr>mg_ledger := snd (UpdateState (mg_ledger m) token ActionResumed)\<rparr>;
                       pe = (case pe of None \<Rightarrow> None | Some e \<Rightarrow> Some (Complete e token));
                       evt = resume_event x entry mech token
                   in (Inr evt, pe, publish_event m evt, w))))"

definition ActiveMitigations :: "entry_order \<Rightarrow> Mitigator \<Rightarrow> LedgerEntry list" where
  "ActiveMitigations ord m = mit_ListActive ord (mg_ledger m)"

definition MitigationCount :: "entry_order \<Rightarrow> Mitigator \<Rightarrow> nat" where
  "MitigationCount ord m = mit_Count ord (mg_ledger m)"

definition UpdateMitigationState :: "Mitigator \<Rightarrow> gostring \<Rightarrow> ActionState \<Rightarrow> bool \<times> Mitigator" where
  "UpdateMitigationState m token state =
     (let (ok, ledger) = UpdateState (mg_ledger m) token state in (ok, m\<lparr>mg_ledger := ledger\<rparr>))"

definition RollbackPID ::
  "Mitigator \<Rightarrow> World \<Rightarrow> int \<Rightarrow> gostring \<Rightarrow> go_error option \<times> Mitigator \<times> World" where
  "RollbackPID m w pid containerID =
     (if containerID \<noteq> '''' then
        (let (err, cm, w) = Unpause (mg_cm m) w containerID; m = m\<lparr>mg_cm := cm\<rparr>
         in if err = None then (None, m, w)
            else (let (err, w) = UnfreezeProcess w pid in (err, m, w)))
      else (let (err, w) = UnfreezeProcess w pid in (err, m, w)))"

interpretation mit_sink: event_sink publish_event mg_events mit_capacity
  by unfold_locales (simp_all add: publish_event_def mit_capacity_def)

section \<open>Strings\<close>

lemma last_index_from_spec:
  "n \<le> length s \<Longrightarrow> last_index_from n s c = LastIndexByte (take n s) c"
proof (induction n)
  case 0
  then show ?case by (simp add: LastIndexByte_def)
next
  case (Suc n)
  then have "take (Suc n) s = take n s @ [s ! n]" by (simp add: take_Suc_conv_app_nth)
  with Suc show ?case by (simp add: LastIndexByte_def)
qed

lemma stringsLastIndexByte_eq: "stringsLastIndexByte s c = LastIndexByte s c"
  by (simp add: stringsLastIndexByte_def last_index_from_spec)

lemma mit_isHex_eq: "mit_isHex s = isHex s"
  by (simp add: mit_isHex_def isHex_def)

definition hex_id :: "gostring \<Rightarrow> bool" where
  "hex_id s \<longleftrightarrow> s = '''' \<or> (12 \<le> length s \<and> isHex s)"

lemma hexFromSegment_id: "hex_id (hexFromSegment seg)"
  by (auto simp: hexFromSegment_def hex_id_def long_hex_def mit_isHex_eq Let_def)

lemma first_hex_id: "hex_id (first_hex segs)"
  using hexFromSegment_id by (induction segs) (auto simp: Let_def hex_id_def)

section \<open>The action\<close>

definition enforce_attempt :: "int \<Rightarrow> gostring \<Rightarrow> Attempt \<Rightarrow> bool" where
  "enforce_attempt pid cid a \<longleftrightarrow> a = SendSignal SIGSTOP pid \<or> (cid \<noteq> '''' \<and> container_attempt cid True a)"

lemma tried_mono:
  assumes "tried w P err w'" "\<And>a. P a \<Longrightarrow> Q a"
  shows "tried w Q err w'"
  using assms unfolding tried_def by fast

lemma tried_signal:
  assumes "w_host w' = w_host w \<and> w_log w' = w_log w @ [(SendSignal sig pid, err = None)]" "P (SendSignal sig pid)"
  shows "tried w P err w'"
  using assms unfolding tried_def by simp

lemma tried_trans:
  assumes "tried w P e w1" "tried w1 P err w2"
  shows "tried w P err w2"
proof -
  obtain a b where "w_log w1 = w_log w @ a" "\<forall>(x, ok) \<in> set a. P x" "w_log w2 = w_log w1 @ b" "\<forall>(x, ok) \<in> set b. P x"
    "err = None \<longrightarrow> b \<noteq> [] \<and> snd (last b)" "w_host w1 = w_host w" "w_host w2 = w_host w1"
    using assms unfolding tried_def by blast
  then show ?thesis unfolding tried_def by (intro conjI exI [of _ "a @ b"]) auto
qed

lemma enforce_tried:
  assumes "enforce cm w pid cid = ((mech, sent, err), cm', w')"
  shows "tried w (enforce_attempt pid cid) err w'"
proof -
  consider (process) "FreezeProcess w pid = (err, w')"
    | (container) "cid \<noteq> ''''" "Pause cm w cid = (err, cm', w')"
    | (fallback) e w1 where "cid \<noteq> ''''" "Pause cm w cid = (Some e, cm', w1)" "FreezeProcess w1 pid = (err, w')"
    using assms unfolding enforce_def by (auto simp: Let_def split: if_splits prod.splits)
  then show ?thesis
  proof cases
    case process
    then show ?thesis by (intro tried_signal [OF FreezeProcess_result]) (simp_all add: enforce_attempt_def)
  next
    case container
    then show ?thesis by (intro tried_mono [OF Pause_tried [OF container(2)]]) (simp add: enforce_attempt_def)
  next
    case fallback
    have "tried w (enforce_attempt pid cid) (Some e) w1"
      using fallback by (intro tried_mono [OF Pause_tried [OF fallback(2)]]) (simp add: enforce_attempt_def)
    moreover have "tried w1 (enforce_attempt pid cid) err w'"
      using fallback by (intro tried_signal [OF FreezeProcess_result]) (simp_all add: enforce_attempt_def)
    ultimately show ?thesis by (rule tried_trans)
  qed
qed

lemma enforce_mechanism:
  assumes "enforce cm w pid cid = ((mech, sent, err), cm', w')"
  shows "mech = MechanismSignalStop \<or> (mech = MechanismContainerPause \<and> cid \<noteq> '''' \<and> err = None)"
  using assms unfolding enforce_def by (auto simp: Let_def split: if_splits prod.splits)

section \<open>The handler, by the policy's decision\<close>

definition mit_target :: "Mitigator \<Rightarrow> Host \<Rightarrow> ConsolidatedAlert \<Rightarrow> TargetIdentifier" where
  "mit_target m h alert =
     (let pid = ap_TargetPID (ca_Payload alert)
      in \<lparr>ti_PID = pid, ti_ContainerID = resolveContainerID m h pid, ti_ProcessName = resolveProcessName m h pid\<rparr>)"

definition alert_intent :: "Mitigator \<Rightarrow> Host \<Rightarrow> ConsolidatedAlert \<Rightarrow> MitigationIntent" where
  "alert_intent m h alert =
     (let t = mit_target m h alert
      in mit_intent (ti_PID t) (ti_ContainerID t) (ti_ProcessName t) (ap_AnomalyType (ca_Payload alert)))"

lemma mitigate_refused:
  assumes "\<not> decision e (alert_intent m (w_host w) alert) (ai_eval x)"
  shows "\<exists>wl. mitigateFromAlert (Some e) m w alert x =
    (Some (snd (EvaluateAndRegister e (alert_intent m (w_host w) alert) (ai_eval x))),
     mit_emitEvent m (mit_event x (mit_target m (w_host w) alert)
       \<lparr>ax_Mechanism = NoMechanism, ax_SignalSent = '''', ax_Status = ActionStatusSkipped, ax_ExecutionDurationMs = 0\<rparr>
       wl (generateTxID (ei_buf (ai_eval x)))), w)"
proof -
  let ?r = "EvaluateAndRegister e (alert_intent m (w_host w) alert) (ai_eval x)"
  have "\<not> fst (fst ?r)" and "pv_LedgerTransactionID (snd (snd (fst ?r))) = generateTxID (ei_buf (ai_eval x))"
    using assms by (simp_all add: EvaluateAndRegister_decision EvaluateAndRegister_event_id)
  then show ?thesis
    unfolding mitigateFromAlert_def alert_intent_def mit_target_def Let_def
    by (simp add: case_prod_unfold) blast
qed

lemma mitigate_authorized:
  assumes "decision e (alert_intent m (w_host w) alert) (ai_eval x)"
    and "enforce (mg_cm m) w (ap_TargetPID (ca_Payload alert)) (ti_ContainerID (mit_target m (w_host w) alert)) =
      ((mech, sent, err), cm, w')"
  shows "mitigateFromAlert (Some e) m w alert x =
    (Some (policy_gate.settle (snd (EvaluateAndRegister e (alert_intent m (w_host w) alert) (ai_eval x)))
        (generateTxID (ei_buf (ai_eval x))) (map_option error_text err)),
     report_action (m\<lparr>mg_cm := cm\<rparr>) (mit_target m (w_host w) alert) (ap_AnomalyType (ca_Payload alert)) mech sent err x, w')"
proof -
  let ?r = "EvaluateAndRegister e (alert_intent m (w_host w) alert) (ai_eval x)"
  have "fst (fst ?r)" and "fst (snd (fst ?r)) = generateTxID (ei_buf (ai_eval x))"
    using assms(1) by (simp_all add: EvaluateAndRegister_decision EvaluateAndRegister_txID)
  then show ?thesis
    using assms(2) unfolding mitigateFromAlert_def alert_intent_def mit_target_def Let_def policy_gate.settle_def
    by (simp add: case_prod_unfold split: option.splits)
qed

lemma mitigate_policy_status:
  assumes "mitigateFromAlert (Some e) m w alert x = (pe', m', w')"
    and "decision e (alert_intent m (w_host w) alert) (ai_eval x)"
    and "enforce (mg_cm m) w (ap_TargetPID (ca_Payload alert)) (ti_ContainerID (mit_target m (w_host w) alert)) =
      ((mech, sent, err), cm, w'')"
  shows "\<exists>e'. pe' = Some e' \<and> policy_status e' (generateTxID (ei_buf (ai_eval x))) =
    Some (if err = None then StatusExecuted else StatusRejected)"
proof -
  let ?r = "EvaluateAndRegister e (alert_intent m (w_host w) alert) (ai_eval x)"
  obtain a tx ev e1 where r: "?r = ((a, tx, ev), e1)" by (metis prod.collapse)
  have tx: "tx = generateTxID (ei_buf (ai_eval x))"
    using EvaluateAndRegister_txID [of e "alert_intent m (w_host w) alert" "ai_eval x"] r by simp
  have "pe' = Some (policy_gate.settle e1 tx (map_option error_text err))"
    using assms(1) mitigate_authorized [OF assms(2,3)] r tx by simp
  then show ?thesis
    using policy_gate.settle_status [OF r, of "map_option error_text err"] tx by (auto split: option.splits)
qed

lemma mitigate_log:
  assumes "mitigateFromAlert (Some e) m w alert x = (pe', m', w')"
  shows "w_host w' = w_host w \<and> (\<exists>new. w_log w' = w_log w @ new \<and>
    (new \<noteq> [] \<longrightarrow> decision e (alert_intent m (w_host w) alert) (ai_eval x)) \<and>
    (\<forall>(a, ok) \<in> set new. enforce_attempt (ap_TargetPID (ca_Payload alert))
       (ti_ContainerID (mit_target m (w_host w) alert)) a))"
proof (cases "decision e (alert_intent m (w_host w) alert) (ai_eval x)")
  case False
  then show ?thesis using mitigate_refused [OF False] assms by auto
next
  case True
  obtain mech sent err cm w1 where en:
    "enforce (mg_cm m) w (ap_TargetPID (ca_Payload alert)) (ti_ContainerID (mit_target m (w_host w) alert)) =
      ((mech, sent, err), cm, w1)"
    by (metis prod.collapse)
  then have "w' = w1" using mitigate_authorized [OF True en] assms by simp
  then show ?thesis using enforce_tried [OF en] True unfolding tried_def by blast
qed

end
