(* ===== verification/Enforcement.thy ===== *)
theory Enforcement
  imports Mitigator
begin

text \<open>
  What the mitigator guarantees together with the policy engine: a refused alert touches
  nothing, an authorised one is settled by its outcome, no protected process is ever stopped in
  any reachable state, and \<open>Resume\<close> undoes a mitigation.
\<close>

section \<open>The mitigator's ledger\<close>

text \<open>Every entry is kept under its own token, and every token starts with \<open>rev_token_\<close>.\<close>

definition mit_ledger_inv :: "MitLedger \<Rightarrow> bool" where
  "mit_ledger_inv l \<longleftrightarrow> finite (dom (ml_entries l)) \<and>
     (\<forall>token entry. ml_entries l token = Some entry \<longrightarrow>
        le_ReversibilityToken entry = token \<and> prefix ''rev_token_'' token)"

lemma mit_ledger_inv_new [inv_intros]: "mit_ledger_inv NewLedger"
  by (simp add: mit_ledger_inv_def NewLedger_def)

lemma mit_ledger_inv_Record [inv_intros]:
  "mit_ledger_inv l \<Longrightarrow> mit_ledger_inv (snd (ledger_Record l entry buf))"
  by (auto simp: mit_ledger_inv_def ledger_Record_def generateRevToken_def Let_def)

lemma UpdateState_entries:
  "ml_entries (snd (UpdateState l token st)) t =
     (if t = token then map_option (\<lambda>e. e\<lparr>le_State := st\<rparr>) (ml_entries l token) else ml_entries l t)"
  by (auto simp: UpdateState_def split: option.splits)

lemma mit_ledger_inv_UpdateState [inv_intros]:
  assumes "mit_ledger_inv l"
  shows "mit_ledger_inv (snd (UpdateState l token st))"
proof -
  have "dom (ml_entries (snd (UpdateState l token st))) = dom (ml_entries l)"
    by (auto simp: UpdateState_def split: option.splits)
  then show ?thesis
    using assms by (auto simp: mit_ledger_inv_def UpdateState_entries split: if_splits)
qed

lemma report_action_ledger:
  "mg_ledger (report_action m target ty mech sent err x) =
     (if err = None then snd (ledger_Record (mg_ledger m) (mit_entry target ty mech) (ai_token x)) else mg_ledger m)"
  by (auto simp: report_action_def Let_def mit_emitEvent_def publish_event_def case_prod_unfold)

lemma report_action_cm [simp]: "mg_cm (report_action m target ty mech sent err x) = mg_cm m"
  by (simp add: report_action_def Let_def mit_emitEvent_def publish_event_def case_prod_unfold)

lemma report_action_cfg [simp]: "mg_cfg (report_action m target ty mech sent err x) = mg_cfg m"
  by (simp add: report_action_def Let_def mit_emitEvent_def publish_event_def case_prod_unfold)

section \<open>Reachable states of the enforcement side\<close>

text \<open>The smallest process number that may be acted against, and what stops a process or its container.\<close>

definition pid_floor :: "PolicyConfig \<Rightarrow> int" where
  "pid_floor pcfg = (if pc_PIDThreshold pcfg \<le> 0 then 100 else pc_PIDThreshold pcfg)"

definition acted :: "int \<Rightarrow> gostring \<Rightarrow> MechanismType \<Rightarrow> (Attempt \<times> bool) list \<Rightarrow> bool" where
  "acted pid cid mech alog \<longleftrightarrow>
     (mech = MechanismSignalStop \<and> (SendSignal SIGSTOP pid, True) \<in> set alog) \<or>
     (mech = MechanismContainerPause \<and> cid \<noteq> [] \<and> (\<exists>a. container_attempt cid True a \<and> (a, True) \<in> set alog))"

text \<open>
  Alerts, resumptions, rollbacks, continue signals of others, events read from the channel and
  corrections of the ledger, each against any answers of the host, and anything the other users of the policy engine do to it, as long as the rules about
  system processes stay what they were. An alert is handled in one go or in its parts, between
  which all of this may happen: a refusal is published, a process that is not protected is frozen,
  and a freeze that was accepted is recorded. The log of attempts grows along the run.
\<close>

inductive enforce_reach ::
  "PolicyConfig \<Rightarrow> MitigatorConfig \<Rightarrow> PolicyEngine \<Rightarrow> Mitigator \<Rightarrow> (Attempt \<times> bool) list \<Rightarrow> bool"
  for pcfg mcfg where
  er_start: "NewPolicyEngine pcfg = Some e \<Longrightarrow> enforce_reach pcfg mcfg e (NewMitigator mcfg) []"
| er_alert: "enforce_reach pcfg mcfg e m alog \<Longrightarrow>
     mitigateFromAlert (Some e) m \<lparr>w_host = h, w_log = alog\<rparr> alert x = (Some e', m', w') \<Longrightarrow>
     enforce_reach pcfg mcfg e' m' (w_log w')"
| er_refuse: "enforce_reach pcfg mcfg e m alog \<Longrightarrow> enforce_reach pcfg mcfg e (mit_emitEvent m evt) alog"
| er_enforce: "enforce_reach pcfg mcfg e m alog \<Longrightarrow> re_pidThreshold (pe_evaluator e) \<le> pid \<Longrightarrow>
     enforce (mg_cm m) \<lparr>w_host = h, w_log = alog\<rparr> pid cid = ((mech, sent, err), cm, w') \<Longrightarrow>
     enforce_reach pcfg mcfg e (m\<lparr>mg_cm := cm\<rparr>) (w_log w')"
| er_report: "enforce_reach pcfg mcfg e m alog \<Longrightarrow>
     err = None \<longrightarrow> acted (ti_PID target) (ti_ContainerID target) mech alog \<Longrightarrow>
     enforce_reach pcfg mcfg e (report_action m target ty mech sent err x) alog"
| er_resume: "enforce_reach pcfg mcfg e m alog \<Longrightarrow>
     Resume (Some e) m \<lparr>w_host = h, w_log = alog\<rparr> token x = (r, Some e', m', w') \<Longrightarrow>
     enforce_reach pcfg mcfg e' m' (w_log w')"
| er_rollback: "enforce_reach pcfg mcfg e m alog \<Longrightarrow>
     RollbackPID m \<lparr>w_host = h, w_log = alog\<rparr> pid cid = (r, m', w') \<Longrightarrow> enforce_reach pcfg mcfg e m' (w_log w')"
| er_correct: "enforce_reach pcfg mcfg e m alog \<Longrightarrow>
     enforce_reach pcfg mcfg e (snd (UpdateMitigationState m token st)) alog"
| er_signal: "enforce_reach pcfg mcfg e m alog \<Longrightarrow>
     UnfreezeProcess \<lparr>w_host = h, w_log = alog\<rparr> pid = (r, w') \<Longrightarrow> enforce_reach pcfg mcfg e m (w_log w')"
| er_event: "enforce_reach pcfg mcfg e m alog \<Longrightarrow> mg_events m = evt # rest \<Longrightarrow>
     enforce_reach pcfg mcfg e (m\<lparr>mg_events := rest\<rparr>) alog"
| er_others: "enforce_reach pcfg mcfg e m alog \<Longrightarrow>
     re_pidThreshold (pe_evaluator e') = re_pidThreshold (pe_evaluator e) \<Longrightarrow>
     re_blacklistNames (pe_evaluator e') = re_blacklistNames (pe_evaluator e) \<Longrightarrow>
     enforce_reach pcfg mcfg e' m alog"

text \<open>What an entry of the ledger is backed by in the log.\<close>

definition backed :: "(Attempt \<times> bool) list \<Rightarrow> LedgerEntry \<Rightarrow> bool" where
  "backed alog entry \<longleftrightarrow> acted (le_PID entry) (le_ContainerID entry) (le_Mechanism entry) alog"

definition stops_allowed :: "PolicyConfig \<Rightarrow> (Attempt \<times> bool) list \<Rightarrow> bool" where
  "stops_allowed pcfg alog \<longleftrightarrow> (\<forall>pid ok. (SendSignal SIGSTOP pid, ok) \<in> set alog \<longrightarrow> pid_floor pcfg \<le> pid)"

definition enforce_inv :: "PolicyConfig \<Rightarrow> PolicyEngine \<Rightarrow> Mitigator \<Rightarrow> (Attempt \<times> bool) list \<Rightarrow> bool" where
  "enforce_inv pcfg e m alog \<longleftrightarrow>
     re_pidThreshold (pe_evaluator e) = pid_floor pcfg \<and> stops_allowed pcfg alog \<and> mit_ledger_inv (mg_ledger m) \<and>
     (\<forall>token entry. ml_entries (mg_ledger m) token = Some entry \<longrightarrow> backed alog entry)"

lemma backed_mono: "backed alog entry \<Longrightarrow> backed (alog @ new) entry"
  by (auto simp: backed_def acted_def)

lemma backed_state [simp]: "backed alog (entry\<lparr>le_State := st\<rparr>) = backed alog entry"
  by (simp add: backed_def)

lemma tried_accepted:
  assumes "tried w P None w'"
  shows "\<exists>new a. w_log w' = w_log w @ new \<and> new \<noteq> [] \<and> snd (last new) \<and> P a \<and> (a, True) \<in> set new"
proof -
  obtain new where new: "w_log w' = w_log w @ new" "\<forall>(a, ok) \<in> set new. P a" "new \<noteq> []" "snd (last new)"
    using assms unfolding tried_def by blast
  obtain a where a: "last new = (a, True)" using new(4) by (cases "last new") simp
  then have "(a, True) \<in> set new" using last_in_set [OF new(3)] by simp
  then show ?thesis using new by (intro exI [of _ new] exI [of _ a]) auto
qed

text \<open>The last attempt of an action decides.\<close>

lemma enforce_log:
  assumes "enforce cm w pid cid = ((mech, sent, err), cm', w')"
  shows "\<exists>new. w_log w' = w_log w @ new \<and> new \<noteq> [] \<and> snd (last new) = (err = None) \<and> (err = None \<longrightarrow> acted pid cid mech new)"
proof -
  consider (process) w1 new where "mech = MechanismSignalStop" "FreezeProcess w1 pid = (err, w')" "w_log w1 = w_log w @ new"
    | (container) "mech = MechanismContainerPause" "cid \<noteq> ''''" "err = None" "Pause cm w cid = (None, cm', w')"
  proof (cases "cid = ''''")
    case True
    then show ?thesis using assms that(1) [of w "[]"] by (auto simp: enforce_def Let_def split: prod.splits)
  next
    case False
    obtain e cm1 w1 where p: "Pause cm w cid = (e, cm1, w1)" by (metis prod.collapse)
    obtain new where "w_log w1 = w_log w @ new" using Pause_tried [OF p] by (auto simp: tried_def)
    then show ?thesis using assms that False p by (auto simp: enforce_def Let_def split: prod.splits if_splits)
  qed
  then show ?thesis
  proof cases
    case process
    then show ?thesis
      using FreezeProcess_result [OF process(2)] by (intro exI [of _ "new @ [(SendSignal SIGSTOP pid, err = None)]"]) (simp add: acted_def)
  next
    case container
    then show ?thesis using tried_accepted [OF Pause_tried [OF container(4)]] unfolding acted_def by blast
  qed
qed

lemma decision_floor:
  assumes "decision e intent x"
  shows "re_pidThreshold (pe_evaluator e) \<le> mi_TargetPID intent"
  using assms by (simp add: decision_def Evaluate_authorized protected_target_def)

lemma alert_intent_pid [simp]: "mi_TargetPID (alert_intent m h alert) = ap_TargetPID (ca_Payload alert)"
  by (simp add: alert_intent_def mit_intent_def mit_target_def Let_def)

lemma settle_evaluator [simp]: "pe_evaluator (policy_gate.settle e tx r) = pe_evaluator e"
  by (simp add: policy_gate.settle_def ConfirmExecution_def Reject_def split: option.splits)

lemma mitigate_evaluator:
  assumes "mitigateFromAlert (Some e) m w alert x = (Some e', m', w')"
  shows "pe_evaluator e' = pe_evaluator e"
proof (cases "decision e (alert_intent m (w_host w) alert) (ai_eval x)")
  case False
  then show ?thesis using mitigate_refused [OF False] assms by auto
next
  case True
  obtain mech sent err cm w1 where
    "enforce (mg_cm m) w (ap_TargetPID (ca_Payload alert)) (ti_ContainerID (mit_target m (w_host w) alert)) =
      ((mech, sent, err), cm, w1)"
    by (metis prod.collapse)
  then show ?thesis using mitigate_authorized [OF True] assms by auto
qed

lemma mitigate_ledger:
  assumes "mitigateFromAlert (Some e) m w alert x = (pe', m', w')"
  shows "mg_ledger m' = mg_ledger m \<or>
    (\<exists>entry. mg_ledger m' = snd (ledger_Record (mg_ledger m) entry (ai_token x)) \<and> backed (w_log w') entry)"
proof (cases "decision e (alert_intent m (w_host w) alert) (ai_eval x)")
  case False
  then show ?thesis using mitigate_refused [OF False] assms by (auto simp: mit_emitEvent_def publish_event_def)
next
  case True
  obtain mech sent err cm w1 where en:
    "enforce (mg_cm m) w (ap_TargetPID (ca_Payload alert)) (ti_ContainerID (mit_target m (w_host w) alert)) =
      ((mech, sent, err), cm, w1)"
    by (metis prod.collapse)
  have w': "w' = w1" and l: "mg_ledger m' = (if err = None
      then snd (ledger_Record (mg_ledger m) (mit_entry (mit_target m (w_host w) alert)
        (ap_AnomalyType (ca_Payload alert)) mech) (ai_token x)) else mg_ledger m)"
    using mitigate_authorized [OF True en] assms by (auto simp: report_action_ledger)
  show ?thesis
  proof (cases err)
    case None
    have "backed (w_log w') (mit_entry (mit_target m (w_host w) alert) (ap_AnomalyType (ca_Payload alert)) mech)"
      using enforce_log [OF en] w' None
      by (auto simp: backed_def acted_def mit_entry_def mit_target_def Let_def)
    then show ?thesis using l None by auto
  qed (simp add: l)
qed

lemma backed_recorded:
  assumes "backed alog entry" "ml_entries (snd (ledger_Record l entry buf)) token = Some entry'"
    and "\<And>t e. ml_entries l t = Some e \<Longrightarrow> backed alog e"
  shows "backed alog entry'"
  using assms by (auto simp: ledger_Record_def Let_def backed_def split: if_splits)

section \<open>Thawing stops nothing\<close>

definition no_stop :: "Attempt \<Rightarrow> bool" where
  "no_stop a \<longleftrightarrow> (\<forall>pid. a \<noteq> SendSignal SIGSTOP pid)"

text \<open>The log grows by attempts none of which is a stop signal.\<close>

definition thawed :: "World \<Rightarrow> World \<Rightarrow> bool" where
  "thawed w w' \<longleftrightarrow> (\<exists>new. w_log w' = w_log w @ new \<and> (\<forall>(a, ok) \<in> set new. no_stop a))"

lemma thawed_refl [simp]: "thawed w w"
  by (simp add: thawed_def)

lemma thawed_Unfreeze: "UnfreezeProcess w pid = (err, w') \<Longrightarrow> thawed w w'"
  using UnfreezeProcess_result [of w pid err w'] by (simp add: thawed_def no_stop_def)

lemma thawed_Unpause:
  assumes "Unpause cm w cid = (err, cm', w')"
  shows "thawed w w'"
proof -
  have "container_attempt cid False a \<Longrightarrow> no_stop a" for a by (cases a) (auto simp: no_stop_def)
  then show ?thesis
    using Unpause_tried [OF assms] unfolding tried_def thawed_def by fast
qed

lemma thawed_trans: "thawed w w1 \<Longrightarrow> thawed w1 w2 \<Longrightarrow> thawed w w2"
  unfolding thawed_def by fastforce

lemma thawed_resume:
  assumes "resume_action cm w entry = ((mech, err), cm', w')"
  shows "thawed w w'"
  using assms thawed_Unfreeze thawed_Unpause unfolding resume_action_def
  by (auto simp: Let_def split: MechanismType.splits prod.splits)

lemma Resume_cases:
  assumes "Resume pe m w token x = (r, pe', m', w')"
  obtains (missing) "ResolveByToken (mg_ledger m) token = None" "pe' = pe" "m' = m" "w' = w" "\<exists>err. r = Inl err"
  | (failed) entry mech err cm where "ResolveByToken (mg_ledger m) token = Some entry"
      "resume_action (mg_cm m) w entry = ((mech, Some err), cm, w')" "r = Inl err" "pe' = pe" "m' = m\<lparr>mg_cm := cm\<rparr>"
  | (resumed) entry mech cm where "ResolveByToken (mg_ledger m) token = Some entry"
      "resume_action (mg_cm m) w entry = ((mech, None), cm, w')" "\<exists>evt. r = Inr evt"
      "pe' = map_option (\<lambda>e. Complete e token) pe"
      "mg_ledger m' = snd (UpdateState (mg_ledger m) token ActionResumed)"
proof (cases "ResolveByToken (mg_ledger m) token")
  case None
  then have "Resume pe m w token x = (Inl (token_not_found token), pe, m, w)"
    by (simp only: Resume_def option.case)
  then show ?thesis using assms missing None by simp
next
  case (Some entry)
  obtain mech err cm w1 where ra: "resume_action (mg_cm m) w entry = ((mech, err), cm, w1)" by (metis prod.collapse)
  show ?thesis
  proof (cases err)
    case None
    let ?evt = "resume_event x entry mech token"
    have "Resume pe m w token x = (Inr ?evt, map_option (\<lambda>e. Complete e token) pe,
        publish_event (m\<lparr>mg_cm := cm, mg_ledger := snd (UpdateState (mg_ledger m) token ActionResumed)\<rparr>) ?evt, w1)"
      using ra None Some by (cases pe) (simp_all add: Resume_def Let_def)
    then show ?thesis using assms ra None Some by (intro resumed [of entry mech cm]) (auto simp: publish_event_def)
  next
    case err: (Some e)
    have "Resume pe m w token x = (Inl e, pe, m\<lparr>mg_cm := cm\<rparr>, w1)"
      using ra err Some by (simp add: Resume_def)
    then show ?thesis using assms ra err Some by (intro failed [of entry mech e cm]) auto
  qed
qed

lemma thawed_Resume: "Resume pe m w token x = (r, pe', m', w') \<Longrightarrow> thawed w w'"
  by (erule Resume_cases) (auto dest: thawed_resume)

lemma thawed_Rollback:
  assumes "RollbackPID m w pid cid = (err, m', w')"
  shows "thawed w w'" and "mg_ledger m' = mg_ledger m"
  using assms unfolding RollbackPID_def
  by (auto simp: Let_def split: if_splits prod.splits intro: thawed_Unfreeze thawed_Unpause thawed_trans)

section \<open>The invariant\<close>

lemma stops_allowed_append:
  "stops_allowed pcfg (xs @ ys) \<longleftrightarrow> stops_allowed pcfg xs \<and> stops_allowed pcfg ys"
  by (auto simp: stops_allowed_def)

lemma stops_allowed_no_stop: "\<forall>(a, ok) \<in> set new. no_stop a \<Longrightarrow> stops_allowed pcfg new"
  by (auto simp: stops_allowed_def no_stop_def)

lemma enforce_inv_thawed:
  assumes "enforce_inv pcfg e m alog" "thawed \<lparr>w_host = h, w_log = alog\<rparr> w'"
  shows "stops_allowed pcfg (w_log w')"
    and "\<forall>token entry. ml_entries (mg_ledger m) token = Some entry \<longrightarrow> backed (w_log w') entry"
proof -
  obtain new where new: "w_log w' = alog @ new" "\<forall>(a, ok) \<in> set new. no_stop a"
    using assms(2) by (auto simp: thawed_def)
  show "stops_allowed pcfg (w_log w')"
    using assms(1) stops_allowed_no_stop [OF new(2)] by (simp add: new(1) stops_allowed_append enforce_inv_def)
  show "\<forall>token entry. ml_entries (mg_ledger m) token = Some entry \<longrightarrow> backed (w_log w') entry"
    using assms(1) by (simp add: new(1) enforce_inv_def backed_mono)
qed

lemma enforce_inv_alert:
  assumes "enforce_inv pcfg e m alog"
    and "mitigateFromAlert (Some e) m \<lparr>w_host = h, w_log = alog\<rparr> alert x = (Some e', m', w')"
  shows "enforce_inv pcfg e' m' (w_log w')"
proof -
  let ?w = "\<lparr>w_host = h, w_log = alog\<rparr>"
  obtain new where new: "w_log w' = alog @ new" "new \<noteq> [] \<longrightarrow> decision e (alert_intent m h alert) (ai_eval x)"
    and att: "\<forall>(a, ok) \<in> set new. enforce_attempt (ap_TargetPID (ca_Payload alert)) (ti_ContainerID (mit_target m h alert)) a"
    using mitigate_log [OF assms(2)] by auto
  have "stops_allowed pcfg (w_log w')"
  proof -
    have "pid_floor pcfg \<le> pid" if "(SendSignal SIGSTOP pid, ok) \<in> set new" for pid ok
    proof -
      have "new \<noteq> []" using that by auto
      then have "pid_floor pcfg \<le> ap_TargetPID (ca_Payload alert)"
        using new(2) decision_floor [of e "alert_intent m h alert" "ai_eval x"] assms(1) by (simp add: enforce_inv_def)
      moreover have "enforce_attempt (ap_TargetPID (ca_Payload alert)) (ti_ContainerID (mit_target m h alert)) (SendSignal SIGSTOP pid)"
        using att that by blast
      ultimately show ?thesis by (simp add: enforce_attempt_def)
    qed
    then show ?thesis using assms(1) new(1) by (auto simp: enforce_inv_def stops_allowed_def)
  qed
  moreover have old: "\<And>t entry. ml_entries (mg_ledger m) t = Some entry \<Longrightarrow> backed (w_log w') entry"
    using assms(1) new(1) by (simp add: enforce_inv_def backed_mono)
  moreover have "mit_ledger_inv (mg_ledger m') \<and> (\<forall>t entry. ml_entries (mg_ledger m') t = Some entry \<longrightarrow> backed (w_log w') entry)"
    using mitigate_ledger [OF assms(2)]
  proof (elim disjE exE conjE)
    assume "mg_ledger m' = mg_ledger m"
    then show ?thesis using old assms(1) by (simp add: enforce_inv_def)
  next
    fix entry
    assume l: "mg_ledger m' = snd (ledger_Record (mg_ledger m) entry (ai_token x))" and b: "backed (w_log w') entry"
    have "mit_ledger_inv (mg_ledger m')" using l assms(1) by (simp add: enforce_inv_def mit_ledger_inv_Record)
    then show ?thesis using l backed_recorded [OF b] old by simp
  qed
  ultimately show ?thesis
    using assms(1) mitigate_evaluator [OF assms(2)] by (simp add: enforce_inv_def)
qed

lemma UpdateState_backed:
  assumes "\<forall>t entry. ml_entries l t = Some entry \<longrightarrow> backed alog entry"
  shows "\<forall>t entry. ml_entries (snd (UpdateState l token st)) t = Some entry \<longrightarrow> backed alog entry"
  using assms by (auto simp: UpdateState_entries split: if_splits)

lemma enforce_inv_resume:
  assumes "enforce_inv pcfg e m alog"
    and "Resume (Some e) m \<lparr>w_host = h, w_log = alog\<rparr> token x = (r, Some e', m', w')"
  shows "enforce_inv pcfg e' m' (w_log w')"
proof -
  note th = enforce_inv_thawed [OF assms(1) thawed_Resume [OF assms(2)]]
  from assms(2) show ?thesis
  proof (cases rule: Resume_cases)
    case missing
    then show ?thesis using assms(1) by simp
  next
    case failed
    then show ?thesis using assms(1) th by (simp add: enforce_inv_def)
  next
    case resumed
    then show ?thesis
      using assms(1) th UpdateState_backed [OF th(2)]
      by (simp add: enforce_inv_def mit_ledger_inv_UpdateState Complete_def)
  qed
qed

lemma enforce_inv_enforce:
  assumes "enforce_inv pcfg e m alog" "re_pidThreshold (pe_evaluator e) \<le> pid"
    and "enforce (mg_cm m) \<lparr>w_host = h, w_log = alog\<rparr> pid cid = ((mech, sent, err), cm, w')"
  shows "enforce_inv pcfg e (m\<lparr>mg_cm := cm\<rparr>) (w_log w')"
proof -
  obtain new where new: "w_log w' = alog @ new" "\<forall>(a, ok) \<in> set new. enforce_attempt pid cid a"
    using enforce_tried [OF assms(3)] by (auto simp: tried_def)
  have "pid_floor pcfg \<le> p" if "(SendSignal SIGSTOP p, ok) \<in> set new" for p ok
    using that new(2) assms(1,2) by (fastforce simp: enforce_attempt_def enforce_inv_def)
  then show ?thesis using assms(1) new(1) by (auto simp: enforce_inv_def stops_allowed_def backed_mono)
qed

lemma enforce_inv_report:
  assumes "enforce_inv pcfg e m alog" "err = None \<longrightarrow> acted (ti_PID target) (ti_ContainerID target) mech alog"
  shows "enforce_inv pcfg e (report_action m target ty mech sent err x) alog"
proof (cases err)
  case None
  then have "backed alog (mit_entry target ty mech)" using assms(2) by (simp add: backed_def mit_entry_def)
  from backed_recorded [OF this] show ?thesis
    using assms(1) None by (auto simp: enforce_inv_def report_action_ledger mit_ledger_inv_Record)
next
  case (Some er)
  then show ?thesis using assms(1) by (simp add: enforce_inv_def report_action_ledger)
qed

lemma enforce_reach_inv: "enforce_reach pcfg mcfg e m alog \<Longrightarrow> enforce_inv pcfg e m alog"
proof (induction rule: enforce_reach.induct)
  case (er_start e)
  then show ?case
    by (auto simp: enforce_inv_def NewPolicyEngine_def Let_def NewRuleEvaluator_def pid_floor_def stops_allowed_def
        NewMitigator_def NewLedger_def mit_ledger_inv_def split: if_splits)
next
  case (er_alert e m alog h alert x e' m' w')
  then show ?case by (blast intro: enforce_inv_alert)
next
  case (er_refuse e m alog evt)
  then show ?case by (simp add: enforce_inv_def mit_emitEvent_def publish_event_def)
next
  case (er_enforce e m alog pid h cid mech sent err cm w')
  then show ?case by (blast intro: enforce_inv_enforce)
next
  case (er_report e m alog err target mech ty sent x)
  then show ?case by (blast intro: enforce_inv_report)
next
  case (er_resume e m alog h token x r e' m' w')
  then show ?case by (blast intro: enforce_inv_resume)
next
  case (er_rollback e m alog h pid cid r m' w')
  then show ?case
    using enforce_inv_thawed [OF er_rollback.IH thawed_Rollback(1) [OF er_rollback.hyps(2)]]
      thawed_Rollback(2) [OF er_rollback.hyps(2)] by (simp add: enforce_inv_def)
next
  case (er_correct e m alog token st)
  then show ?case
    using UpdateState_backed [of "mg_ledger m" alog token st]
    by (simp add: enforce_inv_def UpdateMitigationState_def case_prod_unfold Let_def mit_ledger_inv_UpdateState)
next
  case (er_signal e m alog h pid r w')
  then show ?case
    using enforce_inv_thawed [OF er_signal.IH thawed_Unfreeze [OF er_signal.hyps(2)]] by (simp add: enforce_inv_def)
next
  case (er_event e m alog evt rest)
  then show ?case by (simp add: enforce_inv_def)
next
  case (er_others e m alog e')
  then show ?case by (simp add: enforce_inv_def)
qed

section \<open>Properties\<close>

text \<open>
  When the policy engine refuses an alert, the mitigator attempts nothing on the host,
  keeps its ledger and its container manager, publishes one SKIPPED event that carries the
  transaction, and the transaction stands as REJECTED in the policy ledger.
\<close>

lemma mitigate_refused_inert:
  assumes "\<not> decision e (alert_intent m (w_host w) alert) (ai_eval x)"
    and "mitigateFromAlert (Some e) m w alert x = (pe', m', w')"
  shows "w' = w \<and> mg_ledger m' = mg_ledger m \<and> mg_cm m' = mg_cm m \<and>
    (\<exists>evt. mg_console m' = mg_console m @ [evt] \<and> ax_Status (me_Action evt) = ActionStatusSkipped \<and>
       px_ReversibilityToken (me_Policy evt) = generateTxID (ei_buf (ai_eval x))) \<and>
    (\<exists>e'. pe' = Some e' \<and> policy_status e' (generateTxID (ei_buf (ai_eval x))) = Some StatusRejected)"
proof -
  let ?i = "alert_intent m (w_host w) alert"
  obtain tx ev e1 where r: "EvaluateAndRegister e ?i (ai_eval x) = ((False, tx, ev), e1)"
    using assms(1) EvaluateAndRegister_decision [of e ?i "ai_eval x"] by (metis prod.collapse)
  have "tx = generateTxID (ei_buf (ai_eval x))"
    using EvaluateAndRegister_txID [of e ?i "ai_eval x"] r by simp
  then have "policy_status e1 (generateTxID (ei_buf (ai_eval x))) = Some StatusRejected"
    using policy_gate.refused_status [OF r] by simp
  moreover obtain wl where "mitigateFromAlert (Some e) m w alert x =
    (Some (snd (EvaluateAndRegister e ?i (ai_eval x))),
     mit_emitEvent m (mit_event x (mit_target m (w_host w) alert)
       \<lparr>ax_Mechanism = NoMechanism, ax_SignalSent = '''', ax_Status = ActionStatusSkipped, ax_ExecutionDurationMs = 0\<rparr>
       wl (generateTxID (ei_buf (ai_eval x)))), w)"
    using mitigate_refused [OF assms(1)] by blast
  ultimately show ?thesis
    using assms(2) r by (auto simp: mit_emitEvent_def publish_event_def mit_event_def)
qed

text \<open>A host that accepts every signal and has no Docker and no process files, and two alerts.\<close>

definition open_host :: Host where
  "open_host = \<lparr>h_signal = (\<lambda>_ _. SignalDelivered), h_dockerClient = (\<lambda>_. False), h_dockerPing = False,
     h_containerPause = (\<lambda>_. False), h_containerUnpause = (\<lambda>_. False), h_writeFile = (\<lambda>_ _. Some ENOENT),
     h_readFile = (\<lambda>_. None), h_readDir = (\<lambda>_. Inl []), h_exists = (\<lambda>_. False), h_errnoText = (\<lambda>_. [])\<rparr>"

definition alert_for :: "int \<Rightarrow> ConsolidatedAlert" where
  "alert_for pid = (probe_alert 1)\<lparr>ca_Payload := (ca_Payload (probe_alert 1))\<lparr>ap_TargetPID := pid\<rparr>\<rparr>"

lemma alert_for_pid [simp]: "ap_TargetPID (ca_Payload (alert_for pid)) = pid"
  by (simp add: alert_for_def)

definition demo_inputs :: act_inputs where
  "demo_inputs = \<lparr>ai_eval = \<lparr>ei_th = 1, ei_tr = 1, ei_te = 1, ei_buf = []\<rparr>, ai_event = [], ai_token = [],
     ai_now = 1, ai_elapsed = 0\<rparr>"

definition demo_engine :: PolicyEngine where
  "demo_engine = the (NewPolicyEngine PolicyDefaultConfig)"

definition demo_mitigator :: Mitigator where
  "demo_mitigator = NewMitigator MitigatorDefaultConfig"

definition demo_world :: World where
  "demo_world = \<lparr>w_host = open_host, w_log = []\<rparr>"

lemma demo_engine_new: "NewPolicyEngine PolicyDefaultConfig = Some demo_engine"
  by (simp add: demo_engine_def NewPolicyEngine_def PolicyDefaultConfig_def Let_def)

lemma demo_engine_ledger: "tl_records (pe_ledger demo_engine) = Map.empty" "tl_pidIndex (pe_ledger demo_engine) = Map.empty"
  by (simp_all add: demo_engine_def NewPolicyEngine_def PolicyDefaultConfig_def Let_def NewTransactionLedger_def)

lemma demo_evaluator: "re_pidThreshold (pe_evaluator demo_engine) = 100" "re_maxActionsPerPID (pe_evaluator demo_engine) = 5"
  "re_whitelistNames (pe_evaluator demo_engine) = {}" "re_whitelistIDs (pe_evaluator demo_engine) = {}"
  by (simp_all add: demo_engine_def NewPolicyEngine_def PolicyDefaultConfig_def Let_def NewRuleEvaluator_def name_set_def)

lemma demo_target: "mit_target m open_host (alert_for pid) = \<lparr>ti_PID = pid, ti_ContainerID = [], ti_ProcessName = []\<rparr>"
  by (simp add: mit_target_def alert_for_def probe_alert_def Let_def resolveContainerID_def resolveProcessName_def open_host_def)

lemma demo_intent: "mi_TargetPID (alert_intent m open_host (alert_for pid)) = pid"
  "mi_ProcessName (alert_intent m open_host (alert_for pid)) = []" "mi_ContainerID (alert_intent m open_host (alert_for pid)) = []"
  by (simp_all add: alert_intent_def demo_target mit_intent_def Let_def)

lemma demo_decision: "decision demo_engine (alert_intent m open_host (alert_for pid)) x \<longleftrightarrow> 100 \<le> pid"
  by (auto simp: decision_def Evaluate_authorized protected_target_def demo_intent demo_evaluator IsWhitelisted_def
      HistoricalCount_def demo_engine_ledger)

text \<open>
  C2: When the policy engine authorises an alert, the mitigator acts and settles by the
  outcome of its last attempt on the host. If that was refused, the transaction is REJECTED and the
  ledger gains nothing; if it was accepted, the transaction is EXECUTED, and the ledger holds a
  PAUSED entry for the target under the token the event carries, backed by what has just been
  attempted.
\<close>

theorem mitigate_authorized_outcome:
  assumes "decision e (alert_intent m (w_host w) alert) (ai_eval x)"
    and "mitigateFromAlert (Some e) m w alert x = (pe', m', w')"
  shows "\<exists>e' evt status new. pe' = Some e' \<and> mg_console m' = mg_console m @ [evt] \<and>
    policy_status e' (generateTxID (ei_buf (ai_eval x))) = Some status \<and> w_log w' = w_log w @ new \<and> new \<noteq> [] \<and>
    (case ax_Status (me_Action evt) of
       ActionStatusSuccess \<Rightarrow> snd (last new) \<and> status = StatusExecuted \<and>
         px_ReversibilityToken (me_Policy evt) = generateRevToken (ai_token x) \<and>
         (\<exists>entry. ResolveByToken (mg_ledger m') (generateRevToken (ai_token x)) = Some entry \<and>
            le_State entry = ActionPaused \<and> le_PID entry = ap_TargetPID (ca_Payload alert) \<and> backed new entry)
     | ActionStatusFailed \<Rightarrow> \<not> snd (last new) \<and> status = StatusRejected \<and> mg_ledger m' = mg_ledger m
     | ActionStatusSkipped \<Rightarrow> False)"
proof -
  let ?t = "mit_target m (w_host w) alert"
  obtain mech sent err cm w1 where en:
    "enforce (mg_cm m) w (ap_TargetPID (ca_Payload alert)) (ti_ContainerID ?t) = ((mech, sent, err), cm, w1)"
    by (metis prod.collapse)
  obtain e' where e': "pe' = Some e'" "policy_status e' (generateTxID (ei_buf (ai_eval x))) =
      Some (if err = None then StatusExecuted else StatusRejected)"
    using mitigate_policy_status [OF assms(2,1) en] by blast
  have m': "m' = report_action (m\<lparr>mg_cm := cm\<rparr>) ?t (ap_AnomalyType (ca_Payload alert)) mech sent err x" "w' = w1"
    using mitigate_authorized [OF assms(1) en] assms(2) by auto
  have target: "ti_PID ?t = ap_TargetPID (ca_Payload alert)" by (simp add: mit_target_def Let_def)
  obtain new where new: "w_log w' = w_log w @ new" "new \<noteq> []" "snd (last new) = (err = None)"
    "err = None \<Longrightarrow> acted (ti_PID ?t) (ti_ContainerID ?t) mech new"
    using enforce_log [OF en] m'(2) target by auto
  show ?thesis
  proof (cases err)
    case None
    then show ?thesis
      using e' new target
      by (simp add: m'(1) report_action_def Let_def mit_emitEvent_def publish_event_def mit_event_def ledger_Record_def
          ResolveByToken_def mit_entry_def backed_def)
  next
    case (Some er)
    then show ?thesis
      using e' new by (simp add: m'(1) report_action_def Let_def mit_emitEvent_def publish_event_def mit_event_def)
  qed
qed

lemma demo_enforce: "enforce cm demo_world pid [] =
    ((MechanismSignalStop, ''SIGSTOP'', None), cm, attempt demo_world (SendSignal SIGSTOP pid) True)"
  by (simp add: enforce_def FreezeProcess_def signal_process_def deliver_def Let_def demo_world_def open_host_def)

theorem mitigate_authorized_outcome_witness:
  "\<exists>e' evt status. fst (mitigateFromAlert (Some demo_engine) demo_mitigator demo_world (alert_for 4242) demo_inputs) = Some e' \<and>
     policy_status e' (generateTxID []) = Some status \<and> status \<noteq> StatusAuthorizedPending"
proof -
  obtain pe' m' w' where r: "mitigateFromAlert (Some demo_engine) demo_mitigator demo_world (alert_for 4242) demo_inputs = (pe', m', w')"
    by (metis prod.collapse)
  have "decision demo_engine (alert_intent demo_mitigator (w_host demo_world) (alert_for 4242)) (ai_eval demo_inputs)"
    by (simp add: demo_world_def demo_decision)
  from mitigate_authorized_outcome [OF this r] r show ?thesis
    by (force simp: demo_inputs_def split: ActionStatus.splits)
qed



text \<open>
  C9: Resuming undoes a mitigation by signal: after a successful mitigation of a process
  without a container, \<open>Resume\<close> with the token of its entry, on a host that delivers the
  continue signal, succeeds, marks the entry RESUMED and leaves the process running, while all
  other processes are as they were before.
\<close>

theorem resume_undoes_mitigation:
  assumes "decision e (alert_intent m (w_host w) alert) (ai_eval x)"
    and "ti_ContainerID (mit_target m (w_host w) alert) = ''''"
    and "pid = ap_TargetPID (ca_Payload alert)"
    and "h_signal (w_host w) SIGSTOP pid = SignalDelivered"
    and "mitigateFromAlert (Some e) m w alert x = (pe1, m1, w1)"
    and "h_signal h' SIGCONT pid = SignalDelivered"
    and "Resume pe1 m1 (w1\<lparr>w_host := h'\<rparr>) (generateRevToken (ai_token x)) y = (r, pe2, m2, w2)"
  shows "(\<exists>evt. r = Inr evt) \<and>
    (\<exists>entry. ResolveByToken (mg_ledger m2) (generateRevToken (ai_token x)) = Some entry \<and>
       le_State entry = ActionResumed \<and> le_PID entry = pid) \<and>
    (\<exists>new. w_log w2 = w_log w @ new \<and> stopped_after new S = S - {pid})"
proof -
  let ?t = "mit_target m (w_host w) alert" and ?tok = "generateRevToken (ai_token x)"
  obtain err w1' where fr: "FreezeProcess w pid = (err, w1')" by (metis prod.collapse)
  have err: "err = None"
    using signal_process_delivered [OF assms(4), of "''freeze''"] fr by (simp add: FreezeProcess_def)
  have en: "enforce (mg_cm m) w (ap_TargetPID (ca_Payload alert)) (ti_ContainerID ?t) =
      ((MechanismSignalStop, ''SIGSTOP'', None), mg_cm m, w1')"
    using fr err assms(2,3) by (simp add: enforce_def)
  have m1: "m1 = report_action (m\<lparr>mg_cm := mg_cm m\<rparr>) ?t (ap_AnomalyType (ca_Payload alert)) MechanismSignalStop ''SIGSTOP'' None x"
    and w1: "w1 = w1'"
    using mitigate_authorized [OF assms(1) en] assms(5) by auto
  define entry where "entry = (mit_entry ?t (ap_AnomalyType (ca_Payload alert)) MechanismSignalStop)
     \<lparr>le_ReversibilityToken := ?tok, le_Timestamp := timeNowUnix, le_State := ActionPaused\<rparr>"
  have led: "ResolveByToken (mg_ledger m1) ?tok = Some entry"
    unfolding m1 by (simp add: report_action_ledger ledger_Record_def Let_def ResolveByToken_def entry_def)
  have pid: "le_PID entry = pid" "le_Mechanism entry = MechanismSignalStop"
    using assms(3) by (simp_all add: entry_def mit_entry_def mit_target_def Let_def)
  obtain uerr w2' where un: "UnfreezeProcess (w1\<lparr>w_host := h'\<rparr>) pid = (uerr, w2')" by (metis prod.collapse)
  have uerr: "uerr = None"
    using signal_process_delivered [of "w1\<lparr>w_host := h'\<rparr>" SIGCONT pid "''unfreeze''"] assms(6) un
    by (simp add: UnfreezeProcess_def)
  have ra: "resume_action (mg_cm m1) (w1\<lparr>w_host := h'\<rparr>) entry = ((MechanismSignalStop, None), mg_cm m1, w2')"
    using un uerr by (simp add: resume_action_def pid)
  have "(\<exists>evt. r = Inr evt) \<and> w2 = w2' \<and> mg_ledger m2 = snd (UpdateState (mg_ledger m1) ?tok ActionResumed)"
    using assms(7) by (cases rule: Resume_cases) (use led ra in simp_all)
  moreover have "w_log w2' = w_log w @ [(SendSignal SIGSTOP pid, True), (SendSignal SIGCONT pid, True)]"
    using FreezeProcess_result [OF fr] UnfreezeProcess_result [OF un] err uerr w1 by simp
  moreover have "stopped_after [(SendSignal SIGSTOP pid, True), (SendSignal SIGCONT pid, True)] S = S - {pid}"
    by (auto simp: stopped_after_def)
  ultimately show ?thesis
    using led pid(1) by (auto simp: ResolveByToken_def UpdateState_entries)
qed

definition demo_mitigated :: "PolicyEngine option \<times> Mitigator \<times> World" where
  "demo_mitigated = mitigateFromAlert (Some demo_engine) demo_mitigator demo_world (alert_for 4242) demo_inputs"

lemma demo_host: "w_host demo_world = open_host"
  by (simp add: demo_world_def)

lemma demo_container: "ti_ContainerID (mit_target demo_mitigator open_host (alert_for 4242)) = ''''"
  by (simp add: demo_target)

lemma open_host_signal [simp]: "h_signal open_host s p = SignalDelivered"
  by (simp add: open_host_def)

theorem resume_undoes_mitigation_witness:
  "\<exists>evt pe2 m2 w2. Resume (fst demo_mitigated) (fst (snd demo_mitigated)) ((snd (snd demo_mitigated))\<lparr>w_host := open_host\<rparr>)
     (generateRevToken (ai_token demo_inputs)) demo_inputs = (Inr evt, pe2, m2, w2)"
proof -
  obtain pe1 m1 w1 where mit: "mitigateFromAlert (Some demo_engine) demo_mitigator demo_world (alert_for 4242) demo_inputs = (pe1, m1, w1)"
    by (metis prod.collapse)
  obtain r pe2 m2 w2 where re: "Resume pe1 m1 (w1\<lparr>w_host := open_host\<rparr>) (generateRevToken (ai_token demo_inputs)) demo_inputs =
      (r, pe2, m2, w2)"
    by (metis prod.collapse)
  have "decision demo_engine (alert_intent demo_mitigator (w_host demo_world) (alert_for 4242)) (ai_eval demo_inputs)"
    by (simp add: demo_host demo_decision)
  from resume_undoes_mitigation [OF this _ _ _ mit _ re, of 4242]
  have "\<exists>evt. r = Inr evt" by (simp add: demo_host demo_container)
  then show ?thesis using re mit by (auto simp: demo_mitigated_def)
qed

text \<open>
  Resuming never closes the transaction of the mitigation: \<open>Resume\<close> completes the policy
  transaction under the reversibility token, which is not an identifier of the policy ledger,
  so the policy engine is left exactly as it was.
\<close>

lemma resume_leaves_transaction_open:
  assumes "ledger_inv (pe_ledger e)" "mit_ledger_inv (mg_ledger m)"
    and "Resume (Some e) m w token x = (r, pe', m', w')"
  shows "pe' = Some e"
  using assms(3)
proof (cases rule: Resume_cases)
  case (resumed entry mech cm)
  then have "prefix ''rev_token_'' token"
    using assms(2) by (auto simp: mit_ledger_inv_def ResolveByToken_def)
  then have "\<not> prefix ''tx_'' token" by (auto simp: prefix_def)
  then have "tl_records (pe_ledger e) token = None"
    using ledger_inv_key [OF assms(1)] by (cases "tl_records (pe_ledger e) token") auto
  then show ?thesis
    using resumed by (simp add: Complete_def UpdateStatus_def)
qed simp_all

text \<open>
  C33: Whatever bytes the process file system returns, the container identifier the mitigator
  resolves is empty or at least twelve hexadecimal digits, and the process name holds neither a
  slash nor a zero byte.
\<close>

theorem resolved_target_wellformed:
  "hex_id (resolveContainerID m h pid) \<and> CHR ''/'' \<notin> set (resolveProcessName m h pid) \<and>
    CHR 0x00 \<notin> set (resolveProcessName m h pid)"
proof -
  have hex: "hex_id (resolveContainerID m h pid)"
    by (auto simp: resolveContainerID_def extractHexContainerID_def first_hex_id hex_id_def [of "[]"] split: option.splits)
  have name: "CHR ''/'' \<notin> set (extractCmdline data) \<and> CHR 0x00 \<notin> set (extractCmdline data)" for data
  proof -
    let ?name = "takeWhile (\<lambda>b. b \<noteq> CHR 0x00) data"
    have zero: "CHR 0x00 \<notin> set ?name" by (auto dest: set_takeWhileD)
    show ?thesis
    proof (cases "CHR ''/'' \<in> set ?name")
      case True
      then obtain xs ys where split: "?name = xs @ CHR ''/'' # ys" "CHR ''/'' \<notin> set ys"
        "LastIndexByte ?name (CHR ''/'') = int (length xs)" by (rule split_at_last_byte)
      have "extractCmdline data = ys"
        unfolding extractCmdline_def Let_def stringsLastIndexByte_eq split(3) by (simp add: split(1) nat_add_distrib)
      moreover have "CHR 0x00 \<notin> set ys" using zero unfolding split(1) by simp
      ultimately show ?thesis using split(2) by simp
    next
      case False
      then have "LastIndexByte ?name (CHR ''/'') < 0" by (simp add: LastIndexByte_neg)
      then show ?thesis using zero False by (simp add: extractCmdline_def Let_def stringsLastIndexByte_eq)
    qed
  qed
  show ?thesis using hex name by (simp add: resolveProcessName_def split: option.splits)
qed

end
