(* ===== verification/Routing.thy ===== *)
theory Routing
  imports Router Enforcement
begin

text \<open>
  What the router of \<open>src/internal/proxy/router\<close> guarantees: which alerts reach its registry, what
  happens to the traffic of a treated and of an untreated process, and what a client sees of a
  response of the fallback endpoint.
\<close>

section \<open>Alerts\<close>

text \<open>
  C15: An alert reaches the router's registry exactly when the policy engine authorises it. If
  it does, the transaction is EXECUTED and the process is under treatment until the cooling-off
  time after the update has passed; no other process is affected. A refused alert leaves the
  router as it was and its transaction REJECTED.
\<close>

theorem handleAlert_gated:
  assumes "handleAlert (Some e) r alert x t_lk t_up = (pe', r')"
    and "i = router_intent (at_PID alert) (remedyForAnomaly (at_AnomalyType alert)) (at_AnomalyType alert)"
  shows "(\<exists>e'. pe' = Some e' \<and> policy_status e' (generateTxID (ei_buf x)) =
      Some (if decision e i x then StatusExecuted else StatusRejected)) \<and>
    (\<not> decision e i x \<longrightarrow> r' = r) \<and>
    (decision e i x \<longrightarrow>
      (\<forall>now. treated (rt_reg r') (at_PID alert) now \<noteq> None \<longleftrightarrow> now \<le> cool_until (rt_reg r) t_up) \<and>
      (\<forall>pid. pid \<noteq> at_PID alert \<longrightarrow> rg_entries (rt_reg r') pid = rg_entries (rt_reg r) pid))"
proof -
  obtain a tx ev e1 where g: "EvaluateAndRegister e i x = ((a, tx, ev), e1)" by (metis prod.collapse)
  have a: "a = decision e i x" and tx: "tx = generateTxID (ei_buf x)"
    using EvaluateAndRegister_decision [of e i x] EvaluateAndRegister_txID [of e i x] g by simp_all
  show ?thesis
  proof (cases "decision e i x")
    case True
    let ?r = "apply_remedy r (at_PID alert) (remedyForAnomaly (at_AnomalyType alert)) t_lk t_up"
    have out: "pe' = Some (policy_gate.settle e1 tx None)" "r' = ?r"
      using assms True g tx by (auto simp: handleAlert_policy Let_def policy_gate.settle_def)
    obtain st where st: "rg_entries (rt_reg ?r) (at_PID alert) = Some st" "rm_Active st" "rm_CoolingUntil st = cool_until (rt_reg r) t_up"
      using apply_remedy_entry [of r "at_PID alert" "remedyForAnomaly (at_AnomalyType alert)" t_lk t_up] by blast
    have "policy_status (policy_gate.settle e1 tx None) tx = Some StatusExecuted"
      using policy_gate.settle_status [OF g [unfolded a]] True by (simp add: True)
    moreover have "treated (rt_reg ?r) (at_PID alert) now \<noteq> None \<longleftrightarrow> now \<le> cool_until (rt_reg r) t_up" for now
      using st by (simp add: treated_def live_state_def)
    ultimately show ?thesis using True out tx apply_remedy_other by simp
  next
    case False
    then have "pe' = Some e1" "r' = r" using assms g by (auto simp: handleAlert_policy Let_def)
    moreover have "policy_status e1 tx = Some StatusRejected"
      using policy_gate.refused_status [of e i x tx ev e1] g a False by simp
    ultimately show ?thesis using False tx by simp
  qed
qed

lemma router_decision:
  assumes "100 \<le> pid"
  shows "decision demo_engine (router_intent pid rm ty) x"
  using assms by (auto simp: decision_def Evaluate_authorized protected_target_def router_intent_def demo_evaluator
      IsWhitelisted_def HistoricalCount_def demo_engine_ledger)

definition demo_router :: Router where
  "demo_router = NewRouter (RouterDefaultConfig\<lparr>xc_Enabled := True\<rparr>)"

definition demo_trigger :: AlertTrigger where
  "demo_trigger = \<lparr>at_PID = 4242, at_AnomalyType = ''SEMANTIC_REPETITION_LOOP''\<rparr>"

lemma demo_router_empty [simp]: "rg_entries (rt_reg demo_router) = Map.empty"
  by (simp add: demo_router_def NewRouter_def Let_def NewRegistry_def)

lemma demo_router_cool: "cool_until (rt_reg demo_router) t = to_i64 (t + 60 * second_ns)"
  by (simp add: demo_router_def NewRouter_def Let_def NewRegistry_def cool_until_def RouterDefaultConfig_def)

theorem handleAlert_gated_witness:
  "treated (rt_reg (snd (handleAlert (Some demo_engine) demo_router demo_trigger (ai_eval demo_inputs) 5 6))) 4242
     (cool_until (rt_reg demo_router) 6) \<noteq> None"
proof -
  obtain pe' r' where h: "handleAlert (Some demo_engine) demo_router demo_trigger (ai_eval demo_inputs) 5 6 = (pe', r')"
    by (metis prod.collapse)
  have "at_PID demo_trigger = 4242" by (simp add: demo_trigger_def)
  then show ?thesis using handleAlert_gated [OF h refl] router_decision [of 4242] h by simp
qed

text \<open>
  A further alert never changes the remedy of a process that is under treatment: whatever
  action the policy engine authorised for it, the registry keeps the remedy it had and only
  extends it. A token-chop treatment is not turned into the fallback route that the ledger
  records as executed.
\<close>

lemma refresh_keeps_remedy:
  assumes "handleAlert (Some e) r alert x t_lk t_up = (pe', r')"
    and "treated (rt_reg r) (at_PID alert) t_lk = Some st" "t_up \<le> cool_until (rt_reg r) t_up"
    and "decision e (router_intent (at_PID alert) (remedyForAnomaly (at_AnomalyType alert)) (at_AnomalyType alert)) x"
  shows "\<exists>st'. treated (rt_reg r') (at_PID alert) t_up = Some st' \<and> rm_Remedy st' = rm_Remedy st"
proof -
  have "r' = apply_remedy r (at_PID alert) (remedyForAnomaly (at_AnomalyType alert)) t_lk t_up"
    using assms(1,4) by (auto simp: handleAlert_policy Let_def)
  then show ?thesis
    using apply_remedy_entry [of r "at_PID alert" "remedyForAnomaly (at_AnomalyType alert)" t_lk t_up] assms(2,3)
    by (auto simp: treated_def live_state_def split: option.splits if_splits)
qed

definition chopped_router :: Router where
  "chopped_router = demo_router\<lparr>rt_reg := Activate (rt_reg demo_router) 4242 RemedyTokenChop '''' 5\<rparr>"

text \<open>A memory leak calls for the fallback route, a process already chopped stays chopped.\<close>

section \<open>Traffic\<close>

text \<open>
  Traffic of a process that is not under treatment passes through untouched: the body and
  the outgoing request are returned as they came, no event is published, and no remedy changes.
\<close>

lemma untreated_untouched:
  shows "clientPID \<le> 0 \<or> treated (rt_reg r) clientPID (ii_lookup x) = None \<Longrightarrow>
    \<exists>r'. InterceptRequest c r body req clientPID model x = Some ((body, False, None), req, r') \<and>
      rt_events r' = rt_events r \<and> rt_console r' = rt_console r \<and> rt_fr r' = rt_fr r \<and>
      (\<forall>pid. treated (rt_reg r') pid (ii_lookup x) = treated (rt_reg r) pid (ii_lookup x))"
  using Lookup_treated [of "rt_reg r" clientPID "ii_lookup x"]
  by (auto simp: InterceptRequest_def case_prod_unfold Let_def Lookup_keeps_treated)

definition demo_codec :: codec where
  "demo_codec = \<lparr>cd_parse = (\<lambda>_. Some JNull), cd_print = (\<lambda>_. []), cd_renumber = Some, cd_urlHost = Some\<rparr>"

definition demo_request :: HttpRequest where
  "demo_request = \<lparr>hr_URL = [], hr_Host = [], hr_Header = Map.empty, hr_ContentLength = 1\<rparr>"

definition demo_intercept :: intercept_inputs where
  "demo_intercept = \<lparr>ii_lookup = 6, ii_elapsed = 0, ii_now = 1, ii_pool = fresh_request\<rparr>"

lemma count_tokens_frame [simp]:
  "rt_fr (count_tokens r pid n) = rt_fr r" "rt_console (count_tokens r pid n) = rt_console r"
  by (simp_all add: count_tokens_def)



lemma untreated_none:
  "treated (rt_reg r) clientPID (ii_lookup x) = None \<Longrightarrow> InterceptRequest c r body req clientPID model x \<noteq> None"
  using Lookup_treated [of "rt_reg r" clientPID "ii_lookup x"]
  by (auto simp: InterceptRequest_def case_prod_unfold Let_def)

text \<open>
  C32: An interception panics in exactly one situation: the process is under a remedy that routes
  to the fallback endpoint, the endpoint's address parses, and the body to be rewritten, which is
  the chopped one under the combined remedy, is the JSON text \<open>null\<close>.
\<close>

theorem intercept_panics_iff:
  "InterceptRequest c r body req clientPID model x = None \<longleftrightarrow>
    0 < clientPID \<and> cd_urlHost c (fr_endpoint (rt_fr r)) \<noteq> None \<and>
    (\<exists>st. treated (rt_reg r) clientPID (ii_lookup x) = Some st \<and>
      (rm_Remedy st = RemedyFallbackRoute \<and> cd_parse c body = Some JNull \<or>
       rm_Remedy st = RemedyBoth \<and> cd_parse c (fst (chop_request c r (ii_pool x) body)) = Some JNull))"
proof (cases "0 < clientPID")
  case pos: True
  show ?thesis
  proof (cases "treated (rt_reg r) clientPID (ii_lookup x)")
    case None
    then show ?thesis using untreated_none [of r clientPID x c body req model] by simp
  next
    case (Some st)
    then have l: "Lookup (rt_reg r) clientPID (ii_lookup x) = (Some st, rt_reg r)"
      by (auto simp: treated_def Lookup_def live_state_def split: option.splits if_splits)
    have i: "InterceptRequest c r body req clientPID model x = None \<longleftrightarrow> treat_request c r st (ii_pool x) body req clientPID = None"
      using pos l by (auto simp: InterceptRequest_def Let_def split: option.splits)
    have "treat_request c r st (ii_pool x) body req clientPID = None \<longleftrightarrow>
      rm_Remedy st = RemedyFallbackRoute \<and> RewriteRequest c (rt_fr r) req body = None \<or>
      rm_Remedy st = RemedyBoth \<and> RewriteRequest c (rt_fr r) req (fst (chop_request c r (ii_pool x) body)) = None"
      by (cases "rm_Remedy st") (auto simp: treat_request_def case_prod_unfold Let_def split: option.splits)
    then show ?thesis using pos Some by (auto simp: i RewriteRequest_panics)
  qed
qed (simp add: InterceptRequest_def)

section \<open>Responses\<close>

text \<open>
  C31: A client under the fallback route sees the model it asked for: where the printed response
  parses back, the rewritten body decodes to the response of the fallback endpoint with only its
  model and object fields changed. A body that does not decode is returned as it came.
\<close>

theorem RewriteResponse_masks_model:
  assumes "cd_parse c body = Some j" "decode_response j = (resp, ok)"
    and "masked = resp\<lparr>rp_Model := model, rp_Object := ''chat.completion''\<rparr>"
    and "cd_parse c (cd_print c (encode_response masked)) = Some (encode_response masked)"
  shows "if ok then \<exists>j'. cd_parse c (RewriteResponse c body model) = Some j' \<and> decode_response j' = (masked, True)
    else RewriteResponse c body model = body"
proof (cases ok)
  case True
  have "response_wf resp" using decode_response_wf [of j] assms(2) by simp
  then have "response_wf masked" by (simp add: response_wf_def assms(3))
  from decode_encode_response [OF this] assms True show ?thesis by (simp add: RewriteResponse_def)
qed (use assms in \<open>simp add: RewriteResponse_def\<close>)

definition demo_response :: OpenAIResponse where
  "demo_response = \<lparr>rp_ID = ''r'', rp_Object = ''o'', rp_Created = 7, rp_Model = ''local'', rp_Choices = None, rp_Usage = None\<rparr>"

theorem RewriteResponse_masks_model_witness:
  "let masked = demo_response\<lparr>rp_Model := ''gpt'', rp_Object := ''chat.completion''\<rparr>;
       c = \<lparr>cd_parse = (\<lambda>b. Some (encode_response (if b = ''x'' then demo_response else masked))),
            cd_print = (\<lambda>_. ''y''), cd_renumber = Some, cd_urlHost = Some\<rparr>
   in \<exists>j'. cd_parse c (RewriteResponse c ''x'' ''gpt'') = Some j' \<and> decode_response j' = (masked, True)"
proof -
  have "response_wf demo_response" by (simp add: demo_response_def response_wf_def in_i64_def)
  note dec = decode_encode_response [OF this]
  let ?masked = "demo_response\<lparr>rp_Model := ''gpt'', rp_Object := ''chat.completion''\<rparr>"
  let ?c = "\<lparr>cd_parse = (\<lambda>b. Some (encode_response (if b = ''x'' then demo_response else ?masked))),
            cd_print = (\<lambda>_. ''y''), cd_renumber = Some, cd_urlHost = Some\<rparr> :: codec"
  have p: "cd_parse ?c ''x'' = Some (encode_response demo_response)"
    "cd_parse ?c (cd_print ?c (encode_response ?masked)) = Some (encode_response ?masked)"
    by simp_all
  from RewriteResponse_masks_model [OF p(1) dec refl p(2)] show ?thesis unfolding Let_def by simp
qed

end
