(* ===== verification/ProcResolver.thy ===== *)
theory ProcResolver
  imports GoPaths
begin

text \<open>
  Finding the process behind a connection: \<open>process.go\<close> and \<open>process_linux.go\<close> of
  \<open>src/internal/proxy/proxy\<close>. Directory listings, links and the text of the connection tables
  are arguments. A socket link that is too short to slice panics, which is \<open>None\<close>.
\<close>

section \<open>What the file system answers\<close>

text \<open>Opening fails, or there are bytes and an error that ended the reading, if any.\<close>

record ProcFiles =
  pf_readDir :: "gostring \<Rightarrow> gostring + (gostring \<times> bool) list"
  pf_readlink :: "gostring \<Rightarrow> gostring option"
  pf_open :: "gostring \<Rightarrow> gostring + (bytes \<times> gostring option)"

section \<open>Connection tables\<close>

record tcpEntry =
  te_localPort :: "16 word"
  te_remotePort :: "16 word"
  te_remoteIP :: gostring
  te_state :: "8 word"
  te_inode :: "64 word"

text \<open>The number after the last colon of an address, if it has a colon.\<close>

definition address_port :: "gostring \<Rightarrow> nat option" where
  "address_port addr =
     (let parts = split_on (CHR '':'') addr in if length parts < 2 then None else ParseUint (last parts) 16 16)"

definition parse_tcp_line :: "gostring \<Rightarrow> tcpEntry option" where
  "parse_tcp_line line =
     (let line = TrimSpace line; fields = Fields line
      in if line = '''' \<or> length fields < 10 then None
         else (case address_port (fields ! 1) of
                 None \<Rightarrow> None
               | Some localPort \<Rightarrow>
                   (case address_port (fields ! 2) of
                      None \<Rightarrow> None
                    | Some remotePort \<Rightarrow>
                        (case ParseUint (fields ! 3) 16 8 of
                           None \<Rightarrow> None
                         | Some state \<Rightarrow>
                             (case ParseUint (fields ! 9) 10 64 of
                                None \<Rightarrow> None
                              | Some inode \<Rightarrow> Some \<lparr>
                                  te_localPort = of_nat localPort,
                                  te_remotePort = of_nat remotePort,
                                  te_remoteIP = '''',
                                  te_state = of_nat state,
                                  te_inode = of_nat inode\<rparr>)))))"

definition scan_error :: "bytes \<Rightarrow> gostring option \<Rightarrow> gostring option" where
  "scan_error data err =
     (if list_all (\<lambda>l. length l < max_scan_token) (raw_lines data) then err else Some ''bufio.Scanner: token too long'')"

definition parseNetTCP :: "ProcFiles \<Rightarrow> gostring \<Rightarrow> tcpEntry list \<times> gostring option" where
  "parseNetTCP f path =
     (case pf_open f path of
        Inl e \<Rightarrow> ([], Some e)
      | Inr (data, err) \<Rightarrow>
          (concat (map (\<lambda>l. case parse_tcp_line l of None \<Rightarrow> [] | Some e \<Rightarrow> [e]) (drop 1 (scan_lines data))), scan_error data err))"

section \<open>The resolver of Linux\<close>

record linuxProcResolver =
  lr_procRoot :: gostring
  lr_inodePID :: "64 word \<rightharpoonup> int"

definition newPlatformProcResolver :: linuxProcResolver where
  "newPlatformProcResolver = \<lparr>lr_procRoot = ''/proc'', lr_inodePID = Map.empty\<rparr>"

text \<open>The inode of a socket link: a panic, no inode, or the inode.\<close>

definition socket_inode :: "gostring \<Rightarrow> 64 word option option" where
  "socket_inode link =
     (if \<not> HasPrefix link ''socket:['' then Some None
      else if length link < 9 then None
      else (case ParseUint (drop 8 (take (length link - 1) link)) 10 64 of
              None \<Rightarrow> Some None
            | Some inode \<Rightarrow> Some (if inode = 0 then None else Some (of_nat inode))))"

definition fd_path :: "gostring \<Rightarrow> int \<Rightarrow> gostring" where
  "fd_path procRoot pid = procRoot @ ''/'' @ format_int pid @ ''/fd''"

definition refresh_fd ::
  "ProcFiles \<Rightarrow> gostring \<Rightarrow> int \<Rightarrow> gostring \<times> bool \<Rightarrow> (64 word \<rightharpoonup> int) \<Rightarrow> (64 word \<rightharpoonup> int) option" where
  "refresh_fd f procRoot pid fd newMap =
     (case pf_readlink f (fd_path procRoot pid @ ''/'' @ fst fd) of
        None \<Rightarrow> Some newMap
      | Some link \<Rightarrow>
          (case socket_inode link of
             None \<Rightarrow> None
           | Some None \<Rightarrow> Some newMap
           | Some (Some inode) \<Rightarrow> Some (newMap(inode \<mapsto> pid))))"

definition refresh_entry ::
  "ProcFiles \<Rightarrow> gostring \<Rightarrow> gostring \<times> bool \<Rightarrow> (64 word \<rightharpoonup> int) \<Rightarrow> (64 word \<rightharpoonup> int) option" where
  "refresh_entry f procRoot entry newMap =
     (if \<not> snd entry then Some newMap
      else (case Atoi (fst entry) of
              None \<Rightarrow> Some newMap
            | Some pid \<Rightarrow>
                (if pid \<le> 0 then Some newMap
                 else (case pf_readDir f (fd_path procRoot pid) of
                         Inl _ \<Rightarrow> Some newMap
                       | Inr fds \<Rightarrow> fold_opt (refresh_fd f procRoot pid) fds newMap))))"

definition resolver_refresh :: "ProcFiles \<Rightarrow> linuxProcResolver \<Rightarrow> (gostring option \<times> linuxProcResolver) option" where
  "resolver_refresh f l =
     (case pf_readDir f (lr_procRoot l) of
        Inl e \<Rightarrow> Some (Some (''read /proc: '' @ e), l)
      | Inr entries \<Rightarrow>
          (case fold_opt (refresh_entry f (lr_procRoot l)) entries Map.empty of
             None \<Rightarrow> None
           | Some newMap \<Rightarrow> Some (None, l\<lparr>lr_inodePID := newMap\<rparr>)))"

text \<open>Whether an entry of a table is the established connection that is looked for.\<close>

definition entry_matches :: "16 word \<Rightarrow> int \<Rightarrow> tcpEntry \<Rightarrow> bool" where
  "entry_matches localPort proxyPort e \<longleftrightarrow> te_localPort e = localPort \<and>
     (proxyPort > 0 \<longrightarrow> te_remotePort e = of_int proxyPort) \<and> te_state e = 1"

fun find_owner :: "linuxProcResolver \<Rightarrow> 16 word \<Rightarrow> int \<Rightarrow> tcpEntry list \<Rightarrow> int" where
  "find_owner l localPort proxyPort [] = 0"
| "find_owner l localPort proxyPort (e # es) =
     (if \<not> entry_matches localPort proxyPort e then find_owner l localPort proxyPort es
      else (case lr_inodePID l (te_inode e) of
              Some pid \<Rightarrow> pid
            | None \<Rightarrow> find_owner l localPort proxyPort es))"

definition resolveFromPort :: "ProcFiles \<Rightarrow> linuxProcResolver \<Rightarrow> 16 word \<Rightarrow> int \<Rightarrow> gostring + int" where
  "resolveFromPort f l localPort proxyPort =
     (let (entries, err) = parseNetTCP f (lr_procRoot l @ ''/net/tcp'')
      in case err of
           Some e \<Rightarrow> Inl e
         | None \<Rightarrow>
             (let (entries6, err6) = parseNetTCP f (lr_procRoot l @ ''/net/tcp6'');
                  entries6 = (if err6 \<noteq> None then [] else entries6)
              in Inr (find_owner l localPort proxyPort (entries @ entries6))))"

section \<open>The cache\<close>

record ProcResolver =
  pr_impl :: "linuxProcResolver option"
  pr_age :: "time_ns option"
  pr_ttl :: duration

definition NewProcResolver :: ProcResolver where
  "NewProcResolver = \<lparr>pr_impl = None, pr_age = None, pr_ttl = 2 * second_ns\<rparr>"

definition resolver_Start :: "ProcResolver \<Rightarrow> ProcResolver" where
  "resolver_Start r = r\<lparr>pr_impl := Some newPlatformProcResolver\<rparr>"

text \<open>The readings of the clock: for the age of the cache, and after a refresh.\<close>

definition ResolvePID ::
  "ProcFiles \<Rightarrow> ProcResolver \<Rightarrow> 16 word \<Rightarrow> int \<Rightarrow> time_ns \<Rightarrow> time_ns \<Rightarrow> ((gostring + int) \<times> ProcResolver) option" where
  "ResolvePID f r localPort proxyPort t_age t_set =
     (case pr_impl r of
        None \<Rightarrow> Some (Inl ''process resolver: not available on this platform'', r)
      | Some l \<Rightarrow>
          (if time_since t_age (pr_age r) > pr_ttl r
           then (case resolver_refresh f l of
                   None \<Rightarrow> None
                 | Some (Some e, l) \<Rightarrow> Some (Inl (''refresh: '' @ e), r\<lparr>pr_impl := Some l\<rparr>)
                 | Some (None, l) \<Rightarrow> Some (resolveFromPort f l localPort proxyPort, r\<lparr>pr_impl := Some l, pr_age := Some t_set\<rparr>))
           else Some (resolveFromPort f l localPort proxyPort, r)))"

section \<open>Whose connection it is\<close>

text \<open>The process holds a descriptor for the socket with this inode.\<close>

definition holds_socket :: "ProcFiles \<Rightarrow> gostring \<Rightarrow> int \<Rightarrow> 64 word \<Rightarrow> bool" where
  "holds_socket f procRoot pid inode \<longleftrightarrow> pid > 0 \<and>
     (\<exists>fds fd link. pf_readDir f (fd_path procRoot pid) = Inr fds \<and> fd \<in> set fds \<and>
        pf_readlink f (fd_path procRoot pid @ ''/'' @ fst fd) = Some link \<and> socket_inode link = Some (Some inode))"

lemma refresh_fd_new:
  assumes "refresh_fd f procRoot pid fd m = Some m1" "m1 inode = Some p"
    and "fd \<in> set fds" "pf_readDir f (fd_path procRoot pid) = Inr fds" "pid > 0"
  shows "m inode = Some p \<or> p = pid \<and> holds_socket f procRoot pid inode"
proof (cases "m1 inode = m inode")
  case False
  then have "p = pid" "\<exists>link. pf_readlink f (fd_path procRoot pid @ ''/'' @ fst fd) = Some link \<and> socket_inode link = Some (Some inode)"
    using assms(1,2) by (auto simp: refresh_fd_def split: option.splits if_splits)
  then show ?thesis using assms(3-5) unfolding holds_socket_def by blast
qed (use assms(2) in simp)

lemma refresh_fds:
  assumes "fold_opt (refresh_fd f procRoot pid) fds m = Some m'" "m' inode = Some p"
    and "set fds \<subseteq> set all_fds" "pf_readDir f (fd_path procRoot pid) = Inr all_fds" "pid > 0"
  shows "m inode = Some p \<or> p = pid \<and> holds_socket f procRoot pid inode"
  using assms(1,3)
proof (induction fds arbitrary: m)
  case Nil
  then show ?case using assms(2) by simp
next
  case (Cons fd fds)
  then obtain m1 where m1: "refresh_fd f procRoot pid fd m = Some m1" "fold_opt (refresh_fd f procRoot pid) fds m1 = Some m'"
    by (auto split: option.splits)
  have "m1 inode = Some p \<Longrightarrow> m inode = Some p \<or> p = pid \<and> holds_socket f procRoot pid inode"
    using refresh_fd_new [OF m1(1) _ _ assms(4,5)] Cons.prems(2) by auto
  then show ?case using Cons.IH [OF m1(2)] Cons.prems(2) by auto
qed

lemma refresh_entry_holds:
  assumes "refresh_entry f procRoot entry m = Some m'" "m' inode = Some p"
  shows "m inode = Some p \<or> holds_socket f procRoot p inode"
proof (cases "m' = m")
  case False
  then obtain pid fds where "pid > 0" "pf_readDir f (fd_path procRoot pid) = Inr fds"
    "fold_opt (refresh_fd f procRoot pid) fds m = Some m'"
    using assms(1) by (auto simp: refresh_entry_def not_le split: option.splits if_splits sum.splits)
  then show ?thesis using refresh_fds [where fds = fds and all_fds = fds and m = m] assms(2) by blast
qed (use assms(2) in simp)

lemma refresh_entries_hold:
  "fold_opt (refresh_entry f procRoot) entries m = Some m' \<Longrightarrow> m' inode = Some p \<Longrightarrow>
   (\<And>i q. m i = Some q \<Longrightarrow> holds_socket f procRoot q i) \<Longrightarrow> holds_socket f procRoot p inode"
proof (induction entries arbitrary: m)
  case (Cons entry entries)
  then obtain m1 where m1: "refresh_entry f procRoot entry m = Some m1" "fold_opt (refresh_entry f procRoot) entries m1 = Some m'"
    by (auto split: option.splits)
  show ?case using Cons.IH [OF m1(2) Cons.prems(2)] refresh_entry_holds [OF m1(1)] Cons.prems(3) by blast
qed auto

lemma find_owner_entry:
  "find_owner l localPort proxyPort es \<noteq> 0 \<Longrightarrow>
   \<exists>e \<in> set es. entry_matches localPort proxyPort e \<and> lr_inodePID l (te_inode e) = Some (find_owner l localPort proxyPort es)"
  by (induction es) (auto split: option.splits if_splits)

lemma find_owner_none: "\<forall>e \<in> set es. \<not> entry_matches localPort proxyPort e \<Longrightarrow> find_owner l localPort proxyPort es = 0"
  by (induction es) auto

text \<open>The entries that a lookup searches.\<close>

definition tcp_tables :: "ProcFiles \<Rightarrow> gostring \<Rightarrow> tcpEntry set" where
  "tcp_tables f procRoot = set (fst (parseNetTCP f (procRoot @ ''/net/tcp''))) \<union> set (fst (parseNetTCP f (procRoot @ ''/net/tcp6'')))"

lemma resolveFromPort_entries:
  assumes "resolveFromPort f l localPort proxyPort = Inr pid"
  shows "\<exists>es. set es \<subseteq> tcp_tables f (lr_procRoot l) \<and> pid = find_owner l localPort proxyPort es"
proof -
  let ?t = "parseNetTCP f (lr_procRoot l @ ''/net/tcp'')" and ?t6 = "parseNetTCP f (lr_procRoot l @ ''/net/tcp6'')"
  have "pid = find_owner l localPort proxyPort (fst ?t @ (if snd ?t6 \<noteq> None then [] else fst ?t6))"
    using assms by (auto simp: resolveFromPort_def case_prod_unfold Let_def split: option.splits)
  then show ?thesis by (intro exI [of _ "fst ?t @ (if snd ?t6 \<noteq> None then [] else fst ?t6)"]) (auto simp: tcp_tables_def)
qed

lemma resolveFromPort_no_match:
  assumes "resolveFromPort f l localPort proxyPort = Inr pid"
    and "\<forall>e \<in> tcp_tables f (lr_procRoot l). \<not> entry_matches localPort proxyPort e"
  shows "pid = 0"
  using resolveFromPort_entries [OF assms(1)] assms(2) find_owner_none by blast

lemma resolver_refresh_root: "resolver_refresh f l = Some (e, l') \<Longrightarrow> lr_procRoot l' = lr_procRoot l"
  by (auto simp: resolver_refresh_def split: sum.splits option.splits)

text \<open>
  C30: Whenever the resolver names a process after reading the process table, that process holds a
  descriptor for the socket of an established connection with the local port asked for, and with
  the remote port if there is one; otherwise the answer is 0 or an error.
\<close>

theorem resolver_names_owner:
  assumes "ResolvePID f r localPort proxyPort t_age t_set = Some (Inr pid, r')" "pr_impl r = Some l"
    and "time_since t_age (pr_age r) > pr_ttl r" "pid \<noteq> 0"
  shows "\<exists>e \<in> tcp_tables f (lr_procRoot l). entry_matches localPort proxyPort e \<and> holds_socket f (lr_procRoot l) pid (te_inode e)"
proof -
  from assms obtain l' where l': "resolver_refresh f l = Some (None, l')" "resolveFromPort f l' localPort proxyPort = Inr pid"
    by (auto simp: ResolvePID_def split: option.splits if_splits)
  have procRoot: "lr_procRoot l' = lr_procRoot l" by (rule resolver_refresh_root [OF l'(1)])
  obtain entries where m: "fold_opt (refresh_entry f (lr_procRoot l)) entries Map.empty = Some (lr_inodePID l')"
    using l'(1) by (auto simp: resolver_refresh_def split: sum.splits option.splits)
  from resolveFromPort_entries [OF l'(2)] obtain es where es: "set es \<subseteq> tcp_tables f (lr_procRoot l)"
    "pid = find_owner l' localPort proxyPort es" unfolding procRoot by blast
  then obtain e where e: "e \<in> set es" "entry_matches localPort proxyPort e" "lr_inodePID l' (te_inode e) = Some pid"
    using find_owner_entry assms(4) by metis
  have "holds_socket f (lr_procRoot l) pid (te_inode e)"
    by (rule refresh_entries_hold [OF m e(3)]) simp
  with e es show ?thesis by blast
qed

text \<open>One process with one connection.\<close>

definition tcp_text :: bytes where
  "tcp_text = ''sl local rem st'' @ [CHR 10] @
     ''0: 0100007F:1F90 0100007F:C350 01 0:0 0:0 0 0 0 77'' @ [CHR 10]"

definition demo_files :: ProcFiles where
  "demo_files = \<lparr>
     pf_readDir = (\<lambda>path. if path = ''/proc'' then Inr [(''42'', True)]
        else if path = ''/proc/42/fd'' then Inr [(''3'', False)] else Inl ''no such directory''),
     pf_readlink = (\<lambda>path. if path = ''/proc/42/fd/3'' then Some ''socket:[77]'' else None),
     pf_open = (\<lambda>path. if path = ''/proc/net/tcp'' then Inr (tcp_text, None) else Inl ''no such file'')\<rparr>"

lemma demo_refresh:
  "resolver_refresh demo_files newPlatformProcResolver = Some (None, newPlatformProcResolver\<lparr>lr_inodePID := [77 \<mapsto> 42]\<rparr>)"
proof -
  have a: "Atoi ''42'' = Some 42" by code_simp
  have p: "fd_path ''/proc'' 42 = ''/proc/42/fd''" unfolding fd_path_def by code_simp
  have s: "socket_inode ''socket:[77]'' = Some (Some 77)"
    by (simp add: socket_inode_def HasPrefix_def ParseUint_def digit_val_def)
  show ?thesis
    by (simp add: resolver_refresh_def newPlatformProcResolver_def demo_files_def refresh_entry_def refresh_fd_def a p s)
qed

lemma demo_table:
  "parseNetTCP demo_files ''/proc/net/tcp'' =
     ([\<lparr>te_localPort = 0x1F90, te_remotePort = 0xC350, te_remoteIP = '''', te_state = 1, te_inode = 77\<rparr>], None)"
proof -
  have "CHR ''t'' \<noteq> char_of (13 :: nat)" "CHR ''7'' \<noteq> char_of (13 :: nat)" by code_simp+
  then have l: "scan_lines tcp_text = [''sl local rem st'', ''0: 0100007F:1F90 0100007F:C350 01 0:0 0:0 0 0 0 77'']"
    "scan_error tcp_text None = None"
    by (simp_all add: tcp_text_def scan_error_def scan_lines_def raw_lines_def max_scan_token_def drop_cr_def Let_def)
  have t: "TrimSpace ''0: 0100007F:1F90 0100007F:C350 01 0:0 0:0 0 0 0 77'' = ''0: 0100007F:1F90 0100007F:C350 01 0:0 0:0 0 0 0 77''"
    "Fields ''0: 0100007F:1F90 0100007F:C350 01 0:0 0:0 0 0 0 77'' =
       [''0:'', ''0100007F:1F90'', ''0100007F:C350'', ''01'', ''0:0'', ''0:0'', ''0'', ''0'', ''0'', ''77'']"
    by code_simp+
  have "parse_tcp_line ''0: 0100007F:1F90 0100007F:C350 01 0:0 0:0 0 0 0 77'' =
      Some \<lparr>te_localPort = 0x1F90, te_remotePort = 0xC350, te_remoteIP = '''', te_state = 1, te_inode = 77\<rparr>"
    by (simp add: parse_tcp_line_def Let_def t address_port_def ParseUint_def digit_val_def)
  then show ?thesis by (simp add: parseNetTCP_def demo_files_def l)
qed

theorem resolver_names_owner_witness:
  "\<exists>r'. ResolvePID demo_files (resolver_Start NewProcResolver) 0x1F90 0 5 6 = Some (Inr 42, r') \<and>
     (\<exists>e \<in> tcp_tables demo_files ''/proc''. holds_socket demo_files ''/proc'' 42 (te_inode e))"
proof -
  let ?r = "resolver_Start NewProcResolver"
  have r: "pr_impl ?r = Some newPlatformProcResolver" "time_since 5 (pr_age ?r) > pr_ttl ?r"
    by (simp_all add: resolver_Start_def NewProcResolver_def time_since_def)
  have "resolveFromPort demo_files (newPlatformProcResolver\<lparr>lr_inodePID := [77 \<mapsto> 42]\<rparr>) 0x1F90 0 = Inr 42"
    by (simp add: resolveFromPort_def newPlatformProcResolver_def demo_table entry_matches_def case_prod_unfold Let_def)
  then obtain r' where s: "ResolvePID demo_files ?r 0x1F90 0 5 6 = Some (Inr 42, r')"
    using r by (simp add: ResolvePID_def demo_refresh)
  from resolver_names_owner [OF s r] s show ?thesis by (auto simp: newPlatformProcResolver_def)
qed

end
