(* ===== verification/Proxy.thy ===== *)
theory Proxy
  imports Metering Routing ProcResolver
begin

text \<open>
  The reverse proxy of \<open>src/internal/proxy/proxy/proxy.go\<close>: from a client's request to the request
  sent upstream, through the router's interception, and back from the upstream response to what
  the client receives and what is logged about it. The answer of the upstream host, the clock and
  the process table are arguments. A panic is \<open>None\<close>; writes to the client succeed.
\<close>

section \<open>State and inputs\<close>

record Proxy =
  py_ListenAddr :: gostring
  py_ProcResolver :: "ProcResolver option"
  py_TokenOutput :: "TokenUsageEvent list option"
  py_Router :: "Router option"
  py_logger :: MetricsLogger
  py_routes :: "UpstreamRoute list"

definition NewProxy :: "gostring \<Rightarrow> ProcResolver option \<Rightarrow> TokenUsageEvent list option \<Rightarrow> Router option \<Rightarrow> Proxy" where
  "NewProxy listenAddr resolver tokenOutput rt = \<lparr>
     py_ListenAddr = (if listenAddr = '''' then '':9999'' else listenAddr),
     py_ProcResolver = resolver, py_TokenOutput = tokenOutput, py_Router = rt,
     py_logger = NewMetricsLogger, py_routes = DefaultRoutes\<rparr>"

text \<open>The channel of token events is the one that the engine makes.\<close>

definition token_capacity :: nat where
  "token_capacity = 16384"

text \<open>A request as the server hands it over: the body may end in an error.\<close>

record client_request =
  cl_Method :: gostring
  cl_Host :: gostring
  cl_Path :: gostring
  cl_Header :: http_header
  cl_Body :: bytes
  cl_BodyFails :: bool

text \<open>A response: its body comes in reads, the last of which reports the end or an error.\<close>

record upstream_response =
  ua_Status :: int
  ua_Header :: http_header
  ua_Reads :: "bytes list"
  ua_Last :: bytes
  ua_Failed :: bool

record proxy_inputs =
  pi_files :: ProcFiles
  pi_age :: time_ns
  pi_set :: time_ns
  pi_order :: "http_header \<Rightarrow> gostring list"
  pi_lower :: "gostring \<Rightarrow> gostring"
  pi_intercept :: intercept_inputs
  pi_record :: time_ns
  pi_now :: int
  pi_flusher :: bool
  pi_upstream :: "gostring \<Rightarrow> HttpRequest \<Rightarrow> bytes \<Rightarrow> gostring + upstream_response"

record proxy_reply =
  pz_Status :: int
  pz_Header :: http_header
  pz_Body :: "bytes list"

definition proxy_error :: "int \<Rightarrow> gostring \<Rightarrow> proxy_reply" where
  "proxy_error code text = \<lparr>pz_Status = code,
     pz_Header = header_Set (header_Set Map.empty ''Content-Type'' ''text/plain; charset=utf-8'') ''X-Content-Type-Options'' ''nosniff'',
     pz_Body = [text @ [CHR 10]]\<rparr>"

section \<open>Towards the upstream host\<close>

definition before_colon :: "gostring \<Rightarrow> gostring" where
  "before_colon s = hd (split_on (CHR '':'') s)"

fun find_route :: "(gostring \<Rightarrow> gostring) \<Rightarrow> gostring \<Rightarrow> UpstreamRoute list \<Rightarrow> UpstreamRoute option" where
  "find_route low host [] = None"
| "find_route low host (rt # rts) =
     (let pattern = before_colon (ToLower low (ur_HostPattern rt))
      in if Contains host pattern \<or> Contains pattern host then Some rt else find_route low host rts)"

definition matchRoute :: "(gostring \<Rightarrow> gostring) \<Rightarrow> Proxy \<Rightarrow> gostring \<Rightarrow> UpstreamRoute option" where
  "matchRoute low p host = find_route low (before_colon (ToLower low host)) (py_routes p)"

definition body_limit :: nat where
  "body_limit = 10 * 1024 * 1024"

text \<open>Reading through the limit: an error past the limit is never seen.\<close>

definition read_body :: "client_request \<Rightarrow> bytes option" where
  "read_body cl = (if cl_BodyFails cl \<and> length (cl_Body cl) < body_limit then None else Some (take body_limit (cl_Body cl)))"

text \<open>\<open>http.NewRequest\<close>: the method is a token and the address parses.\<close>

definition NewRequest :: "codec \<Rightarrow> gostring \<Rightarrow> gostring \<Rightarrow> bytes \<Rightarrow> HttpRequest option" where
  "NewRequest c httpMethod url body =
     (if \<not> list_all token_byte httpMethod then None
      else (case cd_urlHost c url of
              None \<Rightarrow> None
            | Some host \<Rightarrow>
                Some \<lparr>hr_URL = url, hr_Host = host, hr_Header = Map.empty, hr_ContentLength = int (length body)\<rparr>))"

definition add_values :: "gostring \<times> gostring list \<Rightarrow> http_header \<Rightarrow> http_header" where
  "add_values kvs h = fold (\<lambda>v h. header_Add h (fst kvs) v) (snd kvs) h"

definition forward_headers :: "(http_header \<Rightarrow> gostring list) \<Rightarrow> http_header \<Rightarrow> http_header \<Rightarrow> http_header" where
  "forward_headers ord h target =
     fold (\<lambda>kvs h. if fst kvs = ''Proxy-Connection'' \<or> fst kvs = ''Proxy-Authorization'' then h else add_values kvs h)
       (range_pairs ord h) target"

definition client_pid :: "Proxy \<Rightarrow> proxy_inputs \<Rightarrow> (int \<times> Proxy) option" where
  "client_pid p x =
     (case py_ProcResolver p of
        None \<Rightarrow> Some (0, p)
      | Some pr \<Rightarrow>
          (case ResolvePID (pi_files x) pr 0 0 (pi_age x) (pi_set x) of
             None \<Rightarrow> None
           | Some (Inl _, pr) \<Rightarrow> Some (0, p\<lparr>py_ProcResolver := Some pr\<rparr>)
           | Some (Inr pid, pr) \<Rightarrow> Some (pid, p\<lparr>py_ProcResolver := Some pr\<rparr>)))"

text \<open>The request that is sent, with what is remembered for its response.\<close>

record sent_request =
  sq_Request :: HttpRequest
  sq_Body :: bytes
  sq_Provider :: AIProvider
  sq_Meta :: RequestMeta
  sq_PID :: int

definition intercept_sent ::
  "codec \<Rightarrow> Proxy \<Rightarrow> sent_request \<Rightarrow> intercept_inputs \<Rightarrow> (sent_request \<times> Proxy) option" where
  "intercept_sent c p q x =
     (case py_Router p of
        None \<Rightarrow> Some (q, p)
      | Some r \<Rightarrow>
          (case InterceptRequest c r (sq_Body q) (sq_Request q) (sq_PID q) (me_Model (sq_Meta q)) x of
             None \<Rightarrow> None
           | Some ((modifiedBody, modified, _), req, r) \<Rightarrow>
               (if modified
                then Some (q\<lparr>sq_Body := modifiedBody,
                             sq_Request := req\<lparr>hr_ContentLength := int (length modifiedBody)\<rparr>,
                             sq_Meta := (sq_Meta q)\<lparr>me_Model := ExtractFallbackModelName c modifiedBody (me_Model (sq_Meta q))\<rparr>\<rparr>,
                           p\<lparr>py_Router := Some r\<rparr>)
                else Some (q\<lparr>sq_Request := req\<rparr>, p\<lparr>py_Router := Some r\<rparr>))))"

definition prepare_request ::
  "codec \<Rightarrow> Proxy \<Rightarrow> client_request \<Rightarrow> proxy_inputs \<Rightarrow> ((proxy_reply + sent_request) \<times> Proxy) option" where
  "prepare_request c p cl x =
     (if cl_Method cl = ''CONNECT'' then Some (Inl (proxy_error 405 ''CONNECT not supported, use plain HTTP proxy''), p)
      else if cl_Host cl = '''' then Some (Inl (proxy_error 400 ''Bad Request''), p)
      else (case matchRoute (pi_lower x) p (cl_Host cl) of
              None \<Rightarrow> Some (Inl (proxy_error 404 (''No matching route for '' @ cl_Host cl)), p)
            | Some upstream \<Rightarrow>
                (case read_body cl of
                   None \<Rightarrow> Some (Inl (proxy_error 500 ''Failed to read body''), p)
                 | Some body \<Rightarrow>
                     (let reqMeta = extractRequestMeta c body (ur_Provider upstream);
                          reqMeta = (if me_Model reqMeta = '''' then reqMeta\<lparr>me_Model := ''unknown''\<rparr> else reqMeta)
                      in case client_pid p x of
                           None \<Rightarrow> None
                         | Some (clientPID, p) \<Rightarrow>
                             (case NewRequest c (cl_Method cl) (ur_BaseURL upstream @ cl_Path cl) body of
                                None \<Rightarrow> Some (Inl (proxy_error 500 ''Failed to create upstream request''), p)
                              | Some req \<Rightarrow>
                                  (let h = forward_headers (pi_order x) (cl_Header cl) (hr_Header req);
                                       q = \<lparr>sq_Request = req\<lparr>hr_Header := header_Set h ''Content-Type'' ''application/json''\<rparr>,
                                            sq_Body = body, sq_Provider = ur_Provider upstream, sq_Meta = reqMeta, sq_PID = clientPID\<rparr>
                                   in map_option (\<lambda>(q, p). (Inr q, p)) (intercept_sent c p q (pi_intercept x))))))))"

section \<open>Back to the client\<close>

definition proxy_logEvent :: "Proxy \<Rightarrow> TokenUsageEvent \<Rightarrow> Proxy" where
  "proxy_logEvent p ev = p\<lparr>
     py_logger := LogEvent (py_logger p) ev,
     py_TokenOutput := map_option (\<lambda>ch. try_send token_capacity ch ev) (py_TokenOutput p)\<rparr>"

definition usage_event :: "sent_request \<Rightarrow> int \<Rightarrow> bool \<Rightarrow> TokenMetrics \<Rightarrow> TokenUsageEvent" where
  "usage_event q now streaming m = \<lparr>
     tu_Timestamp = now, tu_ClientPID = sq_PID q, tu_Provider = sq_Provider q, tu_Model = me_Model (sq_Meta q),
     tu_IsStreaming = streaming, tu_Metrics = m\<rparr>"

definition log_usage :: "Proxy \<Rightarrow> sent_request \<Rightarrow> int \<Rightarrow> bool \<Rightarrow> TokenMetrics \<Rightarrow> Proxy" where
  "log_usage p q now streaming m =
     (if tm_TotalTokens m > 0 \<or> tm_PromptTokens m > 0 then proxy_logEvent p (usage_event q now streaming m) else p)"

definition response_bytes :: "upstream_response \<Rightarrow> bytes" where
  "response_bytes u = concat (ua_Reads u) @ ua_Last u"

text \<open>The interceptor after all reads, the last one with the end of the body or an error.\<close>

definition read_stream :: "codec \<Rightarrow> AIProvider \<Rightarrow> upstream_response \<Rightarrow> interceptReader" where
  "read_stream c provider u =
     ir_Read c (fold (\<lambda>b ir. ir_Read c ir b ReadMore) (ua_Reads u) (newInterceptReader provider)) (ua_Last u)
       (if ua_Failed u then ReadFailed else ReadEOF)"

definition handleStreamingResponse ::
  "codec \<Rightarrow> Proxy \<Rightarrow> sent_request \<Rightarrow> upstream_response \<Rightarrow> bool \<Rightarrow> int \<Rightarrow> bytes list \<times> Proxy" where
  "handleStreamingResponse c p q u flusher now =
     (let writes = filter (\<lambda>b. b \<noteq> []) (ua_Reads u @ [ua_Last u])
      in if \<not> flusher then (writes, p)
         else (let m = (case ir_final (read_stream c (sq_Provider q) u) of None \<Rightarrow> zero_metrics | Some m \<Rightarrow> m)
               in (writes, log_usage p q now True m)))"

definition handleNonStreamingResponse ::
  "codec \<Rightarrow> Proxy \<Rightarrow> sent_request \<Rightarrow> upstream_response \<Rightarrow> time_ns \<Rightarrow> int \<Rightarrow> bytes list \<times> Proxy" where
  "handleNonStreamingResponse c p q u t_record now =
     (if ua_Failed u then ([], p)
      else
        (let body = response_bytes u;
             (responseBody, p) =
               (case py_Router p of
                  None \<Rightarrow> (body, p)
                | Some r \<Rightarrow>
                    (let ((rewritten, changed), r) = RecordResponse c r body (sq_PID q) (me_Model (sq_Meta q)) t_record
                     in (if changed then rewritten else body, p\<lparr>py_Router := Some r\<rparr>)))
         in ([responseBody], log_usage p q now False (extractNonStreaming c (sq_Provider q) body))))"

text \<open>\<open>WriteHeader\<close> panics on a status that is not three digits.\<close>

definition handleProxy :: "codec \<Rightarrow> Proxy \<Rightarrow> client_request \<Rightarrow> proxy_inputs \<Rightarrow> (proxy_reply \<times> Proxy) option" where
  "handleProxy c p cl x =
     (case prepare_request c p cl x of
        None \<Rightarrow> None
      | Some (Inl reply, p) \<Rightarrow> Some (reply, p)
      | Some (Inr q, p) \<Rightarrow>
          (case pi_upstream x (cl_Method cl) (sq_Request q) (sq_Body q) of
             Inl e \<Rightarrow> Some (proxy_error 502 (''Upstream request failed: '' @ e), p)
           | Inr u \<Rightarrow>
               (if ua_Status u < 100 \<or> ua_Status u > 999 then None
                else
                  (let h = fold add_values (range_pairs (pi_order x) (ua_Header u)) Map.empty;
                       (writes, p) = (if me_Stream (sq_Meta q)
                         then handleStreamingResponse c p q u (pi_flusher x) (pi_now x)
                         else handleNonStreamingResponse c p q u (pi_record x) (pi_now x))
                   in Some (\<lparr>pz_Status = ua_Status u, pz_Header = h, pz_Body = writes\<rparr>, p)))))"

section \<open>Where requests go\<close>

lemma find_route_set: "find_route low host rts = Some rt \<Longrightarrow> rt \<in> set rts"
  by (induction rts) (auto simp: Let_def split: if_splits)

lemma add_values_other:
  "canonical_key (fst kvs) = fst kvs \<Longrightarrow> k \<noteq> fst kvs \<Longrightarrow> add_values kvs h k = h k"
proof -
  assume k: "canonical_key (fst kvs) = fst kvs" "k \<noteq> fst kvs"
  have "fold (\<lambda>v h. header_Add h (fst kvs) v) vs h k = h k" for vs
    by (induction vs arbitrary: h) (simp_all add: header_Add_def Let_def k)
  then show ?thesis by (simp add: add_values_def)
qed

lemma forward_headers_dropped:
  assumes "\<forall>kvs \<in> set (range_pairs ord h). canonical_key (fst kvs) = fst kvs"
    and "k = ''Proxy-Authorization'' \<or> k = ''Proxy-Connection''"
  shows "forward_headers ord h target k = target k"
proof -
  have "\<forall>kvs \<in> set l. canonical_key (fst kvs) = fst kvs \<Longrightarrow>
      fold (\<lambda>kvs h. if fst kvs = ''Proxy-Connection'' \<or> fst kvs = ''Proxy-Authorization'' then h else add_values kvs h) l t k = t k"
    for l t
  proof (induction l arbitrary: t)
    case (Cons kvs l)
    have step: "(if fst kvs = ''Proxy-Connection'' \<or> fst kvs = ''Proxy-Authorization'' then t else add_values kvs t) k = t k"
      using Cons.prems assms(2) add_values_other [of kvs k t] by auto
    show ?case using Cons.IH step Cons.prems by (simp only: fold_simps o_apply list.set ball_simps) simp
  qed simp
  with assms(1) show ?thesis unfolding forward_headers_def by blast
qed

lemma canonical_range:
  assumes "map_range ord" "finite (dom h)" "\<forall>k \<in> dom h. canonical_key k = k"
  shows "\<forall>kvs \<in> set (range_pairs ord h). canonical_key (fst kvs) = fst kvs"
  using assms(3) map_range.set_range_pairs [OF assms(1,2)] by auto

lemma RewriteRequest_request:
  assumes "RewriteRequest c fr req body = Some (body', req')"
  shows "(hr_URL req' = hr_URL req \<or> hr_URL req' = fr_endpoint fr) \<and>
    (\<forall>k. k \<noteq> ''Authorization'' \<longrightarrow> hr_Header req' k = hr_Header req k)"
  using assms by (auto simp: RewriteRequest_def header_Set_def Let_def split: option.splits if_splits)

lemma InterceptRequest_request:
  assumes "InterceptRequest c r body req pid model x = Some ((body', modified, evt), req', r')"
  shows "(hr_URL req' = hr_URL req \<or> hr_URL req' = fr_endpoint (rt_fr r)) \<and>
    (\<forall>k. k \<noteq> ''Authorization'' \<longrightarrow> k \<noteq> ''Content-Type'' \<longrightarrow> hr_Header req' k = hr_Header req k)"
proof (cases "0 < pid \<and> treated (rt_reg r) pid (ii_lookup x) \<noteq> None")
  case True
  then obtain st where st: "treated (rt_reg r) pid (ii_lookup x) = Some st" by blast
  then have l: "Lookup (rt_reg r) pid (ii_lookup x) = (Some st, rt_reg r)"
    by (auto simp: treated_def Lookup_def live_state_def split: option.splits if_splits)
  obtain b q n ty hs r1 where t: "treat_request c (r\<lparr>rt_reg := rt_reg r\<rparr>) st (ii_pool x) body req pid = Some (b, q, n, ty, hs, r1)"
    and q: "req' = q\<lparr>hr_ContentLength := int (length b)\<rparr>"
    using assms True l by (auto simp: InterceptRequest_def Let_def split: option.splits)
  have "(hr_URL q = hr_URL req \<or> hr_URL q = fr_endpoint (rt_fr r)) \<and>
    (\<forall>k. k \<noteq> ''Authorization'' \<longrightarrow> k \<noteq> ''Content-Type'' \<longrightarrow> hr_Header q k = hr_Header req k)"
    using t by (cases "rm_Remedy st")
      (auto simp: treat_request_def case_prod_unfold Let_def json_request_def header_Set_def
        split: option.splits dest!: RewriteRequest_request)
  with q show ?thesis by simp
next
  case False
  then have "req' = req"
    using assms untreated_untouched [of pid r x c body req model] by auto
  then show ?thesis by simp
qed

lemma client_pid_frame:
  "client_pid p x = Some (pid, p') \<Longrightarrow> py_Router p' = py_Router p \<and> py_routes p' = py_routes p \<and> py_logger p' = py_logger p \<and>
     py_TokenOutput p' = py_TokenOutput p"
  by (auto simp: client_pid_def split: option.splits sum.splits)

text \<open>What \<open>prepare_request\<close> does when it sends a request.\<close>

lemma prepare_request_sent:
  assumes "prepare_request c p cl x = Some (Inr q, p')"
  obtains rt body pid p1 host h meta where "matchRoute (pi_lower x) p (cl_Host cl) = Some rt" "read_body cl = Some body"
    "client_pid p x = Some (pid, p1)" "cl_Host cl \<noteq> ''''" "cl_Method cl \<noteq> ''CONNECT''"
    "h = header_Set (forward_headers (pi_order x) (cl_Header cl) Map.empty) ''Content-Type'' ''application/json''"
    "intercept_sent c p1 \<lparr>sq_Request = \<lparr>hr_URL = ur_BaseURL rt @ cl_Path cl, hr_Host = host, hr_Header = h,
       hr_ContentLength = int (length body)\<rparr>, sq_Body = body, sq_Provider = ur_Provider rt, sq_Meta = meta, sq_PID = pid\<rparr>
       (pi_intercept x) = Some (q, p')"
  using assms
  by (auto simp: prepare_request_def NewRequest_def Let_def split: option.splits if_splits)

text \<open>
  C23: The proxy is not an open one: whatever host a client asks for, a request leaves only for
  the path it asked for under the base address of a configured route, or for the router's fallback
  endpoint, and the proxy credentials of the client never leave with it.
\<close>

theorem proxy_targets:
  assumes "prepare_request c p cl x = Some (Inr q, p')" "map_range (pi_order x)"
    and "finite (dom (cl_Header cl))" "\<forall>k \<in> dom (cl_Header cl). canonical_key k = k"
  shows "((\<exists>rt \<in> set (py_routes p). hr_URL (sq_Request q) = ur_BaseURL rt @ cl_Path cl) \<or>
      (\<exists>r. py_Router p = Some r \<and> hr_URL (sq_Request q) = fr_endpoint (rt_fr r))) \<and>
    hr_Header (sq_Request q) ''Proxy-Authorization'' = None"
proof -
  from prepare_request_sent [OF assms(1)] obtain rt body pid p1 host h meta where
    rt: "matchRoute (pi_lower x) p (cl_Host cl) = Some rt" and p1: "client_pid p x = Some (pid, p1)"
    and h: "h = header_Set (forward_headers (pi_order x) (cl_Header cl) Map.empty) ''Content-Type'' ''application/json''"
    and i: "intercept_sent c p1 \<lparr>sq_Request = \<lparr>hr_URL = ur_BaseURL rt @ cl_Path cl, hr_Host = host, hr_Header = h,
       hr_ContentLength = int (length body)\<rparr>, sq_Body = body, sq_Provider = ur_Provider rt, sq_Meta = meta, sq_PID = pid\<rparr>
       (pi_intercept x) = Some (q, p')" by metis
  let ?req = "\<lparr>hr_URL = ur_BaseURL rt @ cl_Path cl, hr_Host = host, hr_Header = h, hr_ContentLength = int (length body)\<rparr>"
  have "h ''Proxy-Authorization'' = None"
    unfolding h using forward_headers_dropped [OF canonical_range [OF assms(2-4)]] by (simp add: header_Set_def)
  moreover have "rt \<in> set (py_routes p)" using rt find_route_set by (auto simp: matchRoute_def)
  moreover have "py_Router p1 = py_Router p" using client_pid_frame [OF p1] by simp
  ultimately show ?thesis
  proof (cases "py_Router p")
    case (Some r)
    with i \<open>py_Router p1 = _\<close> obtain b m e req' r' where
      "InterceptRequest c r body ?req pid (me_Model meta) (pi_intercept x) = Some ((b, m, e), req', r')"
      "hr_URL (sq_Request q) = hr_URL req'" "hr_Header (sq_Request q) = hr_Header req'"
      by (auto simp: intercept_sent_def split: option.splits prod.splits if_splits)
    with InterceptRequest_request [OF this(1)] \<open>h _ = None\<close> \<open>rt \<in> _\<close> Some show ?thesis by auto
  qed (use i in \<open>auto simp: intercept_sent_def\<close>)
qed

section \<open>The router is never asked\<close>

lemma resolver_pid_zero:
  assumes "ResolvePID f r 0 0 t_age t_set = Some (Inr pid, r')"
    and "\<And>l. pr_impl r = Some l \<Longrightarrow> \<forall>e \<in> tcp_tables f (lr_procRoot l). te_localPort e \<noteq> 0"
  shows "pid = 0"
proof -
  obtain l l' where l: "pr_impl r = Some l" "lr_procRoot l' = lr_procRoot l" "resolveFromPort f l' 0 0 = Inr pid"
    using assms(1) by (auto simp: ResolvePID_def dest!: resolver_refresh_root split: option.splits if_splits)
  show ?thesis
    by (rule resolveFromPort_no_match [OF l(3)]) (use assms(2) [OF l(1)] l(2) in \<open>auto simp: entry_matches_def\<close>)
qed

text \<open>No connection of the tables has the local port 0.\<close>

definition no_port_zero :: "Proxy \<Rightarrow> ProcFiles \<Rightarrow> bool" where
  "no_port_zero p f \<longleftrightarrow>
     (case py_ProcResolver p of
        None \<Rightarrow> True
      | Some pr \<Rightarrow> (case pr_impl pr of None \<Rightarrow> True | Some l \<Rightarrow> \<forall>e \<in> tcp_tables f (lr_procRoot l). te_localPort e \<noteq> 0))"

lemma client_pid_zero: "client_pid p x = Some (pid, p') \<Longrightarrow> no_port_zero p (pi_files x) \<Longrightarrow> pid = 0"
proof (cases "py_ProcResolver p")
  case (Some pr)
  moreover assume "client_pid p x = Some (pid, p')" "no_port_zero p (pi_files x)"
  moreover have "pid = 0" if "ResolvePID (pi_files x) pr 0 0 (pi_age x) (pi_set x) = Some (Inr pid, pr')" for pr'
    using resolver_pid_zero [OF that] Some \<open>no_port_zero p _\<close> by (simp add: no_port_zero_def split: option.splits)
  ultimately show ?thesis by (auto simp: client_pid_def split: option.splits sum.splits)
qed (simp add: client_pid_def)

lemma prepare_untouched:
  assumes "prepare_request c p cl x = Some (res, p')" "no_port_zero p (pi_files x)"
  shows "py_Router p' = py_Router p \<and>
    (\<forall>q. res = Inr q \<longrightarrow> sq_PID q = 0 \<and> sq_Body q = take body_limit (cl_Body cl) \<and>
       hr_ContentLength (sq_Request q) = int (length (sq_Body q)) \<and>
       (\<exists>rt \<in> set (py_routes p). hr_URL (sq_Request q) = ur_BaseURL rt @ cl_Path cl))"
proof (cases res)
  case (Inl reply)
  then show ?thesis
    using assms(1) client_pid_frame [of p x]
    by (auto simp: prepare_request_def Let_def split: option.splits if_splits)
next
  case (Inr q)
  with assms(1) prepare_request_sent obtain rt body pid p1 host h meta where
    rt: "matchRoute (pi_lower x) p (cl_Host cl) = Some rt" and b: "read_body cl = Some body"
    and p1: "client_pid p x = Some (pid, p1)"
    and i: "intercept_sent c p1 \<lparr>sq_Request = \<lparr>hr_URL = ur_BaseURL rt @ cl_Path cl, hr_Host = host, hr_Header = h,
       hr_ContentLength = int (length body)\<rparr>, sq_Body = body, sq_Provider = ur_Provider rt, sq_Meta = meta, sq_PID = pid\<rparr>
       (pi_intercept x) = Some (q, p')" by metis
  have pid: "pid = 0" by (rule client_pid_zero [OF p1 assms(2)])
  have "rt \<in> set (py_routes p)" using rt find_route_set by (auto simp: matchRoute_def)
  moreover have "body = take body_limit (cl_Body cl)" using b by (auto simp: read_body_def split: if_splits)
  moreover have "q = \<lparr>sq_Request = \<lparr>hr_URL = ur_BaseURL rt @ cl_Path cl, hr_Host = host, hr_Header = h,
       hr_ContentLength = int (length body)\<rparr>, sq_Body = body, sq_Provider = ur_Provider rt, sq_Meta = meta, sq_PID = pid\<rparr> \<and>
     py_Router p' = py_Router p"
    using i client_pid_frame [OF p1] pid by (auto simp: intercept_sent_def InterceptRequest_def split: option.splits)
  ultimately show ?thesis using Inr pid by auto
qed

lemma log_usage_frame [simp]: "py_Router (log_usage p q now st m) = py_Router p"
  by (simp add: log_usage_def proxy_logEvent_def)

text \<open>
  The proxy asks for the process behind local port 0, which no connection has, so every
  request belongs to process 0 and the router is bypassed: whatever remedies are active, the body
  goes out as it came in, cut at ten megabytes, to a configured route, and the router, its
  registry, counters and events are after the exchange what they were before.
\<close>

lemma proxy_bypasses_router:
  assumes "no_port_zero p (pi_files x)"
  shows "(\<forall>q p'. prepare_request c p cl x = Some (Inr q, p') \<longrightarrow>
      sq_PID q = 0 \<and> sq_Body q = take body_limit (cl_Body cl) \<and>
      (\<exists>rt \<in> set (py_routes p). hr_URL (sq_Request q) = ur_BaseURL rt @ cl_Path cl)) \<and>
    (\<forall>reply p'. handleProxy c p cl x = Some (reply, p') \<longrightarrow> py_Router p' = py_Router p)"
proof -
  have "py_Router p' = py_Router p" if "handleProxy c p cl x = Some (reply, p')" for reply p'
  proof -
    from that obtain res p1 where r: "prepare_request c p cl x = Some (res, p1)"
      by (auto simp: handleProxy_def split: option.splits)
    note u = prepare_untouched [OF r assms]
    show ?thesis
    proof (cases res)
      case (Inl e)
      then show ?thesis using that r u by (simp add: handleProxy_def)
    next
      case (Inr q)
      then have "sq_PID q = 0" using u by simp
      then have "py_Router (snd (handleNonStreamingResponse c p1 q ua t now)) = py_Router p1"
        "py_Router (snd (handleStreamingResponse c p1 q ua fl now)) = py_Router p1" for ua t now fl
        by (auto simp: handleNonStreamingResponse_def handleStreamingResponse_def RecordResponse_def Let_def split: option.splits)
      then show ?thesis
        using that r u Inr by (auto simp: handleProxy_def Let_def case_prod_unfold split: sum.splits if_splits)
    qed
  qed
  then show ?thesis using prepare_untouched [OF _ assms] by blast
qed

section \<open>Streams\<close>

lemma read_stream_final:
  assumes "\<not> ua_Failed u"
  shows "ir_final (read_stream c provider u) = Some (finalMetrics (feed_stream c provider (response_bytes u)))"
proof -
  have "stream_inv c provider (concat (ua_Reads u))
      (fold (\<lambda>b ir. ir_Read c ir b ReadMore) (ua_Reads u) (newInterceptReader provider))"
    using ir_Reads_inv [OF stream_inv_new, of c provider "ua_Reads u"] by simp
  from ir_Read_last [OF this, of "ua_Last u"] assms show ?thesis by (simp add: read_stream_def response_bytes_def)
qed

lemma concat_writes: "concat (filter (\<lambda>b. b \<noteq> []) xs) = concat xs"
  by (induction xs) auto


definition demo_sent :: sent_request where
  "demo_sent = \<lparr>sq_Request = demo_request, sq_Body = ''x'', sq_Provider = ProviderOpenAI,
     sq_Meta = zero_meta\<lparr>me_Model := ''gpt'', me_Stream := True\<rparr>, sq_PID = 0\<rparr>"

definition cut_response :: "bytes list \<Rightarrow> bytes \<Rightarrow> upstream_response" where
  "cut_response reads end_bytes = \<lparr>ua_Status = 200, ua_Header = Map.empty, ua_Reads = reads, ua_Last = end_bytes, ua_Failed = False\<rparr>"

definition plain_proxy :: Proxy where
  "plain_proxy = NewProxy '''' None None None"


lemma feed_line_end:
  assumes "X = [] \<or> last X = CHR 10" "CHR 10 \<notin> set line"
  shows "feed_stream c provider (X @ line @ [CHR 10]) = feedLine c (feed_stream c provider X) line"
proof -
  have "split_on (CHR 10) (line @ CHR 10 # []) = [line, []]" using assms(2) by (simp add: split_on_join split_on_absent)
  then show ?thesis using feed_stream_append [OF assms(1), of c provider "line @ [CHR 10]"] by (simp add: feed_lines_def)
qed

lemma feed_done_lines:
  "\<forall>l \<in> set ls. TrimSpace l \<in> {'''', ''data: [DONE]''} \<Longrightarrow> feed_lines c sa ls = sa"
proof (induction ls arbitrary: sa)
  case (Cons l ls)
  then have "feedLine c sa l = sa" by (auto simp: feedLine_def Let_def HasPrefix_def processData_def)
  with Cons show ?case by (simp add: feed_lines_def)
qed (simp add: feed_lines_def)

text \<open>
  A stream that reports its usage is not metered: a chunk with a usage object empties the
  accumulator instead of filling it, so when only blank lines and the end marker follow, the
  counts are zero and nothing is logged, whatever the stream said before.
\<close>

lemma usage_report_silences:
  assumes "\<not> ua_Failed u" "response_bytes u = before @ (line @ [CHR 10]) @ after" "before = [] \<or> last before = CHR 10"
    and "CHR 10 \<notin> set line" "TrimSpace line = ''data: '' @ data" "data \<noteq> ''[DONE]''"
    and "cd_parse c data = Some j" "decode_chunk j = (chunk, True)" "oc_usage chunk \<noteq> None"
    and "sq_Provider q \<in> {ProviderOpenAI, ProviderCustom}"
    and "\<forall>l \<in> set (butlast (split_on (CHR 10) after)). TrimSpace l \<in> {'''', ''data: [DONE]''}"
  shows "snd (handleStreamingResponse c p q u True now) = p"
proof -
  let ?f = "feed_stream c (sq_Provider q)"
  have "?f (response_bytes u) = feed_lines c (?f (before @ line @ [CHR 10])) (butlast (split_on (CHR 10) after))"
    unfolding assms(2) using feed_stream_append [of "before @ line @ [CHR 10]" c "sq_Provider q" after] by simp
  also have "\<dots> = feedLine c (?f before) line" by (simp only: feed_done_lines [OF assms(11)] feed_line_end [OF assms(3,4)])
  also have "sa_completion \<dots> = ''''"
    using feed_usage [OF assms(5,6) _ assms(7-9), of "?f before"] assms(10)
    by (simp add: feed_stream_def newSSEAccumulator_def)
  finally have "finalMetrics (?f (response_bytes u)) = zero_metrics"
    by (simp add: finalMetrics_def Let_def countTokens_def zero_metrics_def)
  then show ?thesis
    using read_stream_final [OF assms(1)] by (simp add: handleStreamingResponse_def Let_def log_usage_def zero_metrics_def)
qed

definition usage_codec :: codec where
  "usage_codec = demo_codec\<lparr>cd_parse := (\<lambda>_. Some (JObj [(''usage'', JObj [])]))\<rparr>"

text \<open>A usage report and the end marker.\<close>

section \<open>An exchange\<close>

definition demo_client :: client_request where
  "demo_client = \<lparr>cl_Method = ''POST'', cl_Host = ''API.openai.com:443'', cl_Path = ''/v1/chat'',
     cl_Header = [''Proxy-Authorization'' \<mapsto> [''secret'']], cl_Body = ''x'', cl_BodyFails = False\<rparr>"

definition demo_exchange :: proxy_inputs where
  "demo_exchange = \<lparr>pi_files = demo_files, pi_age = 5, pi_set = 6, pi_order = sorted_keys, pi_lower = (\<lambda>s. s),
     pi_intercept = demo_intercept, pi_record = 7, pi_now = 8, pi_flusher = False,
     pi_upstream = (\<lambda>_ _ _. Inr (cut_response [] ''y''))\<rparr>"

lemma demo_match: "matchRoute (\<lambda>s. s) (NewProxy [] rs ch rt) ''API.openai.com:443'' = Some (hd DefaultRoutes)"
proof -
  have "matchRoute (\<lambda>s. s) (NewProxy [] rs ch rt) ''API.openai.com:443'' =
      find_route (\<lambda>s. s) (before_colon (ToLower (\<lambda>s. s) ''API.openai.com:443'')) DefaultRoutes"
    by (simp add: matchRoute_def NewProxy_def)
  also have "\<dots> = Some (hd DefaultRoutes)" by code_simp
  finally show ?thesis .
qed

lemma demo_prepare: "\<exists>q p'. prepare_request demo_codec plain_proxy demo_client demo_exchange = Some (Inr q, p')"
proof -
  have "list_all token_byte ''POST''" by code_simp
  moreover have "read_body demo_client = Some ''x''" by (simp add: read_body_def demo_client_def body_limit_def)
  ultimately show ?thesis
    using demo_match [of None None None]
    by (simp add: prepare_request_def plain_proxy_def demo_client_def demo_exchange_def Let_def client_pid_def NewProxy_def
        NewRequest_def intercept_sent_def demo_codec_def)
qed

theorem proxy_targets_witness:
  "\<exists>q p'. prepare_request demo_codec plain_proxy demo_client demo_exchange = Some (Inr q, p') \<and>
     hr_Header (sq_Request q) ''Proxy-Authorization'' = None"
proof -
  obtain q p' where q: "prepare_request demo_codec plain_proxy demo_client demo_exchange = Some (Inr q, p')"
    using demo_prepare by blast
  have "map_range (pi_order demo_exchange)" by (simp add: demo_exchange_def sorted_keys.map_range_axioms)
  moreover have "finite (dom (cl_Header demo_client))" by (simp add: demo_client_def)
  moreover have "canonical_key ''Proxy-Authorization'' = ''Proxy-Authorization''" by code_simp
  then have "\<forall>k \<in> dom (cl_Header demo_client). canonical_key k = k" by (simp add: demo_client_def)
  ultimately show ?thesis using proxy_targets [OF q] q by blast
qed

text \<open>A process whose traffic is to be chopped, and a proxy that knows it.\<close>

definition watched_proxy :: Proxy where
  "watched_proxy = NewProxy '''' (Some (resolver_Start NewProcResolver)) None (Some chopped_router)"

end
