(* ===== verification/Procfs.thy ===== *)
theory Procfs
  imports GoStrings
begin

text \<open>
  The readers of the process file system in \<open>src/internal/proxy/procfs\<close>: CPU counters and the
  utilisation they imply (\<open>stat.go\<close>), memory (\<open>meminfo.go\<close>), and the files of one process
  (\<open>process.go\<close>). What opening a file and one read into a buffer of a given size return is an
  argument. Counters are words; a slice expression that is out of range panics, which is \<open>None\<close>.
\<close>

section \<open>Reading\<close>

datatype read_result = OpenFails gostring | ReadFails gostring | ReadData bytes

type_synonym reader = "gostring \<Rightarrow> nat \<Rightarrow> read_result"

datatype proc_error =
    OpenError gostring gostring | ReadError gostring gostring
  | MalformedCPULine bytes | NoCPULine
  | BadField gostring bytes
  | NoColon gostring bytes | EmptyValue gostring bytes | BadValue gostring bytes
  | NoMemTotal
  | NoClosingParen int | NoOpeningParen int | TooFewFields nat int
  | EmptyCmdline
  | Wrapped gostring proc_error

text \<open>A file that cannot be opened or read is reported under the name \<open>shown\<close>.\<close>

definition read_file :: "reader \<Rightarrow> gostring \<Rightarrow> gostring \<Rightarrow> nat \<Rightarrow> proc_error + bytes" where
  "read_file rd shown path n =
     (case rd path n of
        OpenFails e \<Rightarrow> Inl (OpenError shown e)
      | ReadFails e \<Rightarrow> Inl (ReadError shown e)
      | ReadData data \<Rightarrow> Inr data)"

definition parse_uint64 :: "bytes \<Rightarrow> 64 word option" where
  "parse_uint64 s = map_option of_nat (ParseUint s 10 64)"

text \<open>The closures that parse one field each and do nothing once there is an error.\<close>

definition parse_field ::
  "bytes list \<Rightarrow> nat \<Rightarrow> gostring \<Rightarrow> (64 word \<Rightarrow> 'a \<Rightarrow> 'a) \<Rightarrow> proc_error + 'a \<Rightarrow> proc_error + 'a" where
  "parse_field fields i name dest r =
     (case r of
        Inl e \<Rightarrow> Inl e
      | Inr s \<Rightarrow>
          (case parse_uint64 (fields ! i) of
             None \<Rightarrow> Inl (BadField name (fields ! i))
           | Some v \<Rightarrow> Inr (dest v s)))"

definition parse_optional ::
  "bytes list \<Rightarrow> nat \<Rightarrow> gostring \<Rightarrow> (64 word \<Rightarrow> 'a \<Rightarrow> 'a) \<Rightarrow> proc_error + 'a \<Rightarrow> proc_error + 'a" where
  "parse_optional fields i name dest r = (if length fields \<ge> Suc i then parse_field fields i name dest r else r)"

text \<open>The number after the colon of a line such as \<open>MemTotal: 16 kB\<close>.\<close>

definition colon_value :: "gostring \<Rightarrow> bytes \<Rightarrow> proc_error + 64 word" where
  "colon_value kind line =
     (let colonIdx = IndexByte line (CHR '':'')
      in if colonIdx < 0 then Inl (NoColon kind line)
         else (let parts = Fields (TrimSpace (drop (nat (colonIdx + 1)) line))
               in if length parts = 0 then Inl (EmptyValue kind line)
                  else (case parse_uint64 (parts ! 0) of None \<Rightarrow> Inl (BadValue kind (parts ! 0)) | Some v \<Rightarrow> Inr v)))"

definition parseMeminfoValue :: "bytes \<Rightarrow> proc_error + 64 word" where
  "parseMeminfoValue line = colon_value ''meminfo'' line"

definition parseStatusValue :: "bytes \<Rightarrow> proc_error + 64 word" where
  "parseStatusValue line = colon_value ''status'' line"

section \<open>CPU utilisation\<close>

record CPUStats =
  cs_User :: "64 word"
  cs_Nice :: "64 word"
  cs_System :: "64 word"
  cs_Idle :: "64 word"
  cs_IOwait :: "64 word"
  cs_IRQ :: "64 word"
  cs_SoftIRQ :: "64 word"
  cs_Steal :: "64 word"
  cs_Guest :: "64 word"

definition zero_cpu :: CPUStats where
  "zero_cpu = \<lparr>cs_User = 0, cs_Nice = 0, cs_System = 0, cs_Idle = 0, cs_IOwait = 0, cs_IRQ = 0, cs_SoftIRQ = 0,
     cs_Steal = 0, cs_Guest = 0\<rparr>"

record CPUUtilCalculator =
  cu_prev :: CPUStats
  cu_firstRead :: bool

definition NewCPUUtilCalculator :: CPUUtilCalculator where
  "NewCPUUtilCalculator = \<lparr>cu_prev = zero_cpu, cu_firstRead = True\<rparr>"

definition parseCPUStatLine :: "bytes \<Rightarrow> proc_error + CPUStats" where
  "parseCPUStatLine line =
     (let fields = Fields line
      in if length fields < 5 then Inl (MalformedCPULine line)
         else
           (let r = parse_optional fields 1 ''user'' (\<lambda>v s. s\<lparr>cs_User := v\<rparr>) (Inr zero_cpu);
                r = parse_optional fields 2 ''nice'' (\<lambda>v s. s\<lparr>cs_Nice := v\<rparr>) r;
                r = parse_optional fields 3 ''system'' (\<lambda>v s. s\<lparr>cs_System := v\<rparr>) r;
                r = parse_optional fields 4 ''idle'' (\<lambda>v s. s\<lparr>cs_Idle := v\<rparr>) r;
                r = parse_optional fields 5 ''iowait'' (\<lambda>v s. s\<lparr>cs_IOwait := v\<rparr>) r;
                r = parse_optional fields 6 ''irq'' (\<lambda>v s. s\<lparr>cs_IRQ := v\<rparr>) r;
                r = parse_optional fields 7 ''softirq'' (\<lambda>v s. s\<lparr>cs_SoftIRQ := v\<rparr>) r;
                r = parse_optional fields 8 ''steal'' (\<lambda>v s. s\<lparr>cs_Steal := v\<rparr>) r
            in parse_optional fields 9 ''guest'' (\<lambda>v s. s\<lparr>cs_Guest := v\<rparr>) r))"

definition sumCPU :: "CPUStats \<Rightarrow> 64 word" where
  "sumCPU s = cs_User s + cs_Nice s + cs_System s + cs_Idle s + cs_IOwait s + cs_IRQ s + cs_SoftIRQ s + cs_Steal s + cs_Guest s"

text \<open>A word as the \<open>float64\<close> it is converted to.\<close>

definition float_of :: "64 word \<Rightarrow> real" where
  "float_of w = real (unat w)"

definition cpu_percent :: "CPUStats \<Rightarrow> CPUStats \<Rightarrow> real" where
  "cpu_percent prev current =
     (let totalDelta = sumCPU current - sumCPU prev;
          idleDelta = cs_Idle current - cs_Idle prev;
          iowaitDelta = cs_IOwait current - cs_IOwait prev;
          util = 1 - float_of (idleDelta + iowaitDelta) / float_of totalDelta;
          util = (if util < 0 then 0 else util);
          util = (if util > 1 then 1 else util)
      in util * 100)"

definition find_cpu_line :: "bytes \<Rightarrow> bytes option" where
  "find_cpu_line buf = find (\<lambda>line. HasPrefix line ''cpu '') (split_on (CHR 10) buf)"

definition ReadAndCompute :: "reader \<Rightarrow> CPUUtilCalculator \<Rightarrow> gostring \<Rightarrow> (proc_error + real) \<times> CPUUtilCalculator" where
  "ReadAndCompute rd c procRoot =
     (case read_file rd ''/proc/stat'' (procRoot @ ''/stat'') 4096 of
        Inl e \<Rightarrow> (Inl e, c)
      | Inr buf \<Rightarrow>
          (case find_cpu_line buf of
             None \<Rightarrow> (Inl NoCPULine, c)
           | Some line \<Rightarrow>
               (case parseCPUStatLine line of
                  Inl e \<Rightarrow> (Inl (Wrapped ''parse /proc/stat cpu line'' e), c)
                | Inr current \<Rightarrow>
                    (if cu_firstRead c then (Inr 0, c\<lparr>cu_prev := current, cu_firstRead := False\<rparr>)
                     else if sumCPU current - sumCPU (cu_prev c) = 0 then (Inr 0, c)
                     else (Inr (cpu_percent (cu_prev c) current), c\<lparr>cu_prev := current\<rparr>)))))"

section \<open>Memory\<close>

record MemoryInfo =
  mf_TotalBytes :: "64 word"
  mf_AvailableBytes :: "64 word"
  mf_UsedBytes :: "64 word"

text \<open>The loop over the lines: the values found so far, or the first error.\<close>

fun meminfo_loop :: "bytes list \<Rightarrow> 64 word option \<Rightarrow> 64 word option \<Rightarrow> proc_error + 64 word option \<times> 64 word option" where
  "meminfo_loop [] tot avail = Inr (tot, avail)"
| "meminfo_loop (line # lines) tot avail =
     (let t = (if tot = None \<and> HasPrefix line ''MemTotal:'' then map_sum (Wrapped ''parse MemTotal'') Some (parseMeminfoValue line)
               else Inr tot)
      in case t of
           Inl e \<Rightarrow> Inl e
         | Inr tot \<Rightarrow>
             (let a = (if avail = None \<and> HasPrefix line ''MemAvailable:''
                       then map_sum (Wrapped ''parse MemAvailable'') Some (parseMeminfoValue line) else Inr avail)
              in case a of
                   Inl e \<Rightarrow> Inl e
                 | Inr avail \<Rightarrow>
                     (if tot \<noteq> None \<and> avail \<noteq> None then Inr (tot, avail) else meminfo_loop lines tot avail)))"

definition memory_info :: "64 word \<Rightarrow> 64 word \<Rightarrow> MemoryInfo" where
  "memory_info totalKB availKB =
     (let totalBytes = totalKB * 1024; availBytes = availKB * 1024
      in \<lparr>mf_TotalBytes = totalBytes, mf_AvailableBytes = availBytes, mf_UsedBytes = totalBytes - availBytes\<rparr>)"

definition ReadMemoryInfo :: "reader \<Rightarrow> gostring \<Rightarrow> proc_error + MemoryInfo" where
  "ReadMemoryInfo rd procRoot =
     (case read_file rd ''/proc/meminfo'' (procRoot @ ''/meminfo'') 4096 of
        Inl e \<Rightarrow> Inl e
      | Inr buf \<Rightarrow>
          (case meminfo_loop (split_on (CHR 10) buf) None None of
             Inl e \<Rightarrow> Inl e
           | Inr (None, _) \<Rightarrow> Inl NoMemTotal
           | Inr (Some totalKB, avail) \<Rightarrow>
               Inr (memory_info totalKB (case avail of None \<Rightarrow> totalKB | Some availKB \<Rightarrow> availKB))))"

section \<open>One process\<close>

record ProcMetrics =
  px_PID :: int
  px_Comm :: gostring
  px_UTime :: "64 word"
  px_STime :: "64 word"
  px_RSS :: "64 word"
  px_VSize :: "64 word"

record ProcDelta =
  pd_PrevUTime :: "64 word"
  pd_PrevSTime :: "64 word"

definition parseProcStat :: "bytes \<Rightarrow> int \<Rightarrow> (proc_error + ProcMetrics) option" where
  "parseProcStat buf pid =
     (let rparen = LastIndexByte buf (CHR '')'')
      in if rparen < 0 then Some (Inl (NoClosingParen pid))
         else
           (let lparen = IndexByte buf (CHR ''('')
            in if lparen < 0 \<or> lparen \<ge> rparen then Some (Inl (NoOpeningParen pid))
               else if rparen + 2 > int (length buf) then None
               else
                 (let comm = drop (nat (lparen + 1)) (take (nat rparen) buf);
                      fields = Fields (drop (nat (rparen + 2)) buf)
                  in if length fields < 22 then Some (Inl (TooFewFields (length fields) pid))
                     else
                       (let m = Inr \<lparr>px_PID = pid, px_Comm = comm, px_UTime = 0, px_STime = 0, px_RSS = 0, px_VSize = 0\<rparr>;
                            m = parse_field fields 11 ''utime'' (\<lambda>v m. m\<lparr>px_UTime := v\<rparr>) m;
                            m = parse_field fields 12 ''stime'' (\<lambda>v m. m\<lparr>px_STime := v\<rparr>) m;
                            m = parse_field fields 20 ''vsize'' (\<lambda>v m. m\<lparr>px_VSize := v\<rparr>) m;
                            m = parse_field fields 21 ''rss_pages'' (\<lambda>v m. m\<lparr>px_RSS := v\<rparr>) m
                        in Some (map_sum (\<lambda>e. e) (\<lambda>m. m\<lparr>px_RSS := px_RSS m * 4096\<rparr>) m)))))"

definition proc_path :: "gostring \<Rightarrow> int \<Rightarrow> gostring \<Rightarrow> gostring" where
  "proc_path procRoot pid name = procRoot @ ''/'' @ format_int pid @ ''/'' @ name"

definition ReadProcStat :: "reader \<Rightarrow> int \<Rightarrow> gostring \<Rightarrow> (proc_error + ProcMetrics) option" where
  "ReadProcStat rd pid procRoot =
     (let path = proc_path procRoot pid ''stat''
      in case read_file rd path path 8192 of Inl e \<Rightarrow> Some (Inl e) | Inr buf \<Rightarrow> parseProcStat buf pid)"

text \<open>The results keep what was found before an error.\<close>

fun status_loop :: "bytes list \<Rightarrow> 64 word \<Rightarrow> 64 word \<Rightarrow> 64 word \<times> 64 word \<times> proc_error option" where
  "status_loop [] rss vsize = (rss, vsize, None)"
| "status_loop (line # lines) rss vsize =
     (case (if HasPrefix line ''VmRSS:'' then map_sum (\<lambda>e. e) (\<lambda>v. v * 1024) (parseStatusValue line) else Inr rss) of
        Inl e \<Rightarrow> (rss, vsize, Some e)
      | Inr rss \<Rightarrow>
          (case (if HasPrefix line ''VmSize:'' then map_sum (\<lambda>e. e) (\<lambda>v. v * 1024) (parseStatusValue line) else Inr vsize) of
             Inl e \<Rightarrow> (rss, vsize, Some e)
           | Inr vsize \<Rightarrow> status_loop lines rss vsize))"

definition parseProcStatus :: "bytes \<Rightarrow> 64 word \<times> 64 word \<times> proc_error option" where
  "parseProcStatus buf = status_loop (split_on (CHR 10) buf) 0 0"

definition ReadProcStatus :: "reader \<Rightarrow> int \<Rightarrow> gostring \<Rightarrow> 64 word \<times> 64 word \<times> proc_error option" where
  "ReadProcStatus rd pid procRoot =
     (let path = proc_path procRoot pid ''status''
      in case read_file rd path path 4096 of Inl e \<Rightarrow> (0, 0, Some e) | Inr buf \<Rightarrow> parseProcStatus buf)"

text \<open>The answer of \<open>os.ReadFile\<close> is an argument; the error it gives is passed on.\<close>

definition ReadProcCmdline :: "(gostring \<Rightarrow> proc_error + bytes) \<Rightarrow> int \<Rightarrow> gostring \<Rightarrow> proc_error + gostring" where
  "ReadProcCmdline readFile pid procRoot =
     (case readFile (proc_path procRoot pid ''cmdline'') of
        Inl e \<Rightarrow> Inl e
      | Inr data \<Rightarrow>
          (let cmdline = TrimSpace (map (\<lambda>c. if c = CHR 0x00 then CHR '' '' else c) data)
           in if cmdline = '''' then Inl EmptyCmdline else Inr cmdline))"

section \<open>The line of one process\<close>

text \<open>
  The text of \<open>/proc/<pid>/stat\<close>: the identifier, the name in parentheses, and the other fields,
  each a word without spaces.
\<close>

definition stat_text :: "int \<Rightarrow> gostring \<Rightarrow> gostring list \<Rightarrow> bytes" where
  "stat_text pid comm ws = format_int pid @ '' ('' @ comm @ '') '' @ join_space ws"

definition stat_fields :: "gostring list \<Rightarrow> bool" where
  "stat_fields ws \<longleftrightarrow> length ws \<ge> 22 \<and> (\<forall>w \<in> set ws. plain_word w \<and> CHR '')'' \<notin> set w)"

definition numeral_field :: "gostring list \<Rightarrow> nat \<Rightarrow> nat \<Rightarrow> bool" where
  "numeral_field ws i n \<longleftrightarrow> ws ! i = dec_digits n \<and> n < 2 ^ 64"

lemma set_join_space: "c \<in> set (join_space ws) \<Longrightarrow> c = CHR '' '' \<or> (\<exists>w \<in> set ws. c \<in> set w)"
  by (induction ws rule: join_space.induct) auto

lemma parse_uint64_digits: "n < 2 ^ 64 \<Longrightarrow> parse_uint64 (dec_digits n) = Some (of_nat n)"
  by (simp add: parse_uint64_def ParseUint_def parse_dec_digits)

lemma parse_field_digits:
  "numeral_field ws i n \<Longrightarrow> parse_field ws i name dest (Inr s) = Inr (dest (of_nat n) s)"
  by (simp add: parse_field_def numeral_field_def parse_uint64_digits)

lemma stat_parens:
  assumes "\<forall>w \<in> set ws. CHR '')'' \<notin> set w"
  shows "LastIndexByte (stat_text pid comm ws) (CHR '')'') = int (length (format_int pid @ '' ('' @ comm))"
    and "IndexByte (stat_text pid comm ws) (CHR ''('') = int (length (format_int pid @ '' ''))"
proof -
  have r: "CHR '')'' \<notin> set ('' '' @ join_space ws)"
    using assms set_join_space [of "CHR '')''" ws] by auto
  have l: "CHR ''('' \<notin> set (format_int pid @ '' '')"
    using format_int_not_sep [of "CHR ''(''" pid] by simp
  show "LastIndexByte (stat_text pid comm ws) (CHR '')'') = int (length (format_int pid @ '' ('' @ comm))"
    using LastIndexByte_split [OF r, of "format_int pid @ '' ('' @ comm"] by (simp add: stat_text_def)
  show "IndexByte (stat_text pid comm ws) (CHR ''('') = int (length (format_int pid @ '' ''))"
    using IndexByte_split [OF l, of "comm @ '') '' @ join_space ws"] by (simp add: stat_text_def)
qed

text \<open>
  C29: The line of a process is read back exactly, whatever its name contains: spaces, parentheses
  and digits in the name never move the counters, which are those of the 12th, 13th, 21st and
  22nd field after the name, the resident pages turned into bytes modulo \<open>2 ^ 64\<close>.
\<close>

theorem stat_roundtrip:
  assumes "stat_fields ws"
    and "numeral_field ws 11 utime" "numeral_field ws 12 stime" "numeral_field ws 20 vsize" "numeral_field ws 21 rss"
  shows "parseProcStat (stat_text p comm ws) pid =
    Some (Inr \<lparr>px_PID = pid, px_Comm = comm, px_UTime = of_nat utime, px_STime = of_nat stime,
      px_RSS = of_nat rss * 4096, px_VSize = of_nat vsize\<rparr>)"
proof -
  let ?buf = "stat_text p comm ws" and ?a = "format_int p @ '' ('' @ comm"
  have i: "LastIndexByte ?buf (CHR '')'') = int (length ?a)" "IndexByte ?buf (CHR ''('') = int (length (format_int p @ '' ''))"
    using stat_parens [of ws p comm] assms(1) by (simp_all add: stat_fields_def)
  have b: "?buf = ?a @ '') '' @ join_space ws" by (simp add: stat_text_def)
  have s: "take (length ?a) ?buf = ?a" "drop (length ?a + 2) ?buf = join_space ws"
    unfolding b drop_append by simp_all
  have f: "Fields (join_space ws) = ws" using assms(1) by (simp add: stat_fields_def Fields_join_space)
  have c: "drop (nat (int (length (format_int p @ '' '')) + 1)) ?a = comm" by (simp add: nat_add_distrib)
  have d: "nat (int (length ?a) + 2) = length ?a + 2" by simp
  have "parseProcStat ?buf pid = (let m = Inr \<lparr>px_PID = pid, px_Comm = comm, px_UTime = 0, px_STime = 0, px_RSS = 0, px_VSize = 0\<rparr>;
          m = parse_field ws 11 ''utime'' (\<lambda>v m. m\<lparr>px_UTime := v\<rparr>) m;
          m = parse_field ws 12 ''stime'' (\<lambda>v m. m\<lparr>px_STime := v\<rparr>) m;
          m = parse_field ws 20 ''vsize'' (\<lambda>v m. m\<lparr>px_VSize := v\<rparr>) m;
          m = parse_field ws 21 ''rss_pages'' (\<lambda>v m. m\<lparr>px_RSS := v\<rparr>) m
      in Some (map_sum (\<lambda>e. e) (\<lambda>m. m\<lparr>px_RSS := px_RSS m * 4096\<rparr>) m))"
    unfolding parseProcStat_def i Let_def d s f nat_int c
    using assms(1) by (simp add: stat_fields_def stat_text_def)
  then show ?thesis by (simp add: Let_def parse_field_digits [OF assms(2)] parse_field_digits [OF assms(3)]
        parse_field_digits [OF assms(4)] parse_field_digits [OF assms(5)])
qed

text \<open>A name made of parentheses and spaces.\<close>

theorem stat_roundtrip_witness:
  "\<exists>m. parseProcStat (stat_text 7 ''a) (b'' (replicate 22 ''0'')) 7 = Some (Inr m) \<and> px_Comm m = ''a) (b''"
proof -
  have z: "dec_digits 0 = ''0''" by (subst dec_digits.simps) (simp, code_simp)
  have w: "stat_fields (replicate 22 ''0'')"
    by (simp add: stat_fields_def plain_word_def ascii_space_def)
  have n: "numeral_field (replicate 22 ''0'') i 0" if "i < 22" for i
    using that by (simp add: numeral_field_def z)
  show ?thesis
    using stat_roundtrip [OF w n n n n, of 7 "''a) (b''" 7] by simp
qed

text \<open>
  Parsing the line of a process panics exactly when the last byte is a closing parenthesis
  that an opening one precedes: then there is nothing behind the name to slice.
\<close>

lemma stat_panics_iff:
  "parseProcStat buf pid = None \<longleftrightarrow> buf \<noteq> [] \<and> last buf = CHR '')'' \<and> CHR ''('' \<in> set buf"
proof (cases "CHR '')'' \<in> set buf")
  case True
  obtain xs ys where b: "buf = xs @ CHR '')'' # ys" "CHR '')'' \<notin> set ys" "LastIndexByte buf (CHR '')'') = int (length xs)"
    using split_at_last_byte [OF True] by metis
  have last: "last buf = CHR '')'' \<longleftrightarrow> ys = []" using b by (cases ys rule: rev_cases) auto
  have l: "CHR ''('' \<in> set buf" if "ys \<noteq> [] \<or> CHR ''('' \<in> set xs" "IndexByte buf (CHR ''('') \<ge> 0"
    using that by (simp add: IndexByte_nonneg)
  have i: "0 \<le> IndexByte buf (CHR ''('') \<and> IndexByte buf (CHR ''('') < int (length xs) \<longleftrightarrow> CHR ''('' \<in> set xs"
  proof
    assume "CHR ''('' \<in> set xs"
    then obtain us vs where "xs = us @ CHR ''('' # vs" "CHR ''('' \<notin> set us" by (meson split_list_first)
    then show "0 \<le> IndexByte buf (CHR ''('') \<and> IndexByte buf (CHR ''('') < int (length xs)"
      using IndexByte_split [of "CHR ''(''" us "vs @ CHR '')'' # ys"] b(1) by simp
  next
    assume r: "0 \<le> IndexByte buf (CHR ''('') \<and> IndexByte buf (CHR ''('') < int (length xs)"
    then have "CHR ''('' \<in> set buf" by (simp add: IndexByte_nonneg)
    then obtain us vs where "buf = us @ CHR ''('' # vs" "CHR ''('' \<notin> set us" by (meson split_list_first)
    moreover from this have "length us < length xs" using IndexByte_split [of "CHR ''(''" us vs] r by simp
    ultimately show "CHR ''('' \<in> set xs"
      using b(1) by (metis (no_types, lifting) append_eq_append_conv_if in_set_conv_nth nth_append nth_append_length)
  qed
  have "parseProcStat buf pid = None \<longleftrightarrow> CHR ''('' \<in> set xs \<and> ys = []"
    unfolding parseProcStat_def Let_def b(3) using i b(1) by (cases ys) auto
  then show ?thesis using last b(1) by auto
next
  case False
  then have "LastIndexByte buf (CHR '')'') < 0" by (simp add: LastIndexByte_neg)
  moreover have "buf = [] \<or> last buf \<noteq> CHR '')''" using False by (metis last_in_set)
  ultimately show ?thesis by (auto simp: parseProcStat_def Let_def)
qed

section \<open>Utilisation\<close>

definition cpu_total :: "CPUStats \<Rightarrow> nat" where
  "cpu_total s = unat (cs_User s) + unat (cs_Nice s) + unat (cs_System s) + unat (cs_Idle s) + unat (cs_IOwait s) +
     unat (cs_IRQ s) + unat (cs_SoftIRQ s) + unat (cs_Steal s) + unat (cs_Guest s)"

definition cpu_idle :: "CPUStats \<Rightarrow> nat" where
  "cpu_idle s = unat (cs_Idle s) + unat (cs_IOwait s)"

text \<open>Counters that have not decreased and whose sum is a 64-bit number.\<close>

definition cpu_grows :: "CPUStats \<Rightarrow> CPUStats \<Rightarrow> bool" where
  "cpu_grows a b \<longleftrightarrow> cs_User a \<le> cs_User b \<and> cs_Nice a \<le> cs_Nice b \<and> cs_System a \<le> cs_System b \<and> cs_Idle a \<le> cs_Idle b \<and>
     cs_IOwait a \<le> cs_IOwait b \<and> cs_IRQ a \<le> cs_IRQ b \<and> cs_SoftIRQ a \<le> cs_SoftIRQ b \<and> cs_Steal a \<le> cs_Steal b \<and>
     cs_Guest a \<le> cs_Guest b \<and> cpu_total b < 2 ^ 64"

lemma sumCPU_total: "sumCPU s = of_nat (cpu_total s)"
  by (simp add: sumCPU_def cpu_total_def)

lemma unat_of_nat_64: "n < 2 ^ 64 \<Longrightarrow> unat (of_nat n :: 64 word) = n"
  by (simp add: unat_of_nat take_bit_eq_mod)

lemma cpu_grows_total:
  assumes "cpu_grows a b"
  shows "cpu_total a \<le> cpu_total b" "cpu_idle a \<le> cpu_idle b" "cpu_idle b - cpu_idle a \<le> cpu_total b - cpu_total a"
  using assms unfolding cpu_grows_def cpu_total_def cpu_idle_def word_le_nat_alt by linarith+

lemma cpu_deltas:
  assumes "cpu_grows a b"
  shows "float_of (sumCPU b - sumCPU a) = real (cpu_total b) - real (cpu_total a)"
    and "float_of (cs_Idle b - cs_Idle a + (cs_IOwait b - cs_IOwait a)) = real (cpu_idle b) - real (cpu_idle a)"
proof -
  have t: "cpu_total b < 2 ^ 64" using assms by (simp add: cpu_grows_def)
  note g = cpu_grows_total [OF assms]
  have "sumCPU b - sumCPU a = of_nat (cpu_total b - cpu_total a)"
    by (simp add: sumCPU_total of_nat_diff [OF g(1)])
  with unat_of_nat_64 [of "cpu_total b - cpu_total a"] t have "unat (sumCPU b - sumCPU a) = cpu_total b - cpu_total a" by simp
  then show "float_of (sumCPU b - sumCPU a) = real (cpu_total b) - real (cpu_total a)"
    unfolding float_of_def by (simp only: of_nat_diff [OF g(1)])
  have w: "cs_Idle s + cs_IOwait s = of_nat (cpu_idle s)" for s by (simp add: cpu_idle_def)
  have "cs_Idle b - cs_Idle a + (cs_IOwait b - cs_IOwait a) = (cs_Idle b + cs_IOwait b) - (cs_Idle a + cs_IOwait a)"
    by simp
  also have "\<dots> = of_nat (cpu_idle b - cpu_idle a)"
    by (simp add: w of_nat_diff [OF g(2)])
  finally have d: "cs_Idle b - cs_Idle a + (cs_IOwait b - cs_IOwait a) = of_nat (cpu_idle b - cpu_idle a)" .
  have "cpu_idle b - cpu_idle a < 2 ^ 64" using t g by linarith
  then have "unat (cs_Idle b - cs_Idle a + (cs_IOwait b - cs_IOwait a)) = cpu_idle b - cpu_idle a"
    unfolding d by (rule unat_of_nat_64)
  then show "float_of (cs_Idle b - cs_Idle a + (cs_IOwait b - cs_IOwait a)) = real (cpu_idle b) - real (cpu_idle a)"
    unfolding float_of_def by (simp only: of_nat_diff [OF g(2)])
qed

lemma cpu_percent_bounds: "0 \<le> cpu_percent a b \<and> cpu_percent a b \<le> 100"
  by (simp add: cpu_percent_def Let_def)

lemma cpu_percent_exact:
  assumes "cpu_grows a b" "cpu_total a < cpu_total b"
  shows "cpu_percent a b = 100 * (1 - (real (cpu_idle b) - real (cpu_idle a)) / (real (cpu_total b) - real (cpu_total a)))"
proof -
  let ?i = "real (cpu_idle b) - real (cpu_idle a)" and ?t = "real (cpu_total b) - real (cpu_total a)"
  have "0 \<le> ?i" "?i \<le> ?t" "0 < ?t" using cpu_grows_total [OF assms(1)] assms(2) by linarith+
  then have "0 \<le> ?i / ?t" "?i / ?t \<le> 1" by simp_all
  then show ?thesis by (simp add: cpu_percent_def Let_def cpu_deltas [OF assms(1)])
qed


definition cpu_file :: "bytes \<Rightarrow> reader" where
  "cpu_file text = (\<lambda>_ _. ReadData text)"


end
