(* ===== verification/Devices.thy ===== *)
theory Devices
  imports Model GoStrings
begin

text \<open>
  Where the collector's samples of processes and GPUs come from: the eBPF tracker of
  \<open>src/internal/proxy/ebpf\<close> (\<open>tracker.go\<close>, \<open>tracker_linux.go\<close>) and the GPU sampler of
  \<open>src/internal/proxy/gpu\<close> (\<open>sampler.go\<close>, \<open>nvml_linux.go\<close>). Loading the kernel program and the
  NVML library are outside the repository, so what their calls return is an argument: the
  records of the ring buffer, and for each device handle its answers.
\<close>

section \<open>Process events\<close>

definition EventExec :: "8 word" where "EventExec = 1"
definition EventExit :: "8 word" where "EventExit = 2"

record ProcessEvent =
  ev_PID :: "32 word"
  ev_PPID :: "32 word"
  ev_ExitCode :: "32 word"
  ev_Comm :: bytes
  ev_EventType :: "8 word"

datatype ByteOrder = LittleEndian | BigEndian

fun Uint32 :: "ByteOrder \<Rightarrow> bytes \<Rightarrow> 32 word" where
  "Uint32 LittleEndian bs = of_nat (foldr (\<lambda>b n. of_char b + 256 * n) (take 4 bs) 0)"
| "Uint32 BigEndian bs = of_nat (foldl (\<lambda>n b. of_char b + 256 * n) 0 (take 4 bs))"

text \<open>
  One record of the ring buffer and the capacity of its slice: nothing when it is too short, and
  a panic when it has no byte 24 or its slice does not reach to byte 28.
\<close>

definition decode_event :: "ByteOrder \<Rightarrow> bytes \<Rightarrow> nat \<Rightarrow> ProcessEvent option option" where
  "decode_event order raw cap =
     (if length raw < 24 then Some None
      else if length raw \<le> 24 \<or> cap < 28 then None
      else Some (Some \<lparr>
        ev_PID = Uint32 order (take 4 raw),
        ev_PPID = Uint32 order (take 4 (drop 4 raw)),
        ev_ExitCode = Uint32 order (take 4 (drop 8 raw)),
        ev_Comm = take 16 (drop 12 raw @ replicate 16 (CHR 0x00)),
        ev_EventType = of_nat (of_char (raw ! 24))\<rparr>))"

text \<open>The tracker: the channel of the Linux implementation and whether it fell back to polling.\<close>

record Tracker =
  tk_events :: "ProcessEvent list"
  tk_impl :: bool
  tk_fallbackMode :: bool

definition NewTracker :: "bool \<Rightarrow> Tracker" where
  "NewTracker platform = \<lparr>tk_events = [], tk_impl = platform, tk_fallbackMode = \<not> platform\<rparr>"

text \<open>The argument says whether attaching to the kernel succeeds.\<close>

definition tracker_Start :: "Tracker \<Rightarrow> bool \<Rightarrow> Tracker" where
  "tracker_Start t attached =
     (if tk_fallbackMode t then t else if \<not> attached then t\<lparr>tk_fallbackMode := True\<rparr> else t)"

definition tracker_capacity :: nat where
  "tracker_capacity = 1024"

definition poll_record :: "ByteOrder \<Rightarrow> Tracker \<Rightarrow> bytes \<Rightarrow> nat \<Rightarrow> Tracker option" where
  "poll_record order t raw cap =
     (case decode_event order raw cap of
        None \<Rightarrow> None
      | Some None \<Rightarrow> Some t
      | Some (Some ev) \<Rightarrow> Some (t\<lparr>tk_events := try_send tracker_capacity (tk_events t) ev\<rparr>))"

text \<open>Receiving until the channel is empty, at most \<open>maxEvents\<close> times.\<close>

fun drain_events :: "nat \<Rightarrow> ProcessEvent list \<Rightarrow> ProcessEvent list \<times> ProcessEvent list" where
  "drain_events 0 ch = ([], ch)"
| "drain_events (Suc n) [] = ([], [])"
| "drain_events (Suc n) (ev # ch) = (let (events, ch) = drain_events n ch in (ev # events, ch))"

definition tracker_Drain :: "Tracker \<Rightarrow> int \<Rightarrow> ProcessEvent list \<times> Tracker" where
  "tracker_Drain t maxEvents =
     (if tk_fallbackMode t then ([], t)
      else (let (events, ch) = drain_events (nat maxEvents) (tk_events t) in (events, t\<lparr>tk_events := ch\<rparr>)))"

definition tracker_Fallback :: "Tracker \<Rightarrow> bool" where
  "tracker_Fallback t = tk_fallbackMode t"

definition tracker_Uptime :: "Tracker \<Rightarrow> time_ns \<Rightarrow> time_ns \<Rightarrow> duration" where
  "tracker_Uptime t now1 now2 = (if tk_fallbackMode t then 0 else time_since now2 (Some (now1 - minute_ns)))"

lemma drain_events_take: "drain_events n ch = (take n ch, drop n ch)"
  by (induction n ch rule: drain_events.induct) simp_all

section \<open>The GPU sampler\<close>

record GPUSampler =
  gs_impl :: bool
  gs_devices :: "GPUDeviceMetrics list"
  gs_avail :: bool

definition NewGPUSampler :: "bool \<Rightarrow> GPUSampler" where
  "NewGPUSampler platform = \<lparr>gs_impl = platform, gs_devices = [], gs_avail = platform\<rparr>"

text \<open>The argument is the error of the initialisation, if any.\<close>

definition sampler_Run :: "GPUSampler \<Rightarrow> gostring option \<Rightarrow> gostring option \<times> GPUSampler" where
  "sampler_Run s initErr =
     (if \<not> gs_avail s \<or> \<not> gs_impl s then (Some ''GPU monitoring not available'', s)
      else (case initErr of
              Some err \<Rightarrow> (Some (''gpu: init: '' @ err), s\<lparr>gs_avail := False\<rparr>)
            | None \<Rightarrow> (None, s)))"

definition Sample :: "GPUSampler \<Rightarrow> (gostring + GPUDeviceMetrics list) \<Rightarrow> GPUSampler" where
  "Sample s answer =
     (if \<not> gs_avail s \<or> \<not> gs_impl s then s
      else (case answer of Inl _ \<Rightarrow> s | Inr devices \<Rightarrow> s\<lparr>gs_devices := devices\<rparr>))"

definition sampler_Available :: "GPUSampler \<Rightarrow> bool" where
  "sampler_Available s = gs_avail s"

definition LastGPUDevices :: "GPUSampler \<Rightarrow> GPUDeviceMetrics list" where
  "LastGPUDevices s = gs_devices s"

section \<open>Devices of NVML\<close>

text \<open>What a device handle answers; \<open>None\<close> is a status other than success.\<close>

record nvml_answers =
  nv_GetUtilizationRates :: "(32 word \<times> 32 word) option"
  nv_GetMemoryInfo :: "(64 word \<times> 64 word) option"
  nv_GetPowerUsage :: "32 word option"
  nv_GetTemperature :: "32 word option"
  nv_GraphicsClock :: "32 word option"
  nv_MemClock :: "32 word option"
  nv_GetComputeRunningProcesses :: "(32 word \<times> 64 word) list option"
  nv_GetGraphicsRunningProcesses :: "(32 word \<times> 64 word) list option"

record 'h nvmlMigInstance =
  mg_index :: int
  mg_handle :: 'h
  mg_gpuInstanceID :: "32 word"
  mg_computeInstanceID :: "32 word"

record 'h nvmlDevice =
  nd_index :: int
  nd_handle :: 'h
  nd_uuid :: gostring
  nd_model :: gostring
  nd_pciBusID :: gostring
  nd_hasMIG :: bool
  nd_migInstances :: "'h nvmlMigInstance list"

text \<open>A GPU instance: its device handle and number, and the numbers of its compute instances.\<close>

type_synonym 'h gpu_instance = "('h \<times> 32 word \<times> 32 word option list option) option"

text \<open>What enumerating a device answers at initialisation.\<close>

record 'h nvml_device_info =
  di_handle :: 'h
  di_GetUUID :: "gostring option"
  di_GetName :: "gostring option"
  di_PciBusId :: "bytes option"
  di_GetMigMode :: "32 word option"
  di_GpuInstances :: "'h gpu_instance list option"

fun trimNull :: "gostring \<Rightarrow> gostring" where
  "trimNull [] = []"
| "trimNull (c # s) = (if c = CHR 0x00 then [] else c # trimNull s)"

text \<open>The instances of one GPU instance; they are numbered when all are known.\<close>

definition instance_migs :: "'h gpu_instance \<Rightarrow> 'h nvmlMigInstance list" where
  "instance_migs gi =
     (case gi of
        None \<Rightarrow> []
      | Some (h, i, computeInstances) \<Rightarrow>
          (if computeInstances = None \<or> computeInstances = Some []
           then [\<lparr>mg_index = 0, mg_handle = h, mg_gpuInstanceID = i, mg_computeInstanceID = 0\<rparr>]
           else (case computeInstances of
                   None \<Rightarrow> []
                 | Some infos \<Rightarrow>
                     concat (map (\<lambda>ci. case ci of None \<Rightarrow> []
                       | Some c \<Rightarrow> [\<lparr>mg_index = 0, mg_handle = h, mg_gpuInstanceID = i, mg_computeInstanceID = c\<rparr>]) infos))))"

definition enumerateMIGInstances :: "'h nvml_device_info \<Rightarrow> 'h nvmlMigInstance list" where
  "enumerateMIGInstances d =
     (case di_GetMigMode d of
        None \<Rightarrow> []
      | Some migMode \<Rightarrow>
          (if migMode = 0 then []
           else (case di_GpuInstances d of None \<Rightarrow> [] | Some gis \<Rightarrow>
                    map (\<lambda>(i, mi). mi\<lparr>mg_index := int i\<rparr>) (enumerate 0 (concat (map instance_migs gis))))))"

definition init_device :: "nat \<Rightarrow> 'h nvml_device_info \<Rightarrow> 'h nvmlDevice" where
  "init_device i d = \<lparr>
     nd_index = int i,
     nd_handle = di_handle d,
     nd_uuid = (case di_GetUUID d of None \<Rightarrow> '''' | Some uuid \<Rightarrow> uuid),
     nd_model = (case di_GetName d of None \<Rightarrow> '''' | Some name \<Rightarrow> name),
     nd_pciBusID = (case di_PciBusId d of None \<Rightarrow> '''' | Some bus \<Rightarrow> trimNull bus),
     nd_hasMIG = length (enumerateMIGInstances d) > 0,
     nd_migInstances = enumerateMIGInstances d\<rparr>"

text \<open>The devices that \<open>init\<close> keeps: those whose handle could be had.\<close>

definition init_devices :: "'h nvml_device_info option list \<Rightarrow> 'h nvmlDevice list" where
  "init_devices ds = concat (map (\<lambda>(i, d). case d of None \<Rightarrow> [] | Some d \<Rightarrow> [init_device i d]) (enumerate 0 ds))"

type_synonym seen_map = "32 word \<rightharpoonup> 64 word"

definition see_process :: "32 word \<times> 64 word \<Rightarrow> seen_map \<Rightarrow> seen_map" where
  "see_process p seen =
     (let (pid, used) = p
      in if pid = 0 then seen
         else (case seen pid of
                 Some existing \<Rightarrow> (if used > existing then seen(pid \<mapsto> used) else seen)
               | None \<Rightarrow> seen(pid \<mapsto> used)))"

definition see_processes :: "(32 word \<times> 64 word) list option \<Rightarrow> seen_map \<Rightarrow> seen_map" where
  "see_processes answer seen = (case answer of None \<Rightarrow> seen | Some procs \<Rightarrow> fold see_process procs seen)"

definition seen_of :: "nvml_answers \<Rightarrow> seen_map" where
  "seen_of a = see_processes (nv_GetGraphicsRunningProcesses a) (see_processes (nv_GetComputeRunningProcesses a) Map.empty)"

definition collectProcesses :: "(seen_map \<Rightarrow> 32 word list) \<Rightarrow> nvml_answers \<Rightarrow> GPUProcessMetrics list" where
  "collectProcesses ord a = map (\<lambda>(pid, vram). \<lparr>gp_PID = pid, gp_VRAMUsedBytes = vram\<rparr>) (range_pairs ord (seen_of a))"

text \<open>\<open>math.Round\<close>: to the nearest integer, halves away from zero.\<close>

definition math_Round :: "real \<Rightarrow> real" where
  "math_Round x = (if x \<ge> 0 then real_of_int \<lfloor>x + 1 / 2\<rfloor> else - real_of_int \<lfloor>1 / 2 - x\<rfloor>)"

definition collectDeviceMetrics ::
  "(seen_map \<Rightarrow> 32 word list) \<Rightarrow> ('h \<Rightarrow> nvml_answers) \<Rightarrow> 'h \<Rightarrow> nat \<Rightarrow> 'h nvmlDevice \<Rightarrow> GPUDeviceMetrics" where
  "collectDeviceMetrics ord ask h globalIndex nd =
     (let a = ask h;
          sm = (case nv_GetUtilizationRates a of None \<Rightarrow> 0 | Some (gpu, _) \<Rightarrow> real (unat gpu));
          mu = (case nv_GetUtilizationRates a of None \<Rightarrow> 0 | Some (_, mem) \<Rightarrow> real (unat mem))
      in \<lparr>
        gd_Index = of_nat globalIndex,
        gd_UUID = nd_uuid nd,
        gd_Model = nd_model nd,
        gd_PCIBusID = nd_pciBusID nd,
        gd_MigDeviceGUID = '''',
        gd_SMUtilizationPct = sm,
        gd_MemoryUtilizationPct =
          (case nv_GetMemoryInfo a of
             None \<Rightarrow> mu
           | Some (tot, used) \<Rightarrow> if tot > 0 then math_Round (real (unat used) / real (unat tot) * 1000) / 10 else mu),
        gd_MemoryTotalBytes = (case nv_GetMemoryInfo a of None \<Rightarrow> 0 | Some (tot, _) \<Rightarrow> tot),
        gd_MemoryUsedBytes = (case nv_GetMemoryInfo a of None \<Rightarrow> 0 | Some (_, used) \<Rightarrow> used),
        gd_PowerDrawWatts = (case nv_GetPowerUsage a of None \<Rightarrow> 0 | Some mw \<Rightarrow> real (unat mw) / 1000),
        gd_TemperatureCelsius = (case nv_GetTemperature a of None \<Rightarrow> 0 | Some temp \<Rightarrow> temp),
        gd_GraphicsClockMHz = (case nv_GraphicsClock a of None \<Rightarrow> 0 | Some clock \<Rightarrow> clock),
        gd_MemoryClockMHz = (case nv_MemClock a of None \<Rightarrow> 0 | Some clock \<Rightarrow> clock),
        gd_RunningProcesses = collectProcesses ord a\<rparr>)"

definition mig_guid :: "gostring \<Rightarrow> 'h nvmlMigInstance \<Rightarrow> gostring" where
  "mig_guid uuid mi = ''MIG-'' @ uuid @ ''/'' @ format_int (uint (mg_gpuInstanceID mi)) @ ''/'' @
     format_int (uint (mg_computeInstanceID mi))"

text \<open>The entries of one device before they are numbered: its MIG instances, or itself.\<close>

definition device_units :: "'h nvmlDevice \<Rightarrow> ('h \<times> gostring \<times> 'h nvmlDevice) list" where
  "device_units nd =
     (if nd_hasMIG nd \<and> length (nd_migInstances nd) > 0
      then map (\<lambda>mi. (mg_handle mi, mig_guid (nd_uuid nd) mi, nd)) (nd_migInstances nd)
      else [(nd_handle nd, '''', nd)])"

definition sample_devices ::
  "(seen_map \<Rightarrow> 32 word list) \<Rightarrow> ('h \<Rightarrow> nvml_answers) \<Rightarrow> 'h nvmlDevice list \<Rightarrow> GPUDeviceMetrics list" where
  "sample_devices ord ask devices =
     map (\<lambda>(i, h, guid, nd). (collectDeviceMetrics ord ask h i nd)\<lparr>gd_MigDeviceGUID := guid\<rparr>)
       (enumerate 0 (concat (map device_units devices)))"

text \<open>The platform sampler, which answers only once it is initialised.\<close>

definition platform_sample ::
  "bool \<Rightarrow> (seen_map \<Rightarrow> 32 word list) \<Rightarrow> ('h \<Rightarrow> nvml_answers) \<Rightarrow> 'h nvmlDevice list \<Rightarrow> gostring + GPUDeviceMetrics list" where
  "platform_sample initd ord ask devices =
     (if \<not> initd then Inl ''NVML not initialised'' else Inr (sample_devices ord ask devices))"

section \<open>What the events say\<close>

text \<open>
  The record that \<open>tracker.bpf.c\<close> submits: three 32-bit numbers, a name of 16 bytes, the type of
  the event, and padding to a multiple of four bytes.
\<close>

definition word_bytes :: "ByteOrder \<Rightarrow> 32 word \<Rightarrow> bytes" where
  "word_bytes order w =
     (let bs = map (\<lambda>i. char_of (unat w div 256 ^ i mod 256)) [0, 1, 2, 3]
      in case order of LittleEndian \<Rightarrow> bs | BigEndian \<Rightarrow> rev bs)"

definition event_bytes :: "ByteOrder \<Rightarrow> 32 word \<Rightarrow> 32 word \<Rightarrow> 32 word \<Rightarrow> bytes \<Rightarrow> 8 word \<Rightarrow> bytes" where
  "event_bytes order pid ppid code comm ty =
     word_bytes order pid @ word_bytes order ppid @ word_bytes order code @ comm @ [char_of (unat ty)] @ replicate 3 (CHR 0x00)"

lemma length_word_bytes [simp]: "length (word_bytes order w) = 4"
  by (cases order) (simp_all add: word_bytes_def)

lemma base_256: "(n::nat) < 256 ^ 4 \<Longrightarrow>
  n mod 256 + 256 * (n div 256 mod 256 + 256 * (n div 256 ^ 2 mod 256 + 256 * (n div 256 ^ 3 mod 256))) = n"
proof -
  assume "n < 256 ^ 4"
  then have "n div 16777216 mod 256 = n div 16777216" by simp
  moreover have "n div 65536 = n div 256 div 256" "n div 16777216 = n div 256 div 256 div 256"
    by (simp_all add: div_mult2_eq [symmetric])
  moreover have "n = 256 * (n div 256) + n mod 256"
    "n div 256 = 256 * (n div 256 div 256) + n div 256 mod 256"
    "n div 256 div 256 = 256 * (n div 256 div 256 div 256) + n div 256 div 256 mod 256"
    by simp_all
  ultimately show ?thesis by (simp only: power2_eq_square power3_eq_cube) simp
qed

definition low_bytes :: "nat \<Rightarrow> bytes" where
  "low_bytes n = map (\<lambda>i. char_of (n div 256 ^ i mod 256)) [0, 1, 2, 3]"

lemma low_bytes_value: "n < 256 ^ 4 \<Longrightarrow> foldr (\<lambda>b k. of_char b + 256 * k) (low_bytes n) 0 = n"
proof -
  assume n: "n < 256 ^ 4"
  have "foldr (\<lambda>b k. of_char b + 256 * k) (low_bytes n) 0 =
      n mod 256 + 256 * (n div 256 mod 256 + 256 * (n div 256 ^ 2 mod 256 + 256 * (n div 256 ^ 3 mod 256)))"
    by (simp add: low_bytes_def)
  then show ?thesis using base_256 [OF n] by (rule trans)
qed

lemma Uint32_word_bytes: "Uint32 order (word_bytes order w) = w"
proof -
  have b: "unat w < 256 ^ 4" using unsigned_less [of w] by simp
  have w: "word_bytes order w = (case order of LittleEndian \<Rightarrow> low_bytes (unat w) | BigEndian \<Rightarrow> rev (low_bytes (unat w)))"
    by (simp only: word_bytes_def low_bytes_def Let_def)
  have u: "(of_nat (unat w) :: 32 word) = w" by simp
  have t: "take 4 (low_bytes n) = low_bytes n" "take 4 (rev (low_bytes n)) = rev (low_bytes n)" for n
    by (simp_all add: low_bytes_def)
  show ?thesis
    unfolding w by (cases order) (simp_all only: ByteOrder.case Uint32.simps t foldl_conv_foldr rev_rev_ident low_bytes_value [OF b]
        u)
qed

text \<open>
  A record of the kernel program is read back but for the type of the event: whatever it
  was, the decoded type is the thirteenth byte of the process name, so for every name of up to
  twelve characters it is neither an exec nor an exit.
\<close>

lemma event_type_is_name_byte:
  assumes "length comm = 16" "32 \<le> cap"
  shows "\<exists>ev. decode_event order (event_bytes order pid ppid code comm ty) cap = Some (Some ev) \<and>
    ev_PID ev = pid \<and> ev_PPID ev = ppid \<and> ev_ExitCode ev = code \<and> ev_Comm ev = comm \<and>
    ev_EventType ev = of_nat (of_char (comm ! 12)) \<and>
    (comm ! 12 = CHR 0x00 \<longrightarrow> ev_EventType ev \<noteq> EventExec \<and> ev_EventType ev \<noteq> EventExit)"
proof -
  let ?raw = "event_bytes order pid ppid code comm ty"
  have l: "length ?raw = 32" by (simp add: event_bytes_def assms(1))
  have parts: "take 4 ?raw = word_bytes order pid" "take 4 (drop 4 ?raw) = word_bytes order ppid"
    "take 4 (drop 8 ?raw) = word_bytes order code" "take 16 (drop 12 ?raw) = comm"
    by (simp_all add: event_bytes_def assms(1))
  have t: "?raw ! 24 = comm ! 12" by (simp add: event_bytes_def nth_append assms(1))
  have c: "take 16 (drop 12 ?raw @ replicate 16 (CHR 0x00)) = comm" using parts(4) l by simp
  show ?thesis
    unfolding decode_event_def parts t c using l assms(2)
    by (simp add: Uint32_word_bytes EventExec_def EventExit_def)
qed

section \<open>Processes on a device\<close>

text \<open>What the two lists of a device say of a process, in order.\<close>

definition usages :: "nvml_answers \<Rightarrow> 32 word \<Rightarrow> 64 word list" where
  "usages a pid = map snd (filter (\<lambda>p. fst p = pid)
     ((case nv_GetComputeRunningProcesses a of None \<Rightarrow> [] | Some ps \<Rightarrow> ps) @
      (case nv_GetGraphicsRunningProcesses a of None \<Rightarrow> [] | Some ps \<Rightarrow> ps)))"

definition largest :: "64 word list \<Rightarrow> 64 word option \<Rightarrow> 64 word option" where
  "largest ws old = fold (\<lambda>w acc. case acc of None \<Rightarrow> Some w | Some m \<Rightarrow> Some (max m w)) ws old"

lemma see_process_fold:
  "fold see_process procs seen pid =
    (if pid = 0 then seen 0 else largest (map snd (filter (\<lambda>p. fst p = pid) procs)) (seen pid))"
  by (induction procs arbitrary: seen)
    (auto simp: see_process_def largest_def max_def Let_def split: option.splits prod.splits)

lemma seen_of_largest: "pid \<noteq> 0 \<Longrightarrow> seen_of a pid = largest (usages a pid) None"
  by (simp add: seen_of_def see_processes_def see_process_fold usages_def largest_def split: option.splits)

lemma seen_of_zero: "seen_of a 0 = None"
  by (simp add: seen_of_def see_processes_def see_process_fold split: option.splits)

lemma largest_Max: "largest ws (Some m) = Some (Max (insert m (set ws)))"
proof (induction ws arbitrary: m)
  case Nil
  show ?case by (simp add: largest_def)
next
  case (Cons w ws)
  have "largest (w # ws) (Some m) = largest ws (Some (max m w))" by (simp add: largest_def)
  also have "\<dots> = Some (Max (insert (max m w) (set ws)))" by (rule Cons.IH)
  also have "Max (insert (max m w) (set ws)) = Max (insert m (insert w (set ws)))"
    by (cases "ws = []") (simp_all add: max.assoc)
  finally show ?case by simp
qed

lemma largest_None: "largest ws None = (if ws = [] then None else Some (Max (set ws)))"
proof (cases ws)
  case (Cons w ws')
  then have "largest ws None = largest ws' (Some w)" by (simp add: largest_def)
  with Cons show ?thesis by (simp add: largest_Max)
qed (simp add: largest_def)

lemma finite_seen: "finite (dom (seen_of a))"
proof -
  have "finite (dom (see_process p seen))" if "finite (dom seen)" for p and seen :: seen_map
    using that by (simp add: see_process_def Let_def split: prod.splits option.splits)
  then have "finite (dom (fold see_process procs seen))" if "finite (dom seen)" for procs and seen :: seen_map
    using that by (induction procs arbitrary: seen) simp_all
  then show ?thesis by (simp add: seen_of_def see_processes_def split: option.splits)
qed

text \<open>
  The processes reported for a device are those that either of its lists names, apart from
  process 0, each once, with the largest memory use that any entry for it gives.
\<close>

lemma device_processes:
  assumes "map_range ord"
  shows "distinct (map gp_PID (collectProcesses ord a)) \<and>
    (\<forall>pid vram. \<lparr>gp_PID = pid, gp_VRAMUsedBytes = vram\<rparr> \<in> set (collectProcesses ord a) \<longleftrightarrow>
       pid \<noteq> 0 \<and> usages a pid \<noteq> [] \<and> vram = Max (set (usages a pid)))"
proof -
  have "map gp_PID (collectProcesses ord a) = map fst (range_pairs ord (seen_of a))"
    by (simp add: collectProcesses_def comp_def case_prod_unfold)
  then have "distinct (map gp_PID (collectProcesses ord a))"
    using map_range.distinct_fst_range_pairs [OF assms finite_seen] by simp
  moreover have "\<lparr>gp_PID = pid, gp_VRAMUsedBytes = vram\<rparr> \<in> set (collectProcesses ord a) \<longleftrightarrow> seen_of a pid = Some vram" for pid vram
    using map_range.set_range_pairs [OF assms finite_seen] by (auto simp: collectProcesses_def)
  moreover have "seen_of a pid = Some vram \<longleftrightarrow> pid \<noteq> 0 \<and> usages a pid \<noteq> [] \<and> vram = Max (set (usages a pid))" for pid vram
    by (cases "pid = 0") (auto simp: seen_of_zero seen_of_largest largest_None)
  ultimately show ?thesis by blast
qed

definition busy_device :: nvml_answers where
  "busy_device = \<lparr>nv_GetUtilizationRates = None, nv_GetMemoryInfo = None, nv_GetPowerUsage = None, nv_GetTemperature = None,
     nv_GraphicsClock = None, nv_MemClock = None, nv_GetComputeRunningProcesses = Some [(7, 100), (0, 9)],
     nv_GetGraphicsRunningProcesses = Some [(7, 300)]\<rparr>"

text \<open>The samples are numbered from zero without gaps.\<close>

lemma sample_devices_indices:
  "map gd_Index (sample_devices ord ask devices) = map of_nat [0..<length (sample_devices ord ask devices)]"
proof -
  have e: "map (\<lambda>(i, _). of_nat i :: 64 word) (enumerate k xs) = map of_nat [k..<k + length xs]"
    for k and xs :: "('a \<times> gostring \<times> 'a nvmlDevice) list"
    by (rule nth_equalityI) (simp_all add: nth_enumerate_eq case_prod_unfold)
  have "gd_Index (case x of (i, h, guid, nd) \<Rightarrow> (collectDeviceMetrics ord ask h i nd)\<lparr>gd_MigDeviceGUID := guid\<rparr>) =
      (case x of (i, _) \<Rightarrow> of_nat i)" for x :: "nat \<times> 'a \<times> gostring \<times> 'a nvmlDevice"
    by (simp add: case_prod_unfold collectDeviceMetrics_def Let_def)
  then show ?thesis
    using e [of 0 "concat (map device_units devices)"] by (simp add: sample_devices_def comp_def)
qed

end
