(* ===== verification/Collector.thy ===== *)
theory Collector
  imports Procfs Cgroup Devices
begin

text \<open>
  The collector of \<open>src/internal/proxy/collector\<close>: every poll reads the host's counters, visits
  the processes, keeps the tick counts it needs for the next poll, orders the processes by their
  CPU usage and publishes a snapshot. The answers of the file system, the samples of the GPUs,
  the clock and the encoding of a snapshot are arguments. The parser of a process line can
  panic; then the poll is \<open>None\<close>.
\<close>

section \<open>State\<close>

record Collector =
  co_procRoot :: gostring
  co_pollInterval :: duration
  co_enableBPF :: bool
  co_verbose :: bool
  co_cpucalc :: CPUUtilCalculator
  co_cg :: Resolver
  co_tracker :: Tracker
  co_gpuSampler :: GPUSampler
  co_procDeltas :: "int \<rightharpoonup> ProcDelta"
  co_prevCPUPct :: "int \<rightharpoonup> real"
  co_lastSnapshot :: "bytes option"
  co_SnapshotOutput :: "bytes list option"
  co_stdout :: "bytes list"
  co_pollCount :: int

definition snapshot_capacity :: nat where
  "snapshot_capacity = 64"

text \<open>The arguments say which platform parts are available.\<close>

definition NewCollector :: "gostring \<Rightarrow> duration \<Rightarrow> bool \<Rightarrow> bool \<Rightarrow> bool \<Rightarrow> bool \<Rightarrow> Collector" where
  "NewCollector procRoot pollInterval enableBPF verbose bpf gpu = \<lparr>
     co_procRoot = procRoot,
     co_pollInterval = pollInterval,
     co_enableBPF = enableBPF,
     co_verbose = verbose,
     co_cpucalc = NewCPUUtilCalculator,
     co_cg = NewResolver procRoot,
     co_tracker = NewTracker bpf,
     co_gpuSampler = NewGPUSampler gpu,
     co_procDeltas = Map.empty,
     co_prevCPUPct = Map.empty,
     co_lastSnapshot = None,
     co_SnapshotOutput = None,
     co_stdout = [],
     co_pollCount = 0\<rparr>"

text \<open>What \<open>Run\<close> does before its loop.\<close>

definition run_setup :: "Collector \<Rightarrow> bool \<Rightarrow> gostring option \<Rightarrow> Collector" where
  "run_setup c attached gpuErr =
     (let c = (if co_enableBPF c then c\<lparr>co_tracker := tracker_Start (co_tracker c) attached\<rparr> else c)
      in c\<lparr>co_gpuSampler := snd (sampler_Run (co_gpuSampler c) gpuErr)\<rparr>)"

text \<open>What one poll reads from the outside.\<close>

record poll_inputs =
  pl_reader :: reader
  pl_readFile :: "gostring \<Rightarrow> bytes option"
  pl_readDir :: "(gostring \<times> bool) list option"
  pl_gpu :: "gostring + GPUDeviceMetrics list"
  pl_now :: int

section \<open>CPU usage of a process\<close>

text \<open>The usage of an interval from the ticks spent in it, a hundred ticks being a second.\<close>

definition tick_percent :: "duration \<Rightarrow> 64 word \<Rightarrow> real" where
  "tick_percent interval ticks =
     (let intervalSec = seconds_of interval;
          cpuPct = float_of ticks / (intervalSec * 100) * 100;
          cpuPct = (if cpuPct < 0 then 0 else cpuPct);
          cpuPct = (if cpuPct > 100 * intervalSec then 0 else cpuPct)
      in math_Round (cpuPct * 100) / 100)"

definition computeProcessCPU :: "Collector \<Rightarrow> int \<Rightarrow> ProcMetrics \<Rightarrow> real \<times> Collector" where
  "computeProcessCPU c pid pm =
     (let c' = c\<lparr>co_procDeltas := (co_procDeltas c)(pid \<mapsto> \<lparr>pd_PrevUTime = px_UTime pm, pd_PrevSTime = px_STime pm\<rparr>)\<rparr>
      in case co_procDeltas c pid of
           None \<Rightarrow> (0, c')
         | Some prev \<Rightarrow>
             (let utimeDelta = px_UTime pm - pd_PrevUTime prev; stimeDelta = px_STime pm - pd_PrevSTime prev
              in if seconds_of (co_pollInterval c) \<le> 0 then (0, c')
                 else (let cpuPct = tick_percent (co_pollInterval c) (utimeDelta + stimeDelta)
                       in (cpuPct, c'\<lparr>co_prevCPUPct := (co_prevCPUPct c)(pid \<mapsto> cpuPct)\<rparr>))))"

section \<open>Ordering\<close>

text \<open>
  The insertion sort. The prefix that is sorted already is kept in reverse: the key moves
  towards its front while the element before it uses less.
\<close>

fun insert_back :: "ProcessMetrics \<Rightarrow> ProcessMetrics list \<Rightarrow> ProcessMetrics list" where
  "insert_back key [] = [key]"
| "insert_back key (p # ps) = (if pm_CPUUsagePct p < pm_CPUUsagePct key then p # insert_back key ps else key # p # ps)"

definition sortByCPU :: "ProcessMetrics list \<Rightarrow> ProcessMetrics list" where
  "sortByCPU procs = (if length procs \<le> 1 then procs else rev (fold insert_back procs []))"

section \<open>The poll\<close>

definition collect_entry ::
  "poll_inputs \<Rightarrow> gostring \<times> bool \<Rightarrow> Collector \<times> int set \<times> ProcessMetrics list \<Rightarrow>
   (Collector \<times> int set \<times> ProcessMetrics list) option" where
  "collect_entry x entry s =
     (let (c, seen, procs) = s
      in if \<not> snd entry then Some s
         else (case Atoi (fst entry) of
                 None \<Rightarrow> Some s
               | Some pid \<Rightarrow>
                   (if pid \<le> 0 then Some s
                    else
                      (let seen = insert pid seen
                       in case ReadProcStat (pl_reader x) pid (co_procRoot c) of
                            None \<Rightarrow> None
                          | Some (Inl _) \<Rightarrow> Some (c, seen, procs)
                          | Some (Inr pm) \<Rightarrow>
                              (let (containerID, cg) = Resolve (pl_readFile x) (co_cg c) pid;
                                   (cpuPct, c) = computeProcessCPU (c\<lparr>co_cg := cg\<rparr>) pid pm
                               in Some (c, seen, procs @ [\<lparr>
                                    pm_PID = pid,
                                    pm_ContainerID = containerID,
                                    pm_ProcessName = px_Comm pm,
                                    pm_CPUUsagePct = cpuPct,
                                    pm_RSSBytes = px_RSS pm,
                                    pm_VSizeBytes = px_VSize pm\<rparr>]))))))"

definition prune_pid :: "int set \<Rightarrow> int \<Rightarrow> Collector \<Rightarrow> Collector" where
  "prune_pid seen pid c =
     (if pid \<in> seen then c
      else c\<lparr>co_procDeltas := (co_procDeltas c)(pid := None),
             co_prevCPUPct := (co_prevCPUPct c)(pid := None),
             co_cg := Evict (co_cg c) pid\<rparr>)"

type_synonym delta_order = "(int \<rightharpoonup> ProcDelta) \<Rightarrow> int list"

definition collectProcessMetrics ::
  "delta_order \<Rightarrow> poll_inputs \<Rightarrow> Collector \<Rightarrow> (ProcessMetrics list \<times> Collector) option" where
  "collectProcessMetrics ord x c =
     (case pl_readDir x of
        None \<Rightarrow> Some ([], c)
      | Some entries \<Rightarrow>
          (case fold_opt (collect_entry x) entries (c, {}, []) of
             None \<Rightarrow> None
           | Some (c, seen, procs) \<Rightarrow> Some (procs, fold (prune_pid seen) (ord (co_procDeltas c)) c)))"

definition host_metrics :: "(proc_error + real) \<Rightarrow> (proc_error + MemoryInfo) \<Rightarrow> HostMetrics" where
  "host_metrics cpu mem = \<lparr>
     hm_CPUUtilizationPct = math_Round ((case cpu of Inl _ \<Rightarrow> 0 | Inr pct \<Rightarrow> pct) * 100) / 100,
     hm_MemoryTotalBytes = (case mem of Inl _ \<Rightarrow> 0 | Inr m \<Rightarrow> mf_TotalBytes m),
     hm_MemoryUsedBytes = (case mem of Inl _ \<Rightarrow> 0 | Inr m \<Rightarrow> mf_UsedBytes m)\<rparr>"

text \<open>The snapshot of a poll, and the state that the sampling leaves.\<close>

definition sample_host :: "delta_order \<Rightarrow> poll_inputs \<Rightarrow> Collector \<Rightarrow> (Snapshot \<times> Collector) option" where
  "sample_host ord x c =
     (let c = c\<lparr>co_pollCount := to_i64 (co_pollCount c + 1)\<rparr>;
          (cpu, calc) = ReadAndCompute (pl_reader x) (co_cpucalc c) (co_procRoot c);
          c = c\<lparr>co_cpucalc := calc\<rparr>;
          mem = ReadMemoryInfo (pl_reader x) (co_procRoot c)
      in case collectProcessMetrics ord x c of
           None \<Rightarrow> None
         | Some (procs, c) \<Rightarrow>
             (let (drainEvents, tracker) = tracker_Drain (co_tracker c) 256;
                  c = c\<lparr>co_tracker := tracker, co_gpuSampler := Sample (co_gpuSampler c) (pl_gpu x)\<rparr>;
                  procs = sortByCPU procs;
                  procs = (if length procs > 1000 then take 1000 procs else procs)
              in Some (\<lparr>sn_Timestamp = pl_now x,
                        sn_HostMetrics = host_metrics cpu mem,
                        sn_MonitoredProcesses = procs,
                        sn_GPUDevices = LastGPUDevices (co_gpuSampler c)\<rparr>, c)))"

definition publish_snapshot :: "Collector \<Rightarrow> bytes \<Rightarrow> Collector" where
  "publish_snapshot c data =
     (let c = c\<lparr>co_lastSnapshot := Some data,
                co_SnapshotOutput := map_option (\<lambda>ch. try_send snapshot_capacity ch data) (co_SnapshotOutput c)\<rparr>
      in if co_verbose c then c\<lparr>co_stdout := co_stdout c @ [data]\<rparr> else c)"

definition collectOnce ::
  "delta_order \<Rightarrow> (Snapshot \<Rightarrow> bytes option) \<Rightarrow> poll_inputs \<Rightarrow> Collector \<Rightarrow> Collector option" where
  "collectOnce ord encode x c =
     (case sample_host ord x c of
        None \<Rightarrow> None
      | Some (snap, c) \<Rightarrow>
          (case encode snap of
             None \<Rightarrow> Some c
           | Some data \<Rightarrow> Some (publish_snapshot c (data @ [CHR 10]))))"

section \<open>Queries\<close>

definition collector_handleMetrics :: "Collector \<Rightarrow> int \<times> bytes" where
  "collector_handleMetrics c =
     (case co_lastSnapshot c of
        None \<Rightarrow> (503, [CHR ''{'', CHR 0x22] @ ''error'' @ [CHR 0x22] @ '':'' @ [CHR 0x22] @ ''no data collected yet'' @
          [CHR 0x22, CHR ''}''])
      | Some data \<Rightarrow> (200, data))"

record health_report =
  he_Status :: gostring
  he_Uptime :: gostring
  he_PollInterval :: gostring
  he_Polls :: int
  he_EBPFMode :: gostring
  he_GPUMode :: gostring
  he_ProcRoot :: gostring

text \<open>The text of a duration is an argument.\<close>

definition handleHealth :: "(duration \<Rightarrow> gostring) \<Rightarrow> Collector \<Rightarrow> duration \<Rightarrow> health_report" where
  "handleHealth show_dur c uptime = \<lparr>
     he_Status = ''ok'',
     he_Uptime = show_dur uptime,
     he_PollInterval = show_dur (co_pollInterval c),
     he_Polls = co_pollCount c,
     he_EBPFMode = (if tracker_Fallback (co_tracker c) then ''fallback (/proc-only)'' else ''enabled''),
     he_GPUMode = (if sampler_Available (co_gpuSampler c) then ''active'' else ''not available''),
     he_ProcRoot = co_procRoot c\<rparr>"

definition LastSnapshot :: "Collector \<Rightarrow> bytes option" where
  "LastSnapshot c = co_lastSnapshot c"

definition collector_Stats :: "(duration \<Rightarrow> gostring) \<Rightarrow> Collector \<Rightarrow> duration \<Rightarrow> gostring" where
  "collector_Stats show_rounded c uptime =
     ''polls='' @ format_int (co_pollCount c) @ '' uptime='' @ show_rounded uptime @
     '' ebpf='' @ (if tracker_Fallback (co_tracker c) then ''fallback (/proc-only)'' else ''active'') @
     '' gpu='' @ (if sampler_Available (co_gpuSampler c) then ''active'' else ''not available'')"

section \<open>The order of a snapshot\<close>

lemma mset_insert_back [simp]: "mset (insert_back key ps) = add_mset key (mset ps)"
  by (induction ps) simp_all

lemma sorted_insert_back:
  "sorted_wrt (\<lambda>p q. pm_CPUUsagePct p \<le> pm_CPUUsagePct q) ps \<Longrightarrow>
   sorted_wrt (\<lambda>p q. pm_CPUUsagePct p \<le> pm_CPUUsagePct q) (insert_back key ps)"
proof (induction ps)
  case (Cons p ps)
  have "set (insert_back key ps) = insert key (set ps)" by (metis mset_insert_back set_mset_add_mset_insert set_mset_mset)
  with Cons show ?case by auto
qed simp

lemma filter_insert_back:
  "filter (\<lambda>p. pm_CPUUsagePct p = v) (insert_back key ps) =
   (if pm_CPUUsagePct key = v then [key] else []) @ filter (\<lambda>p. pm_CPUUsagePct p = v) ps"
  by (induction ps) auto

lemma fold_insert_back:
  assumes "sorted_wrt (\<lambda>p q. pm_CPUUsagePct p \<le> pm_CPUUsagePct q) acc"
  shows "mset (fold insert_back procs acc) = mset procs + mset acc"
    and "sorted_wrt (\<lambda>p q. pm_CPUUsagePct p \<le> pm_CPUUsagePct q) (fold insert_back procs acc)"
    and "filter (\<lambda>p. pm_CPUUsagePct p = v) (fold insert_back procs acc) =
      rev (filter (\<lambda>p. pm_CPUUsagePct p = v) procs) @ filter (\<lambda>p. pm_CPUUsagePct p = v) acc"
  using assms
proof (induction procs arbitrary: acc)
  case (Cons p procs)
  { case 1 then show ?case using Cons.IH(1) [OF sorted_insert_back] by simp }
  { case 2 then show ?case using Cons.IH(2) [OF sorted_insert_back] by simp }
  { case 3 then show ?case using Cons.IH(3) [OF sorted_insert_back] by (simp add: filter_insert_back) }
qed simp_all

lemma sortByCPU_sort: "sortByCPU procs = sort_key (\<lambda>p. - pm_CPUUsagePct p) procs"
proof (cases "length procs \<le> 1")
  case True
  then show ?thesis by (cases procs) (auto simp: sortByCPU_def)
next
  case False
  let ?ys = "rev (fold insert_back procs [])" and ?f = "\<lambda>p. - pm_CPUUsagePct p"
  note f = fold_insert_back [of "[]", simplified]
  have "sort_key ?f procs = ?ys"
  proof (rule properties_for_sort_key)
    show "mset ?ys = mset procs" by (simp add: f(1))
    show "filter (\<lambda>x. ?f k = ?f x) ?ys = filter (\<lambda>x. ?f k = ?f x) procs" for k
    proof -
      have e: "(\<lambda>x. ?f k = ?f x) = (\<lambda>p. pm_CPUUsagePct p = pm_CPUUsagePct k)" by auto
      show ?thesis unfolding e rev_filter [symmetric] f(3) by simp
    qed
    show "sorted (map ?f ?ys)"
      using f(2) [of procs] by (simp add: sorted_wrt_map sorted_wrt_rev)
  qed
  with False show ?thesis by (simp add: sortByCPU_def)
qed

section \<open>What a collector remembers\<close>

definition collector_inv :: "Collector \<Rightarrow> bool" where
  "collector_inv c \<longleftrightarrow> finite (dom (co_procDeltas c)) \<and> dom (co_prevCPUPct c) \<subseteq> dom (co_procDeltas c) \<and>
     dom (rs_cache (co_cg c)) \<subseteq> dom (co_procDeltas c)"

text \<open>The identifiers that a directory lists.\<close>

definition listed_pids :: "(gostring \<times> bool) list \<Rightarrow> int set" where
  "listed_pids entries = {pid. pid > 0 \<and> (\<exists>name. (name, True) \<in> set entries \<and> Atoi name = Some pid)}"

lemma dom_Resolve: "dom (rs_cache (snd (Resolve rd r pid))) \<subseteq> insert pid (dom (rs_cache r))"
  by (auto simp: Resolve_def split: option.splits if_splits)

lemma computeProcessCPU_dom:
  "co_procDeltas (snd (computeProcessCPU c pid pm)) = (co_procDeltas c)(pid \<mapsto> \<lparr>pd_PrevUTime = px_UTime pm, pd_PrevSTime = px_STime pm\<rparr>)"
  "dom (co_prevCPUPct (snd (computeProcessCPU c pid pm))) \<subseteq> insert pid (dom (co_prevCPUPct c))"
  "co_cg (snd (computeProcessCPU c pid pm)) = co_cg c"
  by (auto simp: computeProcessCPU_def Let_def split: option.splits)

lemma collect_entry_inv:
  assumes "collect_entry x entry (c, seen, procs) = Some (c', seen', procs')" "collector_inv c"
  shows "collector_inv c' \<and> seen' = seen \<union> listed_pids [entry]"
proof -
  obtain name dir where entry: "entry = (name, dir)" by (cases entry)
  show ?thesis
  proof (cases "dir \<and> (\<exists>pid. Atoi name = Some pid \<and> \<not> pid \<le> 0)")
    case False
    then show ?thesis
      using assms entry by (auto simp: collect_entry_def listed_pids_def split: option.splits if_splits)
  next
    case True
    then obtain pid where pid: "dir" "\<not> pid \<le> 0" "Atoi name = Some pid" by blast
    have l: "listed_pids [entry] = {pid}" using pid entry by (auto simp: listed_pids_def)
    let ?r = "Resolve (pl_readFile x) (co_cg c) pid"
    consider (failed) e where "ReadProcStat (pl_reader x) pid (co_procRoot c) = Some (Inl e)"
      | (panicked) "ReadProcStat (pl_reader x) pid (co_procRoot c) = None"
      | (parsed) pm where "ReadProcStat (pl_reader x) pid (co_procRoot c) = Some (Inr pm)"
      by (metis option.exhaust sum.exhaust)
    then show ?thesis
    proof cases
      case failed
      then show ?thesis using assms pid l by (simp add: collect_entry_def entry)
    next
      case panicked
      then show ?thesis using assms(1) pid by (simp add: collect_entry_def entry)
    next
      case (parsed pm)
      then have c': "c' = snd (computeProcessCPU (c\<lparr>co_cg := snd ?r\<rparr>) pid pm)" "seen' = insert pid seen"
        using assms(1) pid by (simp_all add: collect_entry_def entry case_prod_unfold Let_def)
      have "dom (co_prevCPUPct c') \<subseteq> insert pid (dom (co_prevCPUPct c))" "dom (co_procDeltas c') = insert pid (dom (co_procDeltas c))"
        "dom (rs_cache (co_cg c')) \<subseteq> insert pid (dom (rs_cache (co_cg c)))"
        unfolding c'(1) using computeProcessCPU_dom [of "c\<lparr>co_cg := snd ?r\<rparr>" pid pm] dom_Resolve [of "pl_readFile x" "co_cg c" pid]
        by simp_all
      moreover have "A \<subseteq> insert p B \<Longrightarrow> B \<subseteq> D \<Longrightarrow> A \<subseteq> insert p D" for A B D and p :: int by blast
      ultimately show ?thesis using assms(2) l c'(2) by (simp add: collector_inv_def)
    qed
  qed
qed

lemma collect_entries_inv:
  "fold_opt (collect_entry x) entries (c, seen, procs) = Some (c', seen', procs') \<Longrightarrow> collector_inv c \<Longrightarrow>
   collector_inv c' \<and> seen' = seen \<union> listed_pids entries"
proof (induction entries arbitrary: c seen procs)
  case (Cons entry entries)
  then obtain c1 seen1 procs1 where s: "collect_entry x entry (c, seen, procs) = Some (c1, seen1, procs1)"
      "fold_opt (collect_entry x) entries (c1, seen1, procs1) = Some (c', seen', procs')"
    by (auto split: option.splits)
  have "listed_pids (entry # entries) = listed_pids [entry] \<union> listed_pids entries"
    by (auto simp: listed_pids_def)
  then show ?case
    using collect_entry_inv [OF s(1) Cons.prems(2)] Cons.IH [OF s(2)] by auto
qed (simp add: listed_pids_def)

lemma prune_all:
  "co_procDeltas (fold (prune_pid seen) pids c) = (\<lambda>pid. if pid \<in> set pids - seen then None else co_procDeltas c pid)"
  "co_prevCPUPct (fold (prune_pid seen) pids c) = (\<lambda>pid. if pid \<in> set pids - seen then None else co_prevCPUPct c pid)"
  "rs_cache (co_cg (fold (prune_pid seen) pids c)) = (\<lambda>pid. if pid \<in> set pids - seen then None else rs_cache (co_cg c) pid)"
  by (induction pids arbitrary: c) (auto simp: prune_pid_def Evict_def fun_eq_iff)

lemma collectProcessMetrics_inv:
  assumes "collectProcessMetrics ord x c = Some (procs, c')" "collector_inv c" "map_range ord"
  shows "collector_inv c' \<and> (\<forall>entries. pl_readDir x = Some entries \<longrightarrow> dom (co_procDeltas c') \<subseteq> listed_pids entries)"
proof (cases "pl_readDir x")
  case None
  then show ?thesis using assms by (auto simp: collectProcessMetrics_def)
next
  case (Some entries)
  then obtain c1 seen where s: "fold_opt (collect_entry x) entries (c, {}, []) = Some (c1, seen, procs)"
      "c' = fold (prune_pid seen) (ord (co_procDeltas c1)) c1"
    using assms(1) by (auto simp: collectProcessMetrics_def split: option.splits)
  have inv: "collector_inv c1" and seen: "seen = listed_pids entries"
    using collect_entries_inv [OF s(1) assms(2)] by simp_all
  have o: "set (ord (co_procDeltas c1)) = dom (co_procDeltas c1)"
    using inv map_range.set_ord [OF assms(3)] by (simp add: collector_inv_def)
  have d: "dom (co_procDeltas c') = dom (co_procDeltas c1) \<inter> seen"
    "dom (co_prevCPUPct c') \<subseteq> dom (co_prevCPUPct c1) \<inter> (seen \<union> - dom (co_procDeltas c1))"
    "dom (rs_cache (co_cg c')) \<subseteq> dom (rs_cache (co_cg c1)) \<inter> (seen \<union> - dom (co_procDeltas c1))"
    unfolding s(2) prune_all o by (auto split: if_splits)
  have shrink: "A \<subseteq> B \<inter> (S \<union> - D) \<Longrightarrow> B \<subseteq> D \<Longrightarrow> A \<subseteq> D \<inter> S" for A B S D :: "int set" by blast
  have "finite (dom (co_procDeltas c'))" using d(1) inv by (simp add: collector_inv_def)
  moreover have "dom (co_prevCPUPct c') \<subseteq> dom (co_procDeltas c')" "dom (rs_cache (co_cg c')) \<subseteq> dom (co_procDeltas c')"
    using shrink [OF d(2)] shrink [OF d(3)] inv unfolding collector_inv_def d(1) by simp_all
  ultimately show ?thesis using Some seen d(1) by (simp add: collector_inv_def)
qed

lemma collectOnce_procs:
  assumes "collectOnce ord encode x c = Some c'"
  obtains procs c1 c2 where "collectProcessMetrics ord x c1 = Some (procs, c2)"
    "co_procDeltas c1 = co_procDeltas c" "co_prevCPUPct c1 = co_prevCPUPct c" "co_cg c1 = co_cg c"
    "co_procDeltas c' = co_procDeltas c2" "co_prevCPUPct c' = co_prevCPUPct c2" "co_cg c' = co_cg c2"
proof -
  let ?c = "c\<lparr>co_pollCount := to_i64 (co_pollCount c + 1),
    co_cpucalc := snd (ReadAndCompute (pl_reader x) (co_cpucalc c) (co_procRoot c))\<rparr>"
  have "\<exists>procs c2. collectProcessMetrics ord x ?c = Some (procs, c2) \<and>
    co_procDeltas c' = co_procDeltas c2 \<and> co_prevCPUPct c' = co_prevCPUPct c2 \<and> co_cg c' = co_cg c2"
    using assms by (auto simp: collectOnce_def sample_host_def publish_snapshot_def Let_def case_prod_unfold split: option.splits)
  then show ?thesis using that [of ?c] by auto
qed

text \<open>A collector at work, and what holds of it at any time.\<close>

inductive collector_reach :: "Collector \<Rightarrow> bool" where
  collector_new: "collector_reach (NewCollector procRoot interval bpfOn verbose bpf gpu)"
| collector_setup: "collector_reach c \<Longrightarrow> collector_reach (run_setup c attached gpuErr)"
| collector_attach: "collector_reach c \<Longrightarrow> collector_reach (c\<lparr>co_SnapshotOutput := Some ch\<rparr>)"
| collector_poll: "collector_reach c \<Longrightarrow> map_range ord \<Longrightarrow> collectOnce ord encode x c = Some c' \<Longrightarrow> collector_reach c'"

lemma collector_reach_inv: "collector_reach c \<Longrightarrow> collector_inv c"
proof (induction rule: collector_reach.induct)
  case (collector_new procRoot interval bpfOn verbose bpf gpu)
  show ?case by (simp add: collector_inv_def NewCollector_def NewResolver_def)
next
  case (collector_setup c attached gpuErr)
  then show ?case by (simp add: collector_inv_def run_setup_def Let_def)
next
  case (collector_attach c ch)
  then show ?case by (simp add: collector_inv_def)
next
  case (collector_poll c ord encode x c')
  from collectOnce_procs [OF collector_poll.hyps(3)] obtain procs c1 c2 where p: "collectProcessMetrics ord x c1 = Some (procs, c2)"
    "co_procDeltas c1 = co_procDeltas c" "co_prevCPUPct c1 = co_prevCPUPct c" "co_cg c1 = co_cg c"
    "co_procDeltas c' = co_procDeltas c2" "co_prevCPUPct c' = co_prevCPUPct c2" "co_cg c' = co_cg c2" by metis
  then have "collector_inv c1" using collector_poll.IH by (simp add: collector_inv_def)
  from collectProcessMetrics_inv [OF p(1) this collector_poll.hyps(2)] p show ?case by (simp add: collector_inv_def)
qed

text \<open>
  The collector's memory follows the processes: after a poll that could list them, it holds
  tick counts, usages and container identifiers of listed processes only, whatever came before,
  so a reused identifier never inherits from a process that a poll has seen gone.
\<close>

lemma collector_forgets_dead:
  assumes "collector_reach c" "map_range ord" "collectOnce ord encode x c = Some c'" "pl_readDir x = Some entries"
  shows "dom (co_procDeltas c') \<subseteq> listed_pids entries \<and> dom (co_prevCPUPct c') \<subseteq> listed_pids entries \<and>
    dom (rs_cache (co_cg c')) \<subseteq> listed_pids entries"
proof -
  from collectOnce_procs [OF assms(3)] obtain procs c1 c2 where p: "collectProcessMetrics ord x c1 = Some (procs, c2)"
    "co_procDeltas c1 = co_procDeltas c" "co_prevCPUPct c1 = co_prevCPUPct c" "co_cg c1 = co_cg c"
    "co_procDeltas c' = co_procDeltas c2" "co_prevCPUPct c' = co_prevCPUPct c2" "co_cg c' = co_cg c2" by metis
  then have "collector_inv c1" using collector_reach_inv [OF assms(1)] by (simp add: collector_inv_def)
  from collectProcessMetrics_inv [OF p(1) this assms(2)] assms(4)
  show ?thesis unfolding collector_inv_def p by blast
qed

text \<open>A poll that finds no process.\<close>

definition empty_poll :: poll_inputs where
  "empty_poll = \<lparr>pl_reader = (\<lambda>_ _. OpenFails ''gone''), pl_readFile = (\<lambda>_. None), pl_readDir = Some [(''self'', True), (''7'', False)],
     pl_gpu = Inl ''none'', pl_now = 5\<rparr>"

definition demo_collector :: Collector where
  "demo_collector = NewCollector ''/proc'' 500000000 True False False False"

lemma demo_collector_reach: "collector_reach demo_collector"
  unfolding demo_collector_def by (rule collector_new)

lemma Atoi_self: "Atoi ''self'' = None"
  by code_simp

lemma demo_poll: "\<exists>c'. collectOnce sorted_keys (\<lambda>_. None) empty_poll demo_collector = Some c'"
  by (simp add: collectOnce_def sample_host_def collectProcessMetrics_def empty_poll_def collect_entry_def Atoi_self
      Let_def case_prod_unfold)

text \<open>
  A snapshot lists the processes that were collected in descending order of CPU usage, those
  with equal usage in the order of the directory, and of more than a thousand it keeps the
  busiest: no process left out uses more than one that is in.
\<close>

lemma snapshot_keeps_busiest:
  assumes "sample_host ord x c = Some (snap, c')"
  shows "\<exists>procs c1 c2. collectProcessMetrics ord x c1 = Some (procs, c2) \<and>
    sn_MonitoredProcesses snap = take 1000 (sort_key (\<lambda>p. - pm_CPUUsagePct p) procs) \<and>
    (\<forall>p \<in> set (sn_MonitoredProcesses snap). \<forall>q \<in> set (drop 1000 (sort_key (\<lambda>p. - pm_CPUUsagePct p) procs)).
       pm_CPUUsagePct q \<le> pm_CPUUsagePct p) \<and>
    mset (sn_MonitoredProcesses snap) + mset (drop 1000 (sort_key (\<lambda>p. - pm_CPUUsagePct p) procs)) = mset procs"
proof -
  let ?c = "c\<lparr>co_pollCount := to_i64 (co_pollCount c + 1),
    co_cpucalc := snd (ReadAndCompute (pl_reader x) (co_cpucalc c) (co_procRoot c))\<rparr>"
  obtain procs c2 where p: "collectProcessMetrics ord x ?c = Some (procs, c2)"
    "sn_MonitoredProcesses snap = take 1000 (sortByCPU procs)"
    using assms by (auto simp: sample_host_def Let_def case_prod_unfold split: option.splits)
  let ?s = "sort_key (\<lambda>p. - pm_CPUUsagePct p) procs"
  have "sorted (map (\<lambda>p. - pm_CPUUsagePct p) (take 1000 ?s @ drop 1000 ?s))" by simp
  then have "\<forall>p \<in> set (take 1000 ?s). \<forall>q \<in> set (drop 1000 ?s). pm_CPUUsagePct q \<le> pm_CPUUsagePct p"
    unfolding map_append sorted_append by simp
  moreover have "mset (take 1000 ?s) + mset (drop 1000 ?s) = mset procs"
    by (metis append_take_drop_id mset_append mset_sort)
  ultimately show ?thesis
    using p(1) unfolding p(2) sortByCPU_sort by (intro exI [of _ procs] exI [of _ ?c] exI [of _ c2] conjI) simp_all
qed

section \<open>The usage of a process\<close>

lemma math_Round_near: "\<bar>math_Round y - y\<bar> \<le> 1 / 2"
proof (cases "y \<ge> 0")
  case True
  then have m: "math_Round y = real_of_int \<lfloor>y + 1 / 2\<rfloor>" by (simp add: math_Round_def)
  show ?thesis unfolding m using floor_correct [of "y + 1 / 2"] by linarith
next
  case False
  then have m: "math_Round y = - real_of_int \<lfloor>1 / 2 - y\<rfloor>" by (simp add: math_Round_def)
  show ?thesis unfolding m using floor_correct [of "1 / 2 - y"] by linarith
qed

lemma math_Round_zero [simp]: "math_Round 0 = 0"
  by (simp add: math_Round_def)

lemma math_Round_nonneg: "0 \<le> y \<Longrightarrow> 0 \<le> math_Round y"
  by (simp add: math_Round_def)

text \<open>The ticks a process has used, as the collector adds them.\<close>

definition ticks_of :: "ProcMetrics \<Rightarrow> nat" where
  "ticks_of pm = unat (px_UTime pm) + unat (px_STime pm)"

lemma tick_delta:
  assumes "ticks_of pm1 \<le> ticks_of pm2" "ticks_of pm2 < 2 ^ 64"
  shows "float_of (px_UTime pm2 - px_UTime pm1 + (px_STime pm2 - px_STime pm1)) = real (ticks_of pm2) - real (ticks_of pm1)"
proof -
  have w: "px_UTime pm + px_STime pm = of_nat (ticks_of pm)" for pm by (simp add: ticks_of_def)
  have "px_UTime pm2 - px_UTime pm1 + (px_STime pm2 - px_STime pm1) = (px_UTime pm2 + px_STime pm2) - (px_UTime pm1 + px_STime pm1)"
    by simp
  also have "\<dots> = of_nat (ticks_of pm2 - ticks_of pm1)"
    by (simp add: w of_nat_diff [OF assms(1)])
  finally have d: "px_UTime pm2 - px_UTime pm1 + (px_STime pm2 - px_STime pm1) = of_nat (ticks_of pm2 - ticks_of pm1)" .
  have "ticks_of pm2 - ticks_of pm1 < 2 ^ 64" using assms by linarith
  then have "unat (px_UTime pm2 - px_UTime pm1 + (px_STime pm2 - px_STime pm1)) = ticks_of pm2 - ticks_of pm1"
    unfolding d by (rule unat_of_nat_64)
  then show ?thesis unfolding float_of_def by (simp only: of_nat_diff [OF assms(1)])
qed

text \<open>
  The usage reported for a process is the share of a processor it used since the last poll,
  to within a hundredth of a percent, but only up to a hundred percent times the seconds of the
  poll interval: a process above that is reported as idle. With the default interval of half a
  second that is every process that uses more than half a processor.
\<close>

lemma busy_process_reads_idle:
  assumes "computeProcessCPU c pid pm1 = (p1, c1)" "computeProcessCPU c1 pid pm2 = (p2, c2)"
    and "ticks_of pm1 \<le> ticks_of pm2" "ticks_of pm2 < 2 ^ 64" "0 < co_pollInterval c"
    and "share = (real (ticks_of pm2) - real (ticks_of pm1)) / seconds_of (co_pollInterval c)"
  shows "if share > 100 * seconds_of (co_pollInterval c) then p2 = 0 else \<bar>p2 - share\<bar> \<le> 1 / 200"
proof -
  have d: "co_procDeltas c1 pid = Some \<lparr>pd_PrevUTime = px_UTime pm1, pd_PrevSTime = px_STime pm1\<rparr>"
    using computeProcessCPU_dom(1) [of c pid pm1] assms(1) by simp
  have i: "co_pollInterval c1 = co_pollInterval c"
    using assms(1) by (auto simp: computeProcessCPU_def Let_def split: option.splits if_splits)
  have s: "0 < seconds_of (co_pollInterval c)" using assms(5) by (simp add: seconds_of_def)
  have "p2 = tick_percent (co_pollInterval c) (px_UTime pm2 - px_UTime pm1 + (px_STime pm2 - px_STime pm1))"
    using assms(2) d i s by (simp add: computeProcessCPU_def Let_def)
  also have "\<dots> = (if share > 100 * seconds_of (co_pollInterval c) then 0 else math_Round (share * 100) / 100)"
  proof -
    have "0 \<le> share" using assms(3,6) s by simp
    moreover have "float_of (px_UTime pm2 - px_UTime pm1 + (px_STime pm2 - px_STime pm1)) / (seconds_of (co_pollInterval c) * 100) * 100 = share"
      using s unfolding tick_delta [OF assms(3,4)] assms(6) by (simp only: times_divide_eq_left)
    ultimately show ?thesis by (simp add: tick_percent_def Let_def)
  qed
  finally have p2: "p2 = (if share > 100 * seconds_of (co_pollInterval c) then 0 else math_Round (share * 100) / 100)" .
  have "\<bar>math_Round (share * 100) / 100 - share\<bar> \<le> 1 / 200"
    using math_Round_near [of "share * 100"] by linarith
  then show ?thesis using p2 by simp
qed

definition ticking :: "64 word \<Rightarrow> ProcMetrics" where
  "ticking u = \<lparr>px_PID = 7, px_Comm = ''train'', px_UTime = u, px_STime = 0, px_RSS = 0, px_VSize = 0\<rparr>"

text \<open>Forty ticks in half a second are four fifths of a processor; ten are a fifth.\<close>

end
