(* ===== verification/Pipeline.thy ===== *)
theory Pipeline
  imports RingBuffer Model
begin

text \<open>
  The upstream pipeline of \<open>src/internal/proxy/pipeline\<close>: the payload types
  (\<open>types.go\<close>), the aggregator that turns a snapshot and the queued token events into one
  payload (\<open>aggregator.go\<close>), and the streamer that drains the ring buffer in batches, puts
  back what it could not send and backs off (\<open>streamer.go\<close>). JSON coding and SHA-256 are
  parameters; the outcome of an HTTP request is an argument, one per attempt.
\<close>

section \<open>Payloads\<close>

record ProxyEvent =
  pv_ClientPID :: int
  pv_Model :: gostring
  pv_TotalTokens :: int

record PayloadBlock =
  pb_Timestamp :: int
  pb_Host :: "HostMetrics option"
  pb_GPU :: "GPUDeviceMetrics list"
  pb_Proxy :: "ProxyEvent list"

record UpstreamPayload =
  up_AgentID :: gostring
  up_AuthTokenHash :: gostring
  up_Payload :: PayloadBlock

definition sha256Hex :: "(bytes \<Rightarrow> bytes) \<Rightarrow> gostring \<Rightarrow> gostring" where
  "sha256Hex sha256 s = (if s = '''' then '''' else hex_encode (sha256 s))"

definition NewUpstreamPayload ::
    "(bytes \<Rightarrow> bytes) \<Rightarrow> gostring \<Rightarrow> gostring \<Rightarrow> PayloadBlock \<Rightarrow> UpstreamPayload" where
  "NewUpstreamPayload sha256 agentID authToken block =
     \<lparr>up_AgentID = agentID, up_AuthTokenHash = sha256Hex sha256 authToken, up_Payload = block\<rparr>"

definition PayloadFromSnapshot ::
    "(bytes \<Rightarrow> bytes) \<Rightarrow> Snapshot option \<Rightarrow> ProxyEvent list \<Rightarrow> gostring \<Rightarrow> gostring
     \<Rightarrow> gostring + UpstreamPayload" where
  "PayloadFromSnapshot sha256 snap proxyEvents agentID authToken =
     (case snap of
        None \<Rightarrow> Inl ''snapshot is nil''
      | Some snap \<Rightarrow>
          Inr (NewUpstreamPayload sha256 agentID authToken
                 \<lparr>pb_Timestamp = sn_Timestamp snap,
                  pb_Host = Some (sn_HostMetrics snap),
                  pb_GPU = (if length (sn_GPUDevices snap) > 0 then sn_GPUDevices snap else []),
                  pb_Proxy = proxyEvents\<rparr>))"

section \<open>The aggregator\<close>

record Aggregator =
  ag_agentID :: gostring
  ag_authToken :: gostring
  ag_snapshotCh :: "bytes list"
  ag_tokenCh :: "TokenUsageEvent list"
  ag_ringBuf :: RingBuffer

text \<open>Receiving from the token channel until it is empty.\<close>

definition drainProxyEvents :: "Aggregator \<Rightarrow> TokenUsageEvent list \<times> Aggregator" where
  "drainProxyEvents a = (ag_tokenCh a, a\<lparr>ag_tokenCh := []\<rparr>)"

definition to_proxy_event :: "TokenUsageEvent \<Rightarrow> ProxyEvent" where
  "to_proxy_event ev =
     \<lparr>pv_ClientPID = tu_ClientPID ev, pv_Model = tu_Model ev,
      pv_TotalTokens = tm_TotalTokens (tu_Metrics ev)\<rparr>"

text \<open>
  One call of \<open>aggregate\<close>. \<open>decode\<close> and \<open>encode\<close> are \<open>json.Unmarshal\<close> and
  \<open>json.Marshal\<close>, \<open>None\<close> on an error. The outer \<open>None\<close> is a panic in the ring buffer.
\<close>

definition aggregate ::
    "(bytes \<Rightarrow> bytes) \<Rightarrow> (bytes \<Rightarrow> Snapshot option) \<Rightarrow> (UpstreamPayload \<Rightarrow> bytes option)
     \<Rightarrow> Aggregator \<Rightarrow> Aggregator option" where
  "aggregate sha256 decode encode a =
     (case ag_snapshotCh a of
        [] \<Rightarrow> Some (snd (drainProxyEvents a))
      | latestSnap # rest \<Rightarrow>
          (let a = a\<lparr>ag_snapshotCh := rest\<rparr>
           in case decode latestSnap of
                None \<Rightarrow> Some a
              | Some snap \<Rightarrow>
                  (let (proxyEvents, a) = drainProxyEvents a
                   in case PayloadFromSnapshot sha256 (Some snap) (map to_proxy_event proxyEvents)
                             (ag_agentID a) (ag_authToken a) of
                        Inl _ \<Rightarrow> Some a
                      | Inr payload \<Rightarrow>
                          (case encode payload of
                             None \<Rightarrow> Some a
                           | Some data \<Rightarrow>
                               (case Push (ag_ringBuf a) data of
                                  None \<Rightarrow> None
                                | Some rb \<Rightarrow> Some (a\<lparr>ag_ringBuf := rb\<rparr>))))))"

section \<open>The streamer\<close>

record Streamer =
  st_endpoint :: gostring
  st_authToken :: gostring
  st_batchSize :: int

definition NewStreamer :: "gostring \<Rightarrow> gostring \<Rightarrow> Streamer" where
  "NewStreamer endpoint authToken =
     \<lparr>st_endpoint = endpoint, st_authToken = authToken, st_batchSize = 100\<rparr>"

datatype http_outcome = RequestInvalid | TransportFailed | Response int

datatype send_error = SendFailed | Retryable int

definition sendOne :: "Streamer \<Rightarrow> http_outcome \<Rightarrow> send_error option" where
  "sendOne s out =
     (if st_endpoint s = '''' then None
      else (case out of
              RequestInvalid \<Rightarrow> Some SendFailed
            | TransportFailed \<Rightarrow> Some SendFailed
            | Response code \<Rightarrow>
                (if code \<ge> 200 \<and> code < 300 then None
                 else if code \<ge> 500 then Some (Retryable code)
                 else None)))"

fun repush :: "RingBuffer \<Rightarrow> bytes list \<Rightarrow> RingBuffer option" where
  "repush rb [] = Some rb"
| "repush rb (d # ds) = (case Push rb d of None \<Rightarrow> None | Some rb' \<Rightarrow> repush rb' ds)"

text \<open>
  The loop of \<open>sendBatch\<close>: payload \<open>i\<close> of the batch meets the outcome \<open>out i\<close>. The first
  component is the payloads that were sent; the code returns their number.
\<close>

fun send_loop ::
    "Streamer \<Rightarrow> (nat \<Rightarrow> http_outcome) \<Rightarrow> nat \<Rightarrow> bytes list \<Rightarrow> RingBuffer
     \<Rightarrow> (bytes list \<times> bool \<times> RingBuffer) option" where
  "send_loop s out i [] rb = Some ([], False, rb)"
| "send_loop s out i (d # ds) rb =
     (case sendOne s (out i) of
        Some e \<Rightarrow> (case repush rb (d # ds) of None \<Rightarrow> None | Some rb' \<Rightarrow> Some ([], True, rb'))
      | None \<Rightarrow>
          (case send_loop s out (Suc i) ds rb of
             None \<Rightarrow> None
           | Some (sent, errored, rb') \<Rightarrow> Some (d # sent, errored, rb')))"

definition sendBatch ::
    "Streamer \<Rightarrow> (nat \<Rightarrow> http_outcome) \<Rightarrow> RingBuffer \<Rightarrow> (bytes list \<times> bool \<times> RingBuffer) option" where
  "sendBatch s out rb =
     (case Drain rb (st_batchSize s) of
        None \<Rightarrow> None
      | Some (payloads, rb') \<Rightarrow>
          (if length payloads = 0 then Some ([], False, rb')
           else send_loop s out 0 payloads rb'))"

definition nextBackoff :: "duration \<Rightarrow> duration \<Rightarrow> duration" where
  "nextBackoff current mx =
     (if current = 0 then second_ns
      else (let next = current * 2 in if next > mx then mx else next))"

definition maxBackoff :: duration where "maxBackoff = 30 * second_ns"

text \<open>
  One iteration of the streamer's \<open>run\<close> loop while the context is live: the new backoff, the
  new buffer and the pauses the iteration makes.
\<close>

definition run_iteration ::
    "Streamer \<Rightarrow> (nat \<Rightarrow> http_outcome) \<Rightarrow> duration \<Rightarrow> RingBuffer
     \<Rightarrow> (duration \<times> RingBuffer \<times> duration list) option" where
  "run_iteration s out backoff rb =
     (if Len rb = 0 then Some (backoff, rb, [500 * millisecond_ns])
      else (case sendBatch s out rb of
              None \<Rightarrow> None
            | Some (sent, retryable, rb') \<Rightarrow>
                (let (backoff', waits) =
                       (if retryable \<and> length sent > 0
                        then (nextBackoff backoff maxBackoff, [nextBackoff backoff maxBackoff])
                        else (0, []));
                     waits' = (if length sent = 0 then [500 * millisecond_ns] else [])
                 in Some (backoff', rb', waits @ waits'))))"

fun flush_batch :: "Streamer \<Rightarrow> (nat \<Rightarrow> http_outcome) \<Rightarrow> nat \<Rightarrow> bytes list \<Rightarrow> bytes list \<times> bool" where
  "flush_batch s out i [] = ([], False)"
| "flush_batch s out i (d # ds) =
     (case sendOne s (out i) of
        Some e \<Rightarrow> ([], True)
      | None \<Rightarrow> (let (sent, failed) = flush_batch s out (Suc i) ds in (d # sent, failed)))"

lemma take_head_length:
  "take_head rb = Some (e, rb') \<Longrightarrow> length (rb_entries rb) = Suc (length (rb_entries rb'))"
  by (auto simp: take_head_def split: list.splits)

lemma drain_loop_length:
  "drain_loop n rb = Some (out, rb') \<Longrightarrow>
   length (rb_entries rb) = length out + length (rb_entries rb')"
  by (induction n arbitrary: rb out) (auto dest: take_head_length split: option.splits prod.splits)

lemma Drain_length:
  "Drain rb n = Some (out, rb') \<Longrightarrow>
   length (rb_entries rb) = length out + length (rb_entries rb')"
  by (auto simp: Drain_def Let_def split: if_splits dest: drain_loop_length)

function flushRemaining ::
    "Streamer \<Rightarrow> (nat \<Rightarrow> nat \<Rightarrow> http_outcome) \<Rightarrow> nat \<Rightarrow> RingBuffer
     \<Rightarrow> (bytes list \<times> RingBuffer) option" where
  "flushRemaining s out r rb =
     (case Drain rb (st_batchSize s) of
        None \<Rightarrow> None
      | Some (payloads, rb') \<Rightarrow>
          (if length payloads = 0 then Some ([], rb')
           else (let (sent, failed) = flush_batch s (out r) 0 payloads
                 in if failed then Some (sent, rb')
                    else if st_endpoint s = '''' then Some (sent, rb')
                    else (case flushRemaining s out (Suc r) rb' of
                            None \<Rightarrow> None
                          | Some (sent', rb'') \<Rightarrow> Some (sent @ sent', rb'')))))"
  by pat_completeness auto
termination
  by (relation "measure (\<lambda>(s, out, r, rb). length (rb_entries rb))") (auto dest!: Drain_length)

declare flushRemaining.simps [simp del]

section \<open>Batches lose nothing\<close>

lemma repush_push_all: "repush rb ds = rb.push_all rb ds"
  by (induction ds arbitrary: rb) (auto split: option.splits)

lemma send_loop_result:
  assumes "\<forall>post. suffix post ds \<longrightarrow> (\<exists>rb'. repush rb post = Some rb' \<and> Q post rb')"
  shows "\<exists>sent errored rb'. send_loop s out i ds rb = Some (sent, errored, rb') \<and>
    prefix sent ds \<and> (errored \<longleftrightarrow> length sent < length ds) \<and>
    (\<forall>j < length sent. sendOne s (out (i + j)) = None) \<and>
    (errored \<longrightarrow> sendOne s (out (i + length sent)) \<noteq> None \<and> Q (drop (length sent) ds) rb') \<and>
    (\<not> errored \<longrightarrow> rb' = rb)"
  using assms
proof (induction ds arbitrary: i)
  case Nil
  then show ?case by auto
next
  case (Cons d ds)
  show ?case
  proof (cases "sendOne s (out i)")
    case None
    have "\<forall>post. suffix post ds \<longrightarrow> (\<exists>rb'. repush rb post = Some rb' \<and> Q post rb')"
      using Cons.prems by (blast intro: suffix_ConsI)
    from Cons.IH [OF this, of "Suc i"] obtain sent errored rb' where IH:
      "send_loop s out (Suc i) ds rb = Some (sent, errored, rb')"
      "prefix sent ds" "errored \<longleftrightarrow> length sent < length ds"
      "\<forall>j < length sent. sendOne s (out (Suc i + j)) = None"
      "errored \<longrightarrow> sendOne s (out (Suc i + length sent)) \<noteq> None \<and> Q (drop (length sent) ds) rb'"
      "\<not> errored \<longrightarrow> rb' = rb"
      by blast
    have "\<forall>j < length (d # sent). sendOne s (out (i + j)) = None"
      using IH(4) None by (auto simp: less_Suc_eq_0_disj)
    with IH None show ?thesis by auto
  next
    case (Some e)
    from Cons.prems obtain rb' where "repush rb (d # ds) = Some rb'" "Q (d # ds) rb'"
      by (meson suffix_order.refl)
    with Some show ?thesis by auto
  qed
qed

lemma sendBatch_result:
  fixes s :: Streamer
  assumes "rb_inv rb"
  defines "k \<equiv> drain_count (st_batchSize s)"
  shows "\<exists>sent errored rb'. sendBatch s out rb = Some (sent, errored, rb') \<and> rb_inv rb' \<and>
    prefix sent (take k (rb_entries rb)) \<and>
    rb_entries rb' = drop k (rb_entries rb) @ drop (length sent) (take k (rb_entries rb)) \<and>
    (errored \<longleftrightarrow> length sent < length (take k (rb_entries rb))) \<and>
    (\<forall>j < length sent. sendOne s (out j) = None) \<and>
    (errored \<longrightarrow> sendOne s (out (length sent)) \<noteq> None)"
proof -
  obtain rb1 where d: "Drain rb (st_batchSize s) = Some (take k (rb_entries rb), rb1)" "rb_inv rb1"
      "rb_entries rb1 = drop k (rb_entries rb)"
    using rb.drain_law [OF assms(1), of "st_batchSize s"] k_def by blast
  let ?Q = "\<lambda>post rb'. rb_inv rb' \<and> rb_entries rb' = drop k (rb_entries rb) @ post"
  have req: "\<forall>post. suffix post (take k (rb_entries rb)) \<longrightarrow> (\<exists>rb'. repush rb1 post = Some rb' \<and> ?Q post rb')"
    using rb.requeue_lossless [OF assms(1), of "st_batchSize s" _ _ rb1] d(1) k_def
    by (fastforce simp: repush_push_all suffix_def)
  obtain sent errored rb' where r: "send_loop s out 0 (take k (rb_entries rb)) rb1 = Some (sent, errored, rb')"
      "prefix sent (take k (rb_entries rb))" "errored \<longleftrightarrow> length sent < length (take k (rb_entries rb))"
      "\<forall>j < length sent. sendOne s (out j) = None"
      "errored \<longrightarrow> sendOne s (out (length sent)) \<noteq> None \<and> ?Q (drop (length sent) (take k (rb_entries rb))) rb'"
      "\<not> errored \<longrightarrow> rb' = rb1"
    using send_loop_result [of "take k (rb_entries rb)" rb1 ?Q s out 0] req
    unfolding add_0_left by blast
  have "sendBatch s out rb = Some (sent, errored, rb')"
    using r(1) d(1) by (auto simp: sendBatch_def)
  moreover have "rb_inv rb' \<and> rb_entries rb' = drop k (rb_entries rb) @ drop (length sent) (take k (rb_entries rb))"
  proof (cases errored)
    case True
    with r(5) show ?thesis by blast
  next
    case False
    with r(2,3) have "drop (length sent) (take k (rb_entries rb)) = []"
      by auto
    with False r(6) d(2,3) show ?thesis by simp
  qed
  ultimately show ?thesis
    using r by blast
qed

section \<open>Flushing\<close>

lemma flush_batch_ok:
  "(\<And>j. sendOne s (out j) = None) \<Longrightarrow> flush_batch s out i ds = (ds, False)"
  by (induction ds arbitrary: i) simp_all

lemma flushRemaining_ok:
  assumes "rb_inv rb" and ok: "\<And>r j. sendOne s (out r j) = None" and "st_endpoint s \<noteq> ''''"
  shows "\<exists>rb'. flushRemaining s out r rb = Some (rb_entries rb, rb') \<and> rb_inv rb' \<and> rb_entries rb' = []"
  using assms(1)
proof (induction "length (rb_entries rb)" arbitrary: rb r rule: less_induct)
  case less
  let ?k = "drain_count (st_batchSize s)"
  obtain rb1 where d: "Drain rb (st_batchSize s) = Some (take ?k (rb_entries rb), rb1)" "rb_inv rb1"
      "rb_entries rb1 = drop ?k (rb_entries rb)"
    using rb.drain_law [OF less.prems, of "st_batchSize s"] by blast
  show ?case
  proof (cases "rb_entries rb = []")
    case True
    with d show ?thesis by (auto simp: flushRemaining.simps [of s out r rb])
  next
    case False
    then have ne: "take ?k (rb_entries rb) \<noteq> []" by simp
    from False have "length (rb_entries rb1) < length (rb_entries rb)"
      using d(3) by simp
    then obtain rb2 where rb2: "flushRemaining s out (Suc r) rb1 = Some (rb_entries rb1, rb2)"
        "rb_inv rb2" "rb_entries rb2 = []"
      using less.hyps [of rb1 "Suc r"] d(2) by blast
    have "flush_batch s (out r) 0 (take ?k (rb_entries rb)) = (take ?k (rb_entries rb), False)"
      by (rule flush_batch_ok) (rule ok)
    then show ?thesis
      using ne d rb2 assms(3) by (auto simp: flushRemaining.simps [of s out r rb])
  qed
qed

section \<open>Backoff\<close>

lemma nextBackoff_bounds:
  "0 \<le> b \<Longrightarrow> b \<le> mx \<Longrightarrow> second_ns \<le> mx \<Longrightarrow> b \<le> nextBackoff b mx \<and> 0 < nextBackoff b mx \<and> nextBackoff b mx \<le> mx"
  by (auto simp: nextBackoff_def Let_def)

lemma nextBackoff_iterate:
  "(((\<lambda>b. nextBackoff b maxBackoff) ^^ Suc n) 0) = min maxBackoff (2 ^ n * second_ns)"
proof (induction n)
  case 0
  show ?case by (simp add: nextBackoff_def maxBackoff_def)
next
  case (Suc n)
  have "((\<lambda>b. nextBackoff b maxBackoff) ^^ Suc (Suc n)) 0 =
      nextBackoff (((\<lambda>b. nextBackoff b maxBackoff) ^^ Suc n) 0) maxBackoff"
    by simp
  also have "\<dots> = nextBackoff (min maxBackoff (2 ^ n * second_ns)) maxBackoff"
    by (simp only: Suc.IH)
  also have "\<dots> = min maxBackoff (2 ^ Suc n * second_ns)"
  proof -
    have "(1::int) \<le> 2 ^ n" by simp
    then show ?thesis
      by (auto simp: nextBackoff_def maxBackoff_def Let_def min_def simp del: one_le_power)
  qed
  finally show ?case .
qed

end
