(* ===== verification/Rollback.thy ===== *)
theory Rollback
  imports Enforcement Router
begin

text \<open>
  The rollback controller of \<open>src/internal/proxy/rollback\<close>: it undoes executed mitigations whose
  time has expired (\<open>dispatcher.go\<close>) and brings the mitigator's ledger in line with the state of
  the processes (\<open>reconciler.go\<close>, \<open>reconciler_linux.go\<close>). The policy engine, the mitigator and the
  router's registry are shared with the other components, so they are passed through together
  with the outside world.
\<close>

section \<open>Types\<close>

datatype RuntimeState =
    RuntimeStateRunning | RuntimeStateStopped | RuntimeStateZombie | RuntimeStateNotFound | RuntimeStatePaused

datatype LedgerState =
    LedgerStatePaused | LedgerStateThrottled | LedgerStateResumed | LedgerStateOrphanedCleaned | LedgerStateDriftSynced

datatype SyncRemedy = RemedyRollbackExecuted | RemedySynchronizeLedgerToRuntime

record RollbackConfig =
  kc_ReconciliationInterval :: duration
  kc_RollbackCheckInterval :: duration
  kc_BufferSize :: int
  kc_ProcRoot :: gostring

definition RollbackDefaultConfig :: RollbackConfig where
  "RollbackDefaultConfig = \<lparr>
     kc_ReconciliationInterval = 5 * second_ns,
     kc_RollbackCheckInterval = 1 * second_ns,
     kc_BufferSize = 64,
     kc_ProcRoot = ''/proc''\<rparr>"

record ReconciliationSummary =
  rs_ScannedActiveInterventions :: int
  rs_StateDriftDetected :: bool
  rs_ActionsResolvedCount :: int

record ReconciliationDetail =
  rd_TargetPID :: int
  rd_ContainerID :: gostring
  rd_PreviousLedgerState :: LedgerState
  rd_ActualRuntimeState :: RuntimeState
  rd_RemedyApplied :: SyncRemedy
  rd_FinalSynchronizedState :: LedgerState

record EngineHealth =
  eh_TotalActiveLocksHeld :: int
  eh_SyncLatencyMs :: real

record SyncEvent =
  sy_SyncEventID :: gostring
  sy_Timestamp :: int
  sy_ReconciliationSummary :: ReconciliationSummary
  sy_ReconciliationDetails :: "ReconciliationDetail list"
  sy_EngineHealth :: EngineHealth

definition generateSyncEventID :: "bytes \<Rightarrow> gostring" where
  "generateSyncEventID buf = ''sync_'' @ hex_encode buf"

record RollbackController =
  kt_cfg :: RollbackConfig
  kt_events :: "SyncEvent list"
  kt_console :: "SyncEvent list"

definition NewRollback :: "RollbackConfig \<Rightarrow> RollbackController" where
  "NewRollback cfg =
     (let cfg = (if kc_BufferSize cfg \<le> 0 then cfg\<lparr>kc_BufferSize := 64\<rparr> else cfg);
          cfg = (if kc_ReconciliationInterval cfg \<le> 0 then cfg\<lparr>kc_ReconciliationInterval := 5 * second_ns\<rparr> else cfg);
          cfg = (if kc_RollbackCheckInterval cfg \<le> 0 then cfg\<lparr>kc_RollbackCheckInterval := 1 * second_ns\<rparr> else cfg);
          cfg = (if kc_ProcRoot cfg = '''' then cfg\<lparr>kc_ProcRoot := ''/proc''\<rparr> else cfg)
      in \<lparr>kt_cfg = cfg, kt_events = [], kt_console = []\<rparr>)"

definition rollback_capacity :: "RollbackController \<Rightarrow> nat" where
  "rollback_capacity ctl = nat (kc_BufferSize (kt_cfg ctl))"

definition rollback_publish :: "RollbackController \<Rightarrow> SyncEvent \<Rightarrow> RollbackController" where
  "rollback_publish ctl evt = ctl\<lparr>kt_events := try_send (rollback_capacity ctl) (kt_events ctl) evt\<rparr>"

definition rollback_emitEvent :: "RollbackController \<Rightarrow> SyncEvent \<Rightarrow> RollbackController" where
  "rollback_emitEvent ctl evt = (rollback_publish ctl evt)\<lparr>kt_console := kt_console ctl @ [evt]\<rparr>"

interpretation rollback_sink: event_sink rollback_publish kt_events rollback_capacity
  by unfold_locales (simp_all add: rollback_publish_def rollback_capacity_def)

text \<open>What the controller shares with the rest of the agent.\<close>

record Shared =
  sh_policy :: PolicyEngine
  sh_mit :: Mitigator
  sh_reg :: Registry
  sh_world :: World

text \<open>The clock readings and random bytes of one check.\<close>

record sync_inputs =
  si_listed :: time_ns
  si_now :: int
  si_bytes :: bytes

definition sync_event :: "sync_inputs \<Rightarrow> nat \<Rightarrow> bool \<Rightarrow> ReconciliationDetail list \<Rightarrow> SyncEvent" where
  "sync_event x scanned drift details = \<lparr>
     sy_SyncEventID = generateSyncEventID (si_bytes x),
     sy_Timestamp = si_now x,
     sy_ReconciliationSummary = \<lparr>
       rs_ScannedActiveInterventions = int scanned,
       rs_StateDriftDetected = drift,
       rs_ActionsResolvedCount = int (length details)\<rparr>,
     sy_ReconciliationDetails = details,
     sy_EngineHealth = \<lparr>eh_TotalActiveLocksHeld = 0, eh_SyncLatencyMs = 0\<rparr>\<rparr>"

section \<open>Rolling back\<close>

definition rollback_detail :: "MitigationRecord \<Rightarrow> LedgerState \<Rightarrow> ReconciliationDetail" where
  "rollback_detail rec prevState = \<lparr>
     rd_TargetPID = mr_TargetPID rec,
     rd_ContainerID = mr_ContainerID rec,
     rd_PreviousLedgerState = prevState,
     rd_ActualRuntimeState = RuntimeStateRunning,
     rd_RemedyApplied = RemedyRollbackExecuted,
     rd_FinalSynchronizedState = LedgerStateResumed\<rparr>"

text \<open>The undoing itself: the previous state, or the error.\<close>

definition undo_action :: "Shared \<Rightarrow> MitigationRecord \<Rightarrow> (go_error + LedgerState) \<times> Shared" where
  "undo_action sh rec =
     (case mr_ActionType rec of
        ActionSIGSTOP \<Rightarrow>
          (let (err, w) = UnfreezeProcess (sh_world sh) (mr_TargetPID rec); sh = sh\<lparr>sh_world := w\<rparr>
           in case err of
                Some e \<Rightarrow> (Inl (wrap_error (''unfreeze pid '' @ format_int (mr_TargetPID rec)) e), sh)
              | None \<Rightarrow> (Inr LedgerStatePaused, sh))
      | OtherAction s \<Rightarrow> (let text = ''unknown action type: '' @ s in (Inl (GoError text (SystemError text)), sh))
      | act \<Rightarrow>
          (if act = ActionContainerPause \<or> act = ActionCgroupFreeze
           then
             (let (err, m, w) = RollbackPID (sh_mit sh) (sh_world sh) (mr_TargetPID rec) (mr_ContainerID rec);
                  sh = sh\<lparr>sh_mit := m, sh_world := w\<rparr>
              in case err of
                   Some e \<Rightarrow> (Inl (wrap_error (''rollback container pid '' @ format_int (mr_TargetPID rec)) e), sh)
                 | None \<Rightarrow> (Inr LedgerStatePaused, sh))
           else (Inr LedgerStateThrottled, sh\<lparr>sh_reg := Deactivate (sh_reg sh) (mr_TargetPID rec)\<rparr>)))"

definition dispatchRollback :: "Shared \<Rightarrow> MitigationRecord \<Rightarrow> (go_error + ReconciliationDetail) \<times> Shared" where
  "dispatchRollback sh rec =
     (let (r, sh) = undo_action sh rec
      in case r of
           Inl e \<Rightarrow> (Inl e, sh)
         | Inr prevState \<Rightarrow>
             (Inr (rollback_detail rec prevState), sh\<lparr>sh_policy := Complete (sh_policy sh) (mr_TransactionID rec)\<rparr>))"

fun dispatch_all :: "Shared \<Rightarrow> MitigationRecord list \<Rightarrow> ReconciliationDetail list \<times> Shared" where
  "dispatch_all sh [] = ([], sh)"
| "dispatch_all sh (rec # recs) =
     (let (r, sh) = dispatchRollback sh rec; (details, sh) = dispatch_all sh recs
      in (case r of Inl _ \<Rightarrow> details | Inr detail \<Rightarrow> detail # details, sh))"

definition checkExpired ::
  "record_order \<Rightarrow> RollbackController \<Rightarrow> Shared \<Rightarrow> sync_inputs \<Rightarrow> RollbackController \<times> Shared" where
  "checkExpired ord ctl sh x =
     (let records = ListExecutedExpired ord (pe_ledger (sh_policy sh)) (si_listed x)
      in if length records = 0 then (ctl, sh)
         else
           (let (details, sh) = dispatch_all sh records
            in if length details = 0 then (ctl, sh)
               else (rollback_emitEvent ctl (sync_event x (length records) False details), sh)))"

section \<open>Reconciling\<close>

text \<open>The controller's own \<open>itoa\<close>, which drops the sign.\<close>

definition rollback_itoa :: "int \<Rightarrow> gostring" where
  "rollback_itoa n =
     (if n = 0 then ''0''
      else (let n = (if n < 0 then to_i64 (- n) else n) in rev (digits_rev n)))"

fun line_state :: "gostring list \<Rightarrow> RuntimeState" where
  "line_state [] = RuntimeStateRunning"
| "line_state (line # lines) =
     (if HasPrefix line ''State:''
      then (let state = TrimSpace (drop 6 line)
            in if length state > 0 \<and> state ! 0 = CHR ''T'' then RuntimeStateStopped
               else if length state > 0 \<and> state ! 0 = CHR ''Z'' then RuntimeStateZombie
               else RuntimeStateRunning)
      else line_state lines)"

definition probeProcessState :: "Host \<Rightarrow> int \<Rightarrow> gostring \<Rightarrow> RuntimeState" where
  "probeProcessState h pid procRoot =
     (let procPath = path_Join [procRoot, rollback_itoa pid]
      in if \<not> h_exists h procPath then RuntimeStateNotFound
         else (case h_readFile h (path_Join [procPath, ''status'']) of
                 None \<Rightarrow> RuntimeStateRunning
               | Some data \<Rightarrow> line_state (split_on (CHR 10) data)))"

fun ledgerStateFromAction :: "ActionState \<Rightarrow> LedgerState" where
  "ledgerStateFromAction ActionPaused = LedgerStatePaused"
| "ledgerStateFromAction ActionThrottle = LedgerStateThrottled"
| "ledgerStateFromAction ActionResumed = LedgerStateResumed"
| "ledgerStateFromAction ActionOrphaned = LedgerStateOrphanedCleaned"
| "ledgerStateFromAction ActionDriftSynced = LedgerStateDriftSynced"

definition reconcile_detail :: "LedgerEntry \<Rightarrow> RuntimeState \<Rightarrow> LedgerState \<Rightarrow> ReconciliationDetail" where
  "reconcile_detail entry runtime final = \<lparr>
     rd_TargetPID = le_PID entry,
     rd_ContainerID = le_ContainerID entry,
     rd_PreviousLedgerState = ledgerStateFromAction (le_State entry),
     rd_ActualRuntimeState = runtime,
     rd_RemedyApplied = RemedySynchronizeLedgerToRuntime,
     rd_FinalSynchronizedState = final\<rparr>"

definition reconcileEntry :: "RollbackController \<Rightarrow> Host \<Rightarrow> LedgerEntry \<Rightarrow> ReconciliationDetail option" where
  "reconcileEntry ctl h entry =
     (let runtime = probeProcessState h (le_PID entry) (kc_ProcRoot (kt_cfg ctl))
      in case runtime of
           RuntimeStateNotFound \<Rightarrow> Some (reconcile_detail entry runtime LedgerStateOrphanedCleaned)
         | RuntimeStateRunning \<Rightarrow> Some (reconcile_detail entry runtime LedgerStateDriftSynced)
         | RuntimeStateStopped \<Rightarrow> None
         | RuntimeStatePaused \<Rightarrow> None
         | _ \<Rightarrow> Some (reconcile_detail entry runtime LedgerStateDriftSynced))"

definition apply_detail :: "Mitigator \<Rightarrow> LedgerEntry \<Rightarrow> ReconciliationDetail \<Rightarrow> Mitigator" where
  "apply_detail m entry detail =
     (case rd_FinalSynchronizedState detail of
        LedgerStateOrphanedCleaned \<Rightarrow> snd (UpdateMitigationState m (le_ReversibilityToken entry) ActionOrphaned)
      | LedgerStateDriftSynced \<Rightarrow> snd (UpdateMitigationState m (le_ReversibilityToken entry) ActionDriftSynced)
      | _ \<Rightarrow> m)"

fun reconcile_all ::
  "RollbackController \<Rightarrow> Host \<Rightarrow> Mitigator \<Rightarrow> LedgerEntry list \<Rightarrow> ReconciliationDetail list \<times> bool \<times> Mitigator" where
  "reconcile_all ctl h m [] = ([], False, m)"
| "reconcile_all ctl h m (entry # entries) =
     (case reconcileEntry ctl h entry of
        None \<Rightarrow> reconcile_all ctl h m entries
      | Some detail \<Rightarrow>
          (let drift = (rd_ActualRuntimeState detail \<noteq> RuntimeStateStopped \<and>
                        rd_FinalSynchronizedState detail \<noteq> ledgerStateFromAction (le_State entry));
               (details, driftDetected, m) = reconcile_all ctl h (apply_detail m entry detail) entries
           in (detail # details, drift \<or> driftDetected, m)))"

definition reconcileOnce ::
  "entry_order \<Rightarrow> RollbackController \<Rightarrow> Host \<Rightarrow> Mitigator \<Rightarrow> sync_inputs \<Rightarrow> RollbackController \<times> Mitigator" where
  "reconcileOnce ord ctl h m x =
     (let entries = ActiveMitigations ord m
      in if length entries = 0 then (ctl, m)
         else
           (let (details, driftDetected, m) = reconcile_all ctl h m entries
            in if length details = 0 then (ctl, m)
               else (rollback_emitEvent ctl (sync_event x (length entries) driftDetected details), m)))"

section \<open>What a rollback leaves\<close>

text \<open>What has been attempted since an earlier state.\<close>

definition attempts_since :: "Shared \<Rightarrow> Shared \<Rightarrow> (Attempt \<times> bool) set" where
  "attempts_since sh sh' = set (drop (length (w_log (sh_world sh))) (w_log (sh_world sh')))"

text \<open>Of one record: that its action has been undone since then, or why it could not be.\<close>

definition undone :: "MitigationRecord \<Rightarrow> Shared \<Rightarrow> Shared \<Rightarrow> bool" where
  "undone rec sh sh' \<longleftrightarrow>
     (case mr_ActionType rec of
        ActionSIGSTOP \<Rightarrow> (SendSignal SIGCONT (mr_TargetPID rec), True) \<in> attempts_since sh sh'
      | OtherAction _ \<Rightarrow> False
      | ActionAPIRouteSwap \<Rightarrow> rg_entries (sh_reg sh') (mr_TargetPID rec) = None
      | ActionTokenChop \<Rightarrow> rg_entries (sh_reg sh') (mr_TargetPID rec) = None
      | _ \<Rightarrow> (\<exists>a. (a, True) \<in> attempts_since sh sh' \<and>
              (a = SendSignal SIGCONT (mr_TargetPID rec) \<or> container_attempt (mr_ContainerID rec) False a)))"

definition blocked :: "MitigationRecord \<Rightarrow> Shared \<Rightarrow> Shared \<Rightarrow> bool" where
  "blocked rec sh sh' \<longleftrightarrow> (\<exists>s. mr_ActionType rec = OtherAction s) \<or>
     (SendSignal SIGCONT (mr_TargetPID rec), False) \<in> attempts_since sh sh'"

definition grows :: "Shared \<Rightarrow> Shared \<Rightarrow> bool" where
  "grows sh sh' \<longleftrightarrow> prefix (w_log (sh_world sh)) (w_log (sh_world sh')) \<and>
     dom (rg_entries (sh_reg sh')) \<subseteq> dom (rg_entries (sh_reg sh)) \<and> w_host (sh_world sh') = w_host (sh_world sh)"

lemma grows_refl [simp]: "grows sh sh"
  by (simp add: grows_def)

lemma grows_trans: "grows sh sh1 \<Longrightarrow> grows sh1 sh2 \<Longrightarrow> grows sh sh2"
  unfolding grows_def by (metis subset_trans prefix_order.trans)

lemma shared_policy [simp]:
  "grows sh (sh'\<lparr>sh_policy := e\<rparr>) = grows sh sh'" "undone rec sh (sh'\<lparr>sh_policy := e\<rparr>) = undone rec sh sh'"
  by (simp_all add: grows_def undone_def attempts_since_def split: ActionType.splits)

lemma attempts_mono:
  assumes "grows sh0 sh" "grows sh sh'" "grows sh' sh1" "p \<in> attempts_since sh sh'"
  shows "p \<in> attempts_since sh0 sh1"
proof -
  obtain a b c where "w_log (sh_world sh) = w_log (sh_world sh0) @ a" "w_log (sh_world sh') = w_log (sh_world sh) @ b"
    "w_log (sh_world sh1) = w_log (sh_world sh') @ c"
    using assms(1-3) by (auto simp: grows_def prefix_def)
  then show ?thesis using assms(4) by (simp add: attempts_since_def)
qed

lemma undone_mono: "grows sh0 sh \<Longrightarrow> grows sh sh' \<Longrightarrow> grows sh' sh1 \<Longrightarrow> undone rec sh sh' \<Longrightarrow> undone rec sh0 sh1"
  using attempts_mono [of sh0 sh sh' sh1]
  by (cases "mr_ActionType rec") (auto simp: undone_def grows_def dom_def)

lemma blocked_mono: "grows sh0 sh \<Longrightarrow> grows sh sh' \<Longrightarrow> grows sh' sh1 \<Longrightarrow> blocked rec sh sh' \<Longrightarrow> blocked rec sh0 sh1"
  using attempts_mono [of sh0 sh sh' sh1] by (auto simp: blocked_def)

lemma RollbackPID_result:
  assumes "RollbackPID m w pid cid = (err, m', w')"
  shows "w_host w' = w_host w \<and> (\<exists>new. w_log w' = w_log w @ new \<and>
    (err = None \<longrightarrow> (\<exists>a. (a, True) \<in> set new \<and> (a = SendSignal SIGCONT pid \<or> container_attempt cid False a))) \<and>
    (err \<noteq> None \<longrightarrow> (SendSignal SIGCONT pid, False) \<in> set new))"
proof -
  consider (unpaused) cm where "Unpause (mg_cm m) w cid = (None, cm, w')" "err = None"
    | (signalled) w1 new where "UnfreezeProcess w1 pid = (err, w')" "w_log w1 = w_log w @ new" "w_host w1 = w_host w"
  proof (cases "cid = ''''")
    case True
    then show ?thesis using assms that(2) [of w "[]"] by (auto simp: RollbackPID_def Let_def split: prod.splits)
  next
    case False
    obtain e cm w1 where u: "Unpause (mg_cm m) w cid = (e, cm, w1)" by (metis prod.collapse)
    obtain new where "w_log w1 = w_log w @ new" "w_host w1 = w_host w"
      using Unpause_tried [OF u] by (auto simp: tried_def)
    then show ?thesis
      using assms u False that by (auto simp: RollbackPID_def Let_def split: prod.splits if_splits)
  qed
  then show ?thesis
  proof cases
    case unpaused
    have "w_host w' = w_host w" using Unpause_tried [OF unpaused(1)] by (simp add: tried_def)
    then show ?thesis using tried_accepted [OF Unpause_tried [OF unpaused(1)]] unpaused(2) by auto
  next
    case signalled
    then show ?thesis using UnfreezeProcess_result [OF signalled(1)] by auto
  qed
qed

lemma undo_action_result:
  assumes "undo_action sh rec = (r, sh')"
  shows "sh_policy sh' = sh_policy sh \<and> grows sh sh' \<and> (case r of Inl _ \<Rightarrow> blocked rec sh sh' | Inr _ \<Rightarrow> undone rec sh sh')"
proof (cases "mr_ActionType rec")
  case ActionSIGSTOP
  obtain err w where u: "UnfreezeProcess (sh_world sh) (mr_TargetPID rec) = (err, w)" by (metis prod.collapse)
  show ?thesis
    using assms ActionSIGSTOP u UnfreezeProcess_result [OF u]
    by (cases err) (auto simp: undo_action_def grows_def blocked_def undone_def attempts_since_def)
next
  case (OtherAction s)
  then show ?thesis using assms by (auto simp: undo_action_def blocked_def Let_def)
next
  case ActionContainerPause
  obtain err m w where u: "RollbackPID (sh_mit sh) (sh_world sh) (mr_TargetPID rec) (mr_ContainerID rec) = (err, m, w)"
    by (metis prod.collapse)
  show ?thesis
    using assms ActionContainerPause u RollbackPID_result [OF u]
    by (cases err) (auto simp: undo_action_def grows_def blocked_def undone_def attempts_since_def)
next
  case ActionCgroupFreeze
  obtain err m w where u: "RollbackPID (sh_mit sh) (sh_world sh) (mr_TargetPID rec) (mr_ContainerID rec) = (err, m, w)"
    by (metis prod.collapse)
  show ?thesis
    using assms ActionCgroupFreeze u RollbackPID_result [OF u]
    by (cases err) (auto simp: undo_action_def grows_def blocked_def undone_def attempts_since_def)
qed (use assms in \<open>auto simp: undo_action_def grows_def undone_def Deactivate_def dom_def split: if_splits\<close>)

definition complete_record :: "MitigationRecord \<Rightarrow> MitigationRecord" where
  "complete_record rec = rec\<lparr>mr_Status := StatusCompleted\<rparr>"

abbreviation shared_records :: "Shared \<Rightarrow> gostring \<rightharpoonup> MitigationRecord" where
  "shared_records sh \<equiv> tl_records (pe_ledger (sh_policy sh))"

lemma Complete_records:
  "tl_records (pe_ledger (Complete e tx)) t =
     (if t = tx then map_option complete_record (tl_records (pe_ledger e) tx) else tl_records (pe_ledger e) t)"
  by (cases "tl_records (pe_ledger e) tx") (auto simp: Complete_def UpdateStatus_lookup complete_record_def)

lemma dispatchRollback_result:
  assumes "dispatchRollback sh rec = (r, sh')"
  shows "grows sh sh' \<and> (\<forall>tx. tx \<noteq> mr_TransactionID rec \<longrightarrow> shared_records sh' tx = shared_records sh tx) \<and>
    (case r of
       Inl _ \<Rightarrow> blocked rec sh sh' \<and> shared_records sh' = shared_records sh
     | Inr _ \<Rightarrow> undone rec sh sh' \<and>
         shared_records sh' (mr_TransactionID rec) = map_option complete_record (shared_records sh (mr_TransactionID rec)))"
proof -
  obtain q sh1 where u: "undo_action sh rec = (q, sh1)" by (metis prod.collapse)
  then show ?thesis
    using undo_action_result [OF u] assms by (cases q) (auto simp: dispatchRollback_def Complete_records)
qed

lemma dispatch_all_result:
  assumes "dispatch_all sh recs = (details, sh')" "distinct (map mr_TransactionID recs)"
  shows "grows sh sh' \<and> (\<forall>tx. tx \<notin> mr_TransactionID ` set recs \<longrightarrow> shared_records sh' tx = shared_records sh tx) \<and>
    (\<forall>rec \<in> set recs. let tx = mr_TransactionID rec in
       undone rec sh sh' \<and> shared_records sh' tx = map_option complete_record (shared_records sh tx) \<or>
       blocked rec sh sh' \<and> shared_records sh' tx = shared_records sh tx)"
  using assms
proof (induction recs arbitrary: sh details)
  case (Cons rec recs)
  obtain r sh1 where d: "dispatchRollback sh rec = (r, sh1)" by (metis prod.collapse)
  obtain ds where a: "dispatch_all sh1 recs = (ds, sh')"
    using Cons.prems(1) d by (auto split: prod.splits)
  note one = dispatchRollback_result [OF d]
  note rest = Cons.IH [OF a]
  have dist: "distinct (map mr_TransactionID recs)" and new: "mr_TransactionID rec \<notin> mr_TransactionID ` set recs"
    using Cons.prems(2) by auto
  have g: "grows sh sh1" "grows sh1 sh'" "grows sh sh'" using one rest [OF dist] grows_trans by blast+
  have up: "undone x sh1 sh' \<Longrightarrow> undone x sh sh'" "blocked x sh1 sh' \<Longrightarrow> blocked x sh sh'" for x
    using undone_mono [OF g(1,2) grows_refl] blocked_mono [OF g(1,2) grows_refl] by blast+
  have head: "undone rec sh sh' \<and> shared_records sh' (mr_TransactionID rec) =
      map_option complete_record (shared_records sh (mr_TransactionID rec)) \<or>
    blocked rec sh sh' \<and> shared_records sh' (mr_TransactionID rec) = shared_records sh (mr_TransactionID rec)"
    using one rest [OF dist] new undone_mono [OF grows_refl g(1,2)] blocked_mono [OF grows_refl g(1,2)] by (cases r) auto
  have same: "shared_records sh1 (mr_TransactionID x) = shared_records sh (mr_TransactionID x)" if "x \<in> set recs" for x
    using one new that by (metis image_eqI)
  have tail: "undone x sh sh' \<and> shared_records sh' (mr_TransactionID x) = map_option complete_record (shared_records sh (mr_TransactionID x)) \<or>
      blocked x sh sh' \<and> shared_records sh' (mr_TransactionID x) = shared_records sh (mr_TransactionID x)" if "x \<in> set recs" for x
    using rest [OF dist] same [OF that] up [of x] that unfolding Let_def by metis
  show ?case using g(3) head tail rest [OF dist] one by (auto simp: Let_def)
qed simp

lemma range_values_keys:
  assumes "map_range ord" "finite (dom m)" "\<And>k v. m k = Some v \<Longrightarrow> key v = k"
  shows "map key (range_values ord m) = ord m"
proof -
  have "map key (range_values ord m) = map fst (range_pairs ord m)"
    using map_range.set_range_pairs [OF assms(1,2)] assms(3) by (auto simp: range_values_def)
  then show ?thesis by (simp add: map_range.map_fst_range_pairs [OF assms(1,2)])
qed

lemma distinct_range_keys:
  assumes "map_range ord" "finite (dom m)" "\<And>k v. m k = Some v \<Longrightarrow> key v = k"
  shows "distinct (map key (filter P (range_values ord m)))"
  by (rule distinct_map_filter) (simp add: range_values_keys [OF assms] map_range.distinct_ord [OF assms(1,2)])

lemma expired_records:
  assumes "map_range ord" "ledger_inv led"
  shows "distinct (map mr_TransactionID (ListExecutedExpired ord led now))"
    and "set (ListExecutedExpired ord led now) =
      {rec. tl_records led (mr_TransactionID rec) = Some rec \<and> mr_Status rec = StatusExecuted \<and> mr_Expiry rec < now}"
proof -
  note fin = ledger_inv_finite [OF assms(2)]
  have key: "\<And>k v. tl_records led k = Some v \<Longrightarrow> mr_TransactionID v = k"
    using ledger_inv_key [OF assms(2)] by blast
  show "distinct (map mr_TransactionID (ListExecutedExpired ord led now))"
    unfolding ListExecutedExpired_def by (rule distinct_range_keys [OF assms(1) fin key])
  show "set (ListExecutedExpired ord led now) =
      {rec. tl_records led (mr_TransactionID rec) = Some rec \<and> mr_Status rec = StatusExecuted \<and> mr_Expiry rec < now}"
    using key by (auto simp: ListExecutedExpired_def map_range.set_range_values [OF assms(1) fin] ran_def)
qed

lemma checkExpired_shared:
  "snd (checkExpired ord ctl sh x) = snd (dispatch_all sh (ListExecutedExpired ord (pe_ledger (sh_policy sh)) (si_listed x)))"
  by (auto simp: checkExpired_def case_prod_unfold Let_def)

section \<open>Properties of the rollback\<close>

text \<open>What a check does with one record.\<close>

lemma settled_record:
  assumes "map_range ord" "ledger_inv (pe_ledger (sh_policy sh))"
    and "checkExpired ord ctl sh x = (ctl', sh')" "shared_records sh tx = Some rec"
  shows "if mr_Status rec = StatusExecuted \<and> mr_Expiry rec < si_listed x
    then undone rec sh sh' \<and> shared_records sh' tx = Some (complete_record rec) \<or>
      blocked rec sh sh' \<and> shared_records sh' tx = Some rec
    else shared_records sh' tx = Some rec"
proof -
  let ?recs = "ListExecutedExpired ord (pe_ledger (sh_policy sh)) (si_listed x)"
  note listed = expired_records [OF assms(1,2), of "si_listed x"]
  have tx: "mr_TransactionID rec = tx" using ledger_inv_key [OF assms(2,4)] by simp
  have "snd (dispatch_all sh ?recs) = sh'"
    using checkExpired_shared [of ord ctl sh x] assms(3) by simp
  then obtain details where "dispatch_all sh ?recs = (details, sh')"
    by (cases "dispatch_all sh ?recs") simp
  note settled = dispatch_all_result [OF this listed(1)]
  show ?thesis
  proof (cases "mr_Status rec = StatusExecuted \<and> mr_Expiry rec < si_listed x")
    case True
    then have "rec \<in> set ?recs" using listed(2) tx assms(4) by simp
    then have "undone rec sh sh' \<and> shared_records sh' tx = map_option complete_record (shared_records sh tx) \<or>
        blocked rec sh sh' \<and> shared_records sh' tx = shared_records sh tx"
      using settled tx unfolding Let_def by blast
    then show ?thesis using True assms(4) by simp
  next
    case False
    have "tx \<notin> mr_TransactionID ` set ?recs"
    proof
      assume "tx \<in> mr_TransactionID ` set ?recs"
      then obtain rec' where "rec' \<in> set ?recs" "tx = mr_TransactionID rec'" by blast
      then have "shared_records sh tx = Some rec'" "mr_Status rec' = StatusExecuted \<and> mr_Expiry rec' < si_listed x"
        using listed(2) by simp_all
      then show False using False assms(4) by simp
    qed
    then have "shared_records sh' tx = shared_records sh tx" using settled by blast
    with False assms(4) show ?thesis by auto
  qed
qed


text \<open>A record of a stopped process that expired at time 3.\<close>

definition demo_intent_of :: "int \<Rightarrow> MitigationIntent" where
  "demo_intent_of pid = mit_intent pid '''' '''' ''HOST_MEMORY_LEAK''"

definition stopped_ledger :: TransactionLedger where
  "stopped_ledger = snd (Register (pe_ledger demo_engine) (demo_intent_of 4242) StatusExecuted [] 0 0 '''' 3 [])"

definition stopped_shared :: Shared where
  "stopped_shared = \<lparr>sh_policy = demo_engine\<lparr>pe_ledger := stopped_ledger\<rparr>, sh_mit = demo_mitigator,
     sh_reg = NewRegistry 0, sh_world = demo_world\<rparr>"

definition demo_check :: sync_inputs where
  "demo_check = \<lparr>si_listed = 9, si_now = 0, si_bytes = []\<rparr>"

lemma stopped_record:
  "\<exists>rec. tl_records stopped_ledger (generateTxID []) = Some rec \<and> mr_Status rec = StatusExecuted \<and> mr_Expiry rec = 3 \<and>
     mr_TargetPID rec = 4242 \<and> mr_ActionType rec = ActionSIGSTOP"
  by (simp add: stopped_ledger_def Register_def Let_def demo_intent_of_def mit_intent_def to_i64_def)

lemma stopped_ledger_inv: "ledger_inv stopped_ledger"
proof -
  have "ledger_inv (pe_ledger demo_engine)"
    by (simp add: demo_engine_def NewPolicyEngine_def PolicyDefaultConfig_def Let_def ledger_inv_New)
  then show ?thesis
    unfolding stopped_ledger_def by (rule ledger_inv_Register) (simp add: demo_engine_ledger)
qed


text \<open>
  Sweeping the policy ledger takes expired executed transactions away from the rollback: after
  a sweep at a given time no transaction that had expired by then is in the ledger, and a check
  at that time does nothing at all, whatever is still stopped.
\<close>

lemma sweep_forgets_mitigations:
  assumes "map_range ord" "ledger_inv led" "sweep ord t led = Some led'"
  shows "(\<forall>tx rec. tl_records led tx = Some rec \<longrightarrow> mr_Expiry rec < t \<longrightarrow> tl_records led' tx = None) \<and>
    checkExpired ord ctl (sh\<lparr>sh_policy := e\<lparr>pe_ledger := led'\<rparr>\<rparr>) (x\<lparr>si_listed := t\<rparr>) =
      (ctl, sh\<lparr>sh_policy := e\<lparr>pe_ledger := led'\<rparr>\<rparr>)"
proof -
  have inv: "ledger_inv led'" and fresh: "\<And>tx rec. tl_records led' tx = Some rec \<Longrightarrow> tl_records led tx = Some rec \<and> t \<le> mr_Expiry rec"
    using swept_sub [OF assms] by blast+
  have "set (ListExecutedExpired ord led' t) = {}"
    unfolding expired_records(2) [OF assms(1) inv] using fresh by fastforce
  then have "ListExecutedExpired ord led' t = []" by simp
  moreover have "tl_records led' tx = None" if "tl_records led tx = Some rec" "mr_Expiry rec < t" for tx rec
    using fresh [of tx] that by (cases "tl_records led' tx") force+
  ultimately show ?thesis by (auto simp: checkExpired_def)
qed

section \<open>Properties of the reconciliation\<close>

text \<open>The state that one entry should have after a look at its process.\<close>

definition reconciled_state :: "RollbackController \<Rightarrow> Host \<Rightarrow> LedgerEntry \<Rightarrow> ActionState" where
  "reconciled_state ctl h entry =
     (if le_State entry \<noteq> ActionPaused \<and> le_State entry \<noteq> ActionThrottle then le_State entry
      else (case probeProcessState h (le_PID entry) (kc_ProcRoot (kt_cfg ctl)) of
              RuntimeStateNotFound \<Rightarrow> ActionOrphaned
            | RuntimeStateStopped \<Rightarrow> le_State entry
            | RuntimeStatePaused \<Rightarrow> le_State entry
            | _ \<Rightarrow> ActionDriftSynced))"

lemma apply_reconciled:
  assumes "le_State entry = ActionPaused \<or> le_State entry = ActionThrottle"
    and "ml_entries (mg_ledger m) (le_ReversibilityToken entry) = Some entry"
  shows "ml_entries (mg_ledger (case reconcileEntry ctl h entry of None \<Rightarrow> m | Some d \<Rightarrow> apply_detail m entry d)) =
    (ml_entries (mg_ledger m))(le_ReversibilityToken entry \<mapsto> entry\<lparr>le_State := reconciled_state ctl h entry\<rparr>)"
  using assms
  by (cases "probeProcessState h (le_PID entry) (kc_ProcRoot (kt_cfg ctl))")
    (auto simp: reconcileEntry_def apply_detail_def reconcile_detail_def reconciled_state_def UpdateMitigationState_def
      UpdateState_def Let_def case_prod_unfold)

lemma reconcile_all_entries:
  assumes "reconcile_all ctl h m entries = (details, drift, m')" "distinct (map le_ReversibilityToken entries)"
    and "\<And>entry. entry \<in> set entries \<Longrightarrow> (le_State entry = ActionPaused \<or> le_State entry = ActionThrottle) \<and>
      ml_entries (mg_ledger m) (le_ReversibilityToken entry) = Some entry"
  shows "ml_entries (mg_ledger m') token =
    (if token \<in> le_ReversibilityToken ` set entries
     then map_option (\<lambda>entry. entry\<lparr>le_State := reconciled_state ctl h entry\<rparr>) (ml_entries (mg_ledger m) token)
     else ml_entries (mg_ledger m) token)"
  using assms
proof (induction entries arbitrary: m details drift)
  case (Cons entry entries)
  let ?m = "case reconcileEntry ctl h entry of None \<Rightarrow> m | Some d \<Rightarrow> apply_detail m entry d"
  obtain ds dr where r: "reconcile_all ctl h ?m entries = (ds, dr, m')"
    using Cons.prems(1) by (auto split: option.splits prod.splits)
  have e: "le_State entry = ActionPaused \<or> le_State entry = ActionThrottle"
      "ml_entries (mg_ledger m) (le_ReversibilityToken entry) = Some entry"
    using Cons.prems(3) [of entry] by simp_all
  note upd = apply_reconciled [OF e, of ctl h]
  have "le_ReversibilityToken x \<noteq> le_ReversibilityToken entry" if "x \<in> set entries" for x
    using Cons.prems(2) that by (metis distinct.simps(2) image_eqI list.simps(9) set_map)
  then have ok: "(le_State x = ActionPaused \<or> le_State x = ActionThrottle) \<and>
      ml_entries (mg_ledger ?m) (le_ReversibilityToken x) = Some x" if "x \<in> set entries" for x
    using Cons.prems(3) [of x] that unfolding upd by simp
  have "distinct (map le_ReversibilityToken entries)" using Cons.prems(2) by simp
  from Cons.IH [OF r this ok] show ?case
    using e(2) Cons.prems(2) unfolding upd by auto
qed simp

text \<open>
  One reconciliation gives every entry of the mitigator's ledger the state its process calls
  for: an active entry whose process is gone becomes ORPHANED_CLEANED, one whose process is
  stopped keeps its state, and any other active entry becomes DRIFT_SYNCED; entries that are not
  active keep their state. So an entry whose container is frozen, while its processes are not in
  the state T, is taken for running.
\<close>

lemma reconcile_classifies:
  assumes "map_range ord" "mit_ledger_inv (mg_ledger m)" "reconcileOnce ord ctl h m x = (ctl', m')"
  shows "ml_entries (mg_ledger m') token =
    map_option (\<lambda>entry. entry\<lparr>le_State := reconciled_state ctl h entry\<rparr>) (ml_entries (mg_ledger m) token)"
proof -
  let ?entries = "ActiveMitigations ord m"
  have fin: "finite (dom (ml_entries (mg_ledger m)))"
    and key: "\<And>k v. ml_entries (mg_ledger m) k = Some v \<Longrightarrow> le_ReversibilityToken v = k"
    using assms(2) by (auto simp: mit_ledger_inv_def)
  have dist: "distinct (map le_ReversibilityToken ?entries)"
    unfolding ActiveMitigations_def mit_ListActive_def by (rule distinct_range_keys [OF assms(1) fin key])
  have active: "entry \<in> set ?entries \<longleftrightarrow>
      ml_entries (mg_ledger m) (le_ReversibilityToken entry) = Some entry \<and>
      (le_State entry = ActionPaused \<or> le_State entry = ActionThrottle)" for entry
    using key by (auto simp: ActiveMitigations_def mit_ListActive_def map_range.set_range_values [OF assms(1) fin] ran_def)
  obtain details drift where r: "reconcile_all ctl h m ?entries = (details, drift, m')"
    using assms(3) by (auto simp: reconcileOnce_def Let_def split: prod.splits if_splits)
  have "ml_entries (mg_ledger m') token =
    (if token \<in> le_ReversibilityToken ` set ?entries
     then map_option (\<lambda>entry. entry\<lparr>le_State := reconciled_state ctl h entry\<rparr>) (ml_entries (mg_ledger m) token)
     else ml_entries (mg_ledger m) token)"
    by (rule reconcile_all_entries [OF r dist]) (use active in blast)
  moreover have "entry\<lparr>le_State := reconciled_state ctl h entry\<rparr> = entry"
    if "ml_entries (mg_ledger m) token = Some entry" "token \<notin> le_ReversibilityToken ` set ?entries" for entry
    using that key [OF that(1)] active [of entry] by (auto simp: reconciled_state_def)
  ultimately show ?thesis by (cases "ml_entries (mg_ledger m) token") auto
qed

end
