(* ===== verification/Engine.thy ===== *)
theory Engine
  imports Settings Proxy Collector Pipeline Enforcement Rollback
begin

text \<open>
  The agent: how \<open>src/internal/proxy/engine\<close> builds the components from the configuration, routes
  snapshots and alerts between them, collects their events in the ring buffer and answers its
  dashboard; with the wiring of the pipeline (\<open>src/internal/proxy/pipeline/pipeline.go\<close>). The
  channels and the ring buffer that components share belong to the pipeline: a step hands them to
  the component and takes them back. A panic is \<open>None\<close>.
\<close>

section \<open>The pipeline\<close>

record Pipeline =
  pp_AgentID :: gostring
  pp_AuthToken :: gostring
  pp_SnapshotCh :: "bytes list"
  pp_TokenCh :: "TokenUsageEvent list"
  pp_RingBuf :: RingBuffer
  pp_streamer :: "Streamer option"

definition NewPipeline :: "gostring \<Rightarrow> gostring \<Rightarrow> int \<Rightarrow> Pipeline" where
  "NewPipeline agentID authToken ringBufMaxMB =
     (let ringBufMaxMB = (if ringBufMaxMB \<le> 0 then 50 else ringBufMaxMB);
          maxBytes = to_i64 (ringBufMaxMB * 1024 * 1024)
      in \<lparr>pp_AgentID = agentID, pp_AuthToken = authToken, pp_SnapshotCh = [], pp_TokenCh = [],
          pp_RingBuf = NewRingBuffer maxBytes, pp_streamer = None\<rparr>)"

definition pipeline_Start :: "Pipeline \<Rightarrow> Pipeline" where
  "pipeline_Start p = p\<lparr>pp_streamer := Some (NewStreamer '''' (pp_AuthToken p))\<rparr>"

definition SetUpstreamEndpoint :: "Pipeline \<Rightarrow> gostring \<Rightarrow> Pipeline" where
  "SetUpstreamEndpoint p endpoint = p\<lparr>pp_streamer := map_option (\<lambda>s. s\<lparr>st_endpoint := endpoint\<rparr>) (pp_streamer p)\<rparr>"

definition pipeline_Stats :: "Pipeline \<Rightarrow> int \<times> int \<times> int \<times> int" where
  "pipeline_Stats p = (Len (pp_RingBuf p), Bytes (pp_RingBuf p), 0, 0)"

text \<open>A call of the aggregator, on the channels and the ring buffer of the pipeline.\<close>

definition pipeline_aggregate ::
  "(bytes \<Rightarrow> bytes) \<Rightarrow> (bytes \<Rightarrow> Snapshot option) \<Rightarrow> (UpstreamPayload \<Rightarrow> bytes option) \<Rightarrow> Pipeline \<Rightarrow> Pipeline option" where
  "pipeline_aggregate sha256 decode encode p =
     map_option (\<lambda>a. p\<lparr>pp_SnapshotCh := ag_snapshotCh a, pp_TokenCh := ag_tokenCh a, pp_RingBuf := ag_ringBuf a\<rparr>)
       (aggregate sha256 decode encode
         \<lparr>ag_agentID = pp_AgentID p, ag_authToken = pp_AuthToken p, ag_snapshotCh = pp_SnapshotCh p,
          ag_tokenCh = pp_TokenCh p, ag_ringBuf = pp_RingBuf p\<rparr>)"

section \<open>What the dashboard shows\<close>

record ImpactMetrics =
  im_VRAMLeakBytesPerSec :: real
  im_TokenWasteCount :: int

record AnomalyEntry =
  an_PID :: int
  an_State :: gostring
  an_ImpactMetrics :: ImpactMetrics

record SelfCheckMetrics =
  sc_ProfilerMemoryRSSBytes :: "64 word"
  sc_ProfilerCPUUtilPct :: real

record MitigationSummary =
  zm_Enabled :: bool
  zm_ActiveCount :: int
  zm_TotalActions :: int
  zm_LastEventID :: gostring

record RouterSummary =
  zr_Enabled :: bool
  zr_ActiveChops :: int
  zr_ActiveFallbacks :: int
  zr_TotalTokensSaved :: int

record PolicySummary =
  zp_ActivePendingCount :: int
  zp_TotalTracked :: int
  zp_SweeperActive :: bool

record RollbackSummary =
  zb_RollbacksTriggered :: int
  zb_DriftResolved :: int
  zb_OrphansCleaned :: int
  zb_ActiveMitigations :: int

record UnifiedMetrics =
  um_EngineStatus :: gostring
  um_UptimeSeconds :: int
  um_LocalNodeID :: gostring
  um_ActivePIDsCount :: int
  um_Anomalies :: "AnomalyEntry list"
  um_SelfCheck :: SelfCheckMetrics
  um_Mitigations :: "MitigationSummary option"
  um_Router :: "RouterSummary option"
  um_Policy :: "PolicySummary option"
  um_Rollback :: "RollbackSummary option"

section \<open>The engine\<close>

record ProfilerEngine =
  en_cfg :: Config
  en_startedAt :: time_ns
  en_collector :: Collector
  en_pipeline :: Pipeline
  en_proxySrv :: "Proxy option"
  en_detector :: "Detector option"
  en_profiler :: "Profiler option"
  en_alerter :: AlertMultiplexer
  en_mitigator :: "Mitigator option"
  en_router :: "Router option"
  en_policy :: PolicyEngine
  en_rollback :: "RollbackController option"
  en_mitLastEventID :: gostring
  en_routerLastEvent :: gostring
  en_policySweeperActive :: bool
  en_rollbackLastSync :: int
  en_metrics :: "UnifiedMetrics option"
  en_routerAlertCh :: "AlertTrigger list"
  en_stdout :: "bytes list"

text \<open>Which parts the platform has, and whether it is the first or the only build of them.\<close>

record platform =
  pt_bpf :: bool
  pt_gpu :: bool

definition engine_proxy :: "Config \<Rightarrow> Pipeline \<Rightarrow> Router option \<Rightarrow> Proxy option" where
  "engine_proxy cfg p rt =
     (if cf_ProxyEnabled cfg
      then Some (NewProxy (cf_ProxyListenAddr cfg)
             (if cf_ProcRoot cfg \<noteq> '''' then Some (resolver_Start NewProcResolver) else None) (Some (pp_TokenCh p)) rt)
      else None)"

definition engine_policy_config :: "Config \<Rightarrow> PolicyConfig" where
  "engine_policy_config cfg =
     (let c = PolicyDefaultConfig\<lparr>
            pc_MaxActionsPerPID := cf_PolicyMaxActionsPerPID cfg,
            pc_VelocityWindow := to_i64 (cf_PolicyVelocityWindowMin cfg * minute_ns),
            pc_CooldownSeconds := cf_PolicyCooldownSeconds cfg,
            pc_LedgerMaxEntries := cf_PolicyLedgerMaxEntries cfg,
            pc_PIDThreshold := cf_PolicyPidThreshold cfg\<rparr>
      in (case cf_MitigationWhitelist cfg of None \<Rightarrow> c | Some names \<Rightarrow> c\<lparr>pc_WhitelistNames := names\<rparr>))"

definition engine_mitigator_config :: "Config \<Rightarrow> MitigatorConfig" where
  "engine_mitigator_config cfg = \<lparr>
     mc_DockerSocketPath = cf_DockerSocketPath cfg,
     mc_DockerTimeout = cf_DockerAPITimeout cfg,
     mc_CgroupRoot = cf_SysRoot cfg @ ''/fs/cgroup'',
     mc_ProcRoot = cf_ProcRoot cfg,
     mc_WhitelistNames = (case cf_MitigationWhitelist cfg of None \<Rightarrow> [] | Some names \<Rightarrow> names),
     mc_WhitelistIDs = [],
     mc_BufferSize = 128\<rparr>"

definition engine_router_config :: "Config \<Rightarrow> RouterConfig" where
  "engine_router_config cfg = \<lparr>
     xc_Enabled = True,
     xc_MaxMessagesBeforeChop = cf_RouterTokenCap cfg,
     xc_KeepRecentMessages = cf_RouterKeepRecent cfg,
     xc_FallbackEndpoint = cf_RouterFallbackEndpoint cfg,
     xc_FallbackModel = cf_RouterFallbackModel cfg,
     xc_FallbackAuthToken = cf_RouterFallbackAuthToken cfg,
     xc_CoolingOffDuration = to_i64 (cf_RouterCoolingOffSeconds cfg * second_ns),
     xc_BufferSize = 128,
     xc_TokenEstimateDivisor = 0\<rparr>"

text \<open>The proxy is built while the engine has no router yet.\<close>

definition NewEngine :: "platform \<Rightarrow> Config \<Rightarrow> time_ns \<Rightarrow> ProfilerEngine option" where
  "NewEngine pt cfg now =
     (let pl = NewPipeline (cf_AgentID cfg) (cf_AuthToken cfg) (cf_RingBufferMaxMB cfg);
          coll = (NewCollector (cf_ProcRoot cfg) (cf_PollInterval cfg) (cf_EnableBPF cfg) (cf_Verbose cfg) (pt_bpf pt) (pt_gpu pt))
            \<lparr>co_SnapshotOutput := Some (pp_SnapshotCh pl)\<rparr>;
          mit = (if cf_MitigationEnabled cfg then Some (NewMitigator (engine_mitigator_config cfg)) else None)
      in case NewPolicyEngine (engine_policy_config cfg) of
           None \<Rightarrow> None
         | Some pol \<Rightarrow> Some \<lparr>
             en_cfg = cfg, en_startedAt = now, en_collector = coll, en_pipeline = pl,
             en_proxySrv = engine_proxy cfg pl None,
             en_detector = (if cf_DetectorEnabled cfg then Some (NewDetector DetectorDefaultConfig) else None),
             en_profiler = (if cf_ProfilerEnabled cfg then Some (NewProfiler ProfilerDefaultConfig) else None),
             en_alerter = NewAlertMultiplexer AlerterDefaultConfig (Some (pp_RingBuf pl)),
             en_mitigator = mit,
             en_router = (if cf_RouterEnabled cfg then Some (NewRouter (engine_router_config cfg)) else None),
             en_policy = pol,
             en_rollback = (if mit \<noteq> None then Some (NewRollback (RollbackDefaultConfig\<lparr>kc_ProcRoot := cf_ProcRoot cfg\<rparr>)) else None),
             en_mitLastEventID = '''', en_routerLastEvent = '''', en_policySweeperActive = False, en_rollbackLastSync = 0,
             en_metrics = None, en_routerAlertCh = [], en_stdout = []\<rparr>)"

text \<open>
  The start, up to the goroutines: the streamer gets its address, and the mitigator and then the
  bridge to the router subscribe. Starting the collector panics on a period that is not positive,
  which a ticker refuses.
\<close>

definition collector_ticker :: "Collector \<Rightarrow> duration option" where
  "collector_ticker c = (if co_pollInterval c \<le> 0 then None else Some (co_pollInterval c))"

definition engine_Start :: "ProfilerEngine \<Rightarrow> bool \<Rightarrow> gostring option \<Rightarrow> ProfilerEngine option" where
  "engine_Start e attached gpuErr =
     (let pl = SetUpstreamEndpoint (pipeline_Start (en_pipeline e)) (cf_UpstreamEndpoint (en_cfg e));
          coll = run_setup (en_collector e) attached gpuErr;
          am = (if en_mitigator e \<noteq> None then Subscribe (en_alerter e) else en_alerter e);
          am = (if en_router e \<noteq> None then Subscribe am else am)
      in if collector_ticker coll = None then None
         else Some (e\<lparr>en_pipeline := pl, en_collector := coll, en_alerter := am\<rparr>))"

section \<open>Snapshots\<close>

definition engine_poll ::
  "delta_order \<Rightarrow> (Snapshot \<Rightarrow> bytes option) \<Rightarrow> poll_inputs \<Rightarrow> ProfilerEngine \<Rightarrow> ProfilerEngine option" where
  "engine_poll ord encode x e =
     (let pl = en_pipeline e
      in case collectOnce ord encode x ((en_collector e)\<lparr>co_SnapshotOutput := Some (pp_SnapshotCh pl)\<rparr>) of
           None \<Rightarrow> None
         | Some c \<Rightarrow>
             Some (e\<lparr>en_collector := c,
                     en_pipeline := pl\<lparr>pp_SnapshotCh := (case co_SnapshotOutput c of None \<Rightarrow> [] | Some ch \<Rightarrow> ch)\<rparr>\<rparr>))"

text \<open>The clock readings of one ingestion: the access, the cooldown and the alert.\<close>

record route_inputs =
  ri_profiler :: time_ns
  ri_access :: time_ns
  ri_check :: time_ns
  ri_alert :: time_ns
  ri_now :: time_ns
  ri_rss :: "64 word"
  ri_goroutines :: int
  ri_entries :: entry_order
  ri_records :: record_order
  ri_states :: state_order

definition process_event :: "Snapshot \<Rightarrow> ProcessMetrics \<Rightarrow> DetectorEvent" where
  "process_event snap pm = \<lparr>de_PID = pm_PID pm, de_Timestamp = sn_Timestamp snap, de_Provider = '''', de_Model = '''', de_Payload = ''''\<rparr>"

definition detect_processes :: "route_inputs \<Rightarrow> Snapshot \<Rightarrow> Detector \<Rightarrow> Detector option" where
  "detect_processes x snap d =
     fold_opt (\<lambda>pm d. Ingest d (process_event snap pm) (ri_access x) (ri_check x) (ri_alert x)) (sn_MonitoredProcesses snap) d"

definition updateMetrics :: "route_inputs \<Rightarrow> ProfilerEngine \<Rightarrow> Snapshot \<Rightarrow> ProfilerEngine" where
  "updateMetrics x e snap =
     (let active = (\<lambda>m. int (length (ActiveMitigations (ri_entries x) m)))
      in e\<lparr>en_metrics := Some \<lparr>
        um_EngineStatus = ''RUNNING'',
        um_UptimeSeconds = whole_seconds (time_since (ri_now x) (Some (en_startedAt e))),
        um_LocalNodeID = cf_AgentID (en_cfg e),
        um_ActivePIDsCount = int (length (remdups (map pm_PID (sn_MonitoredProcesses snap)))),
        um_Anomalies = [],
        um_SelfCheck = \<lparr>sc_ProfilerMemoryRSSBytes = ri_rss x, sc_ProfilerCPUUtilPct = real_of_int (ri_goroutines x) * (1 / 1000)\<rparr>,
        um_Mitigations = map_option (\<lambda>m. \<lparr>
          zm_Enabled = cf_MitigationEnabled (en_cfg e), zm_ActiveCount = active m,
          zm_TotalActions = int (MitigationCount (ri_entries x) m), zm_LastEventID = en_mitLastEventID e\<rparr>) (en_mitigator e),
        um_Router = map_option (\<lambda>r.
          let (chops, fallbacks) = router_ActiveCount (ri_states x) (rt_reg r) (ri_now x)
          in \<lparr>zr_Enabled = cf_RouterEnabled (en_cfg e), zr_ActiveChops = chops, zr_ActiveFallbacks = fallbacks,
              zr_TotalTokensSaved = TotalTokensSaved (ri_states x) (rt_reg r)\<rparr>) (en_router e),
        um_Policy = Some \<lparr>
          zp_ActivePendingCount = policy_ActiveCount (ri_records x) (en_policy e) (ri_now x),
          zp_TotalTracked = TotalTrackedCount (ri_records x) (en_policy e),
          zp_SweeperActive = en_policySweeperActive e\<rparr>,
        um_Rollback = (case (en_rollback e, en_mitigator e) of
          (Some _, Some m) \<Rightarrow> Some \<lparr>zb_RollbacksTriggered = 0, zb_DriftResolved = 0, zb_OrphansCleaned = 0,
            zb_ActiveMitigations = active m\<rparr>
        | _ \<Rightarrow> None)\<rparr>\<rparr>)"

definition profile_snapshot :: "route_inputs \<Rightarrow> Snapshot \<Rightarrow> ProfilerEngine \<Rightarrow> ProfilerEngine option" where
  "profile_snapshot x snap e =
     (case en_profiler e of
        None \<Rightarrow> Some e
      | Some p \<Rightarrow> map_option (\<lambda>p. e\<lparr>en_profiler := Some p\<rparr>) (profiler_Ingest p (Some snap) (ri_profiler x)))"

definition detect_snapshot :: "route_inputs \<Rightarrow> Snapshot \<Rightarrow> ProfilerEngine \<Rightarrow> ProfilerEngine option" where
  "detect_snapshot x snap e =
     (case en_detector e of
        None \<Rightarrow> Some e
      | Some d \<Rightarrow> map_option (\<lambda>d. e\<lparr>en_detector := Some d\<rparr>) (detect_processes x snap d))"

definition route_snapshot :: "route_inputs \<Rightarrow> Snapshot \<Rightarrow> ProfilerEngine \<Rightarrow> ProfilerEngine option" where
  "route_snapshot x snap e =
     (case profile_snapshot x snap e of
        None \<Rightarrow> None
      | Some e \<Rightarrow>
          (case detect_snapshot x snap e of
             None \<Rightarrow> None
           | Some e \<Rightarrow> Some (updateMetrics x e snap)))"

text \<open>One turn of \<open>dataRouter\<close>, if there is a snapshot; the aggregator reads the same channel.\<close>

definition dataRouter_step :: "(bytes \<Rightarrow> Snapshot option) \<Rightarrow> route_inputs \<Rightarrow> ProfilerEngine \<Rightarrow> ProfilerEngine option" where
  "dataRouter_step decode x e =
     (case pp_SnapshotCh (en_pipeline e) of
        [] \<Rightarrow> Some e
      | data # rest \<Rightarrow>
          (let e = e\<lparr>en_pipeline := (en_pipeline e)\<lparr>pp_SnapshotCh := rest\<rparr>\<rparr>
           in case decode data of None \<Rightarrow> Some e | Some snap \<Rightarrow> route_snapshot x snap e))"

definition engine_aggregate ::
  "(bytes \<Rightarrow> bytes) \<Rightarrow> (bytes \<Rightarrow> Snapshot option) \<Rightarrow> (UpstreamPayload \<Rightarrow> bytes option) \<Rightarrow> ProfilerEngine \<Rightarrow> ProfilerEngine option" where
  "engine_aggregate sha256 decode encode e =
     map_option (\<lambda>p. e\<lparr>en_pipeline := p\<rparr>) (pipeline_aggregate sha256 decode encode (en_pipeline e))"

text \<open>An exchange of the proxy, on the token channel of the pipeline.\<close>

definition engine_exchange ::
  "codec \<Rightarrow> client_request \<Rightarrow> proxy_inputs \<Rightarrow> ProfilerEngine \<Rightarrow> (proxy_reply \<times> ProfilerEngine) option" where
  "engine_exchange c cl x e =
     (case en_proxySrv e of
        None \<Rightarrow> None
      | Some p \<Rightarrow>
          map_option (\<lambda>(reply, p). (reply, e\<lparr>
              en_proxySrv := Some p,
              en_pipeline := (en_pipeline e)\<lparr>pp_TokenCh := (case py_TokenOutput p of None \<Rightarrow> [] | Some ch \<Rightarrow> ch)\<rparr>\<rparr>))
            (handleProxy c (p\<lparr>py_TokenOutput := Some (pp_TokenCh (en_pipeline e))\<rparr>) cl x))"

section \<open>Alerts and events\<close>

text \<open>The alerter on the ring buffer of the pipeline.\<close>

definition with_ringbuf :: "ProfilerEngine \<Rightarrow> AlertMultiplexer \<Rightarrow> ProfilerEngine" where
  "with_ringbuf e am =
     e\<lparr>en_alerter := am,
       en_pipeline := (case mx_ringBuf am of None \<Rightarrow> en_pipeline e | Some rb \<Rightarrow> (en_pipeline e)\<lparr>pp_RingBuf := rb\<rparr>)\<rparr>"

definition engine_detectorAlert :: "bytes \<Rightarrow> ProfilerEngine \<Rightarrow> ProfilerEngine" where
  "engine_detectorAlert buf e =
     (case en_detector e of
        None \<Rightarrow> e
      | Some d \<Rightarrow>
          (case multiplex_detector d (en_alerter e) buf of
             None \<Rightarrow> e | Some (d, am) \<Rightarrow> e\<lparr>en_detector := Some d, en_alerter := am\<rparr>))"

definition engine_profilerAlert :: "bytes \<Rightarrow> ProfilerEngine \<Rightarrow> ProfilerEngine" where
  "engine_profilerAlert buf e =
     (case en_profiler e of
        None \<Rightarrow> e
      | Some p \<Rightarrow>
          (case multiplex_profiler p (en_alerter e) buf of
             None \<Rightarrow> e | Some (p, am) \<Rightarrow> e\<lparr>en_profiler := Some p, en_alerter := am\<rparr>))"

definition engine_fanOut :: "(ConsolidatedAlert \<Rightarrow> bytes option) \<Rightarrow> ProfilerEngine \<Rightarrow> ProfilerEngine option" where
  "engine_fanOut marshal e =
     (case fanOut_step marshal ((en_alerter e)\<lparr>mx_ringBuf := Some (pp_RingBuf (en_pipeline e))\<rparr>) of
        None \<Rightarrow> Some e
      | Some None \<Rightarrow> None
      | Some (Some am) \<Rightarrow> Some (with_ringbuf e am))"

definition router_alert_capacity :: nat where
  "router_alert_capacity = 64"

text \<open>The subscription of the bridge comes after that of the mitigator, if there is one.\<close>

definition bridge_index :: "ProfilerEngine \<Rightarrow> nat" where
  "bridge_index e = (if en_mitigator e = None then 0 else 1)"

definition alert_trigger :: "ConsolidatedAlert \<Rightarrow> AlertTrigger" where
  "alert_trigger a = \<lparr>at_PID = ap_TargetPID (ca_Payload a), at_AnomalyType = ap_AnomalyType (ca_Payload a)\<rparr>"

definition routerAlertBridge_step :: "ProfilerEngine \<Rightarrow> ProfilerEngine" where
  "routerAlertBridge_step e =
     (let i = bridge_index e; subs = mx_subs (en_alerter e)
      in if length subs \<le> i then e
         else (case subs ! i of
                 [] \<Rightarrow> e
               | a # rest \<Rightarrow>
                   e\<lparr>en_alerter := (en_alerter e)\<lparr>mx_subs := subs[i := rest]\<rparr>,
                     en_routerAlertCh := try_send router_alert_capacity (en_routerAlertCh e) (alert_trigger a)\<rparr>))"

text \<open>The router takes a trigger and asks the policy engine.\<close>

definition engine_handleAlert :: "eval_inputs \<Rightarrow> time_ns \<Rightarrow> time_ns \<Rightarrow> ProfilerEngine \<Rightarrow> ProfilerEngine" where
  "engine_handleAlert x t_lookup t_update e =
     (case (en_router e, en_routerAlertCh e) of
        (Some r, a # rest) \<Rightarrow>
          (let (pe, r) = handleAlert (Some (en_policy e)) r a x t_lookup t_update
           in e\<lparr>en_routerAlertCh := rest, en_router := Some r,
                en_policy := (case pe of None \<Rightarrow> en_policy e | Some pol \<Rightarrow> pol)\<rparr>)
      | _ \<Rightarrow> e)"

text \<open>What the event loggers do with an event once its identifier is remembered.\<close>

definition push_event :: "('a \<Rightarrow> bytes option) \<Rightarrow> 'a \<Rightarrow> ProfilerEngine \<Rightarrow> ProfilerEngine option" where
  "push_event marshal evt e =
     (case marshal evt of
        None \<Rightarrow> Some e
      | Some data \<Rightarrow>
          map_option (\<lambda>rb. e\<lparr>en_pipeline := (en_pipeline e)\<lparr>pp_RingBuf := rb\<rparr>\<rparr>) (Push (pp_RingBuf (en_pipeline e)) data))"

definition mitigateEventLogger_step :: "(MitigationEvent \<Rightarrow> bytes option) \<Rightarrow> ProfilerEngine \<Rightarrow> ProfilerEngine option" where
  "mitigateEventLogger_step marshal e =
     (case en_mitigator e of
        None \<Rightarrow> Some e
      | Some m \<Rightarrow>
          (case mg_events m of
             [] \<Rightarrow> Some e
           | evt # rest \<Rightarrow>
               push_event marshal evt
                 (e\<lparr>en_mitigator := Some (m\<lparr>mg_events := rest\<rparr>), en_mitLastEventID := me_MitigationEventID evt\<rparr>)))"

definition routerEventLogger_step :: "(RouterEvent \<Rightarrow> bytes option) \<Rightarrow> ProfilerEngine \<Rightarrow> ProfilerEngine option" where
  "routerEventLogger_step marshal e =
     (case en_router e of
        None \<Rightarrow> Some e
      | Some r \<Rightarrow>
          (case rt_events r of
             [] \<Rightarrow> Some e
           | evt # rest \<Rightarrow>
               push_event marshal evt
                 (e\<lparr>en_router := Some (r\<lparr>rt_events := rest\<rparr>), en_routerLastEvent := ar_Type (ro_AppliedRemedy evt)\<rparr>)))"

definition policyEventLogger_step :: "(PolicyEvent \<Rightarrow> bytes option) \<Rightarrow> ProfilerEngine \<Rightarrow> ProfilerEngine option" where
  "policyEventLogger_step marshal e =
     (case pe_events (en_policy e) of
        [] \<Rightarrow> Some e
      | evt # rest \<Rightarrow> push_event marshal evt (e\<lparr>en_policy := (en_policy e)\<lparr>pe_events := rest\<rparr>\<rparr>))"

definition rollbackEventLogger_step :: "(SyncEvent \<Rightarrow> bytes option) \<Rightarrow> ProfilerEngine \<Rightarrow> ProfilerEngine option" where
  "rollbackEventLogger_step marshal e =
     (case en_rollback e of
        None \<Rightarrow> Some e
      | Some k \<Rightarrow>
          (case kt_events k of
             [] \<Rightarrow> Some e
           | evt # rest \<Rightarrow>
               push_event marshal evt
                 (e\<lparr>en_rollback := Some (k\<lparr>kt_events := rest\<rparr>), en_rollbackLastSync := sy_Timestamp evt\<rparr>)))"

section \<open>Stopping and answering\<close>

definition stop_metrics :: "ProfilerEngine \<Rightarrow> ProfilerEngine" where
  "stop_metrics e = e\<lparr>en_metrics := map_option (\<lambda>m. m\<lparr>um_EngineStatus := ''STOPPING''\<rparr>) (en_metrics e)\<rparr>"

definition flushRingBuffer :: "ProfilerEngine \<Rightarrow> ProfilerEngine option" where
  "flushRingBuffer e =
     (case Drain (pp_RingBuf (en_pipeline e)) 10000 of
        None \<Rightarrow> None
      | Some (entries, rb) \<Rightarrow>
          Some (e\<lparr>en_pipeline := (en_pipeline e)\<lparr>pp_RingBuf := rb\<rparr>,
                  en_stdout := en_stdout e @ concat (map (\<lambda>data. [data, [CHR 10]]) entries)\<rparr>))"

text \<open>
  Stopping: the components are asked to stop, the streamer flushes what it can under the outcomes
  \<open>out\<close>, and what is left goes to the standard output.
\<close>

definition engine_Stop :: "(nat \<Rightarrow> nat \<Rightarrow> http_outcome) \<Rightarrow> ProfilerEngine \<Rightarrow> ProfilerEngine option" where
  "engine_Stop out e =
     (let e = stop_metrics e
      in case (case pp_streamer (en_pipeline e) of
                 None \<Rightarrow> Some e
               | Some s \<Rightarrow>
                   map_option (\<lambda>(sent, rb). e\<lparr>en_pipeline := (en_pipeline e)\<lparr>pp_RingBuf := rb\<rparr>\<rparr>)
                     (flushRemaining s out 0 (pp_RingBuf (en_pipeline e)))) of
           None \<Rightarrow> None
         | Some e \<Rightarrow> flushRingBuffer e)"

definition newAPIServer :: "gostring \<Rightarrow> gostring" where
  "newAPIServer addr = (if addr = '''' then ''127.0.0.1:8088'' else addr)"

text \<open>The dashboard: the method, the metrics if there are any yet, and their encoding.\<close>

datatype dashboard_reply = MethodNotAllowed | StartingReport | MetricsReport bytes

definition api_handleMetrics :: "(UnifiedMetrics \<Rightarrow> bytes) \<Rightarrow> gostring \<Rightarrow> ProfilerEngine \<Rightarrow> dashboard_reply" where
  "api_handleMetrics encode httpMethod e =
     (if httpMethod \<noteq> ''GET'' then MethodNotAllowed
      else (case en_metrics e of None \<Rightarrow> StartingReport | Some m \<Rightarrow> MetricsReport (encode m @ [CHR 10])))"

end
