(* ===== verification/Agent.thy ===== *)
theory Agent
  imports Engine
begin

text \<open>
  The agent as a whole: what any interleaving of the steps of its goroutines keeps, what becomes of
  a process that is merely sampled, and what reaches the dashboard and the traffic. The last
  section models the console router of \<open>src/internal/pubsub/router.go\<close>.
\<close>

section \<open>The agent as a transition system\<close>

text \<open>
  A step of a goroutine that moves samples, alerts, payloads or events between the components.
\<close>

inductive wire_step :: "ProfilerEngine \<Rightarrow> ProfilerEngine \<Rightarrow> bool" where
  step_poll: "engine_poll ord encode x e = Some e' \<Longrightarrow> wire_step e e'"
| step_route: "dataRouter_step decode ri e = Some e' \<Longrightarrow> wire_step e e'"
| step_aggregate: "engine_aggregate sha decode encodep e = Some e' \<Longrightarrow> wire_step e e'"
| step_exchange: "engine_exchange c cl px e = Some (reply, e') \<Longrightarrow> wire_step e e'"
| step_send: "pp_streamer (en_pipeline e) = Some s \<Longrightarrow>
    run_iteration s out backoff (pp_RingBuf (en_pipeline e)) = Some (backoff', rb, waits) \<Longrightarrow>
    wire_step e (e\<lparr>en_pipeline := (en_pipeline e)\<lparr>pp_RingBuf := rb\<rparr>\<rparr>)"
| step_flush: "pp_streamer (en_pipeline e) = Some s \<Longrightarrow>
    flushRemaining s outs 0 (pp_RingBuf (en_pipeline e)) = Some (sent, rb) \<Longrightarrow>
    wire_step e (e\<lparr>en_pipeline := (en_pipeline e)\<lparr>pp_RingBuf := rb\<rparr>\<rparr>)"
| step_stopping: "wire_step e (stop_metrics e)"
| step_print: "flushRingBuffer e = Some e' \<Longrightarrow> wire_step e e'"
| step_detectorAlert: "wire_step e (engine_detectorAlert buf e)"
| step_profilerAlert: "wire_step e (engine_profilerAlert buf e)"
| step_fanOut: "engine_fanOut marshal e = Some e' \<Longrightarrow> wire_step e e'"
| step_bridge: "wire_step e (routerAlertBridge_step e)"
| step_mitigateEvent: "mitigateEventLogger_step marshal_m e = Some e' \<Longrightarrow> wire_step e e'"
| step_routerEvent: "routerEventLogger_step marshal_r e = Some e' \<Longrightarrow> wire_step e e'"
| step_policyEvent: "policyEventLogger_step marshal_p e = Some e' \<Longrightarrow> wire_step e e'"
| step_rollbackEvent: "rollbackEventLogger_step marshal_s e = Some e' \<Longrightarrow> wire_step e e'"
| step_gc: "en_detector e = Some d \<Longrightarrow> map_range gc_ord \<Longrightarrow>
    wire_step e (e\<lparr>en_detector := Some (detector_runGC gc_ord d now)\<rparr>)"

text \<open>
  A step of any goroutine. The mitigator reads the first subscription; what the mitigator, the profiler, the policy engine, the router and the
  rollback controller do to themselves is \<open>background\<close>: any change to those components. Theory
  \<open>System\<close> has their own steps instead.
\<close>

inductive engine_step :: "ProfilerEngine \<Rightarrow> ProfilerEngine \<Rightarrow> bool" where
  step_wire: "wire_step e e' \<Longrightarrow> engine_step e e'"
| step_handleAlert: "engine_step e (engine_handleAlert ei t_lookup t_update e)"
| step_subscription: "mx_subs (en_alerter e) = (alert # rest) # subs \<Longrightarrow>
    engine_step e (e\<lparr>en_alerter := (en_alerter e)\<lparr>mx_subs := rest # subs\<rparr>\<rparr>)"
| background: "engine_step e (e\<lparr>en_mitigator := m, en_profiler := p, en_policy := pol, en_router := r, en_rollback := k\<rparr>)"

text \<open>An agent that was built and started, after any number of steps.\<close>

inductive engine_reach :: "Config \<Rightarrow> ProfilerEngine \<Rightarrow> bool" where
  reach_start: "NewEngine pt cfg now = Some e \<Longrightarrow> engine_Start e attached gpuErr = Some e' \<Longrightarrow> engine_reach cfg e'"
| reach_step: "engine_reach cfg e \<Longrightarrow> engine_step e e' \<Longrightarrow> engine_reach cfg e'"

section \<open>The invariant\<close>

text \<open>The parts of the invariant: the pipeline, the alerter, the detector, the proxy, the dashboard.\<close>

definition pipeline_inv :: "Pipeline \<Rightarrow> bool" where
  "pipeline_inv p \<longleftrightarrow> rb_inv (pp_RingBuf p) \<and> length (pp_SnapshotCh p) \<le> snapshot_capacity \<and> length (pp_TokenCh p) \<le> token_capacity"

definition alerter_inv :: "AlertMultiplexer \<Rightarrow> bool" where
  "alerter_inv am \<longleftrightarrow> lc_InternalBufferSize (mx_cfg am) = 256 \<and> length (mx_internal am) \<le> 256 \<and>
     (\<forall>ch \<in> set (mx_subs am). length ch \<le> 256)"

text \<open>Every event that the detector has seen carried the empty payload.\<close>

definition silent :: "Detector \<Rightarrow> bool" where
  "silent d \<longleftrightarrow> detector_inv DetectorDefaultConfig d \<and>
     (\<forall>pid pw. dt_windows d pid = Some pw \<longrightarrow> (\<forall>r \<in> set (pw_records pw). dr_SimHash r = SimHash ''''))"

definition engine_inv :: "Config \<Rightarrow> ProfilerEngine \<Rightarrow> bool" where
  "engine_inv cfg e \<longleftrightarrow> en_cfg e = cfg \<and> pipeline_inv (en_pipeline e) \<and> alerter_inv (en_alerter e) \<and>
     length (en_routerAlertCh e) \<le> router_alert_capacity \<and>
     (case en_detector e of None \<Rightarrow> \<not> cf_DetectorEnabled cfg | Some d \<Rightarrow> cf_DetectorEnabled cfg \<and> silent d) \<and>
     (case en_proxySrv e of None \<Rightarrow> \<not> cf_ProxyEnabled cfg | Some p \<Rightarrow> cf_ProxyEnabled cfg \<and> py_Router p = None) \<and>
     \<not> en_policySweeperActive e \<and> (\<forall>m. en_metrics e = Some m \<longrightarrow> um_Anomalies m = [])"

lemma Push_inv: "rb_inv rb \<Longrightarrow> \<exists>rb'. Push rb d = Some rb' \<and> rb_inv rb'"
  using Push_spec by blast

lemma Drain_inv: "rb_inv rb \<Longrightarrow> Drain rb n = Some (out, rb') \<Longrightarrow> rb_inv rb'"
  using Drain_spec [of rb n] by auto

lemma run_iteration_inv:
  assumes "rb_inv rb" "run_iteration s out backoff rb = Some (backoff', rb', waits)"
  shows "rb_inv rb'"
proof (cases "Len rb = 0")
  case False
  obtain sent errored rb1 where "sendBatch s out rb = Some (sent, errored, rb1)" "rb_inv rb1"
    using sendBatch_result [OF assms(1), of s out] by blast
  then show ?thesis using assms(2) False by (simp add: run_iteration_def Let_def split: if_splits)
qed (use assms in \<open>simp add: run_iteration_def\<close>)

lemma flushRemaining_total: "rb_inv rb \<Longrightarrow> \<exists>sent rb'. flushRemaining s outs r rb = Some (sent, rb') \<and> rb_inv rb'"
proof (induction "length (rb_entries rb)" arbitrary: rb r rule: less_induct)
  case less
  obtain payloads rb1 where d: "Drain rb (st_batchSize s) = Some (payloads, rb1)" "rb_inv rb1"
    using Drain_spec [OF less.prems] by blast
  show ?case
  proof (cases "payloads = [] \<or> snd (flush_batch s (outs r) 0 payloads) \<or> st_endpoint s = ''''")
    case True
    then show ?thesis using d by (auto simp: flushRemaining.simps [of s outs r rb] case_prod_unfold Let_def)
  next
    case False
    then have "length (rb_entries rb1) < length (rb_entries rb)" using Drain_length [OF d(1)] by simp
    from less.hyps [OF this d(2), of "Suc r"] show ?thesis
      using d False by (auto simp: flushRemaining.simps [of s outs r rb] case_prod_unfold Let_def)
  qed
qed

lemma silent_new: "silent (NewDetector DetectorDefaultConfig)"
  by (simp add: silent_def NewDetector_inv) (simp add: NewDetector_def)

lemma silent_window:
  assumes "silent d"
  shows "\<forall>r \<in> set (pw_records (window_of d pid)). dr_SimHash r = SimHash ''''"
  using assms by (auto simp: silent_def window_of_def empty_window_def split: option.splits)

lemma default_window: "0 \<le> dc_WindowSize DetectorDefaultConfig" by (simp add: DetectorDefaultConfig_def)

lemma silent_cfg: "silent d \<Longrightarrow> dt_cfg d = DetectorDefaultConfig"
  by (simp add: silent_def detector_inv_def)

lemma set_newest_n: "set (newest_n n xs) \<subseteq> set xs"
  by (simp add: newest_n_def set_drop_subset)

lemma silent_Ingest:
  assumes "silent d" "Ingest d ev ta tc t_al = Some d'" "de_Payload ev = ''''"
  shows "silent d'"
proof -
  have inv: "detector_inv DetectorDefaultConfig d" using assms(1) by (simp add: silent_def)
  have w: "0 \<le> dc_WindowSize (dt_cfg d)" using silent_cfg [OF assms(1)] default_window by simp
  let ?w = "window_append (window_of d (de_PID ev)) ev ta"
  have "0 \<le> pw_maxSize (window_of d (de_PID ev))" using window_of_maxSize [OF inv] default_window by simp
  then have "set (pw_records ?w) \<subseteq> set (pw_records (window_of d (de_PID ev)) @ [detector_record ev])"
    by (simp only: window_append_records set_newest_n)
  then have "\<forall>r \<in> set (pw_records ?w). dr_SimHash r = SimHash ''''"
    using silent_window [OF assms(1)] assms(3) by (auto simp: detector_record_def)
  then show ?thesis
    using Ingest_inv [OF inv assms(2) default_window] Ingest_windows(1) [OF w assms(2)] assms(1)
    by (auto simp: silent_def)
qed

lemma silent_detect:
  assumes "silent d" "detect_processes x snap d = Some d'"
  shows "silent d'"
proof -
  have "fold_opt (\<lambda>pm d. Ingest d (process_event snap pm) ta tc t_al) ps d = Some d' \<Longrightarrow> silent d \<Longrightarrow> silent d'" for ps ta tc t_al d
  proof (induction ps arbitrary: d)
    case (Cons pm ps)
    then obtain d1 where d1: "Ingest d (process_event snap pm) ta tc t_al = Some d1"
      "fold_opt (\<lambda>pm d. Ingest d (process_event snap pm) ta tc t_al) ps d1 = Some d'"
      by (auto split: option.splits)
    from Cons.IH [OF d1(2) silent_Ingest [OF Cons.prems(2) d1(1)]] show ?case by (simp add: process_event_def)
  qed simp
  then show ?thesis using assms unfolding detect_processes_def by blast
qed

lemma alerter_capacity: "alerter_inv am \<Longrightarrow> mx_capacity am = 256"
  by (simp add: alerter_inv_def mx_capacity_def)

lemma alerter_inv_new: "alerter_inv (NewAlertMultiplexer AlerterDefaultConfig rb)"
  by (simp add: alerter_inv_def NewAlertMultiplexer_def Let_def) (simp add: AlerterDefaultConfig_def)

lemma alerter_inv_Subscribe: "alerter_inv am \<Longrightarrow> alerter_inv (Subscribe am)"
  by (auto simp: alerter_inv_def Subscribe_def)

lemma alerter_inv_route: "alerter_inv am \<Longrightarrow> alerter_inv (route am alert buf)"
  by (auto simp: alerter_inv_def mx_capacity_def length_try_send route_def mx_enqueue_def Let_def split: option.splits)

lemma alerter_inv_subs:
  "alerter_inv am \<Longrightarrow> i < length (mx_subs am) \<Longrightarrow> mx_subs am ! i = a # rest \<Longrightarrow> alerter_inv (am\<lparr>mx_subs := (mx_subs am)[i := rest]\<rparr>)"
proof -
  assume am: "alerter_inv am" "i < length (mx_subs am)" "mx_subs am ! i = a # rest"
  then have "length (a # rest) \<le> 256" using nth_mem [OF am(2)] by (metis alerter_inv_def)
  then have "\<forall>ch \<in> set ((mx_subs am)[i := rest]). length ch \<le> 256"
    using am(1) set_update_subset_insert [of "mx_subs am" i rest] by (auto simp: alerter_inv_def)
  then show ?thesis using am(1) by (simp add: alerter_inv_def)
qed

text \<open>What the alerter does with the next alert never panics, and keeps both invariants.\<close>

lemma fanOut_inv:
  assumes "alerter_inv am" "rb_inv rb" "fanOut_step marshal (am\<lparr>mx_ringBuf := Some rb\<rparr>) = Some res"
  shows "\<exists>am' rb'. res = Some am' \<and> alerter_inv am' \<and> mx_ringBuf am' = Some rb' \<and> rb_inv rb'"
proof -
  let ?am = "am\<lparr>mx_ringBuf := Some rb\<rparr>"
  from assms(3) obtain alert rest where i: "mx_internal ?am = alert # rest" by (auto simp: fanOut_step_def split: list.splits)
  show ?thesis
  proof (cases "marshal alert")
    case None
    then show ?thesis
      using assms i by (auto simp: fanOut_step_def writeRingBuf_def writeConsole_def dispatchToSubscribers_def alerter_inv_def
          mx_capacity_def length_try_send)
  next
    case (Some data)
    obtain rb' where "Push rb data = Some rb'" "rb_inv rb'" using Push_inv [OF assms(2)] by blast
    then show ?thesis
      using assms i Some by (auto simp: fanOut_step_def writeRingBuf_def writeConsole_def dispatchToSubscribers_def alerter_inv_def
          mx_capacity_def length_try_send)
  qed
qed

lemma push_event_inv:
  assumes "pipeline_inv (en_pipeline e)"
  shows "\<exists>p. push_event marshal evt e = Some (e\<lparr>en_pipeline := p\<rparr>) \<and> pipeline_inv p"
proof (cases "marshal evt")
  case None
  then show ?thesis using assms by (intro exI [of _ "en_pipeline e"]) (simp add: push_event_def)
next
  case (Some data)
  obtain rb' where "Push (pp_RingBuf (en_pipeline e)) data = Some rb'" "rb_inv rb'"
    using Push_inv assms by (auto simp: pipeline_inv_def)
  then show ?thesis using Some assms by (auto simp: push_event_def pipeline_inv_def)
qed

lemma aggregate_inv:
  assumes "rb_inv (ag_ringBuf a)"
  shows "\<exists>a'. aggregate sha decode encode a = Some a' \<and> rb_inv (ag_ringBuf a') \<and>
    length (ag_snapshotCh a') \<le> length (ag_snapshotCh a) \<and> length (ag_tokenCh a') \<le> length (ag_tokenCh a)"
proof -
  obtain pf where pf: "Push (ag_ringBuf a) data = Some (pf data)" "rb_inv (pf data)" for data
    using Push_inv [OF assms] by metis
  show ?thesis
    using assms by (auto simp: aggregate_def drainProxyEvents_def Let_def pf split: list.splits option.splits sum.splits)
qed

lemma pipeline_aggregate_inv:
  assumes "pipeline_inv p"
  shows "\<exists>p'. pipeline_aggregate sha decode encode p = Some p' \<and> pipeline_inv p'"
proof -
  let ?a = "\<lparr>ag_agentID = pp_AgentID p, ag_authToken = pp_AuthToken p, ag_snapshotCh = pp_SnapshotCh p,
          ag_tokenCh = pp_TokenCh p, ag_ringBuf = pp_RingBuf p\<rparr>"
  have "rb_inv (ag_ringBuf ?a)" using assms by (simp add: pipeline_inv_def)
  from aggregate_inv [OF this, of sha decode encode] obtain a' where "aggregate sha decode encode ?a = Some a'" "rb_inv (ag_ringBuf a')"
    "length (ag_snapshotCh a') \<le> length (ag_snapshotCh ?a)" "length (ag_tokenCh a') \<le> length (ag_tokenCh ?a)" by blast
  then show ?thesis using assms by (auto simp: pipeline_aggregate_def pipeline_inv_def)
qed

section \<open>Every step keeps the invariant\<close>

lemma pipeline_inv_frames [simp]:
  "pipeline_inv (p\<lparr>pp_RingBuf := rb\<rparr>) \<longleftrightarrow> rb_inv rb \<and> length (pp_SnapshotCh p) \<le> snapshot_capacity \<and> length (pp_TokenCh p) \<le> token_capacity"
  "pipeline_inv (p\<lparr>pp_SnapshotCh := ch\<rparr>) \<longleftrightarrow> rb_inv (pp_RingBuf p) \<and> length ch \<le> snapshot_capacity \<and> length (pp_TokenCh p) \<le> token_capacity"
  "pipeline_inv (p\<lparr>pp_TokenCh := tk\<rparr>) \<longleftrightarrow> rb_inv (pp_RingBuf p) \<and> length (pp_SnapshotCh p) \<le> snapshot_capacity \<and> length tk \<le> token_capacity"
  by (simp_all add: pipeline_inv_def)

lemma pipeline_invD: "pipeline_inv p \<Longrightarrow> rb_inv (pp_RingBuf p) \<and> length (pp_SnapshotCh p) \<le> snapshot_capacity \<and> length (pp_TokenCh p) \<le> token_capacity"
  by (simp add: pipeline_inv_def)

lemma computeProcessCPU_output: "co_SnapshotOutput (snd (computeProcessCPU c pid pm)) = co_SnapshotOutput c"
  by (auto simp: computeProcessCPU_def Let_def split: option.splits if_splits)

lemma collect_entry_output: "collect_entry x entry (c, seen, procs) = Some (c', s) \<Longrightarrow> co_SnapshotOutput c' = co_SnapshotOutput c"
  by (auto simp: collect_entry_def Let_def case_prod_unfold computeProcessCPU_output split: option.splits sum.splits if_splits)

lemma collect_entries_output:
  "fold_opt (collect_entry x) entries (c, seen, procs) = Some (c', s) \<Longrightarrow> co_SnapshotOutput c' = co_SnapshotOutput c"
proof (induction entries arbitrary: c seen procs)
  case (Cons entry entries)
  then obtain c1 seen1 procs1 where "collect_entry x entry (c, seen, procs) = Some (c1, seen1, procs1)"
    "fold_opt (collect_entry x) entries (c1, seen1, procs1) = Some (c', s)"
    by (auto split: option.splits)
  then show ?case using Cons.IH collect_entry_output by metis
qed simp

lemma prune_output: "co_SnapshotOutput (fold (prune_pid seen) pids c) = co_SnapshotOutput c"
  by (induction pids arbitrary: c) (simp_all add: prune_pid_def)

lemma sample_host_output: "sample_host ord x c = Some (snap, c') \<Longrightarrow> co_SnapshotOutput c' = co_SnapshotOutput c"
  by (auto simp: sample_host_def collectProcessMetrics_def Let_def case_prod_unfold prune_output split: option.splits
      dest: collect_entries_output)

lemma collectOnce_output:
  assumes "collectOnce ord encode x c = Some c'"
  shows "co_SnapshotOutput c' = co_SnapshotOutput c \<or>
    (\<exists>data. co_SnapshotOutput c' = map_option (\<lambda>ch. try_send snapshot_capacity ch data) (co_SnapshotOutput c))"
proof -
  obtain snap c1 where c1: "sample_host ord x c = Some (snap, c1)" using assms by (auto simp: collectOnce_def split: option.splits)
  have "co_SnapshotOutput c1 = co_SnapshotOutput c" using c1 sample_host_output by blast
  then show ?thesis using assms c1 by (auto simp: collectOnce_def publish_snapshot_def Let_def split: option.splits if_splits)
qed

lemma engine_poll_inv:
  assumes "engine_poll ord encode x e = Some e'" "pipeline_inv (en_pipeline e)"
  shows "\<exists>c p. e' = e\<lparr>en_collector := c, en_pipeline := p\<rparr> \<and> pipeline_inv p"
proof -
  let ?c = "(en_collector e)\<lparr>co_SnapshotOutput := Some (pp_SnapshotCh (en_pipeline e))\<rparr>"
  obtain c where c: "collectOnce ord encode x ?c = Some c" using assms(1) by (auto simp: engine_poll_def Let_def split: option.splits)
  have "length (case co_SnapshotOutput c of None \<Rightarrow> [] | Some ch \<Rightarrow> ch) \<le> snapshot_capacity"
    using collectOnce_output [OF c] pipeline_invD [OF assms(2)] by (auto simp: length_try_send)
  then have "pipeline_inv ((en_pipeline e)\<lparr>pp_SnapshotCh := (case co_SnapshotOutput c of None \<Rightarrow> [] | Some ch \<Rightarrow> ch)\<rparr>)"
    using pipeline_invD [OF assms(2)] by simp
  moreover have "e' = e\<lparr>en_collector := c,
      en_pipeline := (en_pipeline e)\<lparr>pp_SnapshotCh := (case co_SnapshotOutput c of None \<Rightarrow> [] | Some ch \<Rightarrow> ch)\<rparr>\<rparr>"
    using assms(1) c by (simp add: engine_poll_def Let_def)
  ultimately show ?thesis by blast
qed

lemma profile_snapshot_effect:
  assumes "profile_snapshot ri snap e = Some e'"
  obtains p where "e' = e\<lparr>en_profiler := p\<rparr>"
proof (cases "en_profiler e")
  case None
  then have "e' = e\<lparr>en_profiler := en_profiler e\<rparr>" using assms by (simp add: profile_snapshot_def)
  then show ?thesis by (rule that)
qed (use assms that in \<open>auto simp: profile_snapshot_def\<close>)

lemma detect_snapshot_effect:
  assumes "detect_snapshot ri snap e = Some e'"
  obtains d where "e' = e\<lparr>en_detector := d\<rparr>"
    "case en_detector e of None \<Rightarrow> d = None | Some d0 \<Rightarrow> \<exists>d1. d = Some d1 \<and> detect_processes ri snap d0 = Some d1"
proof (cases "en_detector e")
  case None
  then have "e' = e\<lparr>en_detector := en_detector e\<rparr>" using assms by (simp add: detect_snapshot_def)
  then show ?thesis by (rule that) (simp add: None)
next
  case (Some d)
  then obtain d1 where "detect_processes ri snap d = Some d1" "e' = e\<lparr>en_detector := Some d1\<rparr>"
    using assms by (auto simp: detect_snapshot_def)
  then show ?thesis using that [of "Some d1"] Some by simp
qed

lemma route_snapshot_effect:
  assumes "route_snapshot ri snap e = Some e'"
  obtains p d m where "e' = e\<lparr>en_profiler := p, en_detector := d, en_metrics := Some m\<rparr>" "um_Anomalies m = []"
    "case en_detector e of None \<Rightarrow> d = None | Some d0 \<Rightarrow> \<exists>d1. d = Some d1 \<and> detect_processes ri snap d0 = Some d1"
proof -
  obtain e1 e2 where e: "profile_snapshot ri snap e = Some e1" "detect_snapshot ri snap e1 = Some e2" "e' = updateMetrics ri e2 snap"
    using assms by (auto simp: route_snapshot_def split: option.splits)
  obtain p where p: "e1 = e\<lparr>en_profiler := p\<rparr>" using profile_snapshot_effect [OF e(1)] by blast
  obtain d where d: "e2 = e1\<lparr>en_detector := d\<rparr>"
    "case en_detector e1 of None \<Rightarrow> d = None | Some d0 \<Rightarrow> \<exists>d1. d = Some d1 \<and> detect_processes ri snap d0 = Some d1"
    using detect_snapshot_effect [OF e(2)] by blast
  show ?thesis
    by (rule that [where p = p and d = d and m = "the (en_metrics e')"]) (use e(3) p d in \<open>simp_all add: updateMetrics_def Let_def\<close>)
qed

lemma handleProxy_token:
  assumes "handleProxy c p cl x = Some (reply, p')"
    and "case py_TokenOutput p of None \<Rightarrow> True | Some ch \<Rightarrow> length ch \<le> token_capacity"
  shows "case py_TokenOutput p' of None \<Rightarrow> True | Some ch \<Rightarrow> length ch \<le> token_capacity"
proof -
  obtain res p1 where r: "prepare_request c p cl x = Some (res, p1)"
    using assms(1) by (auto simp: handleProxy_def split: option.splits)
  have "py_TokenOutput p1 = py_TokenOutput p"
  proof (cases res)
    case (Inl e)
    then show ?thesis using r client_pid_frame [of p x] by (auto simp: prepare_request_def Let_def split: option.splits if_splits)
  next
    case (Inr q)
    then show ?thesis
      using r client_pid_frame [of p x]
      by (auto simp: prepare_request_def Let_def intercept_sent_def split: option.splits if_splits prod.splits)
  qed
  then have p1: "case py_TokenOutput p1 of None \<Rightarrow> True | Some ch \<Rightarrow> length ch \<le> token_capacity" using assms(2) by simp
  have lg: "case py_TokenOutput (log_usage p2 q now st m) of None \<Rightarrow> True | Some ch \<Rightarrow> length ch \<le> token_capacity"
    if "py_TokenOutput p2 = py_TokenOutput p1" for p2 q now st m
    using p1 that by (auto simp: log_usage_def proxy_logEvent_def length_try_send split: option.splits)
  show ?thesis
  proof (cases res)
    case (Inl e)
    then show ?thesis using assms(1) r p1 by (simp add: handleProxy_def)
  next
    case (Inr q)
    have "case py_TokenOutput (snd (handleNonStreamingResponse c p1 q ua t now)) of None \<Rightarrow> True | Some ch \<Rightarrow> length ch \<le> token_capacity"
      "case py_TokenOutput (snd (handleStreamingResponse c p1 q ua fl now)) of None \<Rightarrow> True | Some ch \<Rightarrow> length ch \<le> token_capacity"
      for ua t now fl
      using p1 lg by (auto simp: handleNonStreamingResponse_def handleStreamingResponse_def Let_def case_prod_unfold
          split: option.splits)
    then show ?thesis
      using assms(1) r p1 Inr by (auto simp: handleProxy_def Let_def case_prod_unfold split: sum.splits if_splits)
  qed
qed

lemma py_Router_exchange:
  assumes "handleProxy c p cl x = Some (reply, p')" "py_Router p = None"
  shows "py_Router p' = None"
proof -
  obtain res p1 where r: "prepare_request c p cl x = Some (res, p1)"
    using assms(1) by (auto simp: handleProxy_def split: option.splits)
  have p1: "py_Router p1 = None"
    using r assms(2) client_pid_frame [of p x]
    by (cases res) (auto simp: prepare_request_def Let_def intercept_sent_def split: option.splits if_splits)
  show ?thesis
  proof (cases res)
    case (Inl e)
    then show ?thesis using assms(1) r p1 by (simp add: handleProxy_def)
  next
    case (Inr q)
    have "py_Router (snd (handleNonStreamingResponse c p1 q ua t now)) = None"
      "py_Router (snd (handleStreamingResponse c p1 q ua fl now)) = None" for ua t now fl
      using p1 by (auto simp: handleNonStreamingResponse_def handleStreamingResponse_def Let_def)
    then show ?thesis
      using assms(1) r p1 Inr by (auto simp: handleProxy_def Let_def case_prod_unfold split: sum.splits if_splits)
  qed
qed

lemma engine_exchange_inv:
  assumes "engine_inv cfg e" "engine_exchange c cl x e = Some (reply, e')"
  shows "engine_inv cfg e'"
proof -
  obtain p where p: "en_proxySrv e = Some p" using assms(2) by (auto simp: engine_exchange_def split: option.splits)
  let ?p = "p\<lparr>py_TokenOutput := Some (pp_TokenCh (en_pipeline e))\<rparr>"
  obtain p' where h: "handleProxy c ?p cl x = Some (reply, p')"
    and e': "e' = e\<lparr>en_proxySrv := Some p',
      en_pipeline := (en_pipeline e)\<lparr>pp_TokenCh := (case py_TokenOutput p' of None \<Rightarrow> [] | Some ch \<Rightarrow> ch)\<rparr>\<rparr>"
    using assms(2) p by (auto simp: engine_exchange_def)
  have "py_Router p' = None" using py_Router_exchange [OF h] assms(1) p by (simp add: engine_inv_def)
  moreover have "length (case py_TokenOutput p' of None \<Rightarrow> [] | Some ch \<Rightarrow> ch) \<le> token_capacity"
    using handleProxy_token [OF h] assms(1) by (auto simp: engine_inv_def pipeline_inv_def split: option.splits)
  ultimately show ?thesis using assms(1) p e' pipeline_invD [of "en_pipeline e"] by (simp add: engine_inv_def)
qed

lemma silent_pop: "silent d \<Longrightarrow> dt_alerts d = a # rest \<Longrightarrow> silent (d\<lparr>dt_alerts := rest\<rparr>)"
  by (auto simp: silent_def detector_inv_def)

lemma silent_gc: "silent d \<Longrightarrow> map_range ord \<Longrightarrow> silent (detector_runGC ord d now)"
proof -
  assume s: "silent d" and ord: "map_range ord"
  have inv: "detector_inv DetectorDefaultConfig d" using s by (simp add: silent_def)
  have "dt_windows d pid = Some pw" if "dt_windows (detector_runGC ord d now) pid = Some pw" for pid pw
    using that by (auto simp: detector_runGC_windows [OF ord inv] split: option.splits if_splits)
  then show ?thesis using s detector_runGC_inv [OF ord inv] unfolding silent_def by blast
qed

lemma push_engine_inv: "engine_inv cfg e \<Longrightarrow> push_event marshal evt e = Some e' \<Longrightarrow> engine_inv cfg e'"
  using push_event_inv [of e marshal evt] by (auto simp: engine_inv_def)

text \<open>Forgetting an event and remembering its identifier does not touch the invariant.\<close>

lemma engine_inv_events [simp]:
  "engine_inv cfg (e\<lparr>en_mitigator := m, en_mitLastEventID := i\<rparr>) \<longleftrightarrow> engine_inv cfg e"
  "engine_inv cfg (e\<lparr>en_router := r, en_routerLastEvent := i\<rparr>) \<longleftrightarrow> engine_inv cfg e"
  "engine_inv cfg (e\<lparr>en_policy := pol\<rparr>) \<longleftrightarrow> engine_inv cfg e"
  "engine_inv cfg (e\<lparr>en_rollback := k, en_rollbackLastSync := t\<rparr>) \<longleftrightarrow> engine_inv cfg e"
  by (simp_all add: engine_inv_def)

lemma logged_inv:
  assumes "engine_inv cfg e"
  shows "mitigateEventLogger_step mm e = Some e' \<Longrightarrow> engine_inv cfg e'"
    and "routerEventLogger_step mr e = Some e' \<Longrightarrow> engine_inv cfg e'"
    and "policyEventLogger_step mp e = Some e' \<Longrightarrow> engine_inv cfg e'"
    and "rollbackEventLogger_step ms e = Some e' \<Longrightarrow> engine_inv cfg e'"
  using assms
  by (auto simp: mitigateEventLogger_step_def routerEventLogger_step_def policyEventLogger_step_def rollbackEventLogger_step_def
      split: option.splits list.splits elim!: push_engine_inv [rotated])

lemma wire_step_inv: "wire_step e e' \<Longrightarrow> engine_inv cfg e \<Longrightarrow> engine_inv cfg e'"
proof (induction rule: wire_step.induct)
  case (step_poll ord encode x e e')
  then have "pipeline_inv (en_pipeline e)" by (simp add: engine_inv_def)
  from engine_poll_inv [OF step_poll.hyps this] step_poll.prems show ?case by (auto simp: engine_inv_def)
next
  case (step_route decode ri e e')
  show ?case
  proof (cases "pp_SnapshotCh (en_pipeline e)")
    case Nil
    then show ?thesis using step_route by (simp add: dataRouter_step_def)
  next
    case (Cons data rest)
    let ?e = "e\<lparr>en_pipeline := (en_pipeline e)\<lparr>pp_SnapshotCh := rest\<rparr>\<rparr>"
    have inv: "engine_inv cfg ?e" using step_route.prems Cons pipeline_invD [of "en_pipeline e"] by (auto simp: engine_inv_def)
    show ?thesis
    proof (cases "decode data")
      case None
      then show ?thesis using step_route.hyps Cons inv by (simp add: dataRouter_step_def)
    next
      case (Some snap)
      then have "route_snapshot ri snap ?e = Some e'" using step_route.hyps Cons by (simp add: dataRouter_step_def)
      then obtain p d m where "e' = ?e\<lparr>en_profiler := p, en_detector := d, en_metrics := Some m\<rparr>" "um_Anomalies m = []"
        "case en_detector ?e of None \<Rightarrow> d = None | Some d0 \<Rightarrow> \<exists>d1. d = Some d1 \<and> detect_processes ri snap d0 = Some d1"
        by (rule route_snapshot_effect)
      then show ?thesis using inv by (auto simp: engine_inv_def silent_detect split: option.splits)
    qed
  qed
next
  case (step_aggregate sha decode encodep e e')
  then obtain p where "pipeline_aggregate sha decode encodep (en_pipeline e) = Some p" "e' = e\<lparr>en_pipeline := p\<rparr>"
    by (auto simp: engine_aggregate_def)
  then show ?case using step_aggregate.prems pipeline_aggregate_inv [of "en_pipeline e" sha decode encodep] by (auto simp: engine_inv_def)
next
  case (step_exchange c cl px e reply e')
  then show ?case using engine_exchange_inv by blast
next
  case (step_send e s out backoff backoff' rb waits)
  then show ?case using run_iteration_inv pipeline_invD [of "en_pipeline e"] by (auto simp: engine_inv_def)
next
  case (step_flush e s outs sent rb)
  then have "rb_inv rb"
    using flushRemaining_total [of "pp_RingBuf (en_pipeline e)" s outs 0] by (auto simp: engine_inv_def pipeline_inv_def)
  then show ?case using step_flush.prems pipeline_invD [of "en_pipeline e"] by (simp add: engine_inv_def)
next
  case (step_stopping e)
  then show ?case by (auto simp: engine_inv_def stop_metrics_def)
next
  case (step_print e e')
  then show ?case
    using Drain_inv pipeline_invD [of "en_pipeline e"]
    by (auto simp: engine_inv_def flushRingBuffer_def split: option.splits)
next
  case (step_detectorAlert e buf)
  then show ?case
    by (auto simp: engine_inv_def engine_detectorAlert_def multiplex_detector_def alerter_inv_route silent_pop
        split: option.splits list.splits)
next
  case (step_profilerAlert e buf)
  then show ?case
    by (auto simp: engine_inv_def engine_profilerAlert_def multiplex_profiler_def alerter_inv_route split: option.splits list.splits)
next
  case (step_fanOut marshal e e')
  show ?case
  proof (cases "fanOut_step marshal ((en_alerter e)\<lparr>mx_ringBuf := Some (pp_RingBuf (en_pipeline e))\<rparr>)")
    case None
    then show ?thesis using step_fanOut by (simp add: engine_fanOut_def)
  next
    case (Some res)
    have "alerter_inv (en_alerter e)" "rb_inv (pp_RingBuf (en_pipeline e))" using step_fanOut.prems by (simp_all add: engine_inv_def pipeline_inv_def)
    from fanOut_inv [OF this Some] obtain am rb where "res = Some am" "alerter_inv am" "mx_ringBuf am = Some rb" "rb_inv rb" by blast
    then show ?thesis
      using step_fanOut Some pipeline_invD [of "en_pipeline e"] by (auto simp: engine_fanOut_def with_ringbuf_def engine_inv_def)
  qed
next
  case (step_bridge e)
  show ?case
  proof (cases "bridge_index e < length (mx_subs (en_alerter e))")
    case True
    have am: "alerter_inv (en_alerter e)" using step_bridge by (simp add: engine_inv_def)
    from step_bridge alerter_inv_subs [OF am True] True show ?thesis
      by (auto simp: routerAlertBridge_step_def Let_def engine_inv_def length_try_send split: list.splits)
  qed (use step_bridge in \<open>simp add: routerAlertBridge_step_def Let_def\<close>)
next
  case (step_gc e d gc_ord now)
  then show ?case using silent_gc by (auto simp: engine_inv_def)
next
  case (step_mitigateEvent marshal_m e e')
  then show ?case using logged_inv(1) by blast
next
  case (step_routerEvent marshal_r e e')
  then show ?case using logged_inv(2) by blast
next
  case (step_policyEvent marshal_p e e')
  then show ?case using logged_inv(3) by blast
next
  case (step_rollbackEvent marshal_s e e')
  then show ?case using logged_inv(4) by blast
qed

lemma engine_step_inv: "engine_step e e' \<Longrightarrow> engine_inv cfg e \<Longrightarrow> engine_inv cfg e'"
proof (induction rule: engine_step.induct)
  case (step_wire e e')
  then show ?case by (rule wire_step_inv)
next
  case (step_handleAlert e ei t_lookup t_update)
  then show ?case by (auto simp: engine_handleAlert_def engine_inv_def case_prod_unfold Let_def split: option.splits list.splits)
next
  case (step_subscription e alert rest subs)
  then show ?case by (auto simp: engine_inv_def alerter_inv_def)
next
  case (background e m p pol r k)
  then show ?case by (simp add: engine_inv_def)
qed

lemma NewEngine_inv:
  assumes "NewEngine pt cfg now = Some e"
  shows "engine_inv cfg e"
proof -
  have "pipeline_inv (NewPipeline a b n)" for a b n
    by (simp add: pipeline_inv_def NewPipeline_def Let_def rb_inv_NewRingBuffer)
  moreover obtain pol where "NewPolicyEngine (engine_policy_config cfg) = Some pol"
    using assms by (auto simp: NewEngine_def Let_def split: option.splits)
  ultimately show ?thesis
    using assms by (cases "cf_DetectorEnabled cfg"; cases "cf_ProxyEnabled cfg")
      (auto simp: NewEngine_def Let_def engine_inv_def alerter_inv_new silent_new engine_proxy_def NewProxy_def)
qed

lemma pipeline_inv_start [simp]:
  "pipeline_inv (SetUpstreamEndpoint p endpoint) = pipeline_inv p" "pipeline_inv (pipeline_Start p) = pipeline_inv p"
  by (simp_all add: pipeline_inv_def SetUpstreamEndpoint_def pipeline_Start_def)

lemma engine_Start_inv: "engine_Start e attached gpuErr = Some e' \<Longrightarrow> engine_inv cfg e \<Longrightarrow> engine_inv cfg e'"
  by (auto simp: engine_Start_def Let_def engine_inv_def alerter_inv_Subscribe split: if_splits)

lemma engine_reach_inv: "engine_reach cfg e \<Longrightarrow> engine_inv cfg e"
  by (induction rule: engine_reach.induct) (auto intro: NewEngine_inv engine_Start_inv engine_step_inv)


text \<open>
  Bookkeeping never takes the agent down: in every state that the agent can reach, the
  aggregator, the alerter's fan-out, the four event loggers and the final flush all run to their
  end without a panic, whatever the encoders return.
\<close>

lemma engine_bookkeeping_total:
  assumes "engine_reach cfg e"
  shows "engine_aggregate sha decode encode e \<noteq> None \<and> engine_fanOut marshal e \<noteq> None \<and>
    mitigateEventLogger_step mm e \<noteq> None \<and> routerEventLogger_step mr e \<noteq> None \<and>
    policyEventLogger_step mp e \<noteq> None \<and> rollbackEventLogger_step ms e \<noteq> None \<and> flushRingBuffer e \<noteq> None"
proof -
  have inv: "engine_inv cfg e" using assms by (rule engine_reach_inv)
  then have pl: "pipeline_inv (en_pipeline e)" and am: "alerter_inv (en_alerter e)" by (simp_all add: engine_inv_def)
  have p: "push_event marshal evt e' \<noteq> None" if "en_pipeline e' = en_pipeline e" for marshal evt e'
    using push_event_inv [of e' marshal evt] pl that by auto
  have "engine_fanOut marshal e \<noteq> None"
    using fanOut_inv [OF am, of "pp_RingBuf (en_pipeline e)" marshal] pl
    by (auto simp: engine_fanOut_def pipeline_inv_def split: option.splits)
  moreover have "engine_aggregate sha decode encode e \<noteq> None"
    using pipeline_aggregate_inv [OF pl, of sha decode encode] by (auto simp: engine_aggregate_def)
  moreover have "flushRingBuffer e \<noteq> None"
    using Drain_spec [of "pp_RingBuf (en_pipeline e)" 10000] pl by (auto simp: flushRingBuffer_def pipeline_inv_def)
  ultimately show ?thesis
    by (auto simp: mitigateEventLogger_step_def routerEventLogger_step_def policyEventLogger_step_def rollbackEventLogger_step_def
        p [simplified] split: option.splits list.splits)
qed

section \<open>What sampling does to a process\<close>

lemma takeWhile_newest: "takeWhile P (rev (newest_n n xs)) = take n (takeWhile P (rev xs))"
proof -
  have "takeWhile P (take n ys) = take n (takeWhile P ys)" for ys
  proof (induction ys arbitrary: n)
    case (Cons y ys)
    then show ?case by (cases n) simp_all
  qed simp
  moreover have "rev (newest_n n xs) = take n (rev xs)" 
    by (cases "n \<le> length xs") (simp_all add: newest_n_def rev_drop)
  ultimately show ?thesis by simp
qed

text \<open>The newest records of a process that are not older than \<open>T\<close>.\<close>

definition recent :: "int \<Rightarrow> ProcessWindow \<Rightarrow> nat" where
  "recent T pw = length (takeWhile (\<lambda>r. T \<le> dr_Timestamp r) (rev (pw_records pw)))"

lemma recent_append:
  assumes "pw_maxSize pw = 20" "T \<le> de_Timestamp ev"
  shows "recent T (window_append pw ev t) = min 20 (Suc (recent T pw))"
  using assms window_append_records [of pw ev t] by (simp add: recent_def takeWhile_newest detector_record_def)

text \<open>Either an alert has been raised about the process, or it has been sampled \<open>k\<close> times of late.\<close>

definition sampled :: "int \<Rightarrow> int \<Rightarrow> nat \<Rightarrow> Detector \<Rightarrow> bool" where
  "sampled T pid k d \<longleftrightarrow> silent d \<and>
     (pw_lastAlertAt (window_of d pid) \<noteq> None \<or> k < 5 \<and> k \<le> recent T (window_of d pid))"

lemma sampled_le: "sampled T pid k d \<Longrightarrow> j \<le> k \<Longrightarrow> sampled T pid j d"
  by (auto simp: sampled_def)

lemma sampled_other:
  assumes "sampled T pid k d" "Ingest d ev ta tc t_al = Some d'" "de_Payload ev = ''''" "de_PID ev \<noteq> pid"
  shows "sampled T pid k d'"
proof -
  have s: "silent d" using assms(1) by (simp add: sampled_def)
  have w: "0 \<le> dc_WindowSize (dt_cfg d)" using silent_cfg [OF s] default_window by simp
  show ?thesis
    using assms(1) silent_Ingest [OF s assms(2,3)] window_of_Ingest [OF w assms(2), of pid] assms(4) by (simp add: sampled_def)
qed

lemma frequent_alerts:
  assumes "silent d" "5 \<le> recent T (window_append (window_of d (de_PID ev)) ev ta)" "de_Payload ev = ''''"
    and "T \<le> de_Timestamp ev" "de_Timestamp ev \<le> T + 10" "0 \<le> T" "T < 2 ^ 62"
  shows "ingest_alert d ev ta tc \<noteq> None \<or> pw_lastAlertAt (window_of d (de_PID ev)) \<noteq> None"
proof -
  let ?pw = "window_append (window_of d (de_PID ev)) ev ta"
  have inv: "detector_inv DetectorDefaultConfig d" using assms(1) by (simp add: silent_def)
  have cfg: "dt_cfg d = DetectorDefaultConfig" using assms(1) by (rule silent_cfg)
  let ?cut = "to_i64 (de_Timestamp ev - whole_seconds (dc_FreqWindow DetectorDefaultConfig))"
  have "whole_seconds (dc_FreqWindow DetectorDefaultConfig) = 10"
    unfolding DetectorDefaultConfig_def by (simp only: DetectorConfig.simps whole_seconds_of_seconds)
  then have cut: "?cut \<le> T" using assms(4-7) by (simp add: to_i64_id in_i64_def)
  have thr: "dc_FreqThreshold DetectorDefaultConfig = 5" by (simp add: DetectorDefaultConfig_def)
  have "length (takeWhile (\<lambda>r. dr_Timestamp r \<ge> T) ys) \<le> length (takeWhile (\<lambda>r. dr_Timestamp r \<ge> ?cut) ys)" for ys
    using cut by (induction ys) auto
  from this [of "rev (pw_records ?pw)"] have locked: "isFrequentLocked d ?pw (de_Timestamp ev)"
    using assms(2) thr by (simp add: isFrequentLocked_def Let_def cfg recent_def)
  have len: "5 \<le> length (pw_records ?pw)"
    using assms(2) length_takeWhile_le [of "\<lambda>r. T \<le> dr_Timestamp r" "rev (pw_records ?pw)"] by (simp add: recent_def)
  have "0 \<le> pw_maxSize (window_of d (de_PID ev))" using window_of_maxSize [OF inv] default_window by simp
  then have "set (pw_records ?pw) \<subseteq> set (pw_records (window_of d (de_PID ev)) @ [detector_record ev])"
    by (simp only: window_append_records set_newest_n)
  then have "\<forall>r \<in> set (pw_records ?pw). dr_SimHash r = SimHash ''''"
    using silent_window [OF assms(1)] assms(3) by (auto simp: detector_record_def)
  then have "mean_similarity (pw_records ?pw) = 1" 
    using mean_similarity_same [of "pw_records ?pw" "SimHash ''''"] len by simp
  then have "mean_similarity (pw_records ?pw) \<ge> dc_SimilarityThreshold DetectorDefaultConfig" by (simp add: DetectorDefaultConfig_def)
  then have a: "analyze DetectorDefaultConfig (de_PID ev) ?pw (de_Timestamp ev) tc \<noteq> None \<or> pw_lastAlertAt ?pw \<noteq> None"
    using analyze_raises [of DetectorDefaultConfig "de_PID ev" ?pw "de_Timestamp ev" tc] len by (auto simp: cooling_down_def)
  have "ingest_alert d ev ta tc = analyze (dt_cfg d) (de_PID ev) ?pw (de_Timestamp ev) tc"
    using locked cfg default_window
    by (auto simp: ingest_alert_def getOrCreateWindow_def window_of_def empty_window_def Let_def isFrequentLocked_def split: option.splits)
  with a cfg show ?thesis by simp
qed

lemma sampled_same:
  assumes "sampled T pid k d" "Ingest d ev ta tc t_al = Some d'" "de_Payload ev = ''''" "de_PID ev = pid" "k < 5"
    and "T \<le> de_Timestamp ev" "de_Timestamp ev \<le> T + 10" "0 \<le> T" "T < 2 ^ 62"
  shows "sampled T pid (Suc k) d'"
proof -
  have s: "silent d" using assms(1) by (simp add: sampled_def)
  have w: "0 \<le> dc_WindowSize (dt_cfg d)" using silent_cfg [OF s] default_window by simp
  have mx: "pw_maxSize (window_of d pid) = 20"
    using window_of_maxSize [of DetectorDefaultConfig d pid] s by (simp add: silent_def DetectorDefaultConfig_def)
  let ?pw = "window_append (window_of d pid) ev ta"
  have wd: "window_of d' pid = ?pw\<lparr>pw_lastAlertAt := (if ingest_alert d ev ta tc = None then pw_lastAlertAt (window_of d pid) else Some t_al)\<rparr>"
    using window_of_Ingest [OF w assms(2), of pid] assms(4) by simp
  have rec: "recent T (window_of d' pid) = min 20 (Suc (recent T (window_of d pid)))"
    using recent_append [OF mx assms(6)] by (simp add: wd recent_def)
  show ?thesis
  proof (cases "pw_lastAlertAt (window_of d' pid) = None")
    case True
    then have none: "ingest_alert d ev ta tc = None" "pw_lastAlertAt (window_of d pid) = None"
      using wd by (simp_all split: if_splits)
    then have k: "k \<le> recent T (window_of d pid)" using assms(1) by (simp add: sampled_def)
    have "\<not> 5 \<le> recent T ?pw"
      using frequent_alerts [OF s _ assms(3,6-9), of ta tc] none assms(4) by auto
    then have "Suc k < 5" "Suc k \<le> recent T (window_of d' pid)"
      using k rec recent_append [OF mx assms(6)] by (auto simp: min_def split: if_splits)
    then show ?thesis using silent_Ingest [OF s assms(2,3)] by (simp add: sampled_def)
  next
    case False
    then show ?thesis using silent_Ingest [OF s assms(2,3)] by (simp add: sampled_def)
  qed
qed

lemma sampled_any:
  assumes "sampled T pid k d" "Ingest d ev ta tc t_al = Some d'" "de_Payload ev = ''''"
    and "T \<le> de_Timestamp ev" "de_Timestamp ev \<le> T + 10" "0 \<le> T" "T < 2 ^ 62"
  shows "sampled T pid k d'"
proof (cases "de_PID ev = pid")
  case False
  then show ?thesis using sampled_other [OF assms(1-3)] by simp
next
  case True
  show ?thesis
  proof (cases "k < 5")
    case True
    with \<open>de_PID ev = pid\<close> sampled_same [OF assms(1-3) _ _ assms(4-7)] sampled_le [of T pid "Suc k" d' k] show ?thesis by simp
  next
    case False
    then have alerted: "sampled T pid 4 d" "pw_lastAlertAt (window_of d pid) \<noteq> None" using assms(1) by (auto simp: sampled_def)
    have s: "silent d" using assms(1) by (simp add: sampled_def)
    have w: "0 \<le> dc_WindowSize (dt_cfg d)" using silent_cfg [OF s] default_window by simp
    show ?thesis
      using silent_Ingest [OF s assms(2,3)] alerted(2) window_of_Ingest [OF w assms(2), of pid] True by (simp add: sampled_def)
  qed
qed

lemma silent_Ingest_total:
  assumes "silent d"
  shows "Ingest d ev ta tc t_al \<noteq> None"
  using Ingest_result [of d ev ta tc t_al] silent_cfg [OF assms] default_window by simp

text \<open>A snapshot with the process counts once more; any other keeps the count.\<close>

lemma sampled_snapshot:
  assumes "detect_processes x snap d = Some d'" "sampled T pid k d" "k < 5"
    and "T \<le> sn_Timestamp snap" "sn_Timestamp snap \<le> T + 10" "0 \<le> T" "T < 2 ^ 62"
  shows "sampled T pid (if pid \<in> pm_PID ` set (sn_MonitoredProcesses snap) then Suc k else k) d'"
proof -
  have "fold_opt (\<lambda>pm d. Ingest d (process_event snap pm) ta tc t_al) ps d = Some d' \<Longrightarrow> sampled T pid k d \<Longrightarrow>
      sampled T pid (if pid \<in> pm_PID ` set ps then Suc k else k) d'" for ps ta tc t_al d
  proof (induction ps arbitrary: d' rule: rev_induct)
    case (snoc pm ps)
    then obtain d1 where d1: "fold_opt (\<lambda>pm d. Ingest d (process_event snap pm) ta tc t_al) ps d = Some d1"
      "Ingest d1 (process_event snap pm) ta tc t_al = Some d'"
      by (auto simp: fold_opt_append split: option.splits)
    have ev: "de_Payload (process_event snap pm) = ''''" "T \<le> de_Timestamp (process_event snap pm)"
      "de_Timestamp (process_event snap pm) \<le> T + 10" "de_PID (process_event snap pm) = pm_PID pm"
      using assms(4,5) by (simp_all add: process_event_def)
    note IH = snoc.IH [OF d1(1) snoc.prems(2)]
    show ?case
    proof (cases "pid \<in> pm_PID ` set ps")
      case True
      then show ?thesis using IH sampled_any [OF _ d1(2) ev(1-3) assms(6,7)] by simp
    next
      case False
      then have k: "sampled T pid k d1" using IH by simp
      show ?thesis
      proof (cases "pm_PID pm = pid")
        case True
        from sampled_same [OF k d1(2) ev(1) _ assms(3) ev(2,3) assms(6,7)] True ev(4) show ?thesis by simp
      next
        case other: False
        from sampled_any [OF k d1(2) ev(1-3) assms(6,7)] other False show ?thesis by auto
      qed
    qed
  qed simp
  then show ?thesis using assms(1,2) unfolding detect_processes_def by blast
qed

definition route_snapshots :: "(route_inputs \<times> Snapshot) list \<Rightarrow> ProfilerEngine \<Rightarrow> ProfilerEngine option" where
  "route_snapshots xs e = fold_opt (\<lambda>(ri, snap). route_snapshot ri snap) xs e"

lemma sampled_rounds:
  assumes "route_snapshots xs e = Some e'" "en_detector e = Some d" "sampled T pid k d" "0 \<le> T" "T < 2 ^ 62" "k \<le> 5"
    and "\<forall>(ri, snap) \<in> set xs. pid \<in> pm_PID ` set (sn_MonitoredProcesses snap) \<and> T \<le> sn_Timestamp snap \<and> sn_Timestamp snap \<le> T + 10"
  shows "\<exists>d'. en_detector e' = Some d' \<and> sampled T pid (min 5 (k + length xs)) d'"
  using assms
proof (induction xs arbitrary: e d k)
  case Nil
  then show ?case by (simp add: route_snapshots_def)
next
  case (Cons x xs)
  obtain ri snap where x: "x = (ri, snap)" by (cases x)
  obtain e1 where e1: "route_snapshot ri snap e = Some e1" "route_snapshots xs e1 = Some e'"
    using Cons.prems(1) x by (auto simp: route_snapshots_def split: option.splits)
  from e1(1) obtain p dd m where "e1 = e\<lparr>en_profiler := p, en_detector := dd, en_metrics := Some m\<rparr>"
    "case en_detector e of None \<Rightarrow> dd = None | Some d0 \<Rightarrow> \<exists>d1. dd = Some d1 \<and> detect_processes ri snap d0 = Some d1"
    by (rule route_snapshot_effect)
  then obtain d1 where d1: "en_detector e1 = Some d1" "detect_processes ri snap d = Some d1" using Cons.prems(2) by auto
  have snap: "pid \<in> pm_PID ` set (sn_MonitoredProcesses snap)" "T \<le> sn_Timestamp snap" "sn_Timestamp snap \<le> T + 10"
    and rest: "\<forall>(ri, snap) \<in> set xs. pid \<in> pm_PID ` set (sn_MonitoredProcesses snap) \<and> T \<le> sn_Timestamp snap \<and> sn_Timestamp snap \<le> T + 10"
    using Cons.prems(7) x by auto
  have s4: "sampled T pid (min 4 k) d" using sampled_le [OF Cons.prems(3)] by simp
  have "sampled T pid (min 5 (Suc k)) d1"
  proof (cases "k < 5")
    case True
    then have "sampled T pid (Suc k) d1"
      using sampled_snapshot [OF d1(2) Cons.prems(3) True snap(2,3) Cons.prems(4,5)] snap(1) by simp
    moreover have "min 5 (Suc k) = Suc k" using True by simp
    ultimately show ?thesis by (simp only:)
  next
    case False
    then have "min 4 k = 4" "k = 5" using Cons.prems(6) by simp_all
    then show ?thesis
      using sampled_snapshot [OF d1(2) s4 _ snap(2,3) Cons.prems(4,5)] snap(1) by simp
  qed
  moreover have "min 5 (min 5 (Suc k) + length xs) = min 5 (k + length (x # xs))" by (auto simp: min_def)
  ultimately show ?case using Cons.IH [OF e1(2) d1(1) _ Cons.prems(4,5) _ rest, of "min 5 (Suc k)"] by simp
qed


section \<open>A running agent\<close>

definition demo_cfg :: Config where
  "demo_cfg = (DefaultConfig ''node'')\<lparr>cf_ProfilerEnabled := False, cf_ProxyEnabled := True, cf_RouterEnabled := True\<rparr>"

lemma run_setup_interval [simp]: "co_pollInterval (run_setup c attached gpuErr) = co_pollInterval c"
  by (simp add: run_setup_def Let_def)

lemma demo_agent: "\<exists>e. engine_reach demo_cfg e \<and> en_profiler e = None"
proof -
  obtain pol where pol: "NewPolicyEngine (engine_policy_config demo_cfg) = Some pol"
    by (simp add: NewPolicyEngine_def engine_policy_config_def PolicyDefaultConfig_def Let_def demo_cfg_def DefaultConfig_def)
  obtain e where e: "NewEngine \<lparr>pt_bpf = False, pt_gpu = False\<rparr> demo_cfg 0 = Some e" "en_profiler e = None"
    "co_pollInterval (en_collector e) = cf_PollInterval demo_cfg"
    using pol by (simp add: NewEngine_def Let_def NewCollector_def) (simp add: demo_cfg_def)
  have "cf_PollInterval demo_cfg > 0" by (simp add: demo_cfg_def DefaultConfig_def)
  then obtain e' where "engine_Start e False None = Some e'" "en_profiler e' = None"
    using e by (simp add: engine_Start_def Let_def collector_ticker_def)
  then show ?thesis using reach_start [OF e(1)] by blast
qed

lemma silent_detect_total:
  assumes "silent d"
  shows "\<exists>d'. detect_processes x snap d = Some d' \<and> silent d'"
proof -
  have "\<exists>d'. fold_opt (\<lambda>pm d. Ingest d (process_event snap pm) ta tc t_al) ps d = Some d'" if "silent d" for ps ta tc t_al d
    using that
  proof (induction ps arbitrary: d)
    case (Cons pm ps)
    obtain d1 where d1: "Ingest d (process_event snap pm) ta tc t_al = Some d1" using silent_Ingest_total [OF Cons.prems] by blast
    have "silent d1" using silent_Ingest [OF Cons.prems d1] by (simp add: process_event_def)
    with Cons.IH d1 show ?case by simp
  qed simp
  then obtain d' where "detect_processes x snap d = Some d'" using assms unfolding detect_processes_def by blast
  with silent_detect [OF assms] show ?thesis by blast
qed

lemma route_snapshots_total:
  "en_profiler e = None \<Longrightarrow> en_detector e = Some d \<Longrightarrow> silent d \<Longrightarrow> \<exists>e'. route_snapshots xs e = Some e'"
proof (induction xs arbitrary: e d)
  case (Cons x xs)
  obtain ri snap where x: "x = (ri, snap)" by (cases x)
  obtain d1 where d1: "detect_processes ri snap d = Some d1" "silent d1" using silent_detect_total [OF Cons.prems(3)] by blast
  let ?e = "updateMetrics ri (e\<lparr>en_detector := Some d1\<rparr>) snap"
  have r: "route_snapshot ri snap e = Some ?e"
    using Cons.prems d1 by (simp add: route_snapshot_def profile_snapshot_def detect_snapshot_def)
  have "en_profiler ?e = None" "en_detector ?e = Some d1" using Cons.prems by (simp_all add: updateMetrics_def Let_def)
  from Cons.IH [OF this d1(2)] show ?case using r x by (simp add: route_snapshots_def)
qed (simp add: route_snapshots_def)


definition idle_snapshot :: "int \<Rightarrow> Snapshot" where
  "idle_snapshot t = \<lparr>sn_Timestamp = t, sn_HostMetrics = \<lparr>hm_CPUUtilizationPct = 0, hm_MemoryTotalBytes = 0, hm_MemoryUsedBytes = 0\<rparr>,
     sn_MonitoredProcesses = [\<lparr>pm_PID = 4242, pm_ContainerID = '''', pm_ProcessName = ''idle'', pm_CPUUsagePct = 0,
       pm_RSSBytes = 0, pm_VSizeBytes = 0\<rparr>], sn_GPUDevices = []\<rparr>"

definition demo_route :: route_inputs where
  "demo_route = \<lparr>ri_profiler = 0, ri_access = 0, ri_check = 0, ri_alert = 0, ri_now = 0, ri_rss = 0, ri_goroutines = 0,
     ri_entries = sorted_keys, ri_records = sorted_keys, ri_states = sorted_keys\<rparr>"


section \<open>The proxy and the dashboard of the agent\<close>

text \<open>
  C20: The remedies of the router never touch the traffic of the agent: the proxy is built before
  the router exists, so it has none, and with the router enabled and whatever remedies are active,
  every request that the proxy sends carries the body that the client sent, cut at the limit, and
  goes to a configured route.
\<close>

theorem agent_traffic_untreated:
  assumes "engine_reach cfg e" "en_proxySrv e = Some p" "prepare_request c p cl x = Some (Inr q, p')"
  shows "sq_Body q = take body_limit (cl_Body cl) \<and> (\<exists>rt \<in> set (py_routes p). hr_URL (sq_Request q) = ur_BaseURL rt @ cl_Path cl)"
proof -
  have none: "py_Router p = None" using engine_reach_inv [OF assms(1)] assms(2) by (simp add: engine_inv_def)
  from assms(3) prepare_request_sent obtain rt body pid p1 host h meta where
    rt: "matchRoute (pi_lower x) p (cl_Host cl) = Some rt" and b: "read_body cl = Some body"
    and p1: "client_pid p x = Some (pid, p1)"
    and i: "intercept_sent c p1 \<lparr>sq_Request = \<lparr>hr_URL = ur_BaseURL rt @ cl_Path cl, hr_Host = host, hr_Header = h,
       hr_ContentLength = int (length body)\<rparr>, sq_Body = body, sq_Provider = ur_Provider rt, sq_Meta = meta, sq_PID = pid\<rparr>
       (pi_intercept x) = Some (q, p')" by metis
  have "rt \<in> set (py_routes p)" using rt find_route_set by (auto simp: matchRoute_def)
  moreover have "body = take body_limit (cl_Body cl)" using b by (auto simp: read_body_def split: if_splits)
  moreover have "py_Router p1 = None" using client_pid_frame [OF p1] none by simp
  ultimately show ?thesis using i by (auto simp: intercept_sent_def)
qed

text \<open>
  The dashboard is blind to what it is for: whatever the detector and the profiler have found
  and however often the ledger was swept, the metrics it serves list no anomaly.
\<close>

lemma dashboard_no_anomalies:
  assumes "engine_reach cfg e" "en_metrics e = Some m"
  shows "um_Anomalies m = [] \<and> api_handleMetrics encode ''GET'' e = MetricsReport (encode m @ [CHR 10])"
  using engine_reach_inv [OF assms(1)] assms(2) by (simp add: engine_inv_def api_handleMetrics_def)

text \<open>
  Starting the agent panics exactly when the polling interval is not positive, and nothing
  before checks it: the environment variable sets it to any number of milliseconds, zero and
  negative ones included.
\<close>

lemma poll_interval_unchecked:
  assumes "Load x = Inr cfg" "NewEngine pt cfg now = Some e"
  shows "(engine_Start e attached gpuErr = None \<longleftrightarrow> cf_PollInterval cfg \<le> 0) \<and>
    (\<forall>ms. li_Getenv x ''PROFILER_POLL_INTERVAL_MS'' \<noteq> '''' \<longrightarrow> Atoi (li_Getenv x ''PROFILER_POLL_INTERVAL_MS'') = Some ms \<longrightarrow>
      cf_PollInterval cfg = to_i64 (ms * 1000000))"
proof -
  have "co_pollInterval (en_collector e) = cf_PollInterval cfg"
    using assms(2) by (auto simp: NewEngine_def Let_def NewCollector_def split: option.splits)
  then show ?thesis
    using Load_poll [OF assms(1)] by (auto simp: engine_Start_def Let_def collector_ticker_def)
qed

definition zero_poll_env :: load_inputs where
  "zero_poll_env = sample_env\<lparr>li_Getenv := (\<lambda>name. if name = ''PROFILER_POLL_INTERVAL_MS'' then ''0'' else '''')\<rparr>"

lemma NewEngine_total: "Load x = Inr cfg \<Longrightarrow> \<exists>e. NewEngine pt cfg now = Some e"
  by (auto simp: NewEngine_def Let_def NewPolicyEngine_def engine_policy_config_def PolicyDefaultConfig_def split: option.splits)

section \<open>Witnesses for the running agent\<close>

lemma poll_publishes:
  assumes "pl_readDir x = None"
  shows "\<exists>c'. collectOnce ord (\<lambda>_. Some b) x c = Some c' \<and>
    co_SnapshotOutput c' = map_option (\<lambda>ch. try_send snapshot_capacity ch (b @ [CHR 10])) (co_SnapshotOutput c)"
proof -
  obtain snap c1 where c1: "sample_host ord x c = Some (snap, c1)"
    using assms by (auto simp: sample_host_def collectProcessMetrics_def Let_def case_prod_unfold)
  then show ?thesis using sample_host_output [OF c1] by (simp add: collectOnce_def publish_snapshot_def Let_def)
qed

definition silent_poll :: poll_inputs where
  "silent_poll = empty_poll\<lparr>pl_readDir := None\<rparr>"

text \<open>A poll and a turn of the router of snapshots, and the dashboard has something to show.\<close>

lemma demo_resolver_pid: "\<exists>n p1. client_pid (NewProxy la (Some (resolver_Start NewProcResolver)) ch rt) demo_exchange = Some (n, p1)"
proof -
  have "time_since 5 (pr_age (resolver_Start NewProcResolver)) > pr_ttl (resolver_Start NewProcResolver)"
    by (simp add: resolver_Start_def NewProcResolver_def time_since_def)
  moreover have "pr_impl (resolver_Start NewProcResolver) = Some newPlatformProcResolver" by (simp add: resolver_Start_def)
  ultimately show ?thesis
    by (auto simp: client_pid_def NewProxy_def demo_exchange_def ResolvePID_def demo_refresh split: sum.splits)
qed

lemma agent_proxy:
  "\<exists>e p. engine_reach demo_cfg e \<and> en_proxySrv e = Some p \<and>
     matchRoute (\<lambda>s. s) p ''API.openai.com:443'' = Some (hd DefaultRoutes) \<and> (\<exists>n p1. client_pid p demo_exchange = Some (n, p1))"
proof -
  obtain pol where pol: "NewPolicyEngine (engine_policy_config demo_cfg) = Some pol"
    by (simp add: NewPolicyEngine_def engine_policy_config_def PolicyDefaultConfig_def Let_def demo_cfg_def DefaultConfig_def)
  have m: "matchRoute (\<lambda>s. s) (NewProxy la rs ch rt) ''API.openai.com:443'' = Some (hd DefaultRoutes)" for la rs ch rt
    using demo_match by (simp add: matchRoute_def NewProxy_def)
  obtain e p where e: "NewEngine \<lparr>pt_bpf = False, pt_gpu = False\<rparr> demo_cfg 0 = Some e" "en_proxySrv e = Some p"
    "matchRoute (\<lambda>s. s) p ''API.openai.com:443'' = Some (hd DefaultRoutes)" "\<exists>n p1. client_pid p demo_exchange = Some (n, p1)"
    "co_pollInterval (en_collector e) = cf_PollInterval demo_cfg"
    using pol m demo_resolver_pid by (simp add: NewEngine_def Let_def NewCollector_def engine_proxy_def)
      (simp add: demo_cfg_def DefaultConfig_def)
  have "cf_PollInterval demo_cfg > 0" by (simp add: demo_cfg_def DefaultConfig_def)
  then obtain e' where "engine_Start e False None = Some e'" "en_proxySrv e' = Some p"
    using e by (simp add: engine_Start_def Let_def collector_ticker_def)
  then show ?thesis using reach_start [OF e(1)] e(3,4) by blast
qed

theorem agent_traffic_untreated_witness:
  "\<exists>e p q p'. engine_reach demo_cfg e \<and> en_proxySrv e = Some p \<and>
     prepare_request demo_codec p demo_client demo_exchange = Some (Inr q, p') \<and> sq_Body q = ''x''"
proof -
  obtain e p where e: "engine_reach demo_cfg e" "en_proxySrv e = Some p"
    "matchRoute (\<lambda>s. s) p ''API.openai.com:443'' = Some (hd DefaultRoutes)" "\<exists>n p1. client_pid p demo_exchange = Some (n, p1)"
    using agent_proxy by blast
  have "list_all token_byte ''POST''" by code_simp
  moreover have b: "read_body demo_client = Some ''x''" by (simp add: read_body_def demo_client_def body_limit_def)
  moreover obtain n p1 where p1: "client_pid p demo_exchange = Some (n, p1)" using e(4) by blast
  moreover have "py_Router p1 = None"
    using client_pid_frame [OF p1] engine_reach_inv [OF e(1)] e(2) by (simp add: engine_inv_def)
  ultimately obtain q p' where q: "prepare_request demo_codec p demo_client demo_exchange = Some (Inr q, p')"
    using e(3) by (simp add: prepare_request_def demo_client_def demo_exchange_def Let_def NewRequest_def intercept_sent_def demo_codec_def)
  have "take body_limit (cl_Body demo_client) = ''x''" by (simp add: demo_client_def body_limit_def)
  with agent_traffic_untreated [OF e(1,2) q] e q show ?thesis by auto
qed

section \<open>The console router\<close>

record AnomalyPayload =
  aq_EventID :: gostring
  aq_PID :: int
  aq_AnomalyType :: gostring
  aq_Severity :: gostring
  aq_GPUUID :: gostring
  aq_Message :: gostring
  aq_Timestamp :: int
  aq_NodeID :: gostring
  aq_Score :: real

record LocalConsoleRouter =
  lc_nodeID :: gostring
  lc_out :: bytes

definition NewLocalConsoleRouter :: "gostring \<Rightarrow> LocalConsoleRouter" where
  "NewLocalConsoleRouter nodeID = \<lparr>lc_nodeID = nodeID, lc_out = []\<rparr>"

definition severity_color :: "gostring \<Rightarrow> gostring" where
  "severity_color severity =
     (if severity = ''CRITICAL'' then CHR 0x1B # ''[91m''
      else if severity = ''WARNING'' then CHR 0x1B # ''[93m''
      else if severity = ''INFO'' then CHR 0x1B # ''[96m''
      else CHR 0x1B # ''[93m'')"

text \<open>Whether it was printed; the encoder and the clock are arguments.\<close>

definition RouteAnomaly ::
  "(AnomalyPayload \<Rightarrow> bytes option) \<Rightarrow> LocalConsoleRouter \<Rightarrow> AnomalyPayload \<Rightarrow> int \<Rightarrow> bool \<times> LocalConsoleRouter" where
  "RouteAnomaly marshal r p now =
     (let p = (if aq_NodeID p = '''' then p\<lparr>aq_NodeID := lc_nodeID r\<rparr> else p);
          p = (if aq_Timestamp p = 0 then p\<lparr>aq_Timestamp := now\<rparr> else p)
      in case marshal p of
           None \<Rightarrow> (False, r)
         | Some data \<Rightarrow>
             (True, r\<lparr>lc_out := lc_out r @ severity_color (aq_Severity p) @ ''[ANOMALY] '' @ data @ CHR 0x1B # ''[0m'' @ [CHR 10]\<rparr>))"

end
