(* ===== verification/Policy_Calls.thy ===== *)
theory Policy_Calls
  imports Policy_Engine
begin

text \<open>
  The policy engine of \<open>src/internal/proxy/policy\<close> under its callers. The engine counts the past
  actions against a process and registers the new one in two critical sections of the ledger
  (\<open>EvaluateAndRegister\<close> of \<open>engine.go\<close>, \<open>HistoricalCount\<close> and \<open>Register\<close> of \<open>ledger.go\<close>), so the
  calls of several goroutines overlap. One transition system has the calls one after another, the
  other one lets any number of callers be between their two sections.
\<close>

section \<open>One call after another\<close>

text \<open>
  The engine's life: creation, evaluations with a clock that does not run backwards and an
  identifier not yet in the ledger, status updates by any caller, changes of the whitelist, and
  sweeps. The first argument is the latest clock reading.
\<close>

inductive policy_reach :: "PolicyConfig \<Rightarrow> time_ns \<Rightarrow> PolicyEngine \<Rightarrow> bool" for cfg where
  create: "NewPolicyEngine cfg = Some e \<Longrightarrow> policy_reach cfg now e"
| evaluate: "policy_reach cfg now e \<Longrightarrow> now \<le> ei_th x \<Longrightarrow> ei_th x \<le> ei_tr x \<Longrightarrow>
     generateTxID (ei_buf x) \<notin> dom (tl_records (pe_ledger e)) \<Longrightarrow>
     policy_reach cfg (ei_tr x) (snd (EvaluateAndRegister e intent x))"
| confirm: "policy_reach cfg now e \<Longrightarrow> policy_reach cfg now (ConfirmExecution e txID)"
| complete: "policy_reach cfg now e \<Longrightarrow> policy_reach cfg now (Complete e txID)"
| reject: "policy_reach cfg now e \<Longrightarrow> policy_reach cfg now (Reject e txID reason)"
| whitelist: "policy_reach cfg now e \<Longrightarrow>
     policy_reach cfg now (e\<lparr>pe_evaluator := UpdateWhitelist (pe_evaluator e) names ids\<rparr>)"
| sweep: "policy_reach cfg now e \<Longrightarrow> now \<le> t \<Longrightarrow> map_range ord \<Longrightarrow> sweep ord t (pe_ledger e) = Some led \<Longrightarrow>
     policy_reach cfg t (e\<lparr>pe_ledger := led\<rparr>)"
| wait: "policy_reach cfg now e \<Longrightarrow> now \<le> t \<Longrightarrow> policy_reach cfg t e"
| observe: "policy_reach cfg now e \<Longrightarrow> pe_events e = evt # rest \<Longrightarrow> policy_reach cfg now (e\<lparr>pe_events := rest\<rparr>)"

section \<open>Overlapping calls\<close>

text \<open>
  The callers are those of the set; a caller that has counted and not yet registered is in the map,
  with its intent and the count.
\<close>

type_synonym 'c calls = "'c \<rightharpoonup> MitigationIntent \<times> int"

inductive shared_reach :: "PolicyConfig \<Rightarrow> 'c set \<Rightarrow> time_ns \<Rightarrow> PolicyEngine \<Rightarrow> 'c calls \<Rightarrow> bool" for cfg callers where
  sh_create: "NewPolicyEngine cfg = Some e \<Longrightarrow> shared_reach cfg callers now e Map.empty"
| sh_count: "shared_reach cfg callers now e pend \<Longrightarrow> now \<le> t \<Longrightarrow> c \<in> callers \<Longrightarrow> pend c = None \<Longrightarrow>
     shared_reach cfg callers t e (pend(c \<mapsto> (intent, HistoricalCount (pe_ledger e) t (mi_TargetPID intent))))"
| sh_commit: "shared_reach cfg callers now e pend \<Longrightarrow> now \<le> ei_tr x \<Longrightarrow> pend c = Some (intent, n) \<Longrightarrow>
     generateTxID (ei_buf x) \<notin> dom (tl_records (pe_ledger e)) \<Longrightarrow>
     shared_reach cfg callers (ei_tr x) (snd (policy_commit e intent n x)) (pend(c := None))"
| sh_status: "shared_reach cfg callers now e pend \<Longrightarrow>
     shared_reach cfg callers now (e\<lparr>pe_ledger := snd (UpdateStatus (pe_ledger e) tx st)\<rparr>) pend"
| sh_whitelist: "shared_reach cfg callers now e pend \<Longrightarrow>
     shared_reach cfg callers now (e\<lparr>pe_evaluator := UpdateWhitelist (pe_evaluator e) names ids\<rparr>) pend"
| sh_sweep: "shared_reach cfg callers now e pend \<Longrightarrow> now \<le> t \<Longrightarrow> map_range ord \<Longrightarrow> sweep ord t (pe_ledger e) = Some led \<Longrightarrow>
     shared_reach cfg callers t (e\<lparr>pe_ledger := led\<rparr>) pend"
| sh_wait: "shared_reach cfg callers now e pend \<Longrightarrow> now \<le> t \<Longrightarrow> shared_reach cfg callers t e pend"
| sh_observe: "shared_reach cfg callers now e pend \<Longrightarrow> pe_events e = evt # rest \<Longrightarrow>
     shared_reach cfg callers now (e\<lparr>pe_events := rest\<rparr>) pend"

section \<open>What every step keeps\<close>

definition authorized_live :: "TransactionLedger \<Rightarrow> time_ns \<Rightarrow> int \<Rightarrow> gostring set" where
  "authorized_live led now p =
     {tx. \<exists>rec. tl_records led tx = Some rec \<and> mr_TargetPID rec = p \<and>
            mr_RejectionReason rec = '''' \<and> now \<le> mr_Expiry rec}"

lemma finite_authorized_live: "finite (dom (tl_records led)) \<Longrightarrow> finite (authorized_live led now p)"
  by (rule finite_subset [of _ "dom (tl_records led)"]) (auto simp: authorized_live_def)

lemma authorized_live_antimono: "now \<le> t \<Longrightarrow> authorized_live led t p \<subseteq> authorized_live led now p"
  by (auto simp: authorized_live_def)

lemma authorized_live_UpdateStatus [simp]:
  "authorized_live (snd (UpdateStatus led tx st)) now p = authorized_live led now p"
  by (auto simp: authorized_live_def UpdateStatus_lookup split: if_splits)

lemma authorized_live_le_HistoricalCount:
  assumes "ledger_inv led"
  shows "int (card (authorized_live led now p)) \<le> HistoricalCount led now p"
proof -
  let ?A = "{tx \<in> records_of led p. \<exists>rec. tl_records led tx = Some rec \<and> now \<le> mr_Expiry rec}"
  have "finite ?A"
    using finite_records_of [OF ledger_inv_finite [OF assms]] by simp
  then have "card (authorized_live led now p) \<le> card ?A"
    by (rule card_mono) (auto simp: authorized_live_def records_of_def)
  then show ?thesis by (simp add: HistoricalCount_card [OF assms])
qed

text \<open>A well-formed ledger, fixed limits, and no authorisation of a protected target.\<close>

definition policy_ok :: "PolicyConfig \<Rightarrow> PolicyEngine \<Rightarrow> bool" where
  "policy_ok cfg e \<longleftrightarrow>
     ledger_inv (pe_ledger e) \<and>
     re_maxActionsPerPID (pe_evaluator e) = re_maxActionsPerPID (NewRuleEvaluator cfg) \<and>
     re_pidThreshold (pe_evaluator e) = re_pidThreshold (NewRuleEvaluator cfg) \<and>
     re_blacklistNames (pe_evaluator e) = re_blacklistNames (NewRuleEvaluator cfg) \<and>
     (\<forall>tx rec. tl_records (pe_ledger e) tx = Some rec \<longrightarrow> mr_RejectionReason rec = '''' \<longrightarrow>
        0 < mr_TargetPID rec \<and> re_pidThreshold (NewRuleEvaluator cfg) \<le> mr_TargetPID rec \<and>
        mr_ProcessName rec \<notin> re_blacklistNames (NewRuleEvaluator cfg))"

lemma policy_ok_ledger: "policy_ok cfg e \<Longrightarrow> ledger_inv (pe_ledger e)"
  by (simp add: policy_ok_def)

lemma name_set_nonempty: "n \<in> name_set ns \<Longrightarrow> n \<noteq> ''''"
  by (simp add: name_set_def)

lemma policy_ok_create:
  assumes "NewPolicyEngine cfg = Some e"
  shows "policy_ok cfg e" and "tl_records (pe_ledger e) = Map.empty"
proof -
  have "pe_ledger e = NewTransactionLedger (pe_cfg e)" and "pe_evaluator e = NewRuleEvaluator cfg"
    using assms by (auto simp: NewPolicyEngine_def NewRuleEvaluator_def Let_def split: if_splits)
  then show "policy_ok cfg e" "tl_records (pe_ledger e) = Map.empty"
    by (simp_all add: policy_ok_def ledger_inv_New) (simp_all add: NewTransactionLedger_def)
qed

lemma policy_ok_status: "policy_ok cfg e \<Longrightarrow> policy_ok cfg (e\<lparr>pe_ledger := snd (UpdateStatus (pe_ledger e) tx st)\<rparr>)"
  by (auto simp: policy_ok_def ledger_inv_UpdateStatus UpdateStatus_lookup split: if_splits)

lemma granted_unprotected:
  assumes "policy_ok cfg e" "granted e intent n"
  shows "n < re_maxActionsPerPID (NewRuleEvaluator cfg) \<and> 0 < mi_TargetPID intent \<and>
    re_pidThreshold (NewRuleEvaluator cfg) \<le> mi_TargetPID intent \<and> mi_ProcessName intent \<notin> re_blacklistNames (NewRuleEvaluator cfg)"
  using assms name_set_nonempty
  by (auto simp: granted_def Evaluate_authorized protected_target_def policy_ok_def NewRuleEvaluator_def)

lemma policy_ok_commit:
  assumes "policy_ok cfg e" "generateTxID (ei_buf x) \<notin> dom (tl_records (pe_ledger e))"
  shows "policy_ok cfg (snd (policy_commit e intent n x))"
proof -
  obtain rec where rec: "tl_records (pe_ledger (snd (policy_commit e intent n x))) = (tl_records (pe_ledger e))(generateTxID (ei_buf x) \<mapsto> rec)"
    "mr_TargetPID rec = mi_TargetPID intent" "mr_ProcessName rec = mi_ProcessName intent"
    "mr_RejectionReason rec = '''' \<longleftrightarrow> granted e intent n"
    using policy_commit_record [of e intent n x] by blast
  show ?thesis
    using assms(1) rec granted_unprotected [OF assms(1), of intent n]
      ledger_inv_policy_commit [OF policy_ok_ledger [OF assms(1)] assms(2), of intent n]
    by (auto simp: policy_ok_def split: if_splits)
qed

lemma policy_ok_sweep:
  "policy_ok cfg e \<Longrightarrow> map_range ord \<Longrightarrow> sweep ord t (pe_ledger e) = Some led \<Longrightarrow> policy_ok cfg (e\<lparr>pe_ledger := led\<rparr>)"
  using swept_sub [of ord "pe_ledger e" t led] by (fastforce simp: policy_ok_def)

lemma policy_ok_others [simp]:
  "policy_ok cfg (e\<lparr>pe_evaluator := UpdateWhitelist (pe_evaluator e) names ids\<rparr>) = policy_ok cfg e"
  "policy_ok cfg (e\<lparr>pe_events := evts\<rparr>) = policy_ok cfg e"
  by (simp_all add: policy_ok_def UpdateWhitelist_def)

section \<open>The cap\<close>

text \<open>The callers that have counted few enough actions against a process to be granted one more.\<close>

definition hopeful :: "int \<Rightarrow> 'c calls \<Rightarrow> int \<Rightarrow> 'c set" where
  "hopeful cap pend p = {c. \<exists>intent n. pend c = Some (intent, n) \<and> mi_TargetPID intent = p \<and> n < cap}"

definition policy_cap :: "PolicyConfig \<Rightarrow> int" where
  "policy_cap cfg = re_maxActionsPerPID (NewRuleEvaluator cfg)"

lemma policy_cap_pos: "0 < policy_cap cfg"
  by (simp add: policy_cap_def NewRuleEvaluator_def Let_def)

text \<open>Every caller but one may be granted an action that the others have not counted yet.\<close>

definition shared_inv :: "PolicyConfig \<Rightarrow> 'c set \<Rightarrow> time_ns \<Rightarrow> PolicyEngine \<Rightarrow> 'c calls \<Rightarrow> bool" where
  "shared_inv cfg callers now e pend \<longleftrightarrow> policy_ok cfg e \<and> dom pend \<subseteq> callers \<and>
     (\<forall>p. int (card (authorized_live (pe_ledger e) now p)) + int (card (hopeful (policy_cap cfg) pend p)) \<le>
        policy_cap cfg + int (card callers - 1))"

lemma hopeful_sub: "hopeful cap pend p \<subseteq> dom pend"
  by (auto simp: hopeful_def)

lemma live_finite: "policy_ok cfg e \<Longrightarrow> finite (authorized_live (pe_ledger e) now p)"
  by (rule finite_authorized_live [OF ledger_inv_finite [OF policy_ok_ledger]])

lemma live_mono:
  assumes "policy_ok cfg e" "now \<le> t"
    and "\<And>tx rec. tl_records led tx = Some rec \<Longrightarrow> mr_RejectionReason rec = '''' \<Longrightarrow> tl_records (pe_ledger e) tx = Some rec"
  shows "card (authorized_live led t p) \<le> card (authorized_live (pe_ledger e) now p)"
proof (rule card_mono [OF live_finite [OF assms(1)]])
  show "authorized_live led t p \<subseteq> authorized_live (pe_ledger e) now p"
    using assms(2,3) by (fastforce simp: authorized_live_def)
qed

lemma shared_inv_later:
  assumes "shared_inv cfg callers now e pend" "now \<le> t" "policy_ok cfg e'"
    and "\<And>tx rec. tl_records (pe_ledger e') tx = Some rec \<Longrightarrow> mr_RejectionReason rec = '''' \<Longrightarrow> tl_records (pe_ledger e) tx = Some rec"
  shows "shared_inv cfg callers t e' pend"
  unfolding shared_inv_def
proof (intro conjI allI)
  fix p
  have "card (authorized_live (pe_ledger e') t p) \<le> card (authorized_live (pe_ledger e) now p)"
    using assms(1) by (intro live_mono [of cfg, OF _ assms(2,4)]) (simp add: shared_inv_def)
  moreover have "int (card (authorized_live (pe_ledger e) now p)) + int (card (hopeful (policy_cap cfg) pend p)) \<le>
      policy_cap cfg + int (card callers - 1)"
    using assms(1) by (simp add: shared_inv_def)
  ultimately show "int (card (authorized_live (pe_ledger e') t p)) + int (card (hopeful (policy_cap cfg) pend p)) \<le>
      policy_cap cfg + int (card callers - 1)"
    by linarith
qed (use assms(1,3) in \<open>auto simp: shared_inv_def\<close>)

lemma shared_inv_count:
  assumes "shared_inv cfg callers now e pend" "now \<le> t" "c \<in> callers" "pend c = None" "finite callers"
    and "n = HistoricalCount (pe_ledger e) t (mi_TargetPID intent)"
  shows "shared_inv cfg callers t e (pend(c \<mapsto> (intent, n)))"
proof -
  let ?pend = "pend(c \<mapsto> (intent, n))" and ?cap = "policy_cap cfg"
  have later: "shared_inv cfg callers t e pend"
    using assms(1) by (intro shared_inv_later [OF assms(1,2)]) (simp_all add: shared_inv_def)
  then have ok: "policy_ok cfg e" and pend: "dom ?pend \<subseteq> callers" using assms(3) by (auto simp: shared_inv_def)
  have "int (card (authorized_live (pe_ledger e) t p)) + int (card (hopeful ?cap ?pend p)) \<le> ?cap + int (card callers - 1)" for p
  proof (cases "p = mi_TargetPID intent \<and> n < ?cap")
    case True
    then have "HistoricalCount (pe_ledger e) t p < ?cap" using assms(6) by blast
    then have "int (card (authorized_live (pe_ledger e) t p)) < ?cap"
      using authorized_live_le_HistoricalCount [OF policy_ok_ledger [OF ok], of t p] by linarith
    moreover have "card (hopeful ?cap ?pend p) \<le> card callers"
      by (rule card_mono [OF assms(5) subset_trans [OF hopeful_sub pend]])
    moreover have "0 < card callers" using assms(3,5) card_gt_0_iff by blast
    then have "int (card callers) = int (card callers - 1) + 1" by simp
    ultimately show ?thesis by linarith
  next
    case False
    then have "hopeful ?cap ?pend p = hopeful ?cap pend p" using assms(4) by (auto simp: hopeful_def)
    then show ?thesis using later by (simp add: shared_inv_def)
  qed
  then show ?thesis using ok pend by (simp add: shared_inv_def)
qed

lemma shared_inv_commit:
  assumes "shared_inv cfg callers now e pend" "now \<le> ei_tr x" "pend c = Some (intent, n)" "finite callers"
    and "generateTxID (ei_buf x) \<notin> dom (tl_records (pe_ledger e))"
  shows "shared_inv cfg callers (ei_tr x) (snd (policy_commit e intent n x)) (pend(c := None))"
proof -
  let ?e = "snd (policy_commit e intent n x)" and ?pend = "pend(c := None)" and ?cap = "policy_cap cfg" and ?t = "ei_tr x"
  have ok: "policy_ok cfg e" and dom: "dom pend \<subseteq> callers" using assms(1) by (simp_all add: shared_inv_def)
  have later: "shared_inv cfg callers ?t e pend" by (rule shared_inv_later [OF assms(1,2) ok]) simp
  obtain rec where rec: "tl_records (pe_ledger ?e) = (tl_records (pe_ledger e))(generateTxID (ei_buf x) \<mapsto> rec)"
    "mr_TargetPID rec = mi_TargetPID intent" "mr_RejectionReason rec = '''' \<longleftrightarrow> granted e intent n"
    using policy_commit_record [of e intent n x] by blast
  have fin: "finite (hopeful ?cap pend p)" for p
    using finite_subset [OF subset_trans [OF hopeful_sub dom] assms(4)] .
  have sub: "hopeful ?cap ?pend p \<subseteq> hopeful ?cap pend p" for p by (auto simp: hopeful_def)
  have "int (card (authorized_live (pe_ledger ?e) ?t p)) + int (card (hopeful ?cap ?pend p)) \<le> ?cap + int (card callers - 1)" for p
  proof (cases "granted e intent n \<and> p = mi_TargetPID intent")
    case True
    then have "c \<in> hopeful ?cap pend p" "hopeful ?cap ?pend p = hopeful ?cap pend p - {c}"
      using assms(3) granted_unprotected [OF ok, of intent n] by (auto simp: hopeful_def policy_cap_def)
    then have "Suc (card (hopeful ?cap ?pend p)) = card (hopeful ?cap pend p)" using card_Suc_Diff1 [OF fin] by metis
    moreover have "authorized_live (pe_ledger ?e) ?t p \<subseteq> insert (generateTxID (ei_buf x)) (authorized_live (pe_ledger e) ?t p)"
      using rec by (auto simp: authorized_live_def split: if_splits)
    then have "card (authorized_live (pe_ledger ?e) ?t p) \<le> Suc (card (authorized_live (pe_ledger e) ?t p))"
      by (rule card_subset_insert [OF live_finite [OF ok]])
    moreover have "int (card (authorized_live (pe_ledger e) ?t p)) + int (card (hopeful ?cap pend p)) \<le> ?cap + int (card callers - 1)"
      using later by (simp add: shared_inv_def)
    ultimately show ?thesis by linarith
  next
    case False
    then have "authorized_live (pe_ledger ?e) ?t p \<subseteq> authorized_live (pe_ledger e) ?t p"
      using rec by (auto simp: authorized_live_def split: if_splits)
    then have "card (authorized_live (pe_ledger ?e) ?t p) \<le> card (authorized_live (pe_ledger e) ?t p)"
      by (rule card_mono [OF live_finite [OF ok]])
    moreover have "card (hopeful ?cap ?pend p) \<le> card (hopeful ?cap pend p)" by (rule card_mono [OF fin sub])
    moreover have "int (card (authorized_live (pe_ledger e) ?t p)) + int (card (hopeful ?cap pend p)) \<le> ?cap + int (card callers - 1)"
      using later by (simp add: shared_inv_def)
    ultimately show ?thesis by linarith
  qed
  then show ?thesis using policy_ok_commit [OF ok assms(5)] dom by (auto simp: shared_inv_def)
qed

lemma shared_reach_inv: "shared_reach cfg callers now e pend \<Longrightarrow> finite callers \<Longrightarrow> shared_inv cfg callers now e pend"
proof (induction rule: shared_reach.induct)
  case (sh_create e now)
  then show ?case
    using policy_ok_create [OF sh_create(1)] policy_cap_pos [of cfg] by (simp add: shared_inv_def authorized_live_def hopeful_def)
next
  case (sh_count now e pend t c intent)
  then show ?case by (blast intro: shared_inv_count)
next
  case (sh_commit now e pend x c intent n)
  then show ?case by (blast intro: shared_inv_commit)
next
  case (sh_status now e pend tx st)
  then have "shared_inv cfg callers now e pend" by simp
  then show ?case by (auto simp: shared_inv_def policy_ok_status)
next
  case (sh_whitelist now e pend names ids)
  then show ?case by (simp add: shared_inv_def)
next
  case (sh_sweep now e pend t ord led)
  then have inv: "shared_inv cfg callers now e pend" by simp
  then have ok: "policy_ok cfg e" by (simp add: shared_inv_def)
  show ?case
    using swept_sub [OF sh_sweep(3) policy_ok_ledger [OF ok] sh_sweep(4)] policy_ok_sweep [OF ok sh_sweep(3,4)]
    by (intro shared_inv_later [OF inv sh_sweep(2)]) auto
next
  case (sh_wait now e pend t)
  then have inv: "shared_inv cfg callers now e pend" by simp
  then show ?case using sh_wait(2) by (intro shared_inv_later [OF inv]) (simp_all add: shared_inv_def)
next
  case (sh_observe now e pend evt rest)
  then show ?case by (simp add: shared_inv_def)
qed

lemma map_upd_none: "(\<lambda>_. None)(c := None) = Map.empty"
  by auto

text \<open>Calls one after another are those of a single caller.\<close>

lemma policy_reach_shared: "policy_reach cfg now e \<Longrightarrow> c \<in> callers \<Longrightarrow> shared_reach cfg callers now e Map.empty"
proof (induction rule: policy_reach.induct)
  case (create e now)
  then show ?case by (blast intro: sh_create)
next
  case (evaluate now e x intent)
  then have "shared_reach cfg callers (ei_th x) e
      (Map.empty(c \<mapsto> (intent, HistoricalCount (pe_ledger e) (ei_th x) (mi_TargetPID intent))))"
    by (intro sh_count) simp_all
  from sh_commit [OF this evaluate(3) fun_upd_same evaluate(4)]
  show ?case by (simp only: EvaluateAndRegister_def fun_upd_upd fun_upd_idem_iff fun_upd_triv map_upd_none)
qed (simp_all add: ConfirmExecution_def Complete_def Reject_def sh_status sh_whitelist sh_sweep sh_wait sh_observe)

lemma policy_reach_ok:
  assumes "policy_reach cfg now e"
  shows "policy_ok cfg e \<and> (\<forall>p. int (card (authorized_live (pe_ledger e) now p)) \<le> policy_cap cfg)"
proof -
  have "shared_reach cfg {()} now e Map.empty" by (rule policy_reach_shared [OF assms, of "()"]) simp
  then have "shared_inv cfg {()} now e Map.empty" by (rule shared_reach_inv) simp
  then show ?thesis by (simp add: shared_inv_def hopeful_def)
qed

text \<open>
  C10: Callers of the policy engine overlap, so its cap is not the one that is configured: in every
  state that any number of callers can reach, a process has at most \<open>MaxActionsPerPID\<close> unexpired
  authorisations, and one more for every caller but the first. With one caller, the cap holds. No
  authorisation was ever given for a process identifier that is not positive or below the threshold,
  or for a blacklisted name.
\<close>

theorem policy_velocity_cap:
  assumes "shared_reach cfg callers now e pend" "finite callers"
  shows "int (card (authorized_live (pe_ledger e) now p)) \<le> re_maxActionsPerPID (NewRuleEvaluator cfg) + int (card callers - 1) \<and>
    (\<forall>tx rec. LedgerLookup (pe_ledger e) tx = Some rec \<longrightarrow> mr_RejectionReason rec = '''' \<longrightarrow>
       0 < mr_TargetPID rec \<and> re_pidThreshold (NewRuleEvaluator cfg) \<le> mr_TargetPID rec \<and>
       mr_ProcessName rec \<notin> re_blacklistNames (NewRuleEvaluator cfg))"
proof -
  have inv: "shared_inv cfg callers now e pend" by (rule shared_reach_inv [OF assms])
  then have "int (card (authorized_live (pe_ledger e) now p)) + int (card (hopeful (policy_cap cfg) pend p)) \<le>
      policy_cap cfg + int (card callers - 1)"
    unfolding shared_inv_def by blast
  moreover have "policy_ok cfg e" using inv by (simp add: shared_inv_def)
  ultimately show ?thesis
    using of_nat_0_le_iff [of "card (hopeful (policy_cap cfg) pend p)"] unfolding policy_cap_def policy_ok_def LedgerLookup_def by auto
qed

text \<open>Two callers reach it: six authorisations under a cap of five.\<close>

definition race_bytes :: "bytes list" where
  "race_bytes = map (replicate 16) ''abcdef''"

definition race_intent :: MitigationIntent where
  "race_intent = \<lparr>mi_TargetPID = 4242, mi_ContainerID = '''', mi_ProcessName = '''', mi_ActionType = ActionSIGSTOP,
     mi_AnomalyType = '''', mi_SourceModule = '''', mi_Metadata = Map.empty\<rparr>"

definition race_inputs :: "nat \<Rightarrow> eval_inputs" where
  "race_inputs k = \<lparr>ei_th = 7, ei_tr = 7, ei_te = 7, ei_buf = race_bytes ! k\<rparr>"

definition packed :: "nat \<Rightarrow> PolicyEngine \<Rightarrow> bool" where
  "packed k e \<longleftrightarrow> ledger_inv (pe_ledger e) \<and> pe_evaluator e = NewRuleEvaluator PolicyDefaultConfig \<and>
     tl_cooldownSecs (pe_ledger e) = 60 \<and> dom (tl_records (pe_ledger e)) = generateTxID ` set (take k race_bytes) \<and>
     (\<forall>tx rec. tl_records (pe_ledger e) tx = Some rec \<longrightarrow>
        mr_TargetPID rec = 4242 \<and> mr_RejectionReason rec = '''' \<and> 7 \<le> mr_Expiry rec)"

lemma hex_head: "n \<noteq> 0 \<Longrightarrow> take 2 (hex_encode (replicate n c)) = [hex_digit (of_char c div 16), hex_digit (of_char c mod 16)]"
  by (cases n) (simp_all add: hex_encode_def)

lemma race_ids: "distinct (map generateTxID race_bytes)" "length race_bytes = 6"
proof -
  have "distinct (map (take 2) (map hex_encode race_bytes))" by (simp add: race_bytes_def hex_head hex_digit_def)
  then have "distinct (map hex_encode race_bytes)" by (simp only: distinct_map)
  then show "distinct (map generateTxID race_bytes)" by (simp add: distinct_map inj_on_def generateTxID_def)
  show "length race_bytes = 6" by (simp add: race_bytes_def)
qed

lemma race_fresh: "k < 6 \<Longrightarrow> packed k e \<Longrightarrow> generateTxID (race_bytes ! k) \<notin> dom (tl_records (pe_ledger e))"
proof -
  assume k: "k < 6" and "packed k e"
  have "generateTxID (race_bytes ! k) \<notin> set (take k (map generateTxID race_bytes))"
    using race_ids k by (auto simp: distinct_conv_nth in_set_conv_nth)
  then show ?thesis using \<open>packed k e\<close> by (simp add: packed_def take_map)
qed

lemma packed_count:
  assumes "packed k e" "k \<le> 6"
  shows "card (authorized_live (pe_ledger e) 7 4242) = k" "HistoricalCount (pe_ledger e) 7 4242 = int k"
proof -
  have eq: "authorized_live (pe_ledger e) 7 4242 = dom (tl_records (pe_ledger e))"
    "{tx \<in> records_of (pe_ledger e) 4242. \<exists>rec. tl_records (pe_ledger e) tx = Some rec \<and> 7 \<le> mr_Expiry rec} = dom (tl_records (pe_ledger e))"
    using assms(1) unfolding packed_def authorized_live_def records_of_def dom_def by blast+
  have "dom (tl_records (pe_ledger e)) = set (take k (map generateTxID race_bytes))" using assms(1) by (simp add: packed_def take_map)
  then have "card (dom (tl_records (pe_ledger e))) = k" using race_ids assms(2) by (simp add: distinct_card)
  then show "card (authorized_live (pe_ledger e) 7 4242) = k" "HistoricalCount (pe_ledger e) 7 4242 = int k"
    using HistoricalCount_card [of "pe_ledger e" 7 4242] assms(1) eq by (simp_all add: packed_def)
qed

lemma packed_commit:
  assumes "packed k e" "k < 6" "n < 5"
  shows "packed (Suc k) (snd (policy_commit e race_intent n (race_inputs k)))"
proof -
  let ?e = "snd (policy_commit e race_intent n (race_inputs k))" and ?tx = "generateTxID (race_bytes ! k)"
  have "granted e race_intent n"
    using assms(1,3) by (simp add: granted_def Evaluate_authorized packed_def protected_target_def race_intent_def IsWhitelisted_def
        NewRuleEvaluator_def PolicyDefaultConfig_def)
  moreover obtain rec where rec: "tl_records (pe_ledger ?e) = (tl_records (pe_ledger e))(?tx \<mapsto> rec)"
    "mr_TargetPID rec = mi_TargetPID race_intent" "mr_Expiry rec = to_i64 (7 + to_i64 (tl_cooldownSecs (pe_ledger e) * second_ns))"
    "mr_RejectionReason rec = '''' \<longleftrightarrow> granted e race_intent n"
    using policy_commit_record [of e race_intent n "race_inputs k"] by (auto simp: race_inputs_def)
  ultimately have r: "mr_TargetPID rec = 4242" "mr_RejectionReason rec = ''''" "7 \<le> mr_Expiry rec"
    using assms(1) by (simp_all add: race_intent_def packed_def to_i64_def)
  obtain rules risk reason where led: "pe_ledger ?e = snd (Register (pe_ledger e) race_intent
      (if granted e race_intent n then StatusAuthorizedPending else StatusRejected)
      rules risk (tl_cooldownSecs (pe_ledger e)) reason (ei_tr (race_inputs k)) (ei_buf (race_inputs k)))"
    by (rule policy_commit_ledger)
  have "tl_cooldownSecs (pe_ledger ?e) = tl_cooldownSecs (pe_ledger e)" unfolding led by (simp add: Register_def Let_def)
  moreover have "ledger_inv (pe_ledger ?e)"
    using race_fresh [OF assms(2,1)] assms(1) by (intro ledger_inv_policy_commit) (simp_all add: packed_def race_inputs_def)
  moreover have "set (take (Suc k) race_bytes) = insert (race_bytes ! k) (set (take k race_bytes))"
    using race_ids(2) assms(2) by (simp add: take_Suc_conv_app_nth)
  ultimately show ?thesis using assms(1) rec(1) r by (auto simp: packed_def split: if_splits)
qed

lemma race_turn:
  assumes "shared_reach PolicyDefaultConfig {0 :: nat, 1} 7 e pend" "packed k e" "k < 6" "pend c = Some (race_intent, n)" "n < 5"
  shows "\<exists>e'. shared_reach PolicyDefaultConfig {0 :: nat, 1} 7 e' (pend(c := None)) \<and> packed (Suc k) e'"
proof -
  have "shared_reach PolicyDefaultConfig {0 :: nat, 1} (ei_tr (race_inputs k)) (snd (policy_commit e race_intent n (race_inputs k))) (pend(c := None))"
    by (rule sh_commit [OF assms(1) _ assms(4)]) (use race_fresh [OF assms(3,2)] in \<open>simp_all add: race_inputs_def\<close>)
  then show ?thesis using packed_commit [OF assms(2,3,5)] by (auto simp: race_inputs_def)
qed

lemma race_look:
  assumes "shared_reach PolicyDefaultConfig {0 :: nat, 1} 7 e pend" "packed k e" "k \<le> 6" "c \<in> {0, 1}" "pend c = None"
  shows "shared_reach PolicyDefaultConfig {0 :: nat, 1} 7 e (pend(c \<mapsto> (race_intent, int k)))"
  using sh_count [OF assms(1) order_refl assms(4,5), of race_intent] packed_count(2) [OF assms(2,3)] by (simp add: race_intent_def)

lemma race_start: "k \<le> 4 \<Longrightarrow> \<exists>e. shared_reach PolicyDefaultConfig {0 :: nat, 1} 7 e Map.empty \<and> packed k e"
proof (induction k)
  case 0
  have size: "pc_BufferSize PolicyDefaultConfig = 64" by (simp add: PolicyDefaultConfig_def)
  then obtain e where e: "NewPolicyEngine PolicyDefaultConfig = Some e" "pe_ledger e = NewTransactionLedger PolicyDefaultConfig"
    "pe_evaluator e = NewRuleEvaluator PolicyDefaultConfig"
    by (simp add: NewPolicyEngine_def Let_def)
  moreover have "tl_records (NewTransactionLedger PolicyDefaultConfig) = Map.empty" "tl_cooldownSecs (NewTransactionLedger PolicyDefaultConfig) = 60"
    by (simp_all add: NewTransactionLedger_def PolicyDefaultConfig_def)
  ultimately have "packed 0 e" using ledger_inv_New [of PolicyDefaultConfig] by (simp add: packed_def)
  then show ?case using sh_create [OF e(1)] by blast
next
  case (Suc k)
  then obtain e where e: "shared_reach PolicyDefaultConfig {0 :: nat, 1} 7 e Map.empty" "packed k e" by auto
  from race_look [OF e, of 0] Suc.prems
  have "shared_reach PolicyDefaultConfig {0 :: nat, 1} 7 e (Map.empty(0 \<mapsto> (race_intent, int k)))" by simp
  from race_turn [OF this e(2), of 0 "int k"] Suc.prems show ?case by (simp add: map_upd_none)
qed

theorem policy_velocity_cap_witness:
  "\<exists>e pend. shared_reach PolicyDefaultConfig {0 :: nat, 1} 7 e pend \<and> card (authorized_live (pe_ledger e) 7 4242) = 6 \<and>
     re_maxActionsPerPID (NewRuleEvaluator PolicyDefaultConfig) = 5 \<and>
     int (card (authorized_live (pe_ledger e) 7 4242)) \<le> 5 + int (card {0 :: nat, 1} - 1)"
proof -
  let ?p = "Map.empty(0 :: nat \<mapsto> (race_intent, 4))"
  obtain e where e: "shared_reach PolicyDefaultConfig {0 :: nat, 1} 7 e Map.empty" "packed 4 e" using race_start [of 4] by auto
  from race_look [OF e, of 0] have "shared_reach PolicyDefaultConfig {0 :: nat, 1} 7 e ?p" by simp
  from race_look [OF this e(2), of 1] have "shared_reach PolicyDefaultConfig {0 :: nat, 1} 7 e (?p(1 \<mapsto> (race_intent, 4)))" by simp
  from race_turn [OF this e(2), of 1 4]
  obtain e1 where e1: "shared_reach PolicyDefaultConfig {0 :: nat, 1} 7 e1 (?p(1 := None))" "packed 5 e1" by auto
  from race_turn [OF e1(1), of 5 0 4] e1(2)
  obtain e2 pend where e2: "shared_reach PolicyDefaultConfig {0 :: nat, 1} 7 e2 pend" "packed 6 e2" by auto
  have cap: "re_maxActionsPerPID (NewRuleEvaluator PolicyDefaultConfig) = 5"
    by (simp add: NewRuleEvaluator_def PolicyDefaultConfig_def)
  have "int (card (authorized_live (pe_ledger e2) 7 4242)) \<le> 5 + int (card {0 :: nat, 1} - 1)"
    using policy_velocity_cap [OF e2(1), of 4242] cap by simp
  then show ?thesis using e2 packed_count(1) [OF e2(2)] cap by blast
qed

end
