(* ===== verification/System.thy ===== *)
theory System
  imports Agent Policy_Calls
begin

text \<open>
  The running agent with its surroundings: the turns that the loops of the mitigator, the policy
  engine, the profiler and the rollback controller take inside the engine
  (\<open>src/internal/proxy/engine/engine.go\<close> starts them), and the step relation of the agent on the
  state of its engine, the outside world and the clock. The components' own transition systems are
  what this one refines.
\<close>

section \<open>The turns of the components' loops\<close>

text \<open>The mitigator takes an alert from its subscription, the first one made.\<close>

definition engine_mitigate :: "act_inputs \<Rightarrow> ProfilerEngine \<Rightarrow> World \<Rightarrow> ProfilerEngine \<times> World" where
  "engine_mitigate x e w =
     (case (en_mitigator e, mx_subs (en_alerter e)) of
        (Some m, (alert # rest) # subs) \<Rightarrow>
          (let (pe, m, w) = mitigateFromAlert (Some (en_policy e)) m w alert x
           in (e\<lparr>en_alerter := (en_alerter e)\<lparr>mx_subs := rest # subs\<rparr>, en_mitigator := Some m,
                 en_policy := (case pe of None \<Rightarrow> en_policy e | Some pol \<Rightarrow> pol)\<rparr>, w))
      | _ \<Rightarrow> (e, w))"

definition engine_sweep :: "record_order \<Rightarrow> time_ns \<Rightarrow> ProfilerEngine \<Rightarrow> ProfilerEngine option" where
  "engine_sweep ord t e =
     map_option (\<lambda>led. e\<lparr>en_policy := (en_policy e)\<lparr>pe_ledger := led\<rparr>\<rparr>) (sweep ord t (pe_ledger (en_policy e)))"

definition engine_analysis ::
  "((ResourceKey \<rightharpoonup> ResourceHistory) \<Rightarrow> ResourceKey list) \<Rightarrow> time_ns \<Rightarrow> ProfilerEngine \<Rightarrow> ProfilerEngine" where
  "engine_analysis ord t e = e\<lparr>en_profiler := map_option (\<lambda>p. runMemoryLeakAnalysis ord p t) (en_profiler e)\<rparr>"

definition engine_profilerGC ::
  "((ResourceKey \<rightharpoonup> ResourceHistory) \<Rightarrow> ResourceKey list) \<Rightarrow> time_ns \<Rightarrow> ProfilerEngine \<Rightarrow> ProfilerEngine" where
  "engine_profilerGC ord t e = e\<lparr>en_profiler := map_option (\<lambda>p. profiler_runGC ord p t) (en_profiler e)\<rparr>"

text \<open>
  What the rollback controller shares with the engine. Without a router it has no registry; no
  record then asks for one, since only the router registers actions on requests.
\<close>

definition engine_shared :: "ProfilerEngine \<Rightarrow> Mitigator \<Rightarrow> World \<Rightarrow> Shared" where
  "engine_shared e m w = \<lparr>sh_policy = en_policy e, sh_mit = m,
     sh_reg = (case en_router e of None \<Rightarrow> NewRegistry 0 | Some r \<Rightarrow> rt_reg r), sh_world = w\<rparr>"

definition engine_checkExpired :: "record_order \<Rightarrow> sync_inputs \<Rightarrow> ProfilerEngine \<Rightarrow> World \<Rightarrow> ProfilerEngine \<times> World" where
  "engine_checkExpired ord x e w =
     (case (en_rollback e, en_mitigator e) of
        (Some k, Some m) \<Rightarrow>
          (let (k, sh) = checkExpired ord k (engine_shared e m w) x
           in (e\<lparr>en_rollback := Some k, en_mitigator := Some (sh_mit sh), en_policy := sh_policy sh,
                 en_router := map_option (\<lambda>r. r\<lparr>rt_reg := sh_reg sh\<rparr>) (en_router e)\<rparr>, sh_world sh))
      | _ \<Rightarrow> (e, w))"

definition engine_reconcile :: "entry_order \<Rightarrow> sync_inputs \<Rightarrow> Host \<Rightarrow> ProfilerEngine \<Rightarrow> ProfilerEngine" where
  "engine_reconcile ord x h e =
     (case (en_rollback e, en_mitigator e) of
        (Some k, Some m) \<Rightarrow>
          (let (k, m) = reconcileOnce ord k h m x in e\<lparr>en_rollback := Some k, en_mitigator := Some m\<rparr>)
      | _ \<Rightarrow> e)"

section \<open>The agent as a transition system\<close>

record AgentState =
  as_engine :: ProfilerEngine
  as_world :: World
  as_now :: time_ns

definition unused_tx :: "eval_inputs \<Rightarrow> ProfilerEngine \<Rightarrow> bool" where
  "unused_tx x e \<longleftrightarrow> generateTxID (ei_buf x) \<notin> dom (tl_records (pe_ledger (en_policy e)))"

text \<open>
  The host changes as it likes, the clock does not go back, and the random identifiers of
  transactions are new.
\<close>

inductive agent_step :: "AgentState \<Rightarrow> AgentState \<Rightarrow> bool" where
  agent_host: "agent_step s (s\<lparr>as_world := (as_world s)\<lparr>w_host := h\<rparr>\<rparr>)"
| agent_clock: "as_now s \<le> t \<Longrightarrow> agent_step s (s\<lparr>as_now := t\<rparr>)"
| agent_wire: "wire_step (as_engine s) e \<Longrightarrow> agent_step s (s\<lparr>as_engine := e\<rparr>)"
| agent_router: "as_now s \<le> ei_th x \<Longrightarrow> ei_th x \<le> ei_tr x \<Longrightarrow> unused_tx x (as_engine s) \<Longrightarrow>
    agent_step s (s\<lparr>as_engine := engine_handleAlert x t_lookup t_update (as_engine s), as_now := ei_tr x\<rparr>)"
| agent_mitigate: "as_now s \<le> ei_th (ai_eval x) \<Longrightarrow> ei_th (ai_eval x) \<le> ei_tr (ai_eval x) \<Longrightarrow>
    unused_tx (ai_eval x) (as_engine s) \<Longrightarrow> engine_mitigate x (as_engine s) (as_world s) = (e, w) \<Longrightarrow>
    agent_step s (s\<lparr>as_engine := e, as_world := w, as_now := ei_tr (ai_eval x)\<rparr>)"
| agent_sweep: "as_now s \<le> t \<Longrightarrow> map_range ord \<Longrightarrow> engine_sweep ord t (as_engine s) = Some e \<Longrightarrow>
    agent_step s (s\<lparr>as_engine := e, as_now := t\<rparr>)"
| agent_analysis: "agent_step s (s\<lparr>as_engine := engine_analysis ord t (as_engine s)\<rparr>)"
| agent_profilerGC: "map_range ord \<Longrightarrow> agent_step s (s\<lparr>as_engine := engine_profilerGC ord t (as_engine s)\<rparr>)"
| agent_rollback: "engine_checkExpired rord x (as_engine s) (as_world s) = (e, w) \<Longrightarrow>
    agent_step s (s\<lparr>as_engine := e, as_world := w\<rparr>)"
| agent_reconcile: "agent_step s (s\<lparr>as_engine := engine_reconcile eord x (w_host (as_world s)) (as_engine s)\<rparr>)"

inductive agent_reach :: "Config \<Rightarrow> AgentState \<Rightarrow> bool" for cfg where
  agent_start: "NewEngine pt cfg now = Some e \<Longrightarrow> engine_Start e attached gpuErr = Some e' \<Longrightarrow>
    agent_reach cfg \<lparr>as_engine = e', as_world = \<lparr>w_host = h, w_log = []\<rparr>, as_now = now\<rparr>"
| agent_next: "agent_reach cfg s \<Longrightarrow> agent_step s s' \<Longrightarrow> agent_reach cfg s'"

section \<open>What the wiring does to the components\<close>

lemma push_event_frame: "push_event marshal evt e = Some e' \<Longrightarrow> \<exists>p. e' = e\<lparr>en_pipeline := p\<rparr>"
proof (cases "marshal evt")
  case None
  moreover assume "push_event marshal evt e = Some e'"
  ultimately have "e' = e\<lparr>en_pipeline := en_pipeline e\<rparr>" by (simp add: push_event_def)
  then show ?thesis by blast
qed (auto simp: push_event_def)

text \<open>Reading an event, the only thing that the wiring does to the policy engine and the mitigator.\<close>

definition policy_read :: "PolicyEngine \<Rightarrow> PolicyEngine \<Rightarrow> bool" where
  "policy_read pol pol' \<longleftrightarrow> pol' = pol \<or> (\<exists>evt rest. pe_events pol = evt # rest \<and> pol' = pol\<lparr>pe_events := rest\<rparr>)"

definition mitigator_read :: "Mitigator option \<Rightarrow> Mitigator option \<Rightarrow> bool" where
  "mitigator_read m m' \<longleftrightarrow> m' = m \<or>
     (\<exists>n evt rest. m = Some n \<and> mg_events n = evt # rest \<and> m' = Some (n\<lparr>mg_events := rest\<rparr>))"

definition profiler_fed :: "Profiler option \<Rightarrow> Profiler option \<Rightarrow> bool" where
  "profiler_fed p p' \<longleftrightarrow> p' = p \<or>
     (\<exists>q q'. p = Some q \<and> p' = Some q' \<and>
        ((\<exists>snap t. profiler_Ingest q snap t = Some q') \<or> (\<exists>a rest. pf_alerts q = a # rest \<and> q' = q\<lparr>pf_alerts := rest\<rparr>)))"

lemma read_refl [simp]: "policy_read pol pol" "mitigator_read m m" "profiler_fed p p"
  by (simp_all add: policy_read_def mitigator_read_def profiler_fed_def)

lemma collector_frame: "engine_poll ord encode x e = Some e' \<Longrightarrow> \<exists>c p. e' = e\<lparr>en_collector := c, en_pipeline := p\<rparr>"
  by (auto simp: engine_poll_def Let_def split: option.splits)

lemma profile_snapshot_fed: "profile_snapshot ri snap e = Some e' \<Longrightarrow> \<exists>p. e' = e\<lparr>en_profiler := p\<rparr> \<and> profiler_fed (en_profiler e) p"
proof (cases "en_profiler e")
  case None
  assume "profile_snapshot ri snap e = Some e'"
  then have "e' = e\<lparr>en_profiler := en_profiler e\<rparr>" using None by (simp add: profile_snapshot_def)
  then show ?thesis using read_refl(3) by blast
next
  case (Some q)
  assume "profile_snapshot ri snap e = Some e'"
  then obtain q' where "profiler_Ingest q (Some snap) (ri_profiler ri) = Some q'" "e' = e\<lparr>en_profiler := Some q'\<rparr>"
    using Some by (auto simp: profile_snapshot_def)
  then show ?thesis using Some unfolding profiler_fed_def by blast
qed

lemma route_snapshot_fed:
  assumes "route_snapshot ri snap e = Some e'"
  shows "en_policy e' = en_policy e \<and> en_mitigator e' = en_mitigator e \<and> en_rollback e' = en_rollback e \<and>
    en_router e' = en_router e \<and>
    profiler_fed (en_profiler e) (en_profiler e')"
proof -
  obtain e1 e2 where e: "profile_snapshot ri snap e = Some e1" "detect_snapshot ri snap e1 = Some e2" "e' = updateMetrics ri e2 snap"
    using assms by (auto simp: route_snapshot_def split: option.splits)
  obtain p where p: "e1 = e\<lparr>en_profiler := p\<rparr>" "profiler_fed (en_profiler e) p" using profile_snapshot_fed [OF e(1)] by blast
  obtain d where d: "e2 = e1\<lparr>en_detector := d\<rparr>" using detect_snapshot_effect [OF e(2)] by blast
  show ?thesis using e(3) p d by (simp add: updateMetrics_def Let_def)
qed

lemma wire_step_frame:
  assumes "wire_step e e'"
  shows "policy_read (en_policy e) (en_policy e') \<and> mitigator_read (en_mitigator e) (en_mitigator e') \<and>
    profiler_fed (en_profiler e) (en_profiler e') \<and> (en_rollback e' = None \<longleftrightarrow> en_rollback e = None) \<and>
    (en_router e' = None \<longleftrightarrow> en_router e = None)"
  using assms
proof cases
  case (step_poll ord encode x)
  then show ?thesis using collector_frame by fastforce
next
  case (step_route decode ri)
  then show ?thesis
    using route_snapshot_fed by (fastforce simp: dataRouter_step_def Let_def split: list.splits option.splits)
next
  case (step_profilerAlert buf)
  then show ?thesis
    by (auto simp: engine_profilerAlert_def multiplex_profiler_def profiler_fed_def split: option.splits list.splits)
next
  case (step_mitigateEvent marshal_m)
  then show ?thesis
    by (auto simp: mitigateEventLogger_step_def mitigator_read_def dest: push_event_frame split: option.splits list.splits)
next
  case (step_policyEvent marshal_p)
  then show ?thesis
    by (auto simp: policyEventLogger_step_def policy_read_def dest: push_event_frame split: list.splits)
next
  case (step_routerEvent marshal_r)
  then show ?thesis by (auto simp: routerEventLogger_step_def dest: push_event_frame split: option.splits list.splits)
next
  case (step_rollbackEvent marshal_s)
  then show ?thesis by (auto simp: rollbackEventLogger_step_def dest: push_event_frame split: option.splits list.splits)
qed (auto simp: engine_aggregate_def engine_exchange_def engine_detectorAlert_def engine_fanOut_def with_ringbuf_def
      stop_metrics_def flushRingBuffer_def
      routerAlertBridge_step_def Let_def split: option.splits list.splits if_splits)

section \<open>The agent refines its components\<close>

lemma engine_policy_valid: "NewEngine pt cfg now = Some e \<Longrightarrow> NewPolicyEngine (engine_policy_config cfg) = Some (en_policy e)"
  by (auto simp: NewEngine_def Let_def split: option.splits)

lemma policy_read_reach: "policy_read pol pol' \<Longrightarrow> policy_reach cfg now pol \<Longrightarrow> policy_reach cfg now pol'"
  by (auto simp: policy_read_def intro: observe)

lemma policy_read_evaluator: "policy_read pol pol' \<Longrightarrow> pe_evaluator pol' = pe_evaluator pol"
  by (auto simp: policy_read_def)

lemma settle_reach: "policy_reach cfg now e \<Longrightarrow> policy_reach cfg now (policy_gate.settle e tx r)"
  by (auto simp: policy_gate.settle_def intro: confirm reject split: option.splits)

lemma mitigate_policy_reach:
  assumes "mitigateFromAlert (Some e) m w alert x = (pe', m', w')" "policy_reach cfg now e"
    and "now \<le> ei_th (ai_eval x)" "ei_th (ai_eval x) \<le> ei_tr (ai_eval x)"
    and "generateTxID (ei_buf (ai_eval x)) \<notin> dom (tl_records (pe_ledger e))"
  shows "\<exists>e'. pe' = Some e' \<and> policy_reach cfg (ei_tr (ai_eval x)) e'"
proof (cases "decision e (alert_intent m (w_host w) alert) (ai_eval x)")
  case False
  have "policy_reach cfg (ei_tr (ai_eval x)) (snd (EvaluateAndRegister e (alert_intent m (w_host w) alert) (ai_eval x)))"
    by (rule evaluate [OF assms(2-5)])
  then show ?thesis using mitigate_refused [OF False] assms(1) by auto
next
  case True
  obtain mech sent err cm w1 where
    "enforce (mg_cm m) w (ap_TargetPID (ca_Payload alert)) (ti_ContainerID (mit_target m (w_host w) alert)) = ((mech, sent, err), cm, w1)"
    by (metis prod.collapse)
  then show ?thesis using mitigate_authorized [OF True] assms(1) settle_reach [OF evaluate [OF assms(2-5)]] by auto
qed

lemma handleAlert_policy_reach:
  assumes "handleAlert (Some e) r a x t_lookup t_update = (pe', r')" "policy_reach cfg now e"
    and "now \<le> ei_th x" "ei_th x \<le> ei_tr x" "generateTxID (ei_buf x) \<notin> dom (tl_records (pe_ledger e))"
  shows "\<exists>e'. pe' = Some e' \<and> policy_reach cfg (ei_tr x) e' \<and> pe_evaluator e' = pe_evaluator e"
proof -
  let ?i = "router_intent (at_PID a) (remedyForAnomaly (at_AnomalyType a)) (at_AnomalyType a)"
  obtain ok tx ev e1 where r: "EvaluateAndRegister e ?i x = ((ok, tx, ev), e1)" by (metis prod.collapse)
  have e1: "policy_reach cfg (ei_tr x) e1" using evaluate [OF assms(2-5), of ?i] r by simp
  have "policy_reach cfg (ei_tr x) e" using assms(3,4) by (intro wait [OF assms(2)]) simp
  moreover have "pe_evaluator e1 = pe_evaluator e" using EvaluateAndRegister_frame [of e ?i x] r by simp
  moreover have "pe' = Some e \<or> pe' = Some e1 \<or> pe' = Some (ConfirmExecution e1 tx)"
    using assms(1) unfolding handleAlert_def Let_def option.case r prod.case by (auto split: if_splits)
  ultimately show ?thesis using e1 confirm [OF e1, of tx] by (auto simp: ConfirmExecution_def)
qed

lemma undo_action_reach:
  assumes u: "undo_action sh rec = (q, sh1)"
    and reach: "enforce_reach pcfg mcfg (sh_policy sh) (sh_mit sh) (w_log (sh_world sh))"
  shows "sh_policy sh1 = sh_policy sh \<and> enforce_reach pcfg mcfg (sh_policy sh) (sh_mit sh1) (w_log (sh_world sh1))"
proof -
  have w: "\<lparr>w_host = w_host (sh_world sh), w_log = w_log (sh_world sh)\<rparr> = sh_world sh" by simp
  have p: "sh_policy sh1 = sh_policy sh" using undo_action_result [OF u] by simp
  have "enforce_reach pcfg mcfg (sh_policy sh) (sh_mit sh1) (w_log (sh_world sh1))"
  proof (cases "mr_ActionType rec")
    case ActionSIGSTOP
    obtain err w1 where s: "UnfreezeProcess (sh_world sh) (mr_TargetPID rec) = (err, w1)" by (metis prod.collapse)
    then have "sh_mit sh1 = sh_mit sh" "sh_world sh1 = w1"
      using u ActionSIGSTOP by (auto simp: undo_action_def Let_def split: option.splits)
    then show ?thesis using er_signal [OF reach, of "w_host (sh_world sh)", unfolded w, OF s] by simp
  next
    case ActionContainerPause
    obtain err m w1 where s: "RollbackPID (sh_mit sh) (sh_world sh) (mr_TargetPID rec) (mr_ContainerID rec) = (err, m, w1)"
      by (metis prod.collapse)
    then have "sh_mit sh1 = m" "sh_world sh1 = w1"
      using u ActionContainerPause by (auto simp: undo_action_def Let_def split: option.splits)
    then show ?thesis using er_rollback [OF reach, of "w_host (sh_world sh)", unfolded w, OF s] by simp
  next
    case ActionCgroupFreeze
    obtain err m w1 where s: "RollbackPID (sh_mit sh) (sh_world sh) (mr_TargetPID rec) (mr_ContainerID rec) = (err, m, w1)"
      by (metis prod.collapse)
    then have "sh_mit sh1 = m" "sh_world sh1 = w1"
      using u ActionCgroupFreeze by (auto simp: undo_action_def Let_def split: option.splits)
    then show ?thesis using er_rollback [OF reach, of "w_host (sh_world sh)", unfolded w, OF s] by simp
  qed (use u reach in \<open>auto simp: undo_action_def Let_def\<close>)
  then show ?thesis using p by simp
qed

lemma Complete_reach: "enforce_reach pcfg mcfg e m alog \<Longrightarrow> enforce_reach pcfg mcfg (Complete e tx) m alog"
  by (erule er_others) (simp_all add: Complete_def)

lemma dispatchRollback_reach:
  assumes "dispatchRollback sh rec = (r, sh')" "policy_reach cfg now (sh_policy sh)"
    and "enforce_reach pcfg mcfg (sh_policy sh) (sh_mit sh) (w_log (sh_world sh))"
  shows "policy_reach cfg now (sh_policy sh') \<and> enforce_reach pcfg mcfg (sh_policy sh') (sh_mit sh') (w_log (sh_world sh'))"
proof -
  obtain q sh1 where u: "undo_action sh rec = (q, sh1)" by (metis prod.collapse)
  from undo_action_reach [OF u assms(3)] show ?thesis
    using assms(1,2) u complete Complete_reach by (auto simp: dispatchRollback_def split: sum.splits)
qed

lemma dispatch_all_reach:
  "dispatch_all sh recs = (details, sh') \<Longrightarrow> policy_reach cfg now (sh_policy sh) \<Longrightarrow>
   enforce_reach pcfg mcfg (sh_policy sh) (sh_mit sh) (w_log (sh_world sh)) \<Longrightarrow>
   policy_reach cfg now (sh_policy sh') \<and> enforce_reach pcfg mcfg (sh_policy sh') (sh_mit sh') (w_log (sh_world sh'))"
proof (induction recs arbitrary: sh details)
  case (Cons rec recs)
  obtain r sh1 where d: "dispatchRollback sh rec = (r, sh1)" by (metis prod.collapse)
  obtain ds where a: "dispatch_all sh1 recs = (ds, sh')" using Cons.prems(1) d by (auto split: prod.splits)
  from dispatchRollback_reach [OF d Cons.prems(2,3)] Cons.IH [OF a] show ?case by blast
qed simp

lemma checkExpired_reach:
  assumes "checkExpired ord k sh x = (k', sh')" "policy_reach cfg now (sh_policy sh)"
    and "enforce_reach pcfg mcfg (sh_policy sh) (sh_mit sh) (w_log (sh_world sh))"
  shows "policy_reach cfg now (sh_policy sh') \<and> enforce_reach pcfg mcfg (sh_policy sh') (sh_mit sh') (w_log (sh_world sh'))"
proof -
  let ?recs = "ListExecutedExpired ord (pe_ledger (sh_policy sh)) (si_listed x)"
  obtain ds sh1 where d: "dispatch_all sh ?recs = (ds, sh1)" by fastforce
  have "sh' = sh \<or> sh' = sh1" using assms(1) d by (auto simp: checkExpired_def Let_def split: if_splits)
  with dispatch_all_reach [OF d assms(2,3)] assms(2,3) show ?thesis by auto
qed

lemma reconcile_all_reach:
  "reconcile_all k h m entries = (details, drift, m') \<Longrightarrow> enforce_reach pcfg mcfg e m alog \<Longrightarrow> enforce_reach pcfg mcfg e m' alog"
proof (induction entries arbitrary: m details drift)
  case (Cons entry entries)
  show ?case
  proof (cases "reconcileEntry k h entry")
    case None
    then show ?thesis using Cons by simp
  next
    case (Some detail)
    obtain ds dr where "reconcile_all k h (apply_detail m entry detail) entries = (ds, dr, m')"
      using Cons.prems(1) Some by (auto simp: Let_def split: prod.splits)
    moreover have "enforce_reach pcfg mcfg e (apply_detail m entry detail) alog"
      using Cons.prems(2) er_correct [OF Cons.prems(2)] by (auto simp: apply_detail_def split: LedgerState.splits)
    ultimately show ?thesis by (rule Cons.IH)
  qed
qed simp

lemma reconcileOnce_reach:
  assumes "reconcileOnce ord k h m x = (k', m')" "enforce_reach pcfg mcfg e m alog"
  shows "enforce_reach pcfg mcfg e m' alog"
proof -
  obtain ds dr m1 where "reconcile_all k h m (ActiveMitigations ord m) = (ds, dr, m1)" by (metis prod.collapse)
  then show ?thesis
    using reconcile_all_reach [OF _ assms(2)] assms by (auto simp: reconcileOnce_def Let_def split: if_splits)
qed

text \<open>Each component is in a state that it can reach on its own.\<close>

definition parts_ok ::
  "Config \<Rightarrow> time_ns \<Rightarrow> PolicyEngine \<Rightarrow> Mitigator option \<Rightarrow> Profiler option \<Rightarrow> (Attempt \<times> bool) list \<Rightarrow> bool" where
  "parts_ok cfg now pol mo po alog \<longleftrightarrow>
     policy_reach (engine_policy_config cfg) now pol \<and>
     (case mo of None \<Rightarrow> alog = []
      | Some m \<Rightarrow> enforce_reach (engine_policy_config cfg) (engine_mitigator_config cfg) pol m alog) \<and>
     (case po of None \<Rightarrow> True | Some p \<Rightarrow> profiler_reach ProfilerDefaultConfig p)"

definition components_ok :: "Config \<Rightarrow> AgentState \<Rightarrow> bool" where
  "components_ok cfg s \<longleftrightarrow> parts_ok cfg (as_now s) (en_policy (as_engine s)) (en_mitigator (as_engine s))
     (en_profiler (as_engine s)) (w_log (as_world s))"

lemma enforce_reach_policy:
  "enforce_reach pcfg mcfg e m alog \<Longrightarrow> pe_evaluator e' = pe_evaluator e \<Longrightarrow> enforce_reach pcfg mcfg e' m alog"
  by (rule er_others) simp_all

lemma parts_policy:
  assumes "parts_ok cfg now pol mo po alog" "policy_reach (engine_policy_config cfg) t pol'" "pe_evaluator pol' = pe_evaluator pol"
  shows "parts_ok cfg t pol' mo po alog"
proof (cases mo)
  case None
  then show ?thesis using assms(1,2) by (simp add: parts_ok_def)
next
  case (Some m)
  then show ?thesis using assms(1,2) enforce_reach_policy [OF _ assms(3)] by (simp add: parts_ok_def)
qed

lemma parts_later: "parts_ok cfg now pol mo po alog \<Longrightarrow> now \<le> t \<Longrightarrow> parts_ok cfg t pol mo po alog"
  by (rule parts_policy [OF _ wait [of _ now]]) (auto simp: parts_ok_def)

lemma parts_mitigator:
  assumes "parts_ok cfg now pol mo po alog" "policy_reach (engine_policy_config cfg) t pol'"
    and "enforce_reach (engine_policy_config cfg) (engine_mitigator_config cfg) pol' m alog'"
  shows "parts_ok cfg t pol' (Some m) po alog'"
  using assms by (simp add: parts_ok_def)

lemma parts_profiler:
  assumes "parts_ok cfg now pol mo po alog" "case po' of None \<Rightarrow> True | Some p \<Rightarrow> profiler_reach ProfilerDefaultConfig p"
  shows "parts_ok cfg now pol mo po' alog"
  using assms by (simp add: parts_ok_def)

lemma parts_read:
  assumes "parts_ok cfg now pol mo po alog" "mitigator_read mo mo'"
  shows "parts_ok cfg now pol mo' po alog"
  using assms by (auto simp: mitigator_read_def parts_ok_def intro: er_event)

lemma parts_fed:
  assumes "parts_ok cfg now pol mo po alog" "profiler_fed po po'"
  shows "parts_ok cfg now pol mo po' alog"
  by (rule parts_profiler [OF assms(1)])
    (use assms in \<open>auto simp: parts_ok_def profiler_fed_def intro: reach_ingest reach_alert split: option.splits\<close>)

lemma parts_heard:
  assumes "parts_ok cfg now pol mo po alog" "policy_read pol pol'"
  shows "parts_ok cfg now pol' mo po alog"
  by (rule parts_policy [OF assms(1) policy_read_reach [OF assms(2)] policy_read_evaluator [OF assms(2)]])
    (use assms(1) in \<open>simp add: parts_ok_def\<close>)

lemma components_wire:
  assumes "components_ok cfg s" "wire_step (as_engine s) e"
  shows "components_ok cfg (s\<lparr>as_engine := e\<rparr>)"
proof -
  have f: "policy_read (en_policy (as_engine s)) (en_policy e)" "mitigator_read (en_mitigator (as_engine s)) (en_mitigator e)"
    "profiler_fed (en_profiler (as_engine s)) (en_profiler e)"
    using wire_step_frame [OF assms(2)] by simp_all
  from parts_fed [OF parts_read [OF parts_heard [OF assms(1) [unfolded components_ok_def] f(1)] f(2)] f(3)]
  show ?thesis by (simp add: components_ok_def)
qed

lemma components_router:
  assumes "components_ok cfg s" "as_now s \<le> ei_th x" "ei_th x \<le> ei_tr x" "unused_tx x (as_engine s)"
  shows "components_ok cfg (s\<lparr>as_engine := engine_handleAlert x t_lookup t_update (as_engine s), as_now := ei_tr x\<rparr>)"
proof -
  let ?e = "as_engine s"
  have ok: "parts_ok cfg (as_now s) (en_policy ?e) (en_mitigator ?e) (en_profiler ?e) (w_log (as_world s))"
    using assms(1) by (simp add: components_ok_def)
  show ?thesis
  proof (cases "en_router ?e = None \<or> en_routerAlertCh ?e = []")
    case True
    then have "engine_handleAlert x t_lookup t_update ?e = ?e" by (auto simp: engine_handleAlert_def split: option.splits list.splits)
    then show ?thesis using parts_later [OF ok, of "ei_tr x"] assms(2,3) by (simp add: components_ok_def)
  next
    case False
    then obtain r a rest where r: "en_router ?e = Some r" "en_routerAlertCh ?e = a # rest" by (auto simp: neq_Nil_conv)
    obtain pe r' where h: "handleAlert (Some (en_policy ?e)) r a x t_lookup t_update = (pe, r')" by fastforce
    have "policy_reach (engine_policy_config cfg) (as_now s) (en_policy ?e)" using ok by (simp add: parts_ok_def)
    then obtain pol where pol: "pe = Some pol" "policy_reach (engine_policy_config cfg) (ei_tr x) pol"
      "pe_evaluator pol = pe_evaluator (en_policy ?e)"
      using handleAlert_policy_reach [OF h _ assms(2,3)] assms(4) unfolding unused_tx_def by blast
    have "engine_handleAlert x t_lookup t_update ?e = ?e\<lparr>en_routerAlertCh := rest, en_router := Some r', en_policy := pol\<rparr>"
      using r h pol(1) by (simp add: engine_handleAlert_def)
    then show ?thesis using parts_policy [OF ok pol(2,3)] by (simp add: components_ok_def)
  qed
qed

lemma components_mitigate:
  assumes "components_ok cfg s" "as_now s \<le> ei_th (ai_eval x)" "ei_th (ai_eval x) \<le> ei_tr (ai_eval x)"
    and "unused_tx (ai_eval x) (as_engine s)" "engine_mitigate x (as_engine s) (as_world s) = (e, w)"
  shows "components_ok cfg (s\<lparr>as_engine := e, as_world := w, as_now := ei_tr (ai_eval x)\<rparr>)"
proof -
  let ?e = "as_engine s"
  have ok: "parts_ok cfg (as_now s) (en_policy ?e) (en_mitigator ?e) (en_profiler ?e) (w_log (as_world s))"
    using assms(1) by (simp add: components_ok_def)
  consider (idle) "e = ?e" "w = as_world s"
    | (alert) m alert rest subs where "en_mitigator ?e = Some m" "mx_subs (en_alerter ?e) = (alert # rest) # subs"
    using assms(5) by (auto simp: engine_mitigate_def split: option.splits list.splits)
  then show ?thesis
  proof cases
    case idle
    then show ?thesis using parts_later [OF ok, of "ei_tr (ai_eval x)"] assms(2,3) by (simp add: components_ok_def)
  next
    case alert
    obtain pe m' w' where h: "mitigateFromAlert (Some (en_policy ?e)) m (as_world s) alert x = (pe, m', w')" by (metis prod.collapse)
    have "policy_reach (engine_policy_config cfg) (as_now s) (en_policy ?e)" using ok by (simp add: parts_ok_def)
    then obtain pol where pol: "pe = Some pol" "policy_reach (engine_policy_config cfg) (ei_tr (ai_eval x)) pol"
      using mitigate_policy_reach [OF h _ assms(2,3)] assms(4) unfolding unused_tx_def by blast
    have v: "\<lparr>w_host = w_host (as_world s), w_log = w_log (as_world s)\<rparr> = as_world s" by simp
    have "enforce_reach (engine_policy_config cfg) (engine_mitigator_config cfg) (en_policy ?e) m (w_log (as_world s))"
      using ok alert(1) by (simp add: parts_ok_def)
    then have "enforce_reach (engine_policy_config cfg) (engine_mitigator_config cfg) pol m' (w_log w')"
      using er_alert [of _ _ "en_policy ?e" m "w_log (as_world s)" "w_host (as_world s)", unfolded v, OF _ h [unfolded pol(1)]] by simp
    moreover have "e = ?e\<lparr>en_alerter := (en_alerter ?e)\<lparr>mx_subs := rest # subs\<rparr>, en_mitigator := Some m', en_policy := pol\<rparr>" "w = w'"
      using assms(5) alert h pol(1) by (simp_all add: engine_mitigate_def)
    ultimately show ?thesis using parts_mitigator [OF ok pol(2)] by (simp add: components_ok_def)
  qed
qed

lemma components_rollback:
  assumes "components_ok cfg s" "engine_checkExpired ord x (as_engine s) (as_world s) = (e, w)"
  shows "components_ok cfg (s\<lparr>as_engine := e, as_world := w\<rparr>)"
proof -
  let ?e = "as_engine s"
  have ok: "parts_ok cfg (as_now s) (en_policy ?e) (en_mitigator ?e) (en_profiler ?e) (w_log (as_world s))"
    using assms(1) by (simp add: components_ok_def)
  consider (idle) "e = ?e" "w = as_world s" | (check) k m where "en_rollback ?e = Some k" "en_mitigator ?e = Some m"
    using assms(2) by (auto simp: engine_checkExpired_def split: option.splits)
  then show ?thesis
  proof cases
    case idle
    then show ?thesis using assms(1) by simp
  next
    case check
    let ?sh = "engine_shared ?e m (as_world s)"
    obtain k' sh where c: "checkExpired ord k ?sh x = (k', sh)" by fastforce
    have "policy_reach (engine_policy_config cfg) (as_now s) (sh_policy sh) \<and>
      enforce_reach (engine_policy_config cfg) (engine_mitigator_config cfg) (sh_policy sh) (sh_mit sh) (w_log (sh_world sh))"
      by (rule checkExpired_reach [OF c]) (use ok check in \<open>simp_all add: parts_ok_def engine_shared_def\<close>)
    moreover have "e = ?e\<lparr>en_rollback := Some k', en_mitigator := Some (sh_mit sh), en_policy := sh_policy sh,
        en_router := map_option (\<lambda>r. r\<lparr>rt_reg := sh_reg sh\<rparr>) (en_router ?e)\<rparr>" "w = sh_world sh"
      using assms(2) check c by (simp_all add: engine_checkExpired_def)
    ultimately show ?thesis using parts_mitigator [OF ok] by (simp add: components_ok_def)
  qed
qed

lemma components_reconcile:
  assumes "components_ok cfg s"
  shows "components_ok cfg (s\<lparr>as_engine := engine_reconcile ord x h (as_engine s)\<rparr>)"
proof -
  let ?e = "as_engine s"
  have ok: "parts_ok cfg (as_now s) (en_policy ?e) (en_mitigator ?e) (en_profiler ?e) (w_log (as_world s))"
    using assms(1) by (simp add: components_ok_def)
  consider (idle) "engine_reconcile ord x h ?e = ?e" | (reconcile) k m where "en_rollback ?e = Some k" "en_mitigator ?e = Some m"
    by (cases "en_rollback ?e"; cases "en_mitigator ?e") (simp_all add: engine_reconcile_def)
  then show ?thesis
  proof cases
    case idle
    then show ?thesis using assms by simp
  next
    case reconcile
    obtain k' m' where r: "reconcileOnce ord k h m x = (k', m')" by fastforce
    have "enforce_reach (engine_policy_config cfg) (engine_mitigator_config cfg) (en_policy ?e) m' (w_log (as_world s))"
      by (rule reconcileOnce_reach [OF r]) (use ok reconcile in \<open>simp add: parts_ok_def\<close>)
    moreover have "policy_reach (engine_policy_config cfg) (as_now s) (en_policy ?e)" using ok by (simp add: parts_ok_def)
    moreover have "engine_reconcile ord x h ?e = ?e\<lparr>en_rollback := Some k', en_mitigator := Some m'\<rparr>"
      using reconcile r by (simp add: engine_reconcile_def)
    ultimately show ?thesis using parts_mitigator [OF ok] by (simp add: components_ok_def)
  qed
qed

lemma components_sweep:
  assumes "components_ok cfg s" "as_now s \<le> t" "map_range ord" "engine_sweep ord t (as_engine s) = Some e"
  shows "components_ok cfg (s\<lparr>as_engine := e, as_now := t\<rparr>)"
proof -
  let ?e = "as_engine s"
  have ok: "parts_ok cfg (as_now s) (en_policy ?e) (en_mitigator ?e) (en_profiler ?e) (w_log (as_world s))"
    using assms(1) by (simp add: components_ok_def)
  obtain led where led: "sweep ord t (pe_ledger (en_policy ?e)) = Some led" "e = ?e\<lparr>en_policy := (en_policy ?e)\<lparr>pe_ledger := led\<rparr>\<rparr>"
    using assms(4) by (auto simp: engine_sweep_def)
  have "policy_reach (engine_policy_config cfg) (as_now s) (en_policy ?e)" using ok by (simp add: parts_ok_def)
  from parts_policy [OF ok policy_reach.sweep [OF this assms(2,3) led(1)]] led(2) show ?thesis by (simp add: components_ok_def)
qed

lemma components_profiler:
  assumes "components_ok cfg s" "\<And>p. profiler_reach ProfilerDefaultConfig p \<Longrightarrow> profiler_reach ProfilerDefaultConfig (f p)"
  shows "components_ok cfg (s\<lparr>as_engine := (as_engine s)\<lparr>en_profiler := map_option f (en_profiler (as_engine s))\<rparr>\<rparr>)"
  using assms(1) by (auto simp: components_ok_def parts_ok_def intro: assms(2) split: option.splits)

lemma components_step: "agent_step s s' \<Longrightarrow> components_ok cfg s \<Longrightarrow> components_ok cfg s'"
proof (induction rule: agent_step.induct)
  case (agent_host s h)
  then show ?case by (simp add: components_ok_def)
next
  case (agent_clock s t)
  then show ?case using parts_later by (simp add: components_ok_def)
next
  case (agent_analysis s ord t)
  then show ?case unfolding engine_analysis_def by (intro components_profiler) (simp_all add: reach_analysis)
next
  case (agent_profilerGC ord s t)
  then show ?case unfolding engine_profilerGC_def by (intro components_profiler) (simp_all add: reach_gc)
qed (blast intro: components_wire components_router components_mitigate components_rollback components_reconcile components_sweep)+

lemma components_start:
  assumes "NewEngine pt cfg now = Some e" "engine_Start e attached gpuErr = Some e'"
  shows "components_ok cfg \<lparr>as_engine = e', as_world = \<lparr>w_host = h, w_log = []\<rparr>, as_now = now\<rparr>"
proof -
  note pol = engine_policy_valid [OF assms(1)]
  have "en_mitigator e = (if cf_MitigationEnabled cfg then Some (NewMitigator (engine_mitigator_config cfg)) else None)"
    "en_profiler e = (if cf_ProfilerEnabled cfg then Some (NewProfiler ProfilerDefaultConfig) else None)"
    using assms(1) by (auto simp: NewEngine_def Let_def split: option.splits)
  moreover have "en_mitigator e' = en_mitigator e" "en_profiler e' = en_profiler e" "en_policy e' = en_policy e"
    using assms(2) by (auto simp: engine_Start_def Let_def split: if_splits)
  ultimately show ?thesis
    using create [OF pol] er_start [OF pol] reach_new by (simp add: components_ok_def parts_ok_def)
qed

lemma agent_reach_components: "agent_reach cfg s \<Longrightarrow> components_ok cfg s"
  by (induction rule: agent_reach.induct) (simp_all add: components_start components_step)

lemma background_to:
  "e' = e\<lparr>en_mitigator := m, en_profiler := p, en_policy := pol, en_router := r, en_rollback := k\<rparr> \<Longrightarrow> engine_step e e'"
  using background by simp

lemma background_step:
  "engine_step e (e\<lparr>en_policy := pol\<rparr>)" "engine_step e (e\<lparr>en_profiler := p\<rparr>)"
  "engine_step e (e\<lparr>en_mitigator := m, en_policy := pol\<rparr>)" "engine_step e (e\<lparr>en_rollback := k, en_mitigator := m\<rparr>)"
  "engine_step e (e\<lparr>en_rollback := k, en_mitigator := m, en_policy := pol, en_router := r\<rparr>)"
proof -
  show "engine_step e (e\<lparr>en_policy := pol\<rparr>)"
    by (rule background_to [where m = "en_mitigator e" and p = "en_profiler e" and pol = pol and r = "en_router e" and k = "en_rollback e"]) simp
  show "engine_step e (e\<lparr>en_profiler := p\<rparr>)"
    by (rule background_to [where m = "en_mitigator e" and p = p and pol = "en_policy e" and r = "en_router e" and k = "en_rollback e"]) simp
  show "engine_step e (e\<lparr>en_mitigator := m, en_policy := pol\<rparr>)"
    by (rule background_to [where m = m and p = "en_profiler e" and pol = pol and r = "en_router e" and k = "en_rollback e"]) simp
  show "engine_step e (e\<lparr>en_rollback := k, en_mitigator := m\<rparr>)"
    by (rule background_to [where m = m and p = "en_profiler e" and pol = "en_policy e" and r = "en_router e" and k = k]) simp
  show "engine_step e (e\<lparr>en_rollback := k, en_mitigator := m, en_policy := pol, en_router := r\<rparr>)"
    by (rule background_to [where m = m and p = "en_profiler e" and pol = pol and r = r and k = k]) simp
qed

text \<open>A step of the agent is at most two of the engine, whose components may do anything in between.\<close>

lemma engine_simulates:
  assumes "agent_step s s'" "engine_reach cfg (as_engine s)"
  shows "engine_reach cfg (as_engine s')"
  using assms(1)
proof cases
  case (agent_wire e)
  then show ?thesis using reach_step [OF assms(2) step_wire] by simp
next
  case (agent_router x t_lookup t_update)
  then show ?thesis using reach_step [OF assms(2) step_handleAlert] by simp
next
  case (agent_mitigate x e w)
  let ?e = "as_engine s"
  consider (idle) "e = ?e" | (alert) m alert rest subs where "en_mitigator ?e = Some m" "mx_subs (en_alerter ?e) = (alert # rest) # subs"
    using agent_mitigate(5) by (auto simp: engine_mitigate_def split: option.splits list.splits)
  then show ?thesis
  proof cases
    case idle
    then show ?thesis using agent_mitigate(1) assms(2) by simp
  next
    case alert
    let ?e1 = "?e\<lparr>en_alerter := (en_alerter ?e)\<lparr>mx_subs := rest # subs\<rparr>\<rparr>"
    have "\<exists>m' pol. e = ?e1\<lparr>en_mitigator := m', en_policy := pol\<rparr>"
      using agent_mitigate(5) alert by (auto simp: engine_mitigate_def split: prod.splits)
    then show ?thesis
      using reach_step [OF reach_step [OF assms(2) step_subscription [OF alert(2)]] background_step(3)] agent_mitigate(1) by auto
  qed
next
  case (agent_sweep t ord e)
  then show ?thesis using reach_step [OF assms(2) background_step(1)] by (auto simp: engine_sweep_def)
next
  case (agent_analysis ord t)
  then show ?thesis using reach_step [OF assms(2) background_step(2)] by (simp add: engine_analysis_def)
next
  case (agent_profilerGC ord t)
  then show ?thesis using reach_step [OF assms(2) background_step(2)] by (simp add: engine_profilerGC_def)
next
  case (agent_rollback rord x e w)
  then show ?thesis
    using reach_step [OF assms(2) background_step(5)] assms(2)
    by (cases "en_rollback (as_engine s)"; cases "en_mitigator (as_engine s)") (auto simp: engine_checkExpired_def split: prod.splits)
next
  case (agent_reconcile eord x)
  then show ?thesis
    using reach_step [OF assms(2) background_step(4)] assms(2)
    by (cases "en_rollback (as_engine s)"; cases "en_mitigator (as_engine s)") (auto simp: engine_reconcile_def split: prod.splits)
qed (use assms(2) in simp_all)

lemma agent_reach_engine: "agent_reach cfg s \<Longrightarrow> engine_reach cfg (as_engine s)"
  by (induction rule: agent_reach.induct) (auto intro: reach_start engine_simulates)


text \<open>
  The mitigator and the rollback controller are there exactly when mitigation is switched on, the
  router when it is.
\<close>

lemma agent_reach_guarded:
  "agent_reach cfg s \<Longrightarrow> (en_mitigator (as_engine s) = None \<longleftrightarrow> \<not> cf_MitigationEnabled cfg) \<and>
    (en_rollback (as_engine s) = None \<longleftrightarrow> \<not> cf_MitigationEnabled cfg) \<and>
    (en_router (as_engine s) = None \<longleftrightarrow> \<not> cf_RouterEnabled cfg)"
proof (induction rule: agent_reach.induct)
  case (agent_start pt now e attached gpuErr e' h)
  then show ?case by (auto simp: NewEngine_def engine_Start_def Let_def split: option.splits if_splits)
next
  case (agent_next s s')
  from agent_next.hyps(2) have "(en_mitigator (as_engine s') = None \<longleftrightarrow> en_mitigator (as_engine s) = None) \<and>
    (en_rollback (as_engine s') = None \<longleftrightarrow> en_rollback (as_engine s) = None) \<and>
    (en_router (as_engine s') = None \<longleftrightarrow> en_router (as_engine s) = None)"
  proof cases
    case (agent_wire e)
    then show ?thesis using wire_step_frame [OF agent_wire(2)] by (auto simp: mitigator_read_def)
  qed (auto simp: engine_handleAlert_def engine_mitigate_def engine_sweep_def engine_analysis_def engine_profilerGC_def
        engine_checkExpired_def engine_reconcile_def split: option.splits list.splits prod.splits)
  then show ?case using agent_next.IH by simp
qed

text \<open>An agent that was started with everything switched on.\<close>

definition guard_cfg :: Config where
  "guard_cfg = (DefaultConfig ''node'')\<lparr>cf_ProxyEnabled := True, cf_RouterEnabled := True, cf_MitigationEnabled := True,
     cf_UpstreamEndpoint := ''upstream''\<rparr>"

lemma guard_engine:
  "\<exists>e e' m p. NewEngine \<lparr>pt_bpf = True, pt_gpu = False\<rparr> guard_cfg 7 = Some e \<and> engine_Start e False None = Some e' \<and>
     en_mitigator e' = Some m \<and> en_profiler e' = Some p"
proof -
  obtain pol where pol: "NewPolicyEngine (engine_policy_config guard_cfg) = Some pol"
    by (simp add: NewPolicyEngine_def engine_policy_config_def PolicyDefaultConfig_def Let_def guard_cfg_def DefaultConfig_def)
  have on: "cf_MitigationEnabled guard_cfg" "cf_ProfilerEnabled guard_cfg" "0 < cf_PollInterval guard_cfg"
    by (simp_all add: guard_cfg_def DefaultConfig_def)
  then obtain e m p where e: "NewEngine \<lparr>pt_bpf = True, pt_gpu = False\<rparr> guard_cfg 7 = Some e" "en_mitigator e = Some m"
    "en_profiler e = Some p" "co_pollInterval (en_collector e) = cf_PollInterval guard_cfg"
    using pol by (simp add: NewEngine_def Let_def NewCollector_def)
  then obtain e' where "engine_Start e False None = Some e'" "en_mitigator e' = Some m" "en_profiler e' = Some p"
    using on(3) by (simp add: engine_Start_def Let_def collector_ticker_def)
  with e(1) show ?thesis by blast
qed

lemma guard_started:
  "\<exists>s m p. agent_reach guard_cfg s \<and> en_mitigator (as_engine s) = Some m \<and> en_profiler (as_engine s) = Some p \<and> as_now s = 7"
proof -
  obtain e e' m p where "NewEngine \<lparr>pt_bpf = True, pt_gpu = False\<rparr> guard_cfg 7 = Some e" "engine_Start e False None = Some e'"
    "en_mitigator e' = Some m" "en_profiler e' = Some p"
    using guard_engine by blast
  with agent_start show ?thesis
    by (metis AgentState.select_convs(1) AgentState.select_convs(3))
qed


end
