(* ===== verification/Stopping.thy ===== *)
theory Stopping
  imports Main
begin

text \<open>
  What it takes for a program of several goroutines to stop: the interface of a stop script and of
  the goroutines it waits for. Whatever is scheduled in between, a state from which the script can
  still end is told from one in which it never will.
\<close>

locale stop_plan =
  fixes step :: "'s \<Rightarrow> 's \<Rightarrow> bool"
    and good :: "'s \<Rightarrow> bool"
    and stuck :: "'s \<Rightarrow> bool"
    and stopped :: "'s \<Rightarrow> bool"
    and rank :: "'s \<Rightarrow> nat"
  assumes good_step: "good s \<Longrightarrow> step s s' \<Longrightarrow> good s'"
    and stuck_step: "good s \<Longrightarrow> stuck s \<Longrightarrow> step s s' \<Longrightarrow> stuck s'"
    and stuck_runs: "good s \<Longrightarrow> stuck s \<Longrightarrow> \<not> stopped s"
    and progress: "good s \<Longrightarrow> \<not> stuck s \<Longrightarrow> \<not> stopped s \<Longrightarrow> \<exists>s'. step s s' \<and> \<not> stuck s' \<and> rank s' < rank s"
begin

lemma can_stop: "good s \<Longrightarrow> \<not> stuck s \<Longrightarrow> \<exists>s'. step\<^sup>*\<^sup>* s s' \<and> stopped s'"
proof (induction "rank s" arbitrary: s rule: less_induct)
  case less
  show ?case
  proof (cases "stopped s")
    case False
    then obtain s1 where s1: "step s s1" "\<not> stuck s1" "rank s1 < rank s" using progress less.prems by blast
    then obtain s' where "step\<^sup>*\<^sup>* s1 s'" "stopped s'" using less.hyps good_step less.prems(1) by blast
    then show ?thesis using s1(1) by (meson converse_rtranclp_into_rtranclp)
  qed blast
qed

lemma stays_stuck: "step\<^sup>*\<^sup>* s s' \<Longrightarrow> good s \<Longrightarrow> stuck s \<Longrightarrow> good s' \<and> stuck s'"
  by (induction rule: rtranclp_induct) (use good_step stuck_step in blast)+

lemma can_stop_iff: "good s \<Longrightarrow> (\<exists>s'. step\<^sup>*\<^sup>* s s' \<and> stopped s') \<longleftrightarrow> \<not> stuck s"
  using can_stop stays_stuck stuck_runs by blast

end

end
