(* ===== verification/Shutdown.thy ===== *)
theory Shutdown
  imports System Stopping
begin

text \<open>
  The goroutines of the agent and how it stops (\<open>Start\<close> and \<open>Stop\<close> of
  \<open>src/internal/proxy/engine/engine.go\<close>, with the loops, the \<open>Start\<close>, \<open>Stop\<close> and \<open>Wait\<close> of the
  components): which goroutines run and which wait group each belongs to, what each does in a turn
  and when its context is cancelled, and the script of the main goroutine after a signal. A wait
  group blocks while one of its goroutines runs.
\<close>

section \<open>Goroutines and wait groups\<close>

datatype goroutine =
    GAggregator | GStreamer | GCollector | GDataRouter | GDetectorGC | GAnalysis | GProfilerGC
  | GMultiplex | GFanOut nat | GMitigator | GMitigatorLog | GPolicySweep | GPolicyLog | GRollback | GReconcile
  | GRollbackLog | GRouter | GBridge | GRouterLog | GProxy | GDashboard

datatype waitgroup =
    WGAggregator | WGStreamer | WGDetector | WGProfiler | WGAlerter | WGMitigator | WGPolicy | WGRouter | WGRollback | WGEngine

text \<open>The sweeper of the policy ledger belongs to no wait group.\<close>

fun owner :: "goroutine \<Rightarrow> waitgroup option" where
  "owner GAggregator = Some WGAggregator"
| "owner GStreamer = Some WGStreamer"
| "owner GDetectorGC = Some WGDetector"
| "owner GAnalysis = Some WGProfiler"
| "owner GProfilerGC = Some WGProfiler"
| "owner GMultiplex = Some WGAlerter"
| "owner (GFanOut i) = Some WGAlerter"
| "owner GMitigator = Some WGMitigator"
| "owner GRollback = Some WGRollback"
| "owner GReconcile = Some WGRollback"
| "owner GRouter = Some WGRouter"
| "owner GPolicySweep = None"
| "owner _ = Some WGEngine"

text \<open>
  The goroutines that \<open>Start\<close> leaves running. A component is there exactly when its flag is set;
  the rollback controller, when the mitigator is.
\<close>

definition started :: "Config \<Rightarrow> goroutine set" where
  "started cfg =
     {GAggregator, GStreamer, GCollector, GDataRouter, GMultiplex, GPolicySweep, GPolicyLog, GDashboard} \<union>
     GFanOut ` {..<nat (lc_FanOutCount AlerterDefaultConfig)} \<union>
     (if cf_DetectorEnabled cfg then {GDetectorGC} else {}) \<union>
     (if cf_ProfilerEnabled cfg then {GAnalysis, GProfilerGC} else {}) \<union>
     (if cf_MitigationEnabled cfg then {GMitigator, GMitigatorLog, GRollback, GReconcile, GRollbackLog} else {}) \<union>
     (if cf_RouterEnabled cfg then {GRouter, GBridge, GRouterLog} else {}) \<union>
     (if cf_ProxyEnabled cfg then {GProxy} else {})"

text \<open>A turn of each goroutine.\<close>

inductive turn :: "goroutine \<Rightarrow> AgentState \<Rightarrow> AgentState \<Rightarrow> bool" where
  turn_poll: "engine_poll ord encode x (as_engine s) = Some e \<Longrightarrow> turn GCollector s (s\<lparr>as_engine := e\<rparr>)"
| turn_route: "dataRouter_step decode ri (as_engine s) = Some e \<Longrightarrow> turn GDataRouter s (s\<lparr>as_engine := e\<rparr>)"
| turn_aggregate: "engine_aggregate sha decode encodep (as_engine s) = Some e \<Longrightarrow> turn GAggregator s (s\<lparr>as_engine := e\<rparr>)"
| turn_exchange: "engine_exchange c cl px (as_engine s) = Some (reply, e) \<Longrightarrow> turn GProxy s (s\<lparr>as_engine := e\<rparr>)"
| turn_send: "pp_streamer (en_pipeline (as_engine s)) = Some st \<Longrightarrow>
    run_iteration st out backoff (pp_RingBuf (en_pipeline (as_engine s))) = Some (backoff', rb, waits) \<Longrightarrow>
    turn GStreamer s (s\<lparr>as_engine := (as_engine s)\<lparr>en_pipeline := (en_pipeline (as_engine s))\<lparr>pp_RingBuf := rb\<rparr>\<rparr>\<rparr>)"
| turn_detectorAlert: "turn GMultiplex s (s\<lparr>as_engine := engine_detectorAlert buf (as_engine s)\<rparr>)"
| turn_profilerAlert: "turn GMultiplex s (s\<lparr>as_engine := engine_profilerAlert buf (as_engine s)\<rparr>)"
| turn_fanOut: "engine_fanOut marshal (as_engine s) = Some e \<Longrightarrow> turn (GFanOut i) s (s\<lparr>as_engine := e\<rparr>)"
| turn_bridge: "turn GBridge s (s\<lparr>as_engine := routerAlertBridge_step (as_engine s)\<rparr>)"
| turn_router: "as_now s \<le> ei_th x \<Longrightarrow> ei_th x \<le> ei_tr x \<Longrightarrow> unused_tx x (as_engine s) \<Longrightarrow>
    turn GRouter s (s\<lparr>as_engine := engine_handleAlert x t_lookup t_update (as_engine s), as_now := ei_tr x\<rparr>)"
| turn_mitigate: "as_now s \<le> ei_th (ai_eval x) \<Longrightarrow> ei_th (ai_eval x) \<le> ei_tr (ai_eval x) \<Longrightarrow>
    unused_tx (ai_eval x) (as_engine s) \<Longrightarrow> engine_mitigate x (as_engine s) (as_world s) = (e, w) \<Longrightarrow>
    turn GMitigator s (s\<lparr>as_engine := e, as_world := w, as_now := ei_tr (ai_eval x)\<rparr>)"
| turn_mitigateEvent: "mitigateEventLogger_step marshal_m (as_engine s) = Some e \<Longrightarrow> turn GMitigatorLog s (s\<lparr>as_engine := e\<rparr>)"
| turn_routerEvent: "routerEventLogger_step marshal_r (as_engine s) = Some e \<Longrightarrow> turn GRouterLog s (s\<lparr>as_engine := e\<rparr>)"
| turn_policyEvent: "policyEventLogger_step marshal_p (as_engine s) = Some e \<Longrightarrow> turn GPolicyLog s (s\<lparr>as_engine := e\<rparr>)"
| turn_rollbackEvent: "rollbackEventLogger_step marshal_s (as_engine s) = Some e \<Longrightarrow> turn GRollbackLog s (s\<lparr>as_engine := e\<rparr>)"
| turn_detectorGC: "en_detector (as_engine s) = Some d \<Longrightarrow> map_range gc_ord \<Longrightarrow>
    turn GDetectorGC s (s\<lparr>as_engine := (as_engine s)\<lparr>en_detector := Some (detector_runGC gc_ord d now)\<rparr>\<rparr>)"
| turn_analysis: "turn GAnalysis s (s\<lparr>as_engine := engine_analysis pord t (as_engine s)\<rparr>)"
| turn_profilerGC: "map_range pord \<Longrightarrow> turn GProfilerGC s (s\<lparr>as_engine := engine_profilerGC pord t (as_engine s)\<rparr>)"
| turn_sweep: "as_now s \<le> t \<Longrightarrow> map_range rord \<Longrightarrow> engine_sweep rord t (as_engine s) = Some e \<Longrightarrow>
    turn GPolicySweep s (s\<lparr>as_engine := e, as_now := t\<rparr>)"
| turn_rollback: "engine_checkExpired rord x (as_engine s) (as_world s) = (e, w) \<Longrightarrow>
    turn GRollback s (s\<lparr>as_engine := e, as_world := w\<rparr>)"
| turn_reconcile: "turn GReconcile s (s\<lparr>as_engine := engine_reconcile eord x (w_host (as_world s)) (as_engine s)\<rparr>)"

lemma turn_agent_step: "turn g s s' \<Longrightarrow> agent_step s s'"
  by (induction rule: turn.induct) (intro agent_step.intros wire_step.intros; assumption)+

text \<open>
  What a goroutine still does when it finds its context cancelled. With the cancelled context every
  request of the streamer fails. It looks at the context only where it waits: it may have been waiting
  already, or it tries one more batch and waits then.
\<close>

definition no_http :: http_outcome where
  "no_http = TransportFailed"

inductive finish :: "goroutine \<Rightarrow> AgentState \<Rightarrow> AgentState \<Rightarrow> bool" where
  finish_aggregator: "engine_aggregate sha decode encodep (as_engine s) = Some e \<Longrightarrow> finish GAggregator s (s\<lparr>as_engine := e\<rparr>)"
| finish_waiting: "pp_streamer (en_pipeline (as_engine s)) = Some st \<Longrightarrow>
    flushRemaining st (\<lambda>_ _. no_http) 0 (pp_RingBuf (en_pipeline (as_engine s))) = Some (sent, rb) \<Longrightarrow>
    finish GStreamer s (s\<lparr>as_engine := (as_engine s)\<lparr>en_pipeline := (en_pipeline (as_engine s))\<lparr>pp_RingBuf := rb\<rparr>\<rparr>\<rparr>)"
| finish_sending: "pp_streamer (en_pipeline (as_engine s)) = Some st \<Longrightarrow>
    run_iteration st (\<lambda>_. no_http) backoff (pp_RingBuf (en_pipeline (as_engine s))) = Some (backoff', rb1, waits) \<Longrightarrow>
    waits \<noteq> [] \<Longrightarrow> flushRemaining st (\<lambda>_ _. no_http) 0 rb1 = Some (sent, rb) \<Longrightarrow>
    finish GStreamer s (s\<lparr>as_engine := (as_engine s)\<lparr>en_pipeline := (en_pipeline (as_engine s))\<lparr>pp_RingBuf := rb\<rparr>\<rparr>\<rparr>)"
| finish_detectorGC: "en_detector (as_engine s) = Some d \<Longrightarrow> map_range gc_ord \<Longrightarrow>
    finish GDetectorGC s (s\<lparr>as_engine := (as_engine s)\<lparr>en_detector := Some (detector_runGC gc_ord d now)\<rparr>\<rparr>)"
| finish_profilerGC: "map_range pord \<Longrightarrow> finish GProfilerGC s (s\<lparr>as_engine := engine_profilerGC pord t (as_engine s)\<rparr>)"
| finish_other: "g \<notin> {GAggregator, GStreamer, GDetectorGC, GProfilerGC} \<Longrightarrow> finish g s s"

lemma finish_reach: "finish g s s' \<Longrightarrow> agent_reach cfg s \<Longrightarrow> agent_reach cfg s'"
proof (induction rule: finish.induct)
  case (finish_aggregator sha decode encodep s e)
  then show ?case by (blast intro: agent_next agent_wire step_aggregate)
next
  case (finish_waiting s st sent rb)
  then show ?case by (blast intro: agent_next agent_wire step_flush)
next
  case (finish_sending s st backoff backoff' rb1 waits sent rb)
  let ?s1 = "s\<lparr>as_engine := (as_engine s)\<lparr>en_pipeline := (en_pipeline (as_engine s))\<lparr>pp_RingBuf := rb1\<rparr>\<rparr>\<rparr>"
  have s1: "agent_reach cfg ?s1" using finish_sending by (blast intro: agent_next agent_wire step_send)
  have "wire_step (as_engine ?s1) ((as_engine ?s1)\<lparr>en_pipeline := (en_pipeline (as_engine ?s1))\<lparr>pp_RingBuf := rb\<rparr>\<rparr>)"
    by (rule step_flush [where s = st and outs = "\<lambda>_ _. no_http" and sent = sent]) (use finish_sending in simp_all)
  from agent_next [OF s1 agent_wire [OF this]] show ?case by simp
next
  case (finish_detectorGC s d gc_ord now)
  then show ?case by (blast intro: agent_next agent_wire step_gc)
next
  case (finish_profilerGC pord s t)
  then show ?case by (blast intro: agent_next agent_profilerGC)
qed

section \<open>The life of the agent\<close>

datatype proxy_phase = Unopened | Listening | ServerClosed

datatype stop_action = StopMetrics | CancelAll | CloseProxy | AwaitGroup waitgroup | StopDashboard | FlushBuffer

text \<open>What the main goroutine has done of its script, and what is left of it.\<close>

datatype main_phase = Serving | Stopping "stop_action list" "stop_action list"

record Lifecycle =
  lf_agent :: AgentState
  lf_running :: "goroutine set"
  lf_cancelled :: bool
  lf_proxy :: proxy_phase
  lf_main :: main_phase

definition awaited :: "Config \<Rightarrow> stop_action list" where
  "awaited cfg =
     (if cf_DetectorEnabled cfg then [AwaitGroup WGDetector] else []) @
     (if cf_ProfilerEnabled cfg then [AwaitGroup WGProfiler] else []) @
     (if cf_MitigationEnabled cfg then [AwaitGroup WGRollback] else []) @
     [AwaitGroup WGPolicy] @
     (if cf_MitigationEnabled cfg then [AwaitGroup WGMitigator] else []) @
     (if cf_RouterEnabled cfg then [AwaitGroup WGRouter] else []) @
     [AwaitGroup WGAlerter, AwaitGroup WGAggregator, AwaitGroup WGStreamer]"

definition stop_script :: "Config \<Rightarrow> stop_action list" where
  "stop_script cfg =
     [StopMetrics, CancelAll] @ (if cf_ProxyEnabled cfg then [CloseProxy] else []) @ awaited cfg @
     [StopDashboard, FlushBuffer, AwaitGroup WGEngine]"

text \<open>
  One action; \<open>None\<close> when it blocks. Closing the proxy does nothing before its server exists, and
  shutting the dashboard down leaves nothing to model, as its goroutine ends with the context.
\<close>

definition perform :: "stop_action \<Rightarrow> Lifecycle \<Rightarrow> Lifecycle option" where
  "perform a l =
     (case a of
        StopMetrics \<Rightarrow> Some (l\<lparr>lf_agent := (lf_agent l)\<lparr>as_engine := stop_metrics (as_engine (lf_agent l))\<rparr>\<rparr>)
      | CancelAll \<Rightarrow> Some (l\<lparr>lf_cancelled := True\<rparr>)
      | CloseProxy \<Rightarrow> Some (l\<lparr>lf_proxy := (if lf_proxy l = Listening then ServerClosed else lf_proxy l)\<rparr>)
      | AwaitGroup wg \<Rightarrow> if \<exists>g \<in> lf_running l. owner g = Some wg then None else Some l
      | StopDashboard \<Rightarrow> Some l
      | FlushBuffer \<Rightarrow>
          map_option (\<lambda>e. l\<lparr>lf_agent := (lf_agent l)\<lparr>as_engine := e\<rparr>\<rparr>) (flushRingBuffer (as_engine (lf_agent l))))"

text \<open>
  The goroutine of the proxy ends when its server is closed, or at once when it cannot bind its
  address, as does that of the dashboard; all others, when the context is cancelled. The agent is stopped by a signal only: the
  context that \<open>main\<close> hands it is never cancelled. A streamer without an address sends nothing and
  has no reason to wait, so it goes on emptying the ring buffer after that.
\<close>

inductive life_step :: "Config \<Rightarrow> Lifecycle \<Rightarrow> Lifecycle \<Rightarrow> bool" for cfg where
  life_host: "life_step cfg l (l\<lparr>lf_agent := (lf_agent l)\<lparr>as_world := (as_world (lf_agent l))\<lparr>w_host := h\<rparr>\<rparr>\<rparr>)"
| life_clock: "as_now (lf_agent l) \<le> t \<Longrightarrow> life_step cfg l (l\<lparr>lf_agent := (lf_agent l)\<lparr>as_now := t\<rparr>\<rparr>)"
| life_turn: "g \<in> lf_running l \<Longrightarrow> turn g (lf_agent l) s \<Longrightarrow> (g = GProxy \<longrightarrow> lf_proxy l = Listening) \<Longrightarrow>
    \<not> (g = GStreamer \<and> lf_cancelled l) \<Longrightarrow> life_step cfg l (l\<lparr>lf_agent := s\<rparr>)"
| life_drain: "GStreamer \<in> lf_running l \<Longrightarrow> lf_cancelled l \<Longrightarrow> pp_streamer (en_pipeline (as_engine (lf_agent l))) = Some st \<Longrightarrow>
    run_iteration st (\<lambda>_. no_http) backoff (pp_RingBuf (en_pipeline (as_engine (lf_agent l)))) = Some (backoff', rb, []) \<Longrightarrow>
    life_step cfg l (l\<lparr>lf_agent := (lf_agent l)\<lparr>as_engine := (as_engine (lf_agent l))\<lparr>
      en_pipeline := (en_pipeline (as_engine (lf_agent l)))\<lparr>pp_RingBuf := rb\<rparr>\<rparr>\<rparr>\<rparr>)"
| life_listen: "GProxy \<in> lf_running l \<Longrightarrow> lf_proxy l = Unopened \<Longrightarrow> life_step cfg l (l\<lparr>lf_proxy := Listening\<rparr>)"
| life_exit: "g \<in> lf_running l \<Longrightarrow> g \<noteq> GProxy \<Longrightarrow> lf_cancelled l \<Longrightarrow> finish g (lf_agent l) s \<Longrightarrow>
    life_step cfg l (l\<lparr>lf_agent := s, lf_running := lf_running l - {g}\<rparr>)"
| life_proxy_exit: "GProxy \<in> lf_running l \<Longrightarrow> lf_proxy l \<noteq> Listening \<Longrightarrow>
    life_step cfg l (l\<lparr>lf_running := lf_running l - {GProxy}\<rparr>)"
| life_dashboard_exit: "GDashboard \<in> lf_running l \<Longrightarrow> life_step cfg l (l\<lparr>lf_running := lf_running l - {GDashboard}\<rparr>)"
| life_signal: "lf_main l = Serving \<Longrightarrow> life_step cfg l (l\<lparr>lf_main := Stopping [] (stop_script cfg)\<rparr>)"
| life_main: "lf_main l = Stopping don (a # todo) \<Longrightarrow> perform a l = Some l' \<Longrightarrow>
    life_step cfg l (l'\<lparr>lf_main := Stopping (don @ [a]) todo\<rparr>)"

inductive life_reach :: "Config \<Rightarrow> Lifecycle \<Rightarrow> bool" for cfg where
  life_start: "NewEngine pt cfg now = Some e \<Longrightarrow> engine_Start e attached gpuErr = Some e' \<Longrightarrow>
    life_reach cfg \<lparr>lf_agent = \<lparr>as_engine = e', as_world = \<lparr>w_host = h, w_log = []\<rparr>, as_now = now\<rparr>,
      lf_running = started cfg, lf_cancelled = False, lf_proxy = Unopened, lf_main = Serving\<rparr>"
| life_next: "life_reach cfg l \<Longrightarrow> life_step cfg l l' \<Longrightarrow> life_reach cfg l'"

section \<open>The invariant\<close>

lemma life_reach_agent: "life_reach cfg l \<Longrightarrow> agent_reach cfg (lf_agent l)"
proof (induction rule: life_reach.induct)
  case (life_start pt now e attached gpuErr e' h)
  then show ?case by (simp add: agent_start)
next
  case (life_next l l')
  from life_next.hyps(2) show ?case
  proof cases
    case (life_turn g s)
    then show ?thesis using agent_next [OF life_next.IH turn_agent_step [OF life_turn(3)]] by simp
  next
    case (life_exit g s)
    then show ?thesis using finish_reach [OF life_exit(5) life_next.IH] by simp
  next
    case (life_drain st backoff backoff' rb)
    then show ?thesis using agent_next [OF life_next.IH agent_wire [OF step_send [OF life_drain(4,5)]]] by simp
  next
    case (life_host h)
    then show ?thesis using agent_next [OF life_next.IH agent_host] by simp
  next
    case (life_clock t)
    then show ?thesis using agent_next [OF life_next.IH agent_clock] by simp
  next
    case (life_main don a todo l1)
    then show ?thesis
      using life_next.IH agent_next [OF life_next.IH agent_wire [OF step_stopping]]
        agent_next [OF life_next.IH agent_wire [OF step_print]]
      by (auto simp: perform_def split: stop_action.splits if_splits)
  qed (use life_next.IH in simp_all)
qed

text \<open>The goroutines that still run, and what the actions done so far have brought about.\<close>

definition life_inv :: "Config \<Rightarrow> Lifecycle \<Rightarrow> bool" where
  "life_inv cfg l \<longleftrightarrow> lf_running l \<subseteq> started cfg \<and>
     (case lf_main l of
        Serving \<Rightarrow> \<not> lf_cancelled l \<and> lf_proxy l \<noteq> ServerClosed
      | Stopping don todo \<Rightarrow> don @ todo = stop_script cfg \<and> (CancelAll \<in> set don \<longrightarrow> lf_cancelled l) \<and>
          (\<forall>wg. AwaitGroup wg \<in> set don \<longrightarrow> (\<forall>g \<in> lf_running l. owner g \<noteq> Some wg)))"

lemma perform_frame:
  assumes "perform a l = Some l'"
  shows "lf_running l' = lf_running l" "lf_main l' = lf_main l" "lf_cancelled l' \<longleftrightarrow> lf_cancelled l \<or> a = CancelAll"
    "a = AwaitGroup wg \<Longrightarrow> g \<in> lf_running l \<Longrightarrow> owner g \<noteq> Some wg"
  using assms by (auto simp: perform_def split: stop_action.splits if_splits)

lemma life_reach_inv: "life_reach cfg l \<Longrightarrow> life_inv cfg l"
proof (induction rule: life_reach.induct)
  case (life_start pt now e attached gpuErr e' h)
  then show ?case by (simp add: life_inv_def)
next
  case (life_next l l')
  from life_next.hyps(2) show ?case
  proof cases
    case (life_main don a todo l1)
    note f = perform_frame [OF life_main(3)]
    show ?thesis using life_next.IH life_main f by (auto simp: life_inv_def)
  qed (use life_next.IH in \<open>auto simp: life_inv_def split: main_phase.splits\<close>)
qed

lemma finite_started: "finite (started cfg)"
  by (simp add: started_def)

lemma running_finite: "life_inv cfg l \<Longrightarrow> finite (lf_running l)"
  using finite_started finite_subset by (auto simp: life_inv_def)

text \<open>Waiting comes after cancelling.\<close>

lemma await_cancelled:
  assumes "don @ AwaitGroup wg # todo = stop_script cfg"
  shows "CancelAll \<in> set don"
proof (cases don)
  case Nil
  then show ?thesis using assms by (simp add: stop_script_def)
next
  case (Cons a don')
  then show ?thesis using assms by (cases don') (auto simp: stop_script_def)
qed

text \<open>The last two actions of the script come after all the others.\<close>

lemma flush_last:
  assumes "don @ todo = stop_script cfg" "FlushBuffer \<in> set don"
  shows "set (awaited cfg) \<subseteq> set don"
proof -
  let ?pre = "[StopMetrics, CancelAll] @ (if cf_ProxyEnabled cfg then [CloseProxy] else []) @ awaited cfg @ [StopDashboard]"
  have n: "FlushBuffer \<notin> set ?pre" by (simp add: awaited_def)
  have "don @ todo = ?pre @ [FlushBuffer, AwaitGroup WGEngine]" using assms(1) by (simp add: stop_script_def)
  then obtain us where "don = ?pre @ us \<or> don @ us = ?pre"
    by (metis append_eq_append_conv2)
  then have "set ?pre \<subseteq> set don"
  proof
    assume "don @ us = ?pre"
    then have "FlushBuffer \<in> set ?pre" using assms(2) by (metis Un_iff set_append)
    with n show ?thesis by blast
  qed auto
  then show ?thesis by auto
qed

lemma owner_awaited:
  assumes "g \<in> started cfg" "owner g = Some wg" "wg \<noteq> WGEngine"
  shows "AwaitGroup wg \<in> set (awaited cfg)"
  using assms by (cases g) (auto simp: started_def awaited_def split: if_splits)

lemma after_flush:
  assumes "life_inv cfg l" "lf_main l = Stopping don todo" "FlushBuffer \<in> set don" "g \<in> lf_running l"
  shows "owner g = None \<or> owner g = Some WGEngine"
proof (rule ccontr)
  assume "\<not> ?thesis"
  then obtain wg where wg: "owner g = Some wg" "wg \<noteq> WGEngine" by auto
  have "g \<in> started cfg" "don @ todo = stop_script cfg" using assms by (auto simp: life_inv_def)
  then have "AwaitGroup wg \<in> set don" using owner_awaited [OF _ wg] flush_last assms(3) by blast
  then show False using assms(1,2,4) wg by (auto simp: life_inv_def)
qed

section \<open>What stopping does\<close>

lemma mitigator_read_ledger: "mitigator_read m m' \<Longrightarrow> map_option mg_ledger m' = map_option mg_ledger m"
  by (auto simp: mitigator_read_def)

text \<open>Outside the loops of the mitigator and the rollback controller nothing touches a process.\<close>

lemma turn_wire:
  assumes "turn g s s'" "g \<notin> {GRouter, GMitigator, GAnalysis, GProfilerGC, GPolicySweep, GRollback, GReconcile}"
  shows "\<exists>e. wire_step (as_engine s) e \<and> s' = s\<lparr>as_engine := e\<rparr>"
  using assms by (induction rule: turn.induct) (blast intro: wire_step.intros | simp)+

lemma turn_harmless:
  assumes "turn g s s'" "g \<notin> {GMitigator, GRollback, GReconcile}"
  shows "w_log (as_world s') = w_log (as_world s) \<and>
    map_option mg_ledger (en_mitigator (as_engine s')) = map_option mg_ledger (en_mitigator (as_engine s))"
proof (cases "g \<in> {GRouter, GAnalysis, GProfilerGC, GPolicySweep}")
  case True
  from assms(1) True show ?thesis
    by cases (auto simp: engine_handleAlert_def engine_analysis_def engine_profilerGC_def engine_sweep_def case_prod_unfold Let_def
        split: option.splits list.splits)
next
  case False
  then obtain e where e: "wire_step (as_engine s) e" "s' = s\<lparr>as_engine := e\<rparr>" using turn_wire [OF assms(1)] assms(2) by auto
  then show ?thesis using wire_step_frame [OF e(1)] mitigator_read_ledger by simp
qed

lemma finish_harmless:
  assumes "finish g s s'"
  shows "w_log (as_world s') = w_log (as_world s) \<and>
    map_option mg_ledger (en_mitigator (as_engine s')) = map_option mg_ledger (en_mitigator (as_engine s))"
  using assms by cases (auto simp: engine_aggregate_def engine_profilerGC_def)

text \<open>
  C8: Stopping is orderly: once the main goroutine has printed what is left in the ring buffer, the
  detector, the profiler, the alerter, the mitigator, the router, the rollback controller and the
  pipeline have all ended, and whatever runs on never touches a process or the ledger of mitigations.
\<close>

theorem flush_comes_last:
  assumes "life_reach cfg l" "lf_main l = Stopping don todo" "FlushBuffer \<in> set don" "life_step cfg l l'"
  shows "(\<forall>g \<in> lf_running l. owner g = None \<or> owner g = Some WGEngine) \<and>
    w_log (as_world (lf_agent l')) = w_log (as_world (lf_agent l)) \<and>
    map_option mg_ledger (en_mitigator (as_engine (lf_agent l'))) = map_option mg_ledger (en_mitigator (as_engine (lf_agent l)))"
proof -
  have r: "owner g = None \<or> owner g = Some WGEngine" if "g \<in> lf_running l" for g
    using after_flush [OF life_reach_inv [OF assms(1)] assms(2,3) that] .
  from assms(4) have "w_log (as_world (lf_agent l')) = w_log (as_world (lf_agent l)) \<and>
    map_option mg_ledger (en_mitigator (as_engine (lf_agent l'))) = map_option mg_ledger (en_mitigator (as_engine (lf_agent l)))"
  proof cases
    case (life_turn g s)
    have "g \<notin> {GMitigator, GRollback, GReconcile}" using r [OF life_turn(2)] by auto
    then show ?thesis using turn_harmless [OF life_turn(3)] life_turn(1) by simp
  next
    case (life_exit g s)
    then show ?thesis using finish_harmless [OF life_exit(5)] by simp
  next
    case (life_main don a todo l1)
    then show ?thesis
      by (auto simp: perform_def stop_metrics_def flushRingBuffer_def split: stop_action.splits if_splits option.splits)
  qed simp_all
  then show ?thesis using r by blast
qed

section \<open>What the streamer leaves\<close>

lemma engine_poll_streamer:
  "engine_poll ord encode x e = Some e' \<Longrightarrow> pp_streamer (en_pipeline e') = pp_streamer (en_pipeline e)"
  by (auto simp: engine_poll_def Let_def split: option.splits)

lemma route_snapshot_streamer:
  assumes "route_snapshot ri snap e = Some e'"
  shows "en_pipeline e' = en_pipeline e"
proof -
  obtain p d m where "e' = e\<lparr>en_profiler := p, en_detector := d, en_metrics := Some m\<rparr>" using route_snapshot_effect [OF assms] by blast
  then show ?thesis by simp
qed

lemma push_event_streamer: "push_event marshal evt e = Some e' \<Longrightarrow> pp_streamer (en_pipeline e') = pp_streamer (en_pipeline e)"
  by (auto simp: push_event_def split: option.splits)

lemma wire_step_streamer:
  assumes "wire_step e e'"
  shows "pp_streamer (en_pipeline e') = pp_streamer (en_pipeline e)"
  using assms
proof cases
  case (step_poll ord encode x)
  then show ?thesis by (rule engine_poll_streamer)
next
  case (step_route decode ri)
  then show ?thesis by (auto simp: dataRouter_step_def Let_def dest: route_snapshot_streamer split: list.splits option.splits)
next
  case (step_mitigateEvent marshal_m)
  then show ?thesis by (auto simp: mitigateEventLogger_step_def dest: push_event_streamer split: option.splits list.splits)
next
  case (step_routerEvent marshal_r)
  then show ?thesis by (auto simp: routerEventLogger_step_def dest: push_event_streamer split: option.splits list.splits)
next
  case (step_policyEvent marshal_p)
  then show ?thesis by (auto simp: policyEventLogger_step_def dest: push_event_streamer split: list.splits)
next
  case (step_rollbackEvent marshal_s)
  then show ?thesis by (auto simp: rollbackEventLogger_step_def dest: push_event_streamer split: option.splits list.splits)
qed (auto simp: engine_aggregate_def pipeline_aggregate_def engine_exchange_def engine_detectorAlert_def engine_profilerAlert_def
      engine_fanOut_def with_ringbuf_def routerAlertBridge_step_def stop_metrics_def flushRingBuffer_def Let_def
      split: option.splits list.splits if_splits)

lemma agent_step_streamer: "agent_step s s' \<Longrightarrow> pp_streamer (en_pipeline (as_engine s')) = pp_streamer (en_pipeline (as_engine s))"
proof (induction rule: agent_step.induct)
  case (agent_wire s e)
  then show ?case using wire_step_streamer by simp
qed (auto simp: engine_handleAlert_def engine_mitigate_def engine_sweep_def engine_analysis_def engine_profilerGC_def
      engine_checkExpired_def engine_reconcile_def split: option.splits list.splits prod.splits)

lemma NewEngine_cfg: "NewEngine pt cfg now = Some e \<Longrightarrow> en_cfg e = cfg"
  by (auto simp: NewEngine_def Let_def split: option.splits if_splits)

lemma agent_reach_streamer:
  "agent_reach cfg s \<Longrightarrow>
   \<exists>token. pp_streamer (en_pipeline (as_engine s)) = Some ((NewStreamer '''' token)\<lparr>st_endpoint := cf_UpstreamEndpoint cfg\<rparr>)"
proof (induction rule: agent_reach.induct)
  case (agent_start pt now e attached gpuErr e' h)
  then show ?case
    using NewEngine_cfg by (auto simp: engine_Start_def Let_def pipeline_Start_def SetUpstreamEndpoint_def split: if_splits)
next
  case (agent_next s s')
  then show ?case using agent_step_streamer by simp
qed

text \<open>Every goroutine but that of the proxy can end as soon as its context is cancelled.\<close>

lemma finish_enabled:
  assumes "agent_reach cfg s" "g \<in> started cfg"
  shows "\<exists>s'. finish g s s'"
proof -
  have inv: "engine_inv cfg (as_engine s)" by (rule engine_reach_inv [OF agent_reach_engine [OF assms(1)]])
  consider "g = GAggregator" | "g = GStreamer" | "g = GDetectorGC" | "g = GProfilerGC"
    | "g \<notin> {GAggregator, GStreamer, GDetectorGC, GProfilerGC}" by blast
  then show ?thesis
  proof cases
    case 1
    have "engine_aggregate (\<lambda>x. x) (\<lambda>_. None) (\<lambda>_. None) (as_engine s) \<noteq> None"
      using pipeline_aggregate_inv [of "en_pipeline (as_engine s)" "\<lambda>x. x" "\<lambda>_. None" "\<lambda>_. None"] inv
      by (auto simp: engine_aggregate_def engine_inv_def)
    with 1 show ?thesis by (blast intro: finish_aggregator)
  next
    case 2
    obtain st where st: "pp_streamer (en_pipeline (as_engine s)) = Some st" using agent_reach_streamer [OF assms(1)] by blast
    obtain sent rb where "flushRemaining st (\<lambda>_ _. no_http) 0 (pp_RingBuf (en_pipeline (as_engine s))) = Some (sent, rb)"
      using flushRemaining_total inv by (metis engine_inv_def pipeline_invD)
    with 2 st show ?thesis by (blast intro: finish_waiting)
  next
    case 3
    then have "cf_DetectorEnabled cfg" using assms(2) by (auto simp: started_def split: if_splits)
    then obtain d where "en_detector (as_engine s) = Some d" using inv by (auto simp: engine_inv_def split: option.splits)
    with 3 show ?thesis using finish_detectorGC [OF _ sorted_keys.map_range_axioms] by blast
  next
    case 4
    then show ?thesis using finish_profilerGC [OF sorted_keys.map_range_axioms] by blast
  next
    case 5
    then show ?thesis by (blast intro: finish_other)
  qed
qed

text \<open>A flush in which every request fails gives up the first batch.\<close>

lemma flush_cancelled:
  assumes "rb_inv rb" "st_endpoint st \<noteq> ''''" "flushRemaining st (\<lambda>_ _. no_http) r rb = Some (sent, rb')"
  shows "rb_entries rb' = drop (drain_count (st_batchSize st)) (rb_entries rb)"
proof -
  obtain rb1 where d: "Drain rb (st_batchSize st) = Some (take (drain_count (st_batchSize st)) (rb_entries rb), rb1)"
    "rb_entries rb1 = drop (drain_count (st_batchSize st)) (rb_entries rb)"
    using Drain_spec [OF assms(1), of "st_batchSize st"] by blast
  have "rb' = rb1"
  proof (cases "take (drain_count (st_batchSize st)) (rb_entries rb)")
    case Nil
    then show ?thesis using assms(3) d(1) by (simp add: flushRemaining.simps [of st _ r rb])
  next
    case (Cons p ps)
    then show ?thesis using assms(2,3) d(1) by (simp add: flushRemaining.simps [of st _ r rb] sendOne_def no_http_def)
  qed
  with d(2) show ?thesis by simp
qed

text \<open>An iteration in which every request fails only rotates the buffer.\<close>

lemma iteration_cancelled:
  assumes "rb_inv rb" "st_endpoint st \<noteq> ''''" "run_iteration st (\<lambda>_. no_http) backoff rb = Some (backoff', rb', waits)"
  shows "rb_inv rb' \<and> rb_entries rb' =
    drop (drain_count (st_batchSize st)) (rb_entries rb) @ take (drain_count (st_batchSize st)) (rb_entries rb)"
proof (cases "Len rb = 0")
  case True
  then have "rb_entries rb = []" using assms(1) by (simp add: rb_inv_def Len_def)
  then show ?thesis using assms(1,3) True by (simp add: run_iteration_def)
next
  case False
  obtain sent errored rb1 where b: "sendBatch st (\<lambda>_. no_http) rb = Some (sent, errored, rb1)" "rb_inv rb1"
    "prefix sent (take (drain_count (st_batchSize st)) (rb_entries rb))"
    "rb_entries rb1 = drop (drain_count (st_batchSize st)) (rb_entries rb) @ drop (length sent) (take (drain_count (st_batchSize st)) (rb_entries rb))"
    "\<forall>j < length sent. sendOne st no_http = None"
    using sendBatch_result [OF assms(1), of st "\<lambda>_. no_http"] by blast
  have "sent = []" using b(5) assms(2) by (cases sent) (auto simp: sendOne_def no_http_def)
  moreover have "rb' = rb1" using assms(3) b(1) False by (simp add: run_iteration_def Let_def split: if_splits)
  ultimately show ?thesis using b by simp
qed

text \<open>
  C34: When the streamer ends, it gives up to a batch away: with an upstream address, its last requests
  are made with the cancelled context, none of them reaches anyone, and up to a hundred payloads of
  the ring buffer are gone, which the engine does not print either.
\<close>

theorem streamer_end_loses_batch:
  assumes "agent_reach cfg s" "cf_UpstreamEndpoint cfg \<noteq> ''''" "finish GStreamer s s'"
  shows "length (rb_entries (pp_RingBuf (en_pipeline (as_engine s')))) = length (rb_entries (pp_RingBuf (en_pipeline (as_engine s)))) - 100 \<and>
    set (rb_entries (pp_RingBuf (en_pipeline (as_engine s')))) \<subseteq> set (rb_entries (pp_RingBuf (en_pipeline (as_engine s))))"
proof -
  let ?rb = "pp_RingBuf (en_pipeline (as_engine s))"
  have inv: "rb_inv ?rb"
    using engine_reach_inv [OF agent_reach_engine [OF assms(1)]] by (auto simp: engine_inv_def pipeline_inv_def)
  have n: "drain_count 100 = 100" by (simp add: drain_count_def)
  obtain token where st: "pp_streamer (en_pipeline (as_engine s)) = Some ((NewStreamer '''' token)\<lparr>st_endpoint := cf_UpstreamEndpoint cfg\<rparr>)"
    using agent_reach_streamer [OF assms(1)] by blast
  from assms(3) show ?thesis
  proof cases
    case (finish_waiting st' sent rb)
    then have e: "st_endpoint st' \<noteq> ''''" "st_batchSize st' = 100" using st assms(2) by (auto simp: NewStreamer_def)
    have "rb_entries rb = drop 100 (rb_entries ?rb)" using flush_cancelled [OF inv e(1) finish_waiting(3)] e(2) n by simp
    then show ?thesis using finish_waiting(1) set_drop_subset by simp
  next
    case (finish_sending st' backoff backoff' rb1 waits sent rb)
    then have e: "st_endpoint st' \<noteq> ''''" "st_batchSize st' = 100" using st assms(2) by (auto simp: NewStreamer_def)
    have i: "rb_inv rb1" "rb_entries rb1 = drop 100 (rb_entries ?rb) @ take 100 (rb_entries ?rb)"
      using iteration_cancelled [OF inv e(1) finish_sending(3)] e(2) n by simp_all
    have "rb_entries rb = drop 100 (rb_entries rb1)" using flush_cancelled [OF i(1) e(1) finish_sending(5)] e(2) n by simp
    moreover have "set (rb_entries rb1) = set (rb_entries ?rb)" unfolding i(2) by (metis append_take_drop_id set_append Un_commute)
    ultimately show ?thesis using finish_sending(1) i(2) set_drop_subset [of 100 "rb_entries rb1"] by simp
  qed simp
qed

section \<open>Whether stopping ends\<close>

text \<open>The main goroutine has tried to close the proxy before there was a server.\<close>

definition hangs :: "Lifecycle \<Rightarrow> bool" where
  "hangs l \<longleftrightarrow> GProxy \<in> lf_running l \<and> lf_proxy l = Listening \<and>
     (\<exists>don todo. lf_main l = Stopping don todo \<and> CloseProxy \<notin> set todo)"

definition has_stopped :: "Lifecycle \<Rightarrow> bool" where
  "has_stopped l \<longleftrightarrow> (\<exists>don. lf_main l = Stopping don [])"

definition stop_rank :: "Config \<Rightarrow> Lifecycle \<Rightarrow> nat" where
  "stop_rank cfg l = card (lf_running l) +
     (case lf_main l of Serving \<Rightarrow> Suc (length (stop_script cfg)) | Stopping don todo \<Rightarrow> length todo)"

lemma engine_await_last:
  assumes "don @ AwaitGroup WGEngine # todo = stop_script cfg"
  shows "todo = []"
proof (rule ccontr)
  assume "todo \<noteq> []"
  then have b: "butlast (don @ AwaitGroup WGEngine # todo) = don @ AwaitGroup WGEngine # butlast todo" by (simp add: butlast_append)
  have "AwaitGroup WGEngine \<notin> set (butlast (stop_script cfg))"
    by (auto simp: stop_script_def awaited_def butlast_append)
  then show False unfolding assms [symmetric] b by simp
qed

lemma flush_prints:
  assumes "life_reach cfg l"
  shows "flushRingBuffer (as_engine (lf_agent l)) \<noteq> None"
proof -
  have "engine_inv cfg (as_engine (lf_agent l))"
    by (rule engine_reach_inv [OF agent_reach_engine [OF life_reach_agent [OF assms]]])
  then show ?thesis
    using Drain_spec [of "pp_RingBuf (en_pipeline (as_engine (lf_agent l)))" 10000]
    by (auto simp: flushRingBuffer_def engine_inv_def pipeline_inv_def)
qed

text \<open>A goroutine that can end makes the rank smaller.\<close>

lemma exit_progress:
  assumes "life_reach cfg l" "g \<in> lf_running l" "\<not> hangs l"
    and "if g = GProxy then lf_proxy l \<noteq> Listening else lf_cancelled l"
  shows "\<exists>l'. life_step cfg l l' \<and> \<not> hangs l' \<and> stop_rank cfg l' < stop_rank cfg l"
proof -
  have inv: "life_inv cfg l" by (rule life_reach_inv [OF assms(1)])
  have c: "card (lf_running l - {g}) < card (lf_running l)" by (rule card_Diff1_less [OF running_finite [OF inv] assms(2)])
  show ?thesis
  proof (cases "g = GProxy")
    case True
    then show ?thesis
      using life_proxy_exit [of l cfg] assms(2,4) c
      by (intro exI [of _ "l\<lparr>lf_running := lf_running l - {GProxy}\<rparr>"]) (simp add: hangs_def stop_rank_def)
  next
    case False
    have "g \<in> started cfg" using inv assms(2) by (auto simp: life_inv_def)
    then obtain s where "finish g (lf_agent l) s" using finish_enabled life_reach_agent [OF assms(1)] by blast
    then show ?thesis
      using life_exit [of g l s cfg] assms(2-4) False c
      by (intro exI [of _ "l\<lparr>lf_agent := s, lf_running := lf_running l - {g}\<rparr>"]) (auto simp: hangs_def stop_rank_def)
  qed
qed

lemma life_progress:
  assumes "life_reach cfg l" "\<not> hangs l" "\<not> has_stopped l"
  shows "\<exists>l'. life_step cfg l l' \<and> \<not> hangs l' \<and> stop_rank cfg l' < stop_rank cfg l"
proof (cases "lf_main l")
  case Serving
  show ?thesis
  proof (cases "GProxy \<in> lf_running l \<and> lf_proxy l = Listening \<and> CloseProxy \<notin> set (stop_script cfg)")
    case True
    then have "cf_ProxyEnabled cfg" using life_reach_inv [OF assms(1)] by (auto simp: life_inv_def started_def split: if_splits)
    then show ?thesis using True by (simp add: stop_script_def)
  next
    case False
    then show ?thesis
      using life_signal [OF Serving, of cfg] Serving
      by (intro exI [of _ "l\<lparr>lf_main := Stopping [] (stop_script cfg)\<rparr>"]) (auto simp: hangs_def stop_rank_def)
  qed
next
  case (Stopping don todo)
  then obtain a rest where todo: "todo = a # rest" using assms(3) by (cases todo) (auto simp: has_stopped_def)
  have script: "don @ a # rest = stop_script cfg" and cancelled: "CancelAll \<in> set don \<longrightarrow> lf_cancelled l"
    using life_reach_inv [OF assms(1)] Stopping todo by (auto simp: life_inv_def)
  show ?thesis
  proof (cases "perform a l")
    case (Some l1)
    note f = perform_frame [OF Some]
    have "lf_proxy l1 = (if a = CloseProxy \<and> lf_proxy l = Listening then ServerClosed else lf_proxy l)"
      using Some by (auto simp: perform_def split: stop_action.splits if_splits)
    then have "\<not> hangs (l1\<lparr>lf_main := Stopping (don @ [a]) rest\<rparr>)"
      using assms(2) Stopping todo f(1) by (auto simp: hangs_def split: if_splits)
    moreover have "stop_rank cfg (l1\<lparr>lf_main := Stopping (don @ [a]) rest\<rparr>) < stop_rank cfg l"
      using Stopping todo f(1) by (simp add: stop_rank_def)
    ultimately show ?thesis using life_main [of l don a rest l1 cfg] Stopping todo Some by blast
  next
    case None
    then obtain wg g where g: "a = AwaitGroup wg" "g \<in> lf_running l" "owner g = Some wg"
      using flush_prints [OF assms(1)] by (auto simp: perform_def split: stop_action.splits if_splits)
    have "lf_cancelled l" using await_cancelled script cancelled g(1) by blast
    moreover have "lf_proxy l \<noteq> Listening" if "g = GProxy"
    proof -
      have "wg = WGEngine" using g(3) that by simp
      then have "rest = []" using engine_await_last script g(1) by blast
      then show ?thesis using assms(2) Stopping todo g that by (auto simp: hangs_def)
    qed
    ultimately show ?thesis using exit_progress [OF assms(1) g(2) assms(2)] by simp
  qed
qed

lemma hangs_stays: "hangs l \<Longrightarrow> life_step cfg l l' \<Longrightarrow> hangs l'"
proof -
  assume h: "hangs l" and s: "life_step cfg l l'"
  obtain don todo where m: "lf_main l = Stopping don todo" "CloseProxy \<notin> set todo" using h by (auto simp: hangs_def)
  from s show ?thesis
  proof cases
    case (life_main don' a todo' l1)
    then have "lf_running l1 = lf_running l" "lf_proxy l1 = lf_proxy l"
      using m by (auto simp: perform_def split: stop_action.splits if_splits)
    then show ?thesis using life_main m h by (auto simp: hangs_def)
  qed (use h m in \<open>auto simp: hangs_def\<close>)
qed

lemma hangs_runs:
  assumes "life_reach cfg l" "hangs l"
  shows "\<not> has_stopped l"
proof
  assume "has_stopped l"
  then obtain don where "lf_main l = Stopping don []" by (auto simp: has_stopped_def)
  then have don: "don = stop_script cfg" and w: "\<forall>wg. AwaitGroup wg \<in> set don \<longrightarrow> (\<forall>g \<in> lf_running l. owner g \<noteq> Some wg)"
    using life_reach_inv [OF assms(1)] by (auto simp: life_inv_def)
  have "AwaitGroup WGEngine \<in> set don" unfolding don by (simp add: stop_script_def)
  then have "owner GProxy \<noteq> Some WGEngine" using w assms(2) unfolding hangs_def by blast
  then show False by simp
qed

interpretation agent_stop: stop_plan "life_step cfg" "life_reach cfg" hangs has_stopped "stop_rank cfg" for cfg
  by unfold_locales (use life_next hangs_stays hangs_runs life_progress in \<open>assumption | blast\<close>)+

text \<open>
  C7: Stopping ends, but for one race: from every reachable state there is a way to the end of \<open>Stop\<close>
  exactly when it has not tried to close the proxy before the proxy created its server. If it has,
  and the proxy then starts to listen, no schedule ever brings \<open>Stop\<close> to its end, since it waits for a
  server that nobody closes any more.
\<close>

theorem stop_returns_iff:
  assumes "life_reach cfg l"
  shows "(\<exists>l'. (life_step cfg)\<^sup>*\<^sup>* l l' \<and> has_stopped l') \<longleftrightarrow>
    \<not> (GProxy \<in> lf_running l \<and> lf_proxy l = Listening \<and> (\<exists>don todo. lf_main l = Stopping don todo \<and> CloseProxy \<notin> set todo))"
  using agent_stop.can_stop_iff [OF assms] by (simp only: hangs_def)

text \<open>An agent with the guard on: as long as it serves, it can be stopped.\<close>

lemma guard_serving: "\<exists>l. life_reach guard_cfg l \<and> lf_main l = Serving"
  using guard_engine life_start by (metis Lifecycle.select_convs(5))

theorem stop_returns_iff_witness: "\<exists>l l'. life_reach guard_cfg l \<and> (life_step guard_cfg)\<^sup>*\<^sup>* l l' \<and> has_stopped l'"
proof -
  obtain l where "life_reach guard_cfg l" "lf_main l = Serving" using guard_serving by blast
  with stop_returns_iff [of guard_cfg l] show ?thesis by auto
qed

theorem streamer_end_loses_batch_witness:
  "\<exists>s s'. agent_reach guard_cfg s \<and> finish GStreamer s s' \<and>
     length (rb_entries (pp_RingBuf (en_pipeline (as_engine s')))) = length (rb_entries (pp_RingBuf (en_pipeline (as_engine s)))) - 100"
proof -
  obtain s where s: "agent_reach guard_cfg s" using guard_started by blast
  obtain s' where s': "finish GStreamer s s'" using finish_enabled [OF s, of GStreamer] by (auto simp: started_def)
  have "cf_UpstreamEndpoint guard_cfg \<noteq> ''''" by (simp add: guard_cfg_def)
  from streamer_end_loses_batch [OF s this s'] s s' show ?thesis by blast
qed

theorem flush_comes_last_witness:
  "\<exists>l don. life_reach guard_cfg l \<and> lf_main l = Stopping don [] \<and> (\<forall>g \<in> lf_running l. owner g = None \<or> owner g = Some WGEngine)"
proof -
  obtain l where "life_reach guard_cfg l" "lf_main l = Serving" using guard_serving by blast
  then have "life_reach guard_cfg l" "\<not> hangs l" by (simp_all add: hangs_def)
  then obtain l' where l': "(life_step guard_cfg)\<^sup>*\<^sup>* l l'" "has_stopped l'" using agent_stop.can_stop by blast
  have r: "life_reach guard_cfg l'" using l'(1) \<open>life_reach guard_cfg l\<close> by (induction rule: rtranclp_induct) (auto intro: life_next)
  obtain don where don: "lf_main l' = Stopping don []" using l'(2) by (auto simp: has_stopped_def)
  then have "FlushBuffer \<in> set don" using life_reach_inv [OF r] by (auto simp: life_inv_def stop_script_def)
  from flush_comes_last [OF r don this life_host] r don show ?thesis by blast
qed

end
