(* ===== verification/Command.thy ===== *)
theory Command
  imports Shutdown
begin

text \<open>
  The command of the agent (\<open>src/cmd/agent/main.go\<close>): its arguments, what it reads before it starts,
  and the agent that it starts; the package \<open>flag\<close> is the part of Go's library that it uses.
\<close>

section \<open>Flags\<close>

text \<open>What \<open>Parse\<close> comes to for a set with the one flag \<open>config\<close>, which is a string.\<close>

datatype flags_result = FlagsOk gostring | FlagsHelp | FlagsBad

text \<open>The name and, after the first equality sign that is not in front, the value.\<close>

definition flag_split :: "gostring \<Rightarrow> gostring \<times> gostring option" where
  "flag_split s =
     (let name = hd s # takeWhile (\<lambda>c. c \<noteq> CHR ''='') (tl s)
      in (name, if length name < length s then Some (drop (Suc (length name)) s) else None))"

fun parse_flags :: "gostring list \<Rightarrow> gostring \<Rightarrow> flags_result" where
  "parse_flags [] config = FlagsOk config"
| "parse_flags (s # args) config =
     (if length s < 2 \<or> hd s \<noteq> CHR ''-'' then FlagsOk config
      else if s = ''--'' then FlagsOk config
      else (let name = (if s ! 1 = CHR ''-'' then drop 2 s else drop 1 s)
            in if name = '''' \<or> hd name = CHR ''-'' \<or> hd name = CHR ''='' then FlagsBad
               else (case flag_split name of (key, val) \<Rightarrow>
                       if key \<noteq> ''config'' then (if key = ''help'' \<or> key = ''h'' then FlagsHelp else FlagsBad)
                       else (case val of
                               Some v \<Rightarrow> parse_flags args v
                             | None \<Rightarrow> (case args of [] \<Rightarrow> FlagsBad | v # args \<Rightarrow> parse_flags args v)))))"

section \<open>The command\<close>

text \<open>
  How the command ends, with the status of the process, or that it runs. A panic is what the
  construction or the start of the engine comes to with a size or a period that Go refuses.
\<close>

datatype command_outcome =
    Usage int
  | UnknownSubcommand gostring
  | FlagExit int
  | LoadFailed config_error
  | Panics
  | Runs Config ProfilerEngine

definition exit_status :: "command_outcome \<Rightarrow> int option" where
  "exit_status r =
     (case r of Usage n \<Rightarrow> Some n | UnknownSubcommand _ \<Rightarrow> Some 1 | FlagExit n \<Rightarrow> Some n | LoadFailed _ \<Rightarrow> Some 1
      | Panics \<Rightarrow> Some 2 | Runs _ _ \<Rightarrow> None)"

record start_inputs =
  si_platform :: platform
  si_now :: time_ns
  si_attached :: bool
  si_gpuErr :: "gostring option"

definition setenv :: "load_inputs \<Rightarrow> gostring \<Rightarrow> gostring \<Rightarrow> load_inputs" where
  "setenv x name v = x\<lparr>li_Getenv := (li_Getenv x)(name := v)\<rparr>"

definition runCmd :: "gostring list \<Rightarrow> load_inputs \<Rightarrow> start_inputs \<Rightarrow> command_outcome" where
  "runCmd args x s =
     (case parse_flags args '''' of
        FlagsHelp \<Rightarrow> FlagExit 0
      | FlagsBad \<Rightarrow> FlagExit 2
      | FlagsOk configPath \<Rightarrow>
          (let x = (if configPath \<noteq> '''' then setenv x ''PROFILER_CONFIG'' configPath else x)
           in case Load x of
                Inl err \<Rightarrow> LoadFailed err
              | Inr cfg \<Rightarrow>
                  (case NewEngine (si_platform s) cfg (si_now s) of
                     None \<Rightarrow> Panics
                   | Some eng \<Rightarrow>
                       (case engine_Start eng (si_attached s) (si_gpuErr s) of
                          None \<Rightarrow> Panics
                        | Some eng \<Rightarrow> Runs cfg eng))))"

definition main_cmd :: "gostring list \<Rightarrow> load_inputs \<Rightarrow> start_inputs \<Rightarrow> command_outcome" where
  "main_cmd args x s =
     (case args of
        [] \<Rightarrow> Usage 0
      | sub # args \<Rightarrow>
          if sub = ''help'' \<or> sub = ''--help'' \<or> sub = ''-h'' then Usage 0
          else if sub = ''run'' then runCmd args x s
          else UnknownSubcommand sub)"

text \<open>The index page of the collector; every path that is not one of its own is not found.\<close>

definition collector_index :: "gostring \<Rightarrow> int \<times> bytes" where
  "collector_index path =
     (if path = ''/'' then
        (200, ''AI Compute Profiler Agent'' @ [CHR 0x0A] @ [CHR 0x0A] @ ''Endpoints:'' @ [CHR 0x0A] @
           ''  /metrics  - latest telemetry snapshot (JSON)'' @ [CHR 0x0A] @ ''  /health   - health check'' @ [CHR 0x0A])
      else (404, ''404 page not found'' @ [CHR 0x0A]))"

section \<open>What the command does\<close>

lemma parse_config_flag: "parse_flags (''-config'' # p # args) c = parse_flags args p"
  by (simp add: flag_split_def)

lemma runCmd_runs:
  assumes "runCmd args x s = Runs cfg eng"
  shows "\<exists>p x' e. parse_flags args '''' = FlagsOk p \<and> x' = (if p = '''' then x else setenv x ''PROFILER_CONFIG'' p) \<and>
    Load x' = Inr cfg \<and> NewEngine (si_platform s) cfg (si_now s) = Some e \<and> engine_Start e (si_attached s) (si_gpuErr s) = Some eng"
  using assms by (auto simp: runCmd_def Let_def split: flags_result.splits sum.splits option.splits if_splits)

lemma engine_Start_period: "engine_Start e attached gpuErr = Some e' \<Longrightarrow> 0 < co_pollInterval (en_collector e)"
  by (auto simp: engine_Start_def Let_def collector_ticker_def run_setup_def split: if_splits)

lemma NewEngine_period: "NewEngine pt cfg now = Some e \<Longrightarrow> co_pollInterval (en_collector e) = cf_PollInterval cfg"
  by (auto simp: NewEngine_def Let_def NewCollector_def split: option.splits if_splits)


definition sample_start :: start_inputs where
  "sample_start = \<lparr>si_platform = \<lparr>pt_bpf = True, pt_gpu = False\<rparr>, si_now = 7, si_attached = False, si_gpuErr = None\<rparr>"


end
