(* ===== verification/AlertPath.thy ===== *)
theory AlertPath
  imports System
begin

text \<open>
  The way of an alert through the agent: from the channel of the detector
  (\<open>src/internal/analytics/detector\<close>) over the multiplexer and its subscribers
  (\<open>src/internal/proxy/alerter\<close>) to the mitigator and the host (\<open>src/internal/proxy/mitigator\<close>),
  as the engine connects them.
\<close>

section \<open>From the multiplexer to the host\<close>

text \<open>The multiplexer takes an alert that is not suppressed.\<close>

lemma multiplex_forwards:
  assumes "en_detector e = Some d" "dt_alerts d = a # rest" "alerter_inv (en_alerter e)" "mx_internal (en_alerter e) = []"
    and "\<not> suppressed (en_alerter e) (fromDetectorAlert a)"
  shows "\<exists>d' am. engine_detectorAlert buf e = e\<lparr>en_detector := d', en_alerter := am\<rparr> \<and> mx_subs am = mx_subs (en_alerter e) \<and>
    mx_internal am = [forwarded (en_alerter e) (fromDetectorAlert a) buf] \<and> mx_capacity am = 256"
proof -
  have "mx_capacity (en_alerter e) = 256" using assms(3) by (simp add: alerter_inv_def mx_capacity_def)
  then show ?thesis
    using assms
    by (intro exI [of _ "Some (d\<lparr>dt_alerts := rest\<rparr>)"] exI [of _ "route (en_alerter e) (fromDetectorAlert a) buf"])
      (simp add: engine_detectorAlert_def multiplex_detector_def route_forward mx_enqueue_def mx_capacity_def)
qed

text \<open>A fan-out loop hands it to the mitigator, which subscribed first.\<close>

lemma fanOut_to_mitigator:
  assumes "mx_internal (en_alerter e) = [al]" "mx_subs (en_alerter e) = [] # subs" "mx_capacity (en_alerter e) = 256"
    and "rb_inv (pp_RingBuf (en_pipeline e))"
  shows "\<exists>p am subs'. engine_fanOut marshal e = Some (e\<lparr>en_alerter := am, en_pipeline := p\<rparr>) \<and> mx_subs am = [al] # subs'"
proof (cases "marshal al")
  case None
  let ?am = "dispatchToSubscribers ((en_alerter e)\<lparr>mx_ringBuf := Some (pp_RingBuf (en_pipeline e)), mx_internal := []\<rparr>) al"
  show ?thesis
    using assms None
    by (intro exI [of _ "en_pipeline e"] exI [of _ ?am])
      (simp add: engine_fanOut_def fanOut_step_def writeConsole_def writeRingBuf_def dispatchToSubscribers_def
        with_ringbuf_def mx_capacity_def)
next
  case (Some data)
  obtain rb where rb: "Push (pp_RingBuf (en_pipeline e)) data = Some rb" using Push_inv [OF assms(4)] by blast
  let ?am = "dispatchToSubscribers ((en_alerter e)\<lparr>mx_ringBuf := Some rb, mx_internal := [], mx_console := mx_console (en_alerter e) @ [al]\<rparr>) al"
  show ?thesis
    using assms Some rb
    by (intro exI [of _ "(en_pipeline e)\<lparr>pp_RingBuf := rb\<rparr>"] exI [of _ ?am])
      (simp add: engine_fanOut_def fanOut_step_def writeConsole_def writeRingBuf_def dispatchToSubscribers_def
        with_ringbuf_def mx_capacity_def)
qed

lemma forwarded_intent: "alert_intent m h (forwarded am al buf) = alert_intent m h al" "mit_target m h (forwarded am al buf) = mit_target m h al"
  by (simp_all add: alert_intent_def mit_target_def forwarded_def)

text \<open>The record that the action of the mitigator leaves in the ledger of the policy engine.\<close>

definition stop_record :: "PolicyEngine \<Rightarrow> gostring \<Rightarrow> int \<Rightarrow> MitigationStatus \<Rightarrow> bool" where
  "stop_record pol tx pid st \<longleftrightarrow> (\<exists>rec. tl_records (pe_ledger pol) tx = Some rec \<and> mr_TargetPID rec = pid \<and>
     mr_ActionType rec = ActionSIGSTOP \<and> mr_Status rec = st)"

lemma stop_record_status: "stop_record pol tx pid st \<Longrightarrow> policy_status pol tx = Some st"
  by (auto simp: stop_record_def policy_status_def)

lemma settle_record:
  "tl_records (pe_ledger e) tx = Some rec \<Longrightarrow>
   \<exists>rec'. tl_records (pe_ledger (policy_gate.settle e tx r)) tx = Some rec' \<and> mr_TargetPID rec' = mr_TargetPID rec \<and>
     mr_ActionType rec' = mr_ActionType rec"
  by (cases r) (simp_all add: policy_gate.settle_def ConfirmExecution_def Reject_def UpdateStatus_lookup)

lemma mitigate_record:
  assumes "mitigateFromAlert (Some e) m w alert x = (pe', m', w')"
    and "decision e (alert_intent m (w_host w) alert) (ai_eval x)" "ti_ContainerID (mit_target m (w_host w) alert) = ''''"
    and "enforce (mg_cm m) w (ap_TargetPID (ca_Payload alert)) (ti_ContainerID (mit_target m (w_host w) alert)) = ((mech, sent, err), cm, w'')"
  shows "\<exists>e'. pe' = Some e' \<and> stop_record e' (generateTxID (ei_buf (ai_eval x))) (ap_TargetPID (ca_Payload alert))
    (if err = None then StatusExecuted else StatusRejected)"
proof -
  let ?i = "alert_intent m (w_host w) alert" and ?tx = "generateTxID (ei_buf (ai_eval x))"
  obtain e' where e': "pe' = Some e'" "policy_status e' ?tx = Some (if err = None then StatusExecuted else StatusRejected)"
    using mitigate_policy_status [OF assms(1,2,4)] by blast
  obtain rec where rec: "tl_records (pe_ledger (snd (EvaluateAndRegister e ?i (ai_eval x)))) ?tx = Some rec"
    "mr_TargetPID rec = mi_TargetPID ?i" "mr_ActionType rec = mi_ActionType ?i"
    using EvaluateAndRegister_record [of e ?i "ai_eval x"] by auto
  have "e' = policy_gate.settle (snd (EvaluateAndRegister e ?i (ai_eval x))) ?tx (map_option error_text err)"
    using mitigate_authorized [OF assms(2,4)] assms(1) e'(1) by simp
  moreover have "mi_ActionType ?i = ActionSIGSTOP" using assms(3) by (simp add: alert_intent_def mit_intent_def Let_def)
  ultimately show ?thesis
    using settle_record [OF rec(1), of "map_option error_text err"] rec(2,3) e' by (auto simp: stop_record_def policy_status_def)
qed

text \<open>The mitigator asks the policy engine and stops a process that is in no container.\<close>

lemma mitigator_stops:
  fixes x :: act_inputs
  assumes "decision pol (alert_intent m (w_host w) al) (ai_eval x)" "ti_ContainerID (mit_target m (w_host w) al) = ''''"
  shows "\<exists>pol' m' w' ok. mitigateFromAlert (Some pol) m w al x = (Some pol', m', w') \<and>
    w_log w' = w_log w @ [(SendSignal SIGSTOP (ap_TargetPID (ca_Payload al)), ok)] \<and>
    (ok \<longleftrightarrow> h_signal (w_host w) SIGSTOP (ap_TargetPID (ca_Payload al)) = SignalDelivered) \<and>
    stop_record pol' (generateTxID (ei_buf (ai_eval x))) (ap_TargetPID (ca_Payload al)) (if ok then StatusExecuted else StatusRejected)"
proof -
  let ?pid = "ap_TargetPID (ca_Payload al)"
  obtain err w1 where f: "FreezeProcess w ?pid = (err, w1)" by fastforce
  then have en: "enforce (mg_cm m) w ?pid (ti_ContainerID (mit_target m (w_host w) al)) =
      ((MechanismSignalStop, ''SIGSTOP'', err), mg_cm m, w1)"
    using assms(2) by (simp add: enforce_def)
  obtain pe m' w' where r: "mitigateFromAlert (Some pol) m w al x = (pe, m', w')" by (metis prod.collapse)
  obtain pol' where pol': "pe = Some pol'"
    "stop_record pol' (generateTxID (ei_buf (ai_eval x))) ?pid (if err = None then StatusExecuted else StatusRejected)"
    using mitigate_record [OF r assms(1,2) en] by blast
  have "w' = w1" using mitigate_authorized [OF assms(1) en] r by simp
  then have r': "mitigateFromAlert (Some pol) m w al x = (Some pol', m', w1)" using r pol'(1) by simp
  have ok: "err = None \<longleftrightarrow> h_signal (w_host w) SIGSTOP ?pid = SignalDelivered"
    using f by (auto simp: FreezeProcess_def signal_process_def deliver_def Let_def split: signal_result.splits errno.splits)
  have "w_log w1 = w_log w @ [(SendSignal SIGSTOP ?pid, err = None)]" using FreezeProcess_result [OF f] by blast
  with r' ok pol'(2) show ?thesis by blast
qed

text \<open>The two turns after which the alert is the first thing that the mitigator reads.\<close>

lemma alert_delivered:
  assumes "agent_reach cfg s" "en_detector (as_engine s) = Some d" "dt_alerts d = a # rest"
    and "mx_internal (en_alerter (as_engine s)) = []" "mx_subs (en_alerter (as_engine s)) = [] # subs"
    and "\<not> suppressed (en_alerter (as_engine s)) (fromDetectorAlert a)"
  shows "\<exists>e subs'. agent_step\<^sup>*\<^sup>* s (s\<lparr>as_engine := e\<rparr>) \<and> en_policy e = en_policy (as_engine s) \<and> en_mitigator e = en_mitigator (as_engine s) \<and>
    mx_subs (en_alerter e) = [forwarded (en_alerter (as_engine s)) (fromDetectorAlert a) []] # subs'"
proof -
  let ?al = "forwarded (en_alerter (as_engine s)) (fromDetectorAlert a) []"
  have inv: "engine_inv cfg (as_engine s)" by (rule engine_reach_inv [OF agent_reach_engine [OF assms(1)]])
  then have am: "alerter_inv (en_alerter (as_engine s))" "rb_inv (pp_RingBuf (en_pipeline (as_engine s)))"
    by (simp_all add: engine_inv_def pipeline_inv_def)
  obtain d' am1 where e1: "engine_detectorAlert [] (as_engine s) = (as_engine s)\<lparr>en_detector := d', en_alerter := am1\<rparr>"
    "mx_subs am1 = [] # subs" "mx_internal am1 = [?al]" "mx_capacity am1 = 256"
    using multiplex_forwards [OF assms(2,3) am(1) assms(4,6)] assms(5) by metis
  let ?e1 = "(as_engine s)\<lparr>en_detector := d', en_alerter := am1\<rparr>"
  obtain p am2 subs' where e2: "engine_fanOut (\<lambda>_. None) ?e1 = Some (?e1\<lparr>en_alerter := am2, en_pipeline := p\<rparr>)"
    "mx_subs am2 = [?al] # subs'"
    using fanOut_to_mitigator [of ?e1 ?al subs "\<lambda>_. None"] e1(2-4) am(2) by auto
  let ?e2 = "?e1\<lparr>en_alerter := am2, en_pipeline := p\<rparr>"
  have "agent_step s (s\<lparr>as_engine := ?e1\<rparr>)" using agent_wire [OF step_detectorAlert [of "as_engine s" "[]"]] e1(1) by simp
  moreover have "agent_step (s\<lparr>as_engine := ?e1\<rparr>) (s\<lparr>as_engine := ?e2\<rparr>)"
    using agent_wire [of "s\<lparr>as_engine := ?e1\<rparr>" ?e2] step_fanOut [OF e2(1)] by simp
  ultimately have "agent_step\<^sup>*\<^sup>* s (s\<lparr>as_engine := ?e2\<rparr>)" by (auto intro: converse_rtranclp_into_rtranclp)
  then show ?thesis using e2(2) by (intro exI [of _ ?e2] exI [of _ subs']) simp
qed

text \<open>The turn of the mitigator.\<close>

lemma alert_acted:
  fixes x :: act_inputs
  assumes "en_mitigator (as_engine s) = Some m" "mx_subs (en_alerter (as_engine s)) = [al] # subs"
    and "decision (en_policy (as_engine s)) (alert_intent m (w_host (as_world s)) al) (ai_eval x)"
    and "ti_ContainerID (mit_target m (w_host (as_world s)) al) = ''''"
    and "as_now s \<le> ei_th (ai_eval x)" "ei_th (ai_eval x) \<le> ei_tr (ai_eval x)" "unused_tx (ai_eval x) (as_engine s)"
  shows "\<exists>s' ok. agent_step s s' \<and> w_log (as_world s') = w_log (as_world s) @ [(SendSignal SIGSTOP (ap_TargetPID (ca_Payload al)), ok)] \<and>
    (ok \<longleftrightarrow> h_signal (w_host (as_world s)) SIGSTOP (ap_TargetPID (ca_Payload al)) = SignalDelivered) \<and>
    stop_record (en_policy (as_engine s')) (generateTxID (ei_buf (ai_eval x))) (ap_TargetPID (ca_Payload al))
      (if ok then StatusExecuted else StatusRejected)"
proof -
  obtain pol' m' w' ok where mit: "mitigateFromAlert (Some (en_policy (as_engine s))) m (as_world s) al x = (Some pol', m', w')"
    "w_log w' = w_log (as_world s) @ [(SendSignal SIGSTOP (ap_TargetPID (ca_Payload al)), ok)]"
    "ok \<longleftrightarrow> h_signal (w_host (as_world s)) SIGSTOP (ap_TargetPID (ca_Payload al)) = SignalDelivered"
    "stop_record pol' (generateTxID (ei_buf (ai_eval x))) (ap_TargetPID (ca_Payload al)) (if ok then StatusExecuted else StatusRejected)"
    using mitigator_stops [OF assms(3,4)] by blast
  let ?e = "(as_engine s)\<lparr>en_alerter := (en_alerter (as_engine s))\<lparr>mx_subs := [] # subs\<rparr>, en_mitigator := Some m', en_policy := pol'\<rparr>"
  have "engine_mitigate x (as_engine s) (as_world s) = (?e, w')" using mit(1) assms(1,2) by (simp add: engine_mitigate_def)
  from agent_mitigate [OF assms(5-7) this] mit(2-4) show ?thesis
    by (intro exI [of _ "s\<lparr>as_engine := ?e, as_world := w', as_now := ei_tr (ai_eval x)\<rparr>"] exI [of _ ok]) simp
qed

text \<open>
  C5: An alert reaches the host: when the detector has an alert that is not suppressed, nothing waits
  in front of it, the policy permits the action and the process is in no container, then three turns
  of the goroutines lead to a state in which exactly one more thing has been attempted on the host, a
  stop signal to that process, and the transaction of that stop is EXECUTED or REJECTED as the kernel
  accepted the signal or not.
\<close>

theorem alert_reaches_host:
  fixes x :: act_inputs
  assumes "agent_reach cfg s" "en_detector (as_engine s) = Some d" "dt_alerts d = a # rest" "en_mitigator (as_engine s) = Some m"
    and "mx_internal (en_alerter (as_engine s)) = []" "mx_subs (en_alerter (as_engine s)) = [] # subs"
    and "\<not> suppressed (en_alerter (as_engine s)) (fromDetectorAlert a)"
    and "decision (en_policy (as_engine s)) (alert_intent m (w_host (as_world s)) (fromDetectorAlert a)) (ai_eval x)"
    and "ti_ContainerID (mit_target m (w_host (as_world s)) (fromDetectorAlert a)) = ''''"
    and "as_now s \<le> ei_th (ai_eval x)" "ei_th (ai_eval x) \<le> ei_tr (ai_eval x)" "unused_tx (ai_eval x) (as_engine s)"
  shows "\<exists>s' ok. agent_step\<^sup>*\<^sup>* s s' \<and>
    w_log (as_world s') = w_log (as_world s) @ [(SendSignal SIGSTOP (as_TargetPID (al_Summary a)), ok)] \<and>
    (ok \<longleftrightarrow> h_signal (w_host (as_world s)) SIGSTOP (as_TargetPID (al_Summary a)) = SignalDelivered) \<and>
    stop_record (en_policy (as_engine s')) (generateTxID (ei_buf (ai_eval x))) (as_TargetPID (al_Summary a))
      (if ok then StatusExecuted else StatusRejected)"
proof -
  let ?al = "forwarded (en_alerter (as_engine s)) (fromDetectorAlert a) []"
  have pid: "ap_TargetPID (ca_Payload ?al) = as_TargetPID (al_Summary a)" by (simp add: forwarded_def fromDetectorAlert_def)
  obtain e subs' where e: "agent_step\<^sup>*\<^sup>* s (s\<lparr>as_engine := e\<rparr>)" "en_policy e = en_policy (as_engine s)"
    "en_mitigator e = Some m" "mx_subs (en_alerter e) = [?al] # subs'"
    using alert_delivered [OF assms(1-3,5-7)] assms(4) by metis
  have "\<exists>s' ok. agent_step (s\<lparr>as_engine := e\<rparr>) s' \<and>
    w_log (as_world s') = w_log (as_world s) @ [(SendSignal SIGSTOP (as_TargetPID (al_Summary a)), ok)] \<and>
    (ok \<longleftrightarrow> h_signal (w_host (as_world s)) SIGSTOP (as_TargetPID (al_Summary a)) = SignalDelivered) \<and>
    stop_record (en_policy (as_engine s')) (generateTxID (ei_buf (ai_eval x))) (as_TargetPID (al_Summary a))
      (if ok then StatusExecuted else StatusRejected)"
    using alert_acted [of "s\<lparr>as_engine := e\<rparr>" m ?al subs' x] e(2-4) assms(8-12) by (simp add: forwarded_intent pid unused_tx_def)
  with e(1) show ?thesis by (meson rtranclp.rtrancl_into_rtrancl)
qed

section \<open>A process that is merely sampled\<close>

text \<open>The alerts that wait are about the process, and there is one if any has been raised.\<close>

definition only_about :: "int \<Rightarrow> Detector \<Rightarrow> bool" where
  "only_about pid d \<longleftrightarrow> (\<forall>a \<in> set (dt_alerts d). as_TargetPID (al_Summary a) = pid) \<and>
     (pw_lastAlertAt (window_of d pid) \<noteq> None \<longrightarrow> dt_alerts d \<noteq> [])"

lemma analyze_target: "analyze cfg pid pw now t = Some a \<Longrightarrow> as_TargetPID (al_Summary a) = pid"
  by (auto simp: analyze_def Let_def split: if_splits prod.splits)

lemma only_about_Ingest:
  assumes "silent d" "only_about pid d" "Ingest d ev ta tc t_al = Some d'" "de_PID ev = pid"
  shows "only_about pid d'"
proof -
  have w: "0 \<le> dc_WindowSize (dt_cfg d)" using silent_cfg [OF assms(1)] default_window by simp
  note wd = window_of_Ingest [OF w assms(3), of pid]
  show ?thesis
  proof (cases "ingest_alert d ev ta tc")
    case None
    then have "dt_alerts d' = dt_alerts d" using Ingest_result [OF w, of ev ta tc t_al] assms(3) by auto
    then show ?thesis using assms(2,4) None wd by (simp add: only_about_def)
  next
    case (Some a)
    then have "dt_alerts d' = try_send detector_buffer (dt_alerts d) a"
      using Ingest_result [OF w, of ev ta tc t_al] assms(3) by auto
    moreover have "as_TargetPID (al_Summary a) = pid" using analyze_target [OF ingest_alert_analyze [OF Some]] assms(4) by simp
    ultimately show ?thesis using assms(2) by (auto simp: only_about_def detector_buffer_def try_send_def split: if_splits)
  qed
qed

lemma idle_detect:
  assumes "sampled 100 4242 k d" "only_about 4242 d" "k < 5"
  shows "\<exists>d'. detect_processes ri (idle_snapshot 100) d = Some d' \<and> sampled 100 4242 (Suc k) d' \<and> only_about 4242 d'"
proof -
  have s: "silent d" using assms(1) by (simp add: sampled_def)
  obtain d' where d': "detect_processes ri (idle_snapshot 100) d = Some d'" using silent_detect_total [OF s] by blast
  let ?pm = "hd (sn_MonitoredProcesses (idle_snapshot 100))"
  have "Ingest d (process_event (idle_snapshot 100) ?pm) (ri_access ri) (ri_check ri) (ri_alert ri) = Some d'"
    using d' by (simp add: detect_processes_def idle_snapshot_def split: option.splits)
  then have "only_about 4242 d'"
    by (rule only_about_Ingest [OF s assms(2)]) (simp add: process_event_def idle_snapshot_def)
  moreover have "sampled 100 4242 (Suc k) d'"
    using sampled_snapshot [OF d' assms(1,3)] by (simp add: idle_snapshot_def)
  ultimately show ?thesis using d' by blast
qed

text \<open>The parts of the agent that sampling leaves alone.\<close>

definition calm :: "AgentState \<Rightarrow> AgentState \<Rightarrow> bool" where
  "calm s s' \<longleftrightarrow> en_policy (as_engine s') = en_policy (as_engine s) \<and> en_mitigator (as_engine s') = en_mitigator (as_engine s) \<and>
     en_alerter (as_engine s') = en_alerter (as_engine s) \<and> as_world s' = as_world s \<and> as_now s' = as_now s"

definition idling :: "nat \<Rightarrow> AgentState \<Rightarrow> bool" where
  "idling k s \<longleftrightarrow> agent_reach guard_cfg s \<and> pp_SnapshotCh (en_pipeline (as_engine s)) = [] \<and>
     (\<exists>d. en_detector (as_engine s) = Some d \<and> sampled 100 4242 k d \<and> only_about 4242 d)"

lemma idle_round:
  assumes "idling k s" "k < 5"
  shows "\<exists>s'. idling (Suc k) s' \<and> calm s s'"
proof -
  let ?e = "as_engine s"
  have r: "agent_reach guard_cfg s" and empty: "pp_SnapshotCh (en_pipeline ?e) = []" using assms(1) by (simp_all add: idling_def)
  obtain d where d: "en_detector ?e = Some d" "sampled 100 4242 k d" "only_about 4242 d"
    using assms(1) by (auto simp: idling_def)
  obtain c where c: "collectOnce sorted_keys (\<lambda>_. Some []) silent_poll ((en_collector ?e)\<lparr>co_SnapshotOutput := Some []\<rparr>) = Some c"
    "co_SnapshotOutput c = Some [[CHR 10]]"
    using poll_publishes [of silent_poll sorted_keys "[]" "(en_collector ?e)\<lparr>co_SnapshotOutput := Some []\<rparr>"]
    by (auto simp: silent_poll_def snapshot_capacity_def)
  let ?e1 = "?e\<lparr>en_collector := c, en_pipeline := (en_pipeline ?e)\<lparr>pp_SnapshotCh := [[CHR 10]]\<rparr>\<rparr>"
  have s1: "agent_step s (s\<lparr>as_engine := ?e1\<rparr>)"
    by (rule agent_wire [OF step_poll [where ord = sorted_keys and encode = "\<lambda>_. Some []" and x = silent_poll]])
      (simp add: engine_poll_def Let_def empty c)
  let ?e2 = "?e\<lparr>en_collector := c, en_pipeline := (en_pipeline ?e)\<lparr>pp_SnapshotCh := []\<rparr>\<rparr>"
  obtain p where p: "profile_snapshot demo_route (idle_snapshot 100) ?e2 = Some (?e2\<lparr>en_profiler := p\<rparr>)"
  proof (cases "en_profiler ?e")
    case None
    then show ?thesis using that [of None] by (simp add: profile_snapshot_def)
  next
    case (Some q)
    have "profiler_reach ProfilerDefaultConfig q"
      using agent_reach_components [OF r] Some by (simp add: components_ok_def parts_ok_def)
    then obtain q' where "profiler_Ingest q (Some (idle_snapshot 100)) (ri_profiler demo_route) = Some q'"
      using profiler_Ingest_ok [OF profiler_reach_inv] by (fastforce simp: ProfilerDefaultConfig_def)
    then show ?thesis using that [of "Some q'"] Some by (simp add: profile_snapshot_def)
  qed
  obtain d' where d': "detect_processes demo_route (idle_snapshot 100) d = Some d'" "sampled 100 4242 (Suc k) d'" "only_about 4242 d'"
    using idle_detect [OF d(2,3) assms(2)] by blast
  let ?e3 = "updateMetrics demo_route (?e2\<lparr>en_profiler := p, en_detector := Some d'\<rparr>) (idle_snapshot 100)"
  have "dataRouter_step (\<lambda>_. Some (idle_snapshot 100)) demo_route ?e1 = Some ?e3"
    using p d(1) d'(1) by (simp add: dataRouter_step_def route_snapshot_def detect_snapshot_def)
  then have s2: "agent_step (s\<lparr>as_engine := ?e1\<rparr>) (s\<lparr>as_engine := ?e3\<rparr>)"
    using agent_wire [of "s\<lparr>as_engine := ?e1\<rparr>" ?e3] step_route [of "\<lambda>_. Some (idle_snapshot 100)" demo_route ?e1 ?e3] by simp
  have "agent_reach guard_cfg (s\<lparr>as_engine := ?e3\<rparr>)" using agent_next [OF agent_next [OF r s1] s2] .
  then have "idling (Suc k) (s\<lparr>as_engine := ?e3\<rparr>)" using d' by (simp add: idling_def updateMetrics_def Let_def)
  moreover have "calm s (s\<lparr>as_engine := ?e3\<rparr>)" by (simp add: calm_def updateMetrics_def Let_def)
  ultimately show ?thesis by blast
qed

lemma idle_rounds: "idling 0 s \<Longrightarrow> k \<le> 5 \<Longrightarrow> \<exists>s'. idling k s' \<and> calm s s'"
proof (induction k)
  case 0
  then show ?case by (auto simp: calm_def)
next
  case (Suc k)
  then obtain s1 where "idling k s1" "calm s s1" by auto
  with idle_round [of k s1] Suc.prems(2) show ?case by (auto simp: calm_def)
qed

text \<open>An agent with the mitigator on, on a host that lets it send any signal.\<close>

lemma guard_idling:
  "\<exists>s m. idling 0 s \<and> en_mitigator (as_engine s) = Some m \<and> mx_internal (en_alerter (as_engine s)) = [] \<and>
     mx_subs (en_alerter (as_engine s)) = [[], []] \<and> mx_dedup (en_alerter (as_engine s)) = Map.empty \<and>
     NewPolicyEngine (engine_policy_config guard_cfg) = Some (en_policy (as_engine s)) \<and>
     as_world s = \<lparr>w_host = open_host, w_log = []\<rparr> \<and> as_now s = 7"
proof -
  obtain pol where pol: "NewPolicyEngine (engine_policy_config guard_cfg) = Some pol"
    by (simp add: NewPolicyEngine_def engine_policy_config_def PolicyDefaultConfig_def Let_def guard_cfg_def DefaultConfig_def)
  have on: "cf_MitigationEnabled guard_cfg" "cf_DetectorEnabled guard_cfg" "cf_RouterEnabled guard_cfg" "0 < cf_PollInterval guard_cfg"
    by (simp_all add: guard_cfg_def DefaultConfig_def)
  obtain e where e: "NewEngine \<lparr>pt_bpf = True, pt_gpu = False\<rparr> guard_cfg 7 = Some e"
    "en_mitigator e = Some (NewMitigator (engine_mitigator_config guard_cfg))" "en_detector e = Some (NewDetector DetectorDefaultConfig)"
    "en_router e \<noteq> None" "en_policy e = pol" "mx_internal (en_alerter e) = []" "mx_subs (en_alerter e) = []"
    "mx_dedup (en_alerter e) = Map.empty" "co_pollInterval (en_collector e) = cf_PollInterval guard_cfg"
    "pp_SnapshotCh (en_pipeline e) = []"
    using pol on by (simp add: NewEngine_def Let_def NewCollector_def NewAlertMultiplexer_def NewPipeline_def)
  obtain e' where e': "engine_Start e False None = Some e'" "en_mitigator e' = en_mitigator e" "en_detector e' = en_detector e"
    "en_policy e' = pol" "mx_internal (en_alerter e') = []" "mx_subs (en_alerter e') = [[], []]" "mx_dedup (en_alerter e') = Map.empty"
    "pp_SnapshotCh (en_pipeline e') = []"
    using e on(4) by (simp add: engine_Start_def Let_def collector_ticker_def Subscribe_def pipeline_Start_def SetUpstreamEndpoint_def)
  have "sampled 100 4242 0 (NewDetector DetectorDefaultConfig)" "only_about 4242 (NewDetector DetectorDefaultConfig)"
    using silent_new by (simp_all add: sampled_def only_about_def window_of_def NewDetector_def empty_window_def)
  then show ?thesis
    using agent_start [OF e(1) e'(1), of open_host] e(2,3) e'(2-) pol
    by (intro exI [of _ "\<lparr>as_engine = e', as_world = \<lparr>w_host = open_host, w_log = []\<rparr>, as_now = 7\<rparr>"]) (simp add: idling_def)
qed

text \<open>After five samples of the idle process its alert waits, and nothing keeps it from being acted on.\<close>

definition idle_inputs :: act_inputs where
  "idle_inputs = demo_inputs\<lparr>ai_eval := \<lparr>ei_th = 7, ei_tr = 7, ei_te = 7, ei_buf = []\<rparr>\<rparr>"

lemma idle_alert:
  "\<exists>s d a rest m. agent_reach guard_cfg s \<and> en_detector (as_engine s) = Some d \<and> dt_alerts d = a # rest \<and>
     as_TargetPID (al_Summary a) = 4242 \<and> en_mitigator (as_engine s) = Some m \<and>
     mx_internal (en_alerter (as_engine s)) = [] \<and> mx_subs (en_alerter (as_engine s)) = [[], []] \<and>
     \<not> suppressed (en_alerter (as_engine s)) (fromDetectorAlert a) \<and>
     decision (en_policy (as_engine s)) (alert_intent m (w_host (as_world s)) (fromDetectorAlert a)) (ai_eval idle_inputs) \<and>
     ti_ContainerID (mit_target m (w_host (as_world s)) (fromDetectorAlert a)) = '''' \<and>
     as_now s = 7 \<and> unused_tx (ai_eval idle_inputs) (as_engine s) \<and> as_world s = \<lparr>w_host = open_host, w_log = []\<rparr>"
proof -
  obtain s0 m where s0: "idling 0 s0" "en_mitigator (as_engine s0) = Some m" "mx_internal (en_alerter (as_engine s0)) = []"
    "mx_subs (en_alerter (as_engine s0)) = [[], []]" "mx_dedup (en_alerter (as_engine s0)) = Map.empty"
    "NewPolicyEngine (engine_policy_config guard_cfg) = Some (en_policy (as_engine s0))"
    "as_world s0 = \<lparr>w_host = open_host, w_log = []\<rparr>" "as_now s0 = 7"
    using guard_idling by blast
  obtain s where s: "idling 5 s" "calm s0 s" using idle_rounds [OF s0(1), of 5] by auto
  then obtain d where d: "agent_reach guard_cfg s" "en_detector (as_engine s) = Some d" "sampled 100 4242 5 d" "only_about 4242 d"
    by (auto simp: idling_def)
  then obtain a rest where a: "dt_alerts d = a # rest" "as_TargetPID (al_Summary a) = 4242"
    by (auto simp: sampled_def only_about_def neq_Nil_conv)
  have t: "mit_target m open_host (fromDetectorAlert a) = \<lparr>ti_PID = 4242, ti_ContainerID = '''', ti_ProcessName = ''''\<rparr>"
    using a(2) by (simp add: mit_target_def fromDetectorAlert_def resolveContainerID_def resolveProcessName_def open_host_def)
  have size: "pc_BufferSize (engine_policy_config guard_cfg) = 64"
    by (simp add: engine_policy_config_def PolicyDefaultConfig_def Let_def guard_cfg_def DefaultConfig_def)
  have pol: "pe_ledger (en_policy (as_engine s0)) = NewTransactionLedger (engine_policy_config guard_cfg)"
    "pe_evaluator (en_policy (as_engine s0)) = NewRuleEvaluator (engine_policy_config guard_cfg)"
    using s0(6) [symmetric] size by (simp_all add: NewPolicyEngine_def Let_def)
  have rules: "re_pidThreshold (NewRuleEvaluator (engine_policy_config guard_cfg)) = 100"
    "re_maxActionsPerPID (NewRuleEvaluator (engine_policy_config guard_cfg)) = 5"
    "HistoricalCount (NewTransactionLedger (engine_policy_config guard_cfg)) 7 4242 = 0"
    by (simp_all add: NewRuleEvaluator_def engine_policy_config_def PolicyDefaultConfig_def Let_def guard_cfg_def DefaultConfig_def
        HistoricalCount_def NewTransactionLedger_def)
  have "decision (en_policy (as_engine s)) (alert_intent m open_host (fromDetectorAlert a)) (ai_eval idle_inputs)"
    using s(2) pol t
    by (simp add: decision_def calm_def alert_intent_def mit_intent_def Evaluate_def rules Let_def idle_inputs_def)
  moreover have "unused_tx (ai_eval idle_inputs) (as_engine s)"
    using s(2) pol(1) by (simp add: unused_tx_def calm_def NewTransactionLedger_def)
  moreover have "\<not> suppressed (en_alerter (as_engine s)) (fromDetectorAlert a)"
    using s(2) s0(5) by (simp add: calm_def suppressed_def)
  ultimately show ?thesis
    using d(1,2) a s(2) s0(2-4,7,8) t
    by (intro exI [of _ s] exI [of _ d] exI [of _ a] exI [of _ rest] exI [of _ m]) (simp add: calm_def)
qed

text \<open>Five samples of an idle process, and the agent stops it.\<close>

theorem alert_reaches_host_witness:
  "\<exists>s. agent_reach guard_cfg s \<and> w_log (as_world s) = [(SendSignal SIGSTOP 4242, True)]"
proof -
  obtain s d a rest m where s: "agent_reach guard_cfg s" "en_detector (as_engine s) = Some d" "dt_alerts d = a # rest"
    "as_TargetPID (al_Summary a) = 4242" "en_mitigator (as_engine s) = Some m" "mx_internal (en_alerter (as_engine s)) = []"
    "mx_subs (en_alerter (as_engine s)) = [[], []]" "\<not> suppressed (en_alerter (as_engine s)) (fromDetectorAlert a)"
    "decision (en_policy (as_engine s)) (alert_intent m (w_host (as_world s)) (fromDetectorAlert a)) (ai_eval idle_inputs)"
    "ti_ContainerID (mit_target m (w_host (as_world s)) (fromDetectorAlert a)) = ''''" "as_now s = 7"
    "unused_tx (ai_eval idle_inputs) (as_engine s)" "as_world s = \<lparr>w_host = open_host, w_log = []\<rparr>"
    using idle_alert by blast
  obtain s' where s': "agent_step\<^sup>*\<^sup>* s s'" "w_log (as_world s') = [(SendSignal SIGSTOP 4242, True)]"
    using alert_reaches_host [OF s(1-3,5-10) _ _ s(12)] s(4,11,13) by (auto simp: idle_inputs_def open_host_def)
  have "agent_reach guard_cfg s'" using s'(1) s(1) by (induction rule: rtranclp_induct) (auto intro: agent_next)
  with s'(2) show ?thesis by blast
qed

end
