(* ===== verification/Stranding.thy ===== *)
theory Stranding
  imports AlertPath
begin

text \<open>
  What becomes of a stopped process when the sweeper of the policy ledger
  (\<open>src/internal/proxy/policy/ledger.go\<close>) is faster than the rollback controller
  (\<open>src/internal/proxy/rollback/controller.go\<close>): who in the running agent sends continue signals, and
  what they depend on.
\<close>

section \<open>Who continues a process\<close>

text \<open>The same host, and attempts of one kind only.\<close>

definition adds :: "(Attempt \<times> bool \<Rightarrow> bool) \<Rightarrow> World \<Rightarrow> World \<Rightarrow> bool" where
  "adds P w w' \<longleftrightarrow> w_host w' = w_host w \<and> (\<exists>new. w_log w' = w_log w @ new \<and> (\<forall>p \<in> set new. P p))"

lemma adds_refl [simp]: "adds P w w"
  by (simp add: adds_def)

lemma adds_trans: "adds P w w1 \<Longrightarrow> adds P w1 w2 \<Longrightarrow> adds P w w2"
  by (fastforce simp: adds_def)

lemma adds_mono: "adds P w w' \<Longrightarrow> (\<And>p. P p \<Longrightarrow> Q p) \<Longrightarrow> adds Q w w'"
  unfolding adds_def by blast

text \<open>What a rollback may attempt for the given processes: its continue signals fare as the host has it.\<close>

fun undo_attempt :: "Host \<Rightarrow> int set \<Rightarrow> Attempt \<times> bool \<Rightarrow> bool" where
  "undo_attempt h pids (SendSignal sig p, ok) = (sig = SIGCONT \<and> p \<in> pids \<and> ok = (h_signal h SIGCONT p = SignalDelivered))"
| "undo_attempt h pids (a, ok) = (\<exists>cid. container_attempt cid False a)"

lemma undo_attempt_mono: "undo_attempt h pids p \<Longrightarrow> pids \<subseteq> pids' \<Longrightarrow> undo_attempt h pids' p"
  by (cases "(h, pids, p)" rule: undo_attempt.cases) auto

lemma UnfreezeProcess_adds:
  assumes "UnfreezeProcess w p = (err, w')"
  shows "adds (undo_attempt (w_host w) {p}) w w'"
proof -
  have "err = None \<longleftrightarrow> h_signal (w_host w) SIGCONT p = SignalDelivered"
    using assms by (auto simp: UnfreezeProcess_def signal_process_def deliver_def Let_def split: signal_result.splits errno.splits)
  with UnfreezeProcess_result [OF assms] show ?thesis by (auto simp: adds_def)
qed

lemma Unpause_adds:
  assumes "Unpause cm w cid = (err, cm', w')"
  shows "adds (undo_attempt h pids) w w'"
proof -
  have "undo_attempt h pids (a, ok)" if "container_attempt cid False a" for a ok using that by (cases a) auto
  then show ?thesis using Unpause_tried [OF assms] unfolding tried_def adds_def by fast
qed

lemma RollbackPID_adds:
  assumes "RollbackPID m w p cid = (err, m', w')"
  shows "adds (undo_attempt (w_host w) {p}) w w'"
proof (cases "cid = ''''")
  case True
  then show ?thesis using assms UnfreezeProcess_adds by (auto simp: RollbackPID_def Let_def split: prod.splits)
next
  case False
  obtain e cm w1 where u: "Unpause (mg_cm m) w cid = (e, cm, w1)" by (metis prod.collapse)
  have q: "adds (undo_attempt (w_host w) {p}) w w1" by (rule Unpause_adds [OF u])
  then have "w_host w1 = w_host w" by (simp add: adds_def)
  then have "UnfreezeProcess w1 p = (err', w2) \<Longrightarrow> adds (undo_attempt (w_host w) {p}) w w2" for err' w2
    using adds_trans [OF q] UnfreezeProcess_adds [of w1 p err' w2] by simp
  with q show ?thesis using assms u False by (auto simp: RollbackPID_def Let_def split: prod.splits if_splits)
qed

lemma dispatchRollback_adds:
  assumes "dispatchRollback sh rec = (r, sh')"
  shows "adds (undo_attempt (w_host (sh_world sh)) {mr_TargetPID rec}) (sh_world sh) (sh_world sh')"
proof -
  obtain q sh1 where u: "undo_action sh rec = (q, sh1)" by (metis prod.collapse)
  have "adds (undo_attempt (w_host (sh_world sh)) {mr_TargetPID rec}) (sh_world sh) (sh_world sh1)"
    using u UnfreezeProcess_adds RollbackPID_adds
    by (cases "mr_ActionType rec") (auto simp: undo_action_def Let_def split: prod.splits option.splits)
  then show ?thesis using assms u by (auto simp: dispatchRollback_def split: sum.splits)
qed

lemma dispatch_all_adds:
  "dispatch_all sh recs = (details, sh') \<Longrightarrow>
   adds (undo_attempt (w_host (sh_world sh)) (mr_TargetPID ` set recs)) (sh_world sh) (sh_world sh')"
proof (induction recs arbitrary: sh details)
  case (Cons rec recs)
  let ?P = "undo_attempt (w_host (sh_world sh)) (mr_TargetPID ` set (rec # recs))"
  obtain r sh1 where d: "dispatchRollback sh rec = (r, sh1)" by (metis prod.collapse)
  obtain ds where a: "dispatch_all sh1 recs = (ds, sh')" using Cons.prems(1) d by (auto split: prod.splits)
  note one = dispatchRollback_adds [OF d]
  have "adds ?P (sh_world sh) (sh_world sh1)" by (rule adds_mono [OF one]) (erule undo_attempt_mono, simp)
  moreover have "w_host (sh_world sh1) = w_host (sh_world sh)" using one by (simp add: adds_def)
  then have "adds ?P (sh_world sh1) (sh_world sh')"
    by (intro adds_mono [OF Cons.IH [OF a]]) (auto intro: undo_attempt_mono)
  ultimately show ?case by (rule adds_trans)
qed simp

text \<open>The turn of the rollback controller, where there is one.\<close>

lemma checkExpired_turn:
  assumes "engine_checkExpired ord x (as_engine s) (as_world s) = (e, w)"
  shows "w = as_world s \<or>
    (\<exists>k m k' sh'. en_rollback (as_engine s) = Some k \<and> en_mitigator (as_engine s) = Some m \<and>
      checkExpired ord k (engine_shared (as_engine s) m (as_world s)) x = (k', sh') \<and> w = sh_world sh' \<and> en_policy e = sh_policy sh')"
proof (cases "en_rollback (as_engine s) = None \<or> en_mitigator (as_engine s) = None")
  case True
  then show ?thesis using assms by (auto simp: engine_checkExpired_def split: option.splits)
next
  case False
  then obtain k m where km: "en_rollback (as_engine s) = Some k" "en_mitigator (as_engine s) = Some m" by auto
  obtain k' sh' where c: "checkExpired ord k (engine_shared (as_engine s) m (as_world s)) x = (k', sh')" by fastforce
  then have "w = sh_world sh' \<and> en_policy e = sh_policy sh'" using assms km by (auto simp: engine_checkExpired_def)
  with km c show ?thesis by blast
qed

lemma checkExpired_adds:
  assumes "checkExpired ord k sh x = (k', sh')"
  shows "adds (undo_attempt (w_host (sh_world sh)) (mr_TargetPID ` set (ListExecutedExpired ord (pe_ledger (sh_policy sh)) (si_listed x))))
    (sh_world sh) (sh_world sh')"
proof -
  let ?recs = "ListExecutedExpired ord (pe_ledger (sh_policy sh)) (si_listed x)"
  obtain ds sh1 where d: "dispatch_all sh ?recs = (ds, sh1)" by fastforce
  have "sh' = sh1" using checkExpired_shared [of ord k sh x] assms d by simp
  with dispatch_all_adds [OF d] show ?thesis by simp
qed

section \<open>Being stopped\<close>

text \<open>An attempt that does not continue the process, and one that stops none.\<close>

definition no_continue :: "int \<Rightarrow> Attempt \<times> bool \<Rightarrow> bool" where
  "no_continue pid p \<longleftrightarrow> fst p \<noteq> SendSignal SIGCONT pid"

lemma stopped_after_step:
  "no_continue pid p \<Longrightarrow> pid \<in> S \<Longrightarrow> pid \<in> stopped_after [p] S"
  "no_stop (fst p) \<Longrightarrow> pid \<notin> S \<Longrightarrow> pid \<notin> stopped_after [p] S"
  by (cases p; auto simp: no_continue_def no_stop_def stopped_after_def split: Attempt.splits Signal.splits)+

lemma stopped_after_Cons: "stopped_after (p # ps) S = stopped_after ps (stopped_after [p] S)"
  by (simp add: stopped_after_def)

lemma stays_stopped: "\<forall>p \<in> set new. no_continue pid p \<Longrightarrow> pid \<in> S \<Longrightarrow> pid \<in> stopped_after new S"
proof (induction new arbitrary: S)
  case (Cons p new)
  then show ?case unfolding stopped_after_Cons [of p new] by (simp add: stopped_after_step(1))
qed simp

lemma stays_running: "\<forall>p \<in> set new. no_stop (fst p) \<Longrightarrow> pid \<notin> S \<Longrightarrow> pid \<notin> stopped_after new S"
proof (induction new arbitrary: S)
  case (Cons p new)
  then show ?case unfolding stopped_after_Cons [of p new] by (simp add: stopped_after_step(2))
qed simp

lemma continued_runs:
  assumes "\<forall>p \<in> set new. no_stop (fst p)" "(SendSignal SIGCONT pid, True) \<in> set new"
  shows "pid \<notin> stopped_after new S"
proof -
  obtain a b where ab: "new = a @ (SendSignal SIGCONT pid, True) # b" using assms(2) by (meson split_list)
  have "pid \<notin> stopped_after [(SendSignal SIGCONT pid, True)] R" for R by (simp add: stopped_after_def)
  with assms(1) show ?thesis unfolding ab stopped_after_simps stopped_after_Cons [of _ b] by (simp add: stays_running)
qed

text \<open>A process for which the ledger has no executed transaction.\<close>

definition unmitigated :: "int \<Rightarrow> AgentState \<Rightarrow> bool" where
  "unmitigated pid s \<longleftrightarrow> (\<forall>tx rec. tl_records (pe_ledger (en_policy (as_engine s))) tx = Some rec \<longrightarrow>
     mr_TargetPID rec = pid \<longrightarrow> mr_Status rec \<noteq> StatusExecuted)"

lemma range_values_sub: "v \<in> set (range_values ord m) \<Longrightarrow> \<exists>k. m k = Some v"
  by (auto simp: range_values_def range_pairs_def split: option.splits)

lemma undo_no_continue: "undo_attempt h pids p \<Longrightarrow> pid \<notin> pids \<Longrightarrow> no_continue pid p"
  by (cases "(h, pids, p)" rule: undo_attempt.cases) (auto simp: no_continue_def)

lemma undo_no_stop: "undo_attempt h pids p \<Longrightarrow> no_stop (fst p)"
  by (cases "(h, pids, p)" rule: undo_attempt.cases) (auto simp: no_stop_def)

lemma rollback_no_continue:
  assumes "engine_checkExpired ord x (as_engine s) (as_world s) = (e, w)" "unmitigated pid s"
  shows "adds (no_continue pid) (as_world s) w"
proof -
  from checkExpired_turn [OF assms(1)] show ?thesis
  proof (elim disjE exE conjE)
    fix k m k' sh'
    let ?sh = "engine_shared (as_engine s) m (as_world s)"
    assume c: "checkExpired ord k ?sh x = (k', sh')" and w: "w = sh_world sh'"
    have "pid \<notin> mr_TargetPID ` set (ListExecutedExpired ord (pe_ledger (sh_policy ?sh)) (si_listed x))"
      using assms(2) by (auto simp: ListExecutedExpired_def unmitigated_def engine_shared_def dest!: range_values_sub)
    then have "adds (no_continue pid) (sh_world ?sh) (sh_world sh')"
      using undo_no_continue by (intro adds_mono [OF checkExpired_adds [OF c]]) blast
    then show ?thesis using w by (simp add: engine_shared_def)
  qed simp
qed

lemma mitigate_no_continue:
  assumes "engine_mitigate x (as_engine s) (as_world s) = (e, w)"
  shows "adds (no_continue pid) (as_world s) w"
proof (cases "\<exists>m alert rest subs. en_mitigator (as_engine s) = Some m \<and> mx_subs (en_alerter (as_engine s)) = (alert # rest) # subs")
  case False
  then show ?thesis using assms by (auto simp: engine_mitigate_def split: option.splits list.splits)
next
  case True
  then obtain m alert rest subs where m: "en_mitigator (as_engine s) = Some m" "mx_subs (en_alerter (as_engine s)) = (alert # rest) # subs"
    by blast
  obtain pe m' w' where r: "mitigateFromAlert (Some (en_policy (as_engine s))) m (as_world s) alert x = (pe, m', w')"
    by (metis prod.collapse)
  have "w = w'" using assms m r by (simp add: engine_mitigate_def)
  moreover have "enforce_attempt p cid a \<Longrightarrow> no_continue pid (a, ok)" for p cid a ok
    by (auto simp: enforce_attempt_def no_continue_def)
  ultimately show ?thesis using mitigate_log [OF r] unfolding adds_def by fast
qed

text \<open>No turn of the agent continues a process that has no executed transaction.\<close>

lemma unmitigated_stays:
  assumes "agent_step s s'" "unmitigated pid s" "pid \<in> stopped_after (w_log (as_world s)) S"
  shows "pid \<in> stopped_after (w_log (as_world s')) S"
  using assms(1)
proof cases
  case (agent_mitigate x e w)
  then show ?thesis using mitigate_no_continue [OF agent_mitigate(5), of pid] assms(3) by (auto simp: adds_def stays_stopped)
next
  case (agent_rollback rord x e w)
  then show ?thesis using rollback_no_continue [OF agent_rollback(2) assms(2)] assms(3) by (auto simp: adds_def stays_stopped)
qed (use assms(3) in simp_all)

text \<open>The runs of the agent in which the process gets no executed transaction.\<close>

definition forgotten_step :: "int \<Rightarrow> AgentState \<Rightarrow> AgentState \<Rightarrow> bool" where
  "forgotten_step pid s s' \<longleftrightarrow> unmitigated pid s \<and> agent_step s s'"

lemma forgotten_stays:
  "(forgotten_step pid)\<^sup>*\<^sup>* s s' \<Longrightarrow> pid \<in> stopped_after (w_log (as_world s)) S \<Longrightarrow> pid \<in> stopped_after (w_log (as_world s')) S"
  by (induction rule: rtranclp_induct) (auto simp: forgotten_step_def intro: unmitigated_stays)

section \<open>The sweeper strands a process\<close>

lemma agent_reach_ledger: "agent_reach cfg s \<Longrightarrow> ledger_inv (pe_ledger (en_policy (as_engine s)))"
  using agent_reach_components policy_reach_ok policy_ok_ledger by (fastforce simp: components_ok_def parts_ok_def)

text \<open>In time, the rollback controller continues the process.\<close>

lemma rollback_continues:
  assumes "agent_reach cfg s" "map_range ord" "en_rollback (as_engine s) \<noteq> None" "en_mitigator (as_engine s) \<noteq> None"
    and "stop_record (en_policy (as_engine s)) tx pid StatusExecuted"
    and "\<forall>rec. tl_records (pe_ledger (en_policy (as_engine s))) tx = Some rec \<longrightarrow> mr_Expiry rec < si_listed x"
    and "h_signal (w_host (as_world s)) SIGCONT pid = SignalDelivered"
    and "engine_checkExpired ord x (as_engine s) (as_world s) = (e, w)"
  shows "pid \<notin> stopped_after (w_log w) {} \<and> stop_record (en_policy e) tx pid StatusCompleted"
proof -
  obtain k m where km: "en_rollback (as_engine s) = Some k" "en_mitigator (as_engine s) = Some m" using assms(3,4) by auto
  let ?sh = "engine_shared (as_engine s) m (as_world s)"
  obtain k' sh' where c: "checkExpired ord k ?sh x = (k', sh')" by fastforce
  have e: "w = sh_world sh'" "en_policy e = sh_policy sh'" using assms(8) km c by (auto simp: engine_checkExpired_def)
  have sh: "sh_policy ?sh = en_policy (as_engine s)" "sh_world ?sh = as_world s" by (simp_all add: engine_shared_def)
  obtain rec where rec: "shared_records ?sh tx = Some rec" "mr_TargetPID rec = pid" "mr_ActionType rec = ActionSIGSTOP"
    "mr_Status rec = StatusExecuted" "mr_Expiry rec < si_listed x"
    using assms(5,6) sh by (auto simp: stop_record_def)
  have led: "ledger_inv (pe_ledger (sh_policy ?sh))" using agent_reach_ledger [OF assms(1)] sh by simp
  obtain new where new: "w_log w = w_log (as_world s) @ new"
    "\<forall>p \<in> set new. undo_attempt (w_host (as_world s)) (mr_TargetPID ` set (ListExecutedExpired ord (pe_ledger (sh_policy ?sh)) (si_listed x))) p"
    using checkExpired_adds [OF c] e(1) sh(2) by (auto simp: adds_def)
  have since: "attempts_since ?sh sh' = set new" using new(1) e(1) sh(2) by (simp add: attempts_since_def)
  have "(SendSignal SIGCONT pid, False) \<notin> set new" using new(2) assms(7) by fastforce
  then have "\<not> blocked rec ?sh sh'" using rec(2,3) since by (simp add: blocked_def)
  then have "undone rec ?sh sh' \<and> shared_records sh' tx = Some (complete_record rec)"
    using settled_record [OF assms(2) led c rec(1)] rec(4,5) by simp
  then have "(SendSignal SIGCONT pid, True) \<in> set new" "stop_record (en_policy e) tx pid StatusCompleted"
    using rec(2,3) since e(2) by (simp_all add: undone_def stop_record_def complete_record_def)
  moreover have "\<forall>p \<in> set new. no_stop (fst p)" using new(2) undo_no_stop by blast
  ultimately show ?thesis using new(1) continued_runs by simp
qed

text \<open>
  The controller looks at one transaction at a time: an expired stop of a process is undone
  although a later one of the same process has not expired, whose transaction stays EXECUTED while
  the process runs.
\<close>

lemma released_early:
  assumes "agent_reach cfg s" "map_range ord" "en_rollback (as_engine s) \<noteq> None" "en_mitigator (as_engine s) \<noteq> None"
    and "stop_record (en_policy (as_engine s)) tx pid StatusExecuted"
    and "\<forall>rec. tl_records (pe_ledger (en_policy (as_engine s))) tx = Some rec \<longrightarrow> mr_Expiry rec < si_listed x"
    and "h_signal (w_host (as_world s)) SIGCONT pid = SignalDelivered"
    and "engine_checkExpired ord x (as_engine s) (as_world s) = (e, w)"
    and "tl_records (pe_ledger (en_policy (as_engine s))) tx' = Some rec'" "si_listed x \<le> mr_Expiry rec'"
  shows "pid \<notin> stopped_after (w_log w) {} \<and> tl_records (pe_ledger (en_policy e)) tx' = Some rec'"
proof -
  obtain k m where km: "en_rollback (as_engine s) = Some k" "en_mitigator (as_engine s) = Some m" using assms(3,4) by auto
  let ?sh = "engine_shared (as_engine s) m (as_world s)"
  obtain k' sh' where c: "checkExpired ord k ?sh x = (k', sh')" by fastforce
  have e: "en_policy e = sh_policy sh'" using assms(8) km c by (auto simp: engine_checkExpired_def)
  have sh: "sh_policy ?sh = en_policy (as_engine s)" by (simp add: engine_shared_def)
  have "ledger_inv (pe_ledger (sh_policy ?sh))" using agent_reach_ledger [OF assms(1)] sh by simp
  from settled_record [OF assms(2) this c, of tx' rec'] have "shared_records sh' tx' = Some rec'"
    using assms(9,10) sh by (simp split: if_splits)
  then show ?thesis using rollback_continues [OF assms(1-8)] e by simp
qed

text \<open>
  C6: A stopped process depends on a race: when its executed transactions have expired and the
  host would let it be continued, it is continued and its transaction COMPLETED if the rollback
  controller comes first. If the sweeper of the policy ledger comes first, it is stopped for
  good: however the goroutines run on, no one sends it a continue signal, unless the agent first acts
  against it again.
\<close>

theorem race_decides_fate:
  assumes "agent_reach cfg s" "map_range ord" "stop_record (en_policy (as_engine s)) tx pid StatusExecuted"
    and "\<forall>tx rec. tl_records (pe_ledger (en_policy (as_engine s))) tx = Some rec \<longrightarrow> mr_TargetPID rec = pid \<longrightarrow>
      mr_Status rec = StatusExecuted \<longrightarrow> mr_Expiry rec < t"
    and "pid \<in> stopped_after (w_log (as_world s)) {}" "h_signal (w_host (as_world s)) SIGCONT pid = SignalDelivered"
  shows "(\<forall>x e w. si_listed x = t \<longrightarrow> engine_checkExpired ord x (as_engine s) (as_world s) = (e, w) \<longrightarrow>
      pid \<notin> stopped_after (w_log w) {} \<and> stop_record (en_policy e) tx pid StatusCompleted) \<and>
    (\<forall>e s'. engine_sweep ord t (as_engine s) = Some e \<longrightarrow> (forgotten_step pid)\<^sup>*\<^sup>* (s\<lparr>as_engine := e, as_now := t\<rparr>) s' \<longrightarrow>
      unmitigated pid (s\<lparr>as_engine := e, as_now := t\<rparr>) \<and> pid \<in> stopped_after (w_log (as_world s')) {})"
proof (intro conjI allI impI)
  have "en_mitigator (as_engine s) \<noteq> None"
    using agent_reach_components [OF assms(1)] assms(5) by (auto simp: components_ok_def parts_ok_def split: option.splits)
  then have guarded: "en_rollback (as_engine s) \<noteq> None" "en_mitigator (as_engine s) \<noteq> None"
    using agent_reach_guarded [OF assms(1)] by simp_all
  fix x e w
  assume x: "si_listed x = t" "engine_checkExpired ord x (as_engine s) (as_world s) = (e, w)"
  have "\<forall>rec. tl_records (pe_ledger (en_policy (as_engine s))) tx = Some rec \<longrightarrow> mr_Expiry rec < si_listed x"
    using assms(3,4) x(1) by (auto simp: stop_record_def)
  from rollback_continues [OF assms(1,2) guarded assms(3) this assms(6) x(2)]
  show "pid \<notin> stopped_after (w_log w) {}" "stop_record (en_policy e) tx pid StatusCompleted" by simp_all
next
  fix e s'
  assume e: "engine_sweep ord t (as_engine s) = Some e" and run: "(forgotten_step pid)\<^sup>*\<^sup>* (s\<lparr>as_engine := e, as_now := t\<rparr>) s'"
  obtain led where led: "sweep ord t (pe_ledger (en_policy (as_engine s))) = Some led"
    "e = (as_engine s)\<lparr>en_policy := (en_policy (as_engine s))\<lparr>pe_ledger := led\<rparr>\<rparr>"
    using e by (auto simp: engine_sweep_def)
  show "unmitigated pid (s\<lparr>as_engine := e, as_now := t\<rparr>)"
    using swept_sub [OF assms(2) agent_reach_ledger [OF assms(1)] led(1)] assms(4) led(2) by (fastforce simp: unmitigated_def)
  show "pid \<in> stopped_after (w_log (as_world s')) {}" using forgotten_stays [OF run] assms(5) by simp
qed

text \<open>A time after which every transaction of the ledger has expired.\<close>

lemma all_expired: "ledger_inv led \<Longrightarrow> \<exists>t \<ge> t0. \<forall>tx rec. tl_records led tx = Some rec \<longrightarrow> mr_Expiry rec < t"
proof -
  assume "ledger_inv led"
  then have fin: "finite (mr_Expiry ` ran (tl_records led))" using ledger_inv_finite finite_ran by blast
  let ?t = "max t0 (Max (insert t0 (mr_Expiry ` ran (tl_records led))) + 1)"
  have "mr_Expiry rec < ?t" if "tl_records led tx = Some rec" for tx rec
  proof -
    have "mr_Expiry rec \<le> Max (insert t0 (mr_Expiry ` ran (tl_records led)))"
      using fin ranI [of "tl_records led", OF that] by (intro Max_ge) auto
    then show ?thesis by linarith
  qed
  then show ?thesis by (intro exI [of _ ?t]) simp
qed

text \<open>The idle process that the agent has stopped.\<close>

lemma idle_stopped:
  "\<exists>s tx. agent_reach guard_cfg s \<and> w_log (as_world s) = [(SendSignal SIGSTOP 4242, True)] \<and>
     stop_record (en_policy (as_engine s)) tx 4242 StatusExecuted"
proof -
  obtain s d a rest m where s: "agent_reach guard_cfg s" "en_detector (as_engine s) = Some d" "dt_alerts d = a # rest"
    "as_TargetPID (al_Summary a) = 4242" "en_mitigator (as_engine s) = Some m" "mx_internal (en_alerter (as_engine s)) = []"
    "mx_subs (en_alerter (as_engine s)) = [[], []]" "\<not> suppressed (en_alerter (as_engine s)) (fromDetectorAlert a)"
    "decision (en_policy (as_engine s)) (alert_intent m (w_host (as_world s)) (fromDetectorAlert a)) (ai_eval idle_inputs)"
    "ti_ContainerID (mit_target m (w_host (as_world s)) (fromDetectorAlert a)) = ''''" "as_now s = 7"
    "unused_tx (ai_eval idle_inputs) (as_engine s)" "as_world s = \<lparr>w_host = open_host, w_log = []\<rparr>"
    using idle_alert by blast
  obtain e subs where e: "agent_step\<^sup>*\<^sup>* s (s\<lparr>as_engine := e\<rparr>)" "en_policy e = en_policy (as_engine s)"
    "en_mitigator e = en_mitigator (as_engine s)"
    "mx_subs (en_alerter e) = [forwarded (en_alerter (as_engine s)) (fromDetectorAlert a) []] # subs"
    using alert_delivered [OF s(1-3,6-8)] by blast
  let ?s1 = "s\<lparr>as_engine := e\<rparr>" and ?al = "forwarded (en_alerter (as_engine s)) (fromDetectorAlert a) []"
  have pid: "ap_TargetPID (ca_Payload ?al) = 4242" using s(4) by (simp add: forwarded_def fromDetectorAlert_def)
  have "\<exists>s' ok. agent_step ?s1 s' \<and> w_log (as_world s') = w_log (as_world ?s1) @ [(SendSignal SIGSTOP (ap_TargetPID (ca_Payload ?al)), ok)] \<and>
    (ok \<longleftrightarrow> h_signal (w_host (as_world ?s1)) SIGSTOP (ap_TargetPID (ca_Payload ?al)) = SignalDelivered) \<and>
    stop_record (en_policy (as_engine s')) (generateTxID (ei_buf (ai_eval idle_inputs))) (ap_TargetPID (ca_Payload ?al))
      (if ok then StatusExecuted else StatusRejected)"
    using e(2-4) s(5,9-12)
    by (intro alert_acted [where m = m and subs = subs]) (simp_all add: forwarded_intent unused_tx_def idle_inputs_def)
  then obtain s' where s': "agent_step ?s1 s'" "w_log (as_world s') = [(SendSignal SIGSTOP 4242, True)]"
    "stop_record (en_policy (as_engine s')) (generateTxID (ei_buf (ai_eval idle_inputs))) 4242 StatusExecuted"
    using s(13) pid by (auto simp: open_host_def)
  have "agent_step\<^sup>*\<^sup>* s s'" using e(1) s'(1) by (rule rtranclp.rtrancl_into_rtrancl)
  then have "agent_reach guard_cfg s'" using s(1) by (induction rule: rtranclp_induct) (auto intro: agent_next)
  then show ?thesis using s'(2,3) by blast
qed

theorem race_decides_fate_witness:
  "\<exists>s t e w e'. agent_reach guard_cfg s \<and> engine_checkExpired sorted_keys (demo_check\<lparr>si_listed := t\<rparr>) (as_engine s) (as_world s) = (e, w) \<and>
     4242 \<notin> stopped_after (w_log w) {} \<and> engine_sweep sorted_keys t (as_engine s) = Some e' \<and>
     4242 \<in> stopped_after (w_log (as_world (s\<lparr>as_engine := e', as_now := t\<rparr>))) {}"
proof -
  obtain s0 tx where s0: "agent_reach guard_cfg s0" "w_log (as_world s0) = [(SendSignal SIGSTOP 4242, True)]"
    "stop_record (en_policy (as_engine s0)) tx 4242 StatusExecuted"
    using idle_stopped by blast
  let ?s = "s0\<lparr>as_world := (as_world s0)\<lparr>w_host := open_host\<rparr>\<rparr>"
  let ?led = "pe_ledger (en_policy (as_engine ?s))"
  have s: "agent_reach guard_cfg ?s" by (rule agent_next [OF s0(1) agent_host])
  have led: "ledger_inv ?led" by (rule agent_reach_ledger [OF s])
  have stopped: "4242 \<in> stopped_after (w_log (as_world ?s)) {}" using s0(2) by (simp add: stopped_after_def)
  have lets: "h_signal (w_host (as_world ?s)) SIGCONT 4242 = SignalDelivered" by (simp add: open_host_def)
  have rec: "stop_record (en_policy (as_engine ?s)) tx 4242 StatusExecuted" using s0(3) by simp
  obtain t where t: "\<forall>tx rec. tl_records ?led tx = Some rec \<longrightarrow> mr_Expiry rec < t" using all_expired [OF led, of 0] by blast
  obtain e' where e': "engine_sweep sorted_keys t (as_engine ?s) = Some e'"
    using sweep_result [OF sorted_keys.map_range_axioms led, of t] by (auto simp: engine_sweep_def)
  obtain e w where ew: "engine_checkExpired sorted_keys (demo_check\<lparr>si_listed := t\<rparr>) (as_engine ?s) (as_world ?s) = (e, w)" by fastforce
  have expired: "\<forall>tx rec. tl_records ?led tx = Some rec \<longrightarrow> mr_TargetPID rec = 4242 \<longrightarrow> mr_Status rec = StatusExecuted \<longrightarrow>
      mr_Expiry rec < t"
    using t by blast
  note fate = race_decides_fate [OF s sorted_keys.map_range_axioms rec expired stopped lets]
  have "4242 \<notin> stopped_after (w_log w) {}" using conjunct1 [OF fate, rule_format, OF _ ew] by simp
  moreover have "4242 \<in> stopped_after (w_log (as_world (?s\<lparr>as_engine := e', as_now := t\<rparr>))) {}"
    using conjunct2 [OF fate, rule_format, OF e' rtranclp.rtrancl_refl] by simp
  ultimately show ?thesis using s ew e' by blast
qed

end
