(* ===== verification/Interleaving.thy ===== *)
theory Interleaving
  imports System
begin

text \<open>
  The agent with its handlers in parts. The mitigator, the router and the rollback controller of
  \<open>src/internal/proxy/mitigator\<close>, \<open>router\<close> and \<open>rollback\<close> run in goroutines of their own and hold no
  lock over a whole handler: \<open>mitigateFromAlert\<close>, \<open>handleAlert\<close> and \<open>checkExpired\<close> are taken apart
  here at their calls of other components, and the goroutines run between any two parts. The turns
  of the other loops stay whole.
\<close>

section \<open>The parts of the mitigator's handler\<close>

definition target_intent :: "ConsolidatedAlert \<Rightarrow> TargetIdentifier \<Rightarrow> MitigationIntent" where
  "target_intent alert target =
     mit_intent (ti_PID target) (ti_ContainerID target) (ti_ProcessName target) (ap_AnomalyType (ca_Payload alert))"

text \<open>Where the handler is, with the local variables that it still needs.\<close>

datatype mit_phase =
    MitIdle
  | MitCounted ConsolidatedAlert TargetIdentifier int
  | MitRefused TargetIdentifier gostring
  | MitGranted ConsolidatedAlert TargetIdentifier gostring
  | MitActed ConsolidatedAlert TargetIdentifier gostring MechanismType gostring "go_error option"
  | MitSettled ConsolidatedAlert TargetIdentifier MechanismType gostring "go_error option"

text \<open>It takes an alert, looks at the process, and the policy engine counts its past actions.\<close>

definition mit_count :: "time_ns \<Rightarrow> Mitigator \<Rightarrow> World \<Rightarrow> ProfilerEngine \<Rightarrow> ProfilerEngine \<times> mit_phase" where
  "mit_count t m w e =
     (case mx_subs (en_alerter e) of
        (alert # rest) # subs \<Rightarrow>
          (let target = mit_target m (w_host w) alert
           in (e\<lparr>en_alerter := (en_alerter e)\<lparr>mx_subs := rest # subs\<rparr>\<rparr>,
               MitCounted alert target (HistoricalCount (pe_ledger (en_policy e)) t (ti_PID target))))
      | _ \<Rightarrow> (e, MitIdle))"

text \<open>The policy engine decides on the count and registers the transaction.\<close>

definition mit_decide ::
  "eval_inputs \<Rightarrow> ConsolidatedAlert \<Rightarrow> TargetIdentifier \<Rightarrow> int \<Rightarrow> ProfilerEngine \<Rightarrow> ProfilerEngine \<times> mit_phase" where
  "mit_decide x alert target n e =
     (let ((authorized, txID, polEvt), pol) = policy_commit (en_policy e) (target_intent alert target) n x
      in (e\<lparr>en_policy := pol\<rparr>,
          if \<not> authorized then MitRefused target (pv_LedgerTransactionID polEvt) else MitGranted alert target txID))"

text \<open>The action, its settlement in the policy ledger, and the report; or the report of a refusal.\<close>

fun mit_proceed ::
  "act_inputs \<Rightarrow> mit_phase \<Rightarrow> Mitigator \<Rightarrow> ProfilerEngine \<Rightarrow> World \<Rightarrow> ProfilerEngine \<times> World \<times> mit_phase" where
  "mit_proceed x (MitRefused target token) m e w =
     (e\<lparr>en_mitigator := Some (mit_emitEvent m
          (mit_event x target
             \<lparr>ax_Mechanism = NoMechanism, ax_SignalSent = '''', ax_Status = ActionStatusSkipped, ax_ExecutionDurationMs = 0\<rparr>
             (policy_IsWhitelisted (Some (en_policy e)) (ti_ContainerID target) (ti_ProcessName target)) token))\<rparr>, w, MitIdle)"
| "mit_proceed x (MitGranted alert target txID) m e w =
     (let ((mech, signalSent, actionErr), cm, w) = enforce (mg_cm m) w (ti_PID target) (ti_ContainerID target)
      in (e\<lparr>en_mitigator := Some (m\<lparr>mg_cm := cm\<rparr>)\<rparr>, w, MitActed alert target txID mech signalSent actionErr))"
| "mit_proceed x (MitActed alert target txID mech signalSent actionErr) m e w =
     (e\<lparr>en_policy := (case actionErr of
          None \<Rightarrow> ConfirmExecution (en_policy e) txID
        | Some err \<Rightarrow> Reject (en_policy e) txID (error_text err))\<rparr>, w, MitSettled alert target mech signalSent actionErr)"
| "mit_proceed x (MitSettled alert target mech signalSent actionErr) m e w =
     (e\<lparr>en_mitigator := Some (report_action m target (ap_AnomalyType (ca_Payload alert)) mech signalSent actionErr x)\<rparr>, w, MitIdle)"
| "mit_proceed x phase m e w = (e, w, phase)"

section \<open>The parts of the router's handler\<close>

datatype router_phase =
    RouterIdle
  | RouterCounted AlertTrigger int
  | RouterGranted AlertTrigger gostring
  | RouterConfirmed AlertTrigger
  | RouterLooked AlertTrigger bool

definition trigger_intent :: "AlertTrigger \<Rightarrow> MitigationIntent" where
  "trigger_intent a = router_intent (at_PID a) (remedyForAnomaly (at_AnomalyType a)) (at_AnomalyType a)"

definition router_count :: "time_ns \<Rightarrow> ProfilerEngine \<Rightarrow> ProfilerEngine \<times> router_phase" where
  "router_count t e =
     (case en_routerAlertCh e of
        [] \<Rightarrow> (e, RouterIdle)
      | a # rest \<Rightarrow>
          (e\<lparr>en_routerAlertCh := rest\<rparr>,
           if remedyForAnomaly (at_AnomalyType a) = RemedyNone then RouterIdle
           else RouterCounted a (HistoricalCount (pe_ledger (en_policy e)) t (at_PID a))))"

definition router_decide :: "eval_inputs \<Rightarrow> AlertTrigger \<Rightarrow> int \<Rightarrow> ProfilerEngine \<Rightarrow> ProfilerEngine \<times> router_phase" where
  "router_decide x a n e =
     (let ((authorized, txID, polEvt), pol) = policy_commit (en_policy e) (trigger_intent a) n x
      in (e\<lparr>en_policy := pol\<rparr>, if \<not> authorized then RouterIdle else RouterGranted a txID))"

text \<open>The confirmation, the look at the registry, and the change of it according to what was seen.\<close>

fun router_proceed :: "time_ns \<Rightarrow> router_phase \<Rightarrow> Router \<Rightarrow> ProfilerEngine \<Rightarrow> ProfilerEngine \<times> router_phase" where
  "router_proceed t (RouterGranted a txID) r e = (e\<lparr>en_policy := ConfirmExecution (en_policy e) txID\<rparr>, RouterConfirmed a)"
| "router_proceed t (RouterConfirmed a) r e =
     (let (st, reg) = Lookup (rt_reg r) (at_PID a) t
      in (e\<lparr>en_router := Some (r\<lparr>rt_reg := reg\<rparr>)\<rparr>, RouterLooked a (st \<noteq> None)))"
| "router_proceed t (RouterLooked a found) r e =
     (e\<lparr>en_router := Some (r\<lparr>rt_reg :=
          (if found then RefreshAlert (rt_reg r) (at_PID a) t
           else Activate (rt_reg r) (at_PID a) (remedyForAnomaly (at_AnomalyType a)) '''' t)\<rparr>)\<rparr>, RouterIdle)"
| "router_proceed t phase r e = (e, phase)"

section \<open>The parts of a rollback\<close>

datatype rollback_phase =
    RollIdle
  | RollBusy "MitigationRecord list" "ReconciliationDetail list" nat
  | RollUndone MitigationRecord LedgerState "MitigationRecord list" "ReconciliationDetail list" nat

definition with_shared :: "ProfilerEngine \<Rightarrow> Shared \<Rightarrow> ProfilerEngine" where
  "with_shared e sh = e\<lparr>en_mitigator := Some (sh_mit sh), en_policy := sh_policy sh,
     en_router := map_option (\<lambda>r. r\<lparr>rt_reg := sh_reg sh\<rparr>) (en_router e)\<rparr>"

text \<open>The list of expired records; for each its undoing and then its completion; the event.\<close>

fun rollback_proceed ::
  "record_order \<Rightarrow> sync_inputs \<Rightarrow> rollback_phase \<Rightarrow> RollbackController \<Rightarrow> Mitigator \<Rightarrow> ProfilerEngine \<Rightarrow> World
   \<Rightarrow> ProfilerEngine \<times> World \<times> rollback_phase" where
  "rollback_proceed ord x RollIdle k m e w =
     (let records = ListExecutedExpired ord (pe_ledger (en_policy e)) (si_listed x)
      in (e, w, if length records = 0 then RollIdle else RollBusy records [] (length records)))"
| "rollback_proceed ord x (RollBusy [] details n) k m e w =
     (if length details = 0 then e else e\<lparr>en_rollback := Some (rollback_emitEvent k (sync_event x n False details))\<rparr>, w, RollIdle)"
| "rollback_proceed ord x (RollBusy (rec # records) details n) k m e w =
     (let (r, sh) = undo_action (engine_shared e m w) rec
      in (with_shared e sh, sh_world sh,
          case r of Inl _ \<Rightarrow> RollBusy records details n | Inr prevState \<Rightarrow> RollUndone rec prevState records details n))"
| "rollback_proceed ord x (RollUndone rec prevState records details n) k m e w =
     (e\<lparr>en_policy := Complete (en_policy e) (mr_TransactionID rec)\<rparr>, w,
      RollBusy records (details @ [rollback_detail rec prevState]) n)"

section \<open>The step relation\<close>

record FineState =
  fi_agent :: AgentState
  fi_mit :: mit_phase
  fi_router :: router_phase
  fi_rollback :: rollback_phase

abbreviation fi_engine :: "FineState \<Rightarrow> ProfilerEngine" where
  "fi_engine f \<equiv> as_engine (fi_agent f)"

abbreviation fi_world :: "FineState \<Rightarrow> World" where
  "fi_world f \<equiv> as_world (fi_agent f)"

text \<open>The steps that stay whole.\<close>

inductive whole_turn :: "AgentState \<Rightarrow> AgentState \<Rightarrow> bool" where
  whole_host: "whole_turn s (s\<lparr>as_world := (as_world s)\<lparr>w_host := h\<rparr>\<rparr>)"
| whole_clock: "as_now s \<le> t \<Longrightarrow> whole_turn s (s\<lparr>as_now := t\<rparr>)"
| whole_wire: "wire_step (as_engine s) e \<Longrightarrow> whole_turn s (s\<lparr>as_engine := e\<rparr>)"
| whole_sweep: "as_now s \<le> t \<Longrightarrow> map_range ord \<Longrightarrow> engine_sweep ord t (as_engine s) = Some e \<Longrightarrow>
    whole_turn s (s\<lparr>as_engine := e, as_now := t\<rparr>)"
| whole_analysis: "whole_turn s (s\<lparr>as_engine := engine_analysis ord t (as_engine s)\<rparr>)"
| whole_profilerGC: "map_range ord \<Longrightarrow> whole_turn s (s\<lparr>as_engine := engine_profilerGC ord t (as_engine s)\<rparr>)"
| whole_reconcile: "whole_turn s (s\<lparr>as_engine := engine_reconcile eord x (w_host (as_world s)) (as_engine s)\<rparr>)"

inductive fine_step :: "FineState \<Rightarrow> FineState \<Rightarrow> bool" where
  fine_whole: "whole_turn (fi_agent f) s' \<Longrightarrow> fine_step f (f\<lparr>fi_agent := s'\<rparr>)"
| fine_mit_count: "fi_mit f = MitIdle \<Longrightarrow> as_now (fi_agent f) \<le> t \<Longrightarrow> en_mitigator (fi_engine f) = Some m \<Longrightarrow>
    mit_count t m (fi_world f) (fi_engine f) = (e, p) \<Longrightarrow>
    fine_step f (f\<lparr>fi_agent := (fi_agent f)\<lparr>as_engine := e, as_now := t\<rparr>, fi_mit := p\<rparr>)"
| fine_mit_decide: "fi_mit f = MitCounted alert target n \<Longrightarrow> as_now (fi_agent f) \<le> ei_tr x \<Longrightarrow>
    unused_tx x (fi_engine f) \<Longrightarrow> mit_decide x alert target n (fi_engine f) = (e, p) \<Longrightarrow>
    fine_step f (f\<lparr>fi_agent := (fi_agent f)\<lparr>as_engine := e, as_now := ei_tr x\<rparr>, fi_mit := p\<rparr>)"
| fine_mit_proceed: "en_mitigator (fi_engine f) = Some m \<Longrightarrow>
    mit_proceed x (fi_mit f) m (fi_engine f) (fi_world f) = (e, w, p) \<Longrightarrow>
    fine_step f (f\<lparr>fi_agent := (fi_agent f)\<lparr>as_engine := e, as_world := w\<rparr>, fi_mit := p\<rparr>)"
| fine_router_count: "fi_router f = RouterIdle \<Longrightarrow> as_now (fi_agent f) \<le> t \<Longrightarrow> en_router (fi_engine f) = Some r \<Longrightarrow>
    router_count t (fi_engine f) = (e, rp) \<Longrightarrow>
    fine_step f (f\<lparr>fi_agent := (fi_agent f)\<lparr>as_engine := e, as_now := t\<rparr>, fi_router := rp\<rparr>)"
| fine_router_decide: "fi_router f = RouterCounted a n \<Longrightarrow> as_now (fi_agent f) \<le> ei_tr x \<Longrightarrow>
    unused_tx x (fi_engine f) \<Longrightarrow> router_decide x a n (fi_engine f) = (e, rp) \<Longrightarrow>
    fine_step f (f\<lparr>fi_agent := (fi_agent f)\<lparr>as_engine := e, as_now := ei_tr x\<rparr>, fi_router := rp\<rparr>)"
| fine_router_proceed: "en_router (fi_engine f) = Some r \<Longrightarrow> router_proceed t (fi_router f) r (fi_engine f) = (e, rp) \<Longrightarrow>
    fine_step f (f\<lparr>fi_agent := (fi_agent f)\<lparr>as_engine := e\<rparr>, fi_router := rp\<rparr>)"
| fine_rollback: "en_rollback (fi_engine f) = Some k \<Longrightarrow> en_mitigator (fi_engine f) = Some m \<Longrightarrow>
    rollback_proceed ord x (fi_rollback f) k m (fi_engine f) (fi_world f) = (e, w, kp) \<Longrightarrow>
    fine_step f (f\<lparr>fi_agent := (fi_agent f)\<lparr>as_engine := e, as_world := w\<rparr>, fi_rollback := kp\<rparr>)"

text \<open>The agent with all three handlers at rest.\<close>

definition at_rest :: "AgentState \<Rightarrow> FineState" where
  "at_rest s = \<lparr>fi_agent = s, fi_mit = MitIdle, fi_router = RouterIdle, fi_rollback = RollIdle\<rparr>"

inductive fine_reach :: "Config \<Rightarrow> FineState \<Rightarrow> bool" for cfg where
  fine_start: "NewEngine pt cfg now = Some e \<Longrightarrow> engine_Start e attached gpuErr = Some e' \<Longrightarrow>
    fine_reach cfg (at_rest \<lparr>as_engine = e', as_world = \<lparr>w_host = h, w_log = []\<rparr>, as_now = now\<rparr>)"
| fine_next: "fine_reach cfg f \<Longrightarrow> fine_step f f' \<Longrightarrow> fine_reach cfg f'"

section \<open>What every step keeps\<close>

text \<open>The two callers of the policy engine, and which of them has counted without having registered.\<close>

datatype caller = Mitigating | Routing

definition policy_callers :: "Config \<Rightarrow> caller set" where
  "policy_callers cfg = (if cf_MitigationEnabled cfg then {Mitigating} else {}) \<union> (if cf_RouterEnabled cfg then {Routing} else {})"

fun mit_flight :: "mit_phase \<Rightarrow> (MitigationIntent \<times> int) option" where
  "mit_flight (MitCounted alert target n) = Some (target_intent alert target, n)"
| "mit_flight phase = None"

fun router_flight :: "router_phase \<Rightarrow> (MitigationIntent \<times> int) option" where
  "router_flight (RouterCounted a n) = Some (trigger_intent a, n)"
| "router_flight phase = None"

definition in_flight :: "(MitigationIntent \<times> int) option \<Rightarrow> (MitigationIntent \<times> int) option \<Rightarrow> caller calls" where
  "in_flight mf rf = (\<lambda>c. case c of Mitigating \<Rightarrow> mf | Routing \<Rightarrow> rf)"

lemma in_flight_at [simp]: "in_flight mf rf Mitigating = mf" "in_flight mf rf Routing = rf"
  by (simp_all add: in_flight_def)

lemma in_flight_upd [simp]:
  "(in_flight mf rf)(Mitigating := mf') = in_flight mf' rf" "(in_flight mf rf)(Routing := rf') = in_flight mf rf'"
  by (auto simp: in_flight_def fun_eq_iff split: caller.splits)

lemma in_flight_none: "in_flight None None = Map.empty"
  by (auto simp: in_flight_def fun_eq_iff split: caller.splits)

lemma callers_finite [simp]: "finite (policy_callers cfg)"
  by (simp add: policy_callers_def)

text \<open>What the mitigator's local variables promise: an authorised target, and that the action they report took place.\<close>

fun mit_ready :: "PolicyConfig \<Rightarrow> (Attempt \<times> bool) list \<Rightarrow> mit_phase \<Rightarrow> bool" where
  "mit_ready pcfg alog (MitGranted alert target txID) \<longleftrightarrow> pid_floor pcfg \<le> ti_PID target"
| "mit_ready pcfg alog (MitActed alert target txID mech sent err) \<longleftrightarrow>
     (err = None \<longrightarrow> acted (ti_PID target) (ti_ContainerID target) mech alog)"
| "mit_ready pcfg alog (MitSettled alert target mech sent err) \<longleftrightarrow>
     (err = None \<longrightarrow> acted (ti_PID target) (ti_ContainerID target) mech alog)"
| "mit_ready pcfg alog phase \<longleftrightarrow> True"

lemma mit_ready_mono: "mit_ready pcfg alog p \<Longrightarrow> mit_ready pcfg (alog @ new) p"
  by (cases p) (auto simp: acted_def)

text \<open>The policy engine between its calls; the mitigator and the log between the parts of its handler.\<close>

definition shared_ok :: "Config \<Rightarrow> AgentState \<Rightarrow> mit_phase \<Rightarrow> router_phase \<Rightarrow> bool" where
  "shared_ok cfg s p rp \<longleftrightarrow> shared_reach (engine_policy_config cfg) (policy_callers cfg) (as_now s)
     (en_policy (as_engine s)) (in_flight (mit_flight p) (router_flight rp))"

fun acting :: "Config \<Rightarrow> PolicyEngine \<Rightarrow> Mitigator option \<Rightarrow> (Attempt \<times> bool) list \<Rightarrow> mit_phase \<Rightarrow> bool" where
  "acting cfg pol None alog p \<longleftrightarrow> alog = []"
| "acting cfg pol (Some m) alog p \<longleftrightarrow>
     enforce_reach (engine_policy_config cfg) (engine_mitigator_config cfg) pol m alog \<and> mit_ready (engine_policy_config cfg) alog p"

definition acting_ok :: "Config \<Rightarrow> AgentState \<Rightarrow> mit_phase \<Rightarrow> bool" where
  "acting_ok cfg s p \<longleftrightarrow> acting cfg (en_policy (as_engine s)) (en_mitigator (as_engine s)) (w_log (as_world s)) p"

lemma acting_ok_now [simp]:
  "acting_ok cfg (s\<lparr>as_now := t\<rparr>) p = acting_ok cfg s p"
  "acting_ok cfg (s\<lparr>as_engine := e, as_now := t\<rparr>) p = acting_ok cfg (s\<lparr>as_engine := e\<rparr>) p"
  "acting_ok cfg (s\<lparr>as_world := (as_world s)\<lparr>w_host := h\<rparr>\<rparr>) p = acting_ok cfg s p"
  by (simp_all add: acting_ok_def)

definition present_ok :: "Config \<Rightarrow> ProfilerEngine \<Rightarrow> bool" where
  "present_ok cfg e \<longleftrightarrow> (en_mitigator e = None \<longleftrightarrow> \<not> cf_MitigationEnabled cfg) \<and> (en_router e = None \<longleftrightarrow> \<not> cf_RouterEnabled cfg)"

definition fine_ok :: "Config \<Rightarrow> FineState \<Rightarrow> bool" where
  "fine_ok cfg f \<longleftrightarrow> shared_ok cfg (fi_agent f) (fi_mit f) (fi_router f) \<and> acting_ok cfg (fi_agent f) (fi_mit f) \<and>
     present_ok cfg (fi_engine f)"

lemma shared_policy_ok: "shared_ok cfg s p rp \<Longrightarrow> policy_ok (engine_policy_config cfg) (en_policy (as_engine s))"
  using shared_reach_inv [of "engine_policy_config cfg" "policy_callers cfg"] by (simp add: shared_ok_def shared_inv_def)

text \<open>Whatever leaves the rules of the policy engine, the mitigator and the log alone.\<close>

lemma acting_policy:
  assumes "acting_ok cfg s p" "pe_evaluator (en_policy (as_engine s')) = pe_evaluator (en_policy (as_engine s))"
    and "en_mitigator (as_engine s') = en_mitigator (as_engine s)" "w_log (as_world s') = w_log (as_world s)"
    and "mit_ready (engine_policy_config cfg) (w_log (as_world s)) p \<Longrightarrow> mit_ready (engine_policy_config cfg) (w_log (as_world s)) p'"
  shows "acting_ok cfg s' p'"
  using assms by (cases "en_mitigator (as_engine s)") (auto simp: acting_ok_def intro: enforce_reach_policy)

lemma fine_ok_wire:
  assumes "wire_step (as_engine s) e" "shared_ok cfg s p rp" "acting_ok cfg s p" "present_ok cfg (as_engine s)"
  shows "shared_ok cfg (s\<lparr>as_engine := e\<rparr>) p rp \<and> acting_ok cfg (s\<lparr>as_engine := e\<rparr>) p \<and> present_ok cfg e"
proof -
  have f: "policy_read (en_policy (as_engine s)) (en_policy e)" "mitigator_read (en_mitigator (as_engine s)) (en_mitigator e)"
    "en_router e = None \<longleftrightarrow> en_router (as_engine s) = None"
    using wire_step_frame [OF assms(1)] by simp_all
  have sh: "shared_ok cfg (s\<lparr>as_engine := e\<rparr>) p rp"
    using f(1) assms(2) by (auto simp: shared_ok_def policy_read_def intro: sh_observe)
  have "acting_ok cfg (s\<lparr>as_engine := (as_engine s)\<lparr>en_policy := en_policy e\<rparr>\<rparr>) p"
    by (rule acting_policy [OF assms(3)]) (use policy_read_evaluator [OF f(1)] in simp_all)
  then have "acting_ok cfg (s\<lparr>as_engine := e\<rparr>) p"
    using f(2) unfolding mitigator_read_def by (elim disjE exE conjE) (auto simp: acting_ok_def intro: er_event)
  then show ?thesis using sh f(2,3) assms(4) by (auto simp: present_ok_def mitigator_read_def)
qed

lemma fine_ok_reconcile:
  assumes "shared_ok cfg s p rp" "acting_ok cfg s p" "present_ok cfg (as_engine s)" "e = engine_reconcile ord x h (as_engine s)"
  shows "shared_ok cfg (s\<lparr>as_engine := e\<rparr>) p rp \<and> acting_ok cfg (s\<lparr>as_engine := e\<rparr>) p \<and> present_ok cfg e"
proof -
  let ?e = "as_engine s"
  consider (idle) "e = ?e" | (reconcile) k m where "en_rollback ?e = Some k" "en_mitigator ?e = Some m"
    using assms(4) by (cases "en_rollback ?e"; cases "en_mitigator ?e") (simp_all add: engine_reconcile_def)
  then show ?thesis
  proof cases
    case idle
    then show ?thesis using assms(1-3) by simp
  next
    case reconcile
    obtain k' m' where r: "reconcileOnce ord k h m x = (k', m')" by fastforce
    have "enforce_reach (engine_policy_config cfg) (engine_mitigator_config cfg) (en_policy ?e) m' (w_log (as_world s))"
      by (rule reconcileOnce_reach [OF r]) (use assms(2) reconcile in \<open>simp add: acting_ok_def\<close>)
    moreover have "e = ?e\<lparr>en_rollback := Some k', en_mitigator := Some m'\<rparr>"
      using reconcile r assms(4) by (simp add: engine_reconcile_def)
    ultimately show ?thesis
      using reconcile assms(1-3) by (simp add: shared_ok_def acting_ok_def present_ok_def)
  qed
qed

lemma fine_ok_whole:
  assumes "whole_turn s s'" "shared_ok cfg s p rp" "acting_ok cfg s p" "present_ok cfg (as_engine s)"
  shows "shared_ok cfg s' p rp \<and> acting_ok cfg s' p \<and> present_ok cfg (as_engine s')"
  using assms(1)
proof cases
  case (whole_host h)
  then show ?thesis using assms(2-4) by (simp add: shared_ok_def)
next
  case (whole_clock t)
  then show ?thesis using assms(2-4) by (auto simp: shared_ok_def intro: sh_wait)
next
  case (whole_wire e)
  then show ?thesis using fine_ok_wire [OF whole_wire(2) assms(2-4)] by simp
next
  case (whole_sweep t ord e)
  obtain led where led: "sweep ord t (pe_ledger (en_policy (as_engine s))) = Some led"
    "e = (as_engine s)\<lparr>en_policy := (en_policy (as_engine s))\<lparr>pe_ledger := led\<rparr>\<rparr>"
    using whole_sweep(4) by (auto simp: engine_sweep_def)
  have "shared_ok cfg s' p rp"
    using sh_sweep [OF assms(2) [unfolded shared_ok_def] whole_sweep(2,3) led(1)] by (simp add: shared_ok_def whole_sweep(1) led(2))
  moreover have "acting_ok cfg s' p"
    by (rule acting_policy [OF assms(3)]) (simp_all add: whole_sweep(1) led(2))
  ultimately show ?thesis using assms(4) by (simp add: whole_sweep(1) led(2) present_ok_def)
next
  case (whole_analysis ord t)
  then show ?thesis using assms(2-4) by (simp add: shared_ok_def acting_ok_def present_ok_def engine_analysis_def)
next
  case (whole_profilerGC ord t)
  then show ?thesis using assms(2-4) by (simp add: shared_ok_def acting_ok_def present_ok_def engine_profilerGC_def)
next
  case (whole_reconcile eord x)
  then show ?thesis using fine_ok_reconcile [OF assms(2-4) refl, of eord x] by simp
qed

lemma fine_ok_mit_count:
  assumes "mit_count t m (as_world s) (as_engine s) = (e, p)" "as_now s \<le> t" "en_mitigator (as_engine s) = Some m"
    and "shared_ok cfg s MitIdle rp" "acting_ok cfg s MitIdle" "present_ok cfg (as_engine s)"
  shows "shared_ok cfg (s\<lparr>as_engine := e, as_now := t\<rparr>) p rp \<and> acting_ok cfg (s\<lparr>as_engine := e, as_now := t\<rparr>) p \<and> present_ok cfg e"
proof -
  consider (idle) "e = as_engine s" "p = MitIdle"
    | (alert) alert rest subs where "mx_subs (en_alerter (as_engine s)) = (alert # rest) # subs"
    using assms(1) by (auto simp: mit_count_def split: list.splits)
  then show ?thesis
  proof cases
    case idle
    then show ?thesis using assms(2,4-6) by (auto simp: shared_ok_def intro: sh_wait)
  next
    case alert
    let ?target = "mit_target m (w_host (as_world s)) alert"
    have e: "e = (as_engine s)\<lparr>en_alerter := (en_alerter (as_engine s))\<lparr>mx_subs := rest # subs\<rparr>\<rparr>"
      "p = MitCounted alert ?target (HistoricalCount (pe_ledger (en_policy (as_engine s))) t (ti_PID ?target))"
      using assms(1) alert by (simp_all add: mit_count_def Let_def)
    have "Mitigating \<in> policy_callers cfg" using assms(3,6) by (auto simp: present_ok_def policy_callers_def)
    from sh_count [OF assms(4) [unfolded shared_ok_def] assms(2) this, of "target_intent alert ?target"]
    have "shared_ok cfg (s\<lparr>as_engine := e, as_now := t\<rparr>) p rp"
      by (simp add: shared_ok_def e target_intent_def mit_intent_def)
    moreover have "acting_ok cfg (s\<lparr>as_engine := e, as_now := t\<rparr>) p"
      by (rule acting_policy [OF assms(5)]) (simp_all add: e)
    ultimately show ?thesis using assms(6) by (simp add: e present_ok_def)
  qed
qed

lemma fine_ok_mit_decide:
  assumes "mit_decide x alert target n (as_engine s) = (e, p)" "as_now s \<le> ei_tr x" "unused_tx x (as_engine s)"
    and "shared_ok cfg s (MitCounted alert target n) rp" "acting_ok cfg s (MitCounted alert target n)" "present_ok cfg (as_engine s)"
  shows "shared_ok cfg (s\<lparr>as_engine := e, as_now := ei_tr x\<rparr>) p rp \<and> acting_ok cfg (s\<lparr>as_engine := e, as_now := ei_tr x\<rparr>) p \<and>
    present_ok cfg e"
proof -
  let ?pol = "en_policy (as_engine s)" and ?i = "target_intent alert target"
  obtain ok tx ev pol where c: "policy_commit ?pol ?i n x = ((ok, tx, ev), pol)" by (metis prod.collapse)
  have e: "e = (as_engine s)\<lparr>en_policy := pol\<rparr>"
    "p = (if \<not> ok then MitRefused target (pv_LedgerTransactionID ev) else MitGranted alert target tx)"
    using assms(1) c by (auto simp: mit_decide_def)
  have pol: "pol = snd (policy_commit ?pol ?i n x)" "ok = granted ?pol ?i n"
    using c policy_commit_answer(1) [of ?pol ?i n x] by simp_all
  have "shared_reach (engine_policy_config cfg) (policy_callers cfg) (ei_tr x) pol
      ((in_flight (mit_flight (MitCounted alert target n)) (router_flight rp))(Mitigating := None))"
    unfolding pol(1) by (rule sh_commit [OF assms(4) [unfolded shared_ok_def] assms(2)]) (use assms(3) in \<open>simp_all add: unused_tx_def\<close>)
  then have "shared_ok cfg (s\<lparr>as_engine := e, as_now := ei_tr x\<rparr>) p rp" by (simp add: shared_ok_def e)
  moreover have "ok \<Longrightarrow> pid_floor (engine_policy_config cfg) \<le> ti_PID target"
    using granted_unprotected [OF shared_policy_ok [OF assms(4)], of ?i n] pol(2)
    by (simp add: pid_floor_def NewRuleEvaluator_def Let_def target_intent_def mit_intent_def)
  then have "acting_ok cfg (s\<lparr>as_engine := e, as_now := ei_tr x\<rparr>) p"
    by (intro acting_policy [OF assms(5)]) (simp_all add: e pol(1))
  ultimately show ?thesis using assms(6) by (simp add: e present_ok_def)
qed

lemma shared_settle:
  assumes "shared_ok cfg s p rp" "en_policy e = policy_gate.settle (en_policy (as_engine s)) tx r"
    and "mit_flight p' = mit_flight p" "router_flight rp' = router_flight rp"
  shows "shared_ok cfg (s\<lparr>as_engine := e\<rparr>) p' rp'"
  using assms by (auto simp: shared_ok_def policy_gate.settle_def ConfirmExecution_def Reject_def split: option.splits intro: sh_status)

lemma settle_cases:
  "(case err of None \<Rightarrow> ConfirmExecution pol tx | Some er \<Rightarrow> Reject pol tx (error_text er)) =
     policy_gate.settle pol tx (map_option error_text err)"
  by (simp add: policy_gate.settle_def split: option.splits)

lemma fine_ok_mit_proceed:
  assumes "mit_proceed x p m (as_engine s) (as_world s) = (e, w, p')" "en_mitigator (as_engine s) = Some m"
    and "shared_ok cfg s p rp" "acting_ok cfg s p" "present_ok cfg (as_engine s)"
  shows "shared_ok cfg (s\<lparr>as_engine := e, as_world := w\<rparr>) p' rp \<and> acting_ok cfg (s\<lparr>as_engine := e, as_world := w\<rparr>) p' \<and> present_ok cfg e"
proof -
  let ?pol = "en_policy (as_engine s)" and ?pcfg = "engine_policy_config cfg" and ?mcfg = "engine_mitigator_config cfg"
  have act: "enforce_reach ?pcfg ?mcfg ?pol m (w_log (as_world s))" "mit_ready ?pcfg (w_log (as_world s)) p"
    using assms(2,4) by (simp_all add: acting_ok_def)
  note sh = assms(3) [unfolded shared_ok_def]
  show ?thesis
  proof (cases p)
    case (MitRefused target token)
    then show ?thesis
      using assms(1,2,5) sh er_refuse [OF act(1)] by (auto simp: shared_ok_def acting_ok_def present_ok_def)
  next
    case (MitGranted alert target txID)
    obtain mech sent err cm w' where en: "enforce (mg_cm m) (as_world s) (ti_PID target) (ti_ContainerID target) = ((mech, sent, err), cm, w')"
      by (metis prod.collapse)
    have e: "e = (as_engine s)\<lparr>en_mitigator := Some (m\<lparr>mg_cm := cm\<rparr>)\<rparr>" "w = w'" "p' = MitActed alert target txID mech sent err"
      using assms(1) MitGranted en by simp_all
    have v: "\<lparr>w_host = w_host (as_world s), w_log = w_log (as_world s)\<rparr> = as_world s" by simp
    have "re_pidThreshold (pe_evaluator ?pol) \<le> ti_PID target"
      using enforce_reach_inv [OF act(1)] act(2) MitGranted by (simp add: enforce_inv_def)
    then have "enforce_reach ?pcfg ?mcfg ?pol (m\<lparr>mg_cm := cm\<rparr>) (w_log w')"
      by (rule er_enforce [OF act(1), of _ "w_host (as_world s)", unfolded v, OF _ en])
    moreover have "err = None \<longrightarrow> acted (ti_PID target) (ti_ContainerID target) mech (w_log w')"
      using enforce_log [OF en] by (auto simp: acted_def)
    ultimately show ?thesis
      using assms(2,5) sh MitGranted by (simp add: e shared_ok_def acting_ok_def present_ok_def)
  next
    case (MitActed alert target txID mech sent err)
    have e: "e = (as_engine s)\<lparr>en_policy := policy_gate.settle ?pol txID (map_option error_text err)\<rparr>" "w = as_world s"
      "p' = MitSettled alert target mech sent err"
      using assms(1) MitActed by (auto simp: settle_cases)
    have "shared_ok cfg (s\<lparr>as_engine := e\<rparr>) p' rp"
      by (rule shared_settle [OF assms(3)]) (simp_all add: e MitActed)
    moreover have "acting_ok cfg (s\<lparr>as_engine := e\<rparr>) p'"
      by (rule acting_policy [OF assms(4)]) (simp_all add: e MitActed)
    ultimately show ?thesis using assms(5) by (simp add: e(2)) (simp add: e(1) present_ok_def)
  next
    case (MitSettled alert target mech sent err)
    then have "enforce_reach ?pcfg ?mcfg ?pol (report_action m target (ap_AnomalyType (ca_Payload alert)) mech sent err x) (w_log (as_world s))"
      using act(2) by (intro er_report [OF act(1)]) simp
    then show ?thesis
      using assms(1,2,5) sh MitSettled by (auto simp: shared_ok_def acting_ok_def present_ok_def)
  qed (use assms in auto)
qed

lemma fine_ok_router_count:
  assumes "router_count t (as_engine s) = (e, rp)" "as_now s \<le> t" "en_router (as_engine s) = Some r"
    and "shared_ok cfg s p RouterIdle" "acting_ok cfg s p" "present_ok cfg (as_engine s)"
  shows "shared_ok cfg (s\<lparr>as_engine := e, as_now := t\<rparr>) p rp \<and> acting_ok cfg (s\<lparr>as_engine := e, as_now := t\<rparr>) p \<and> present_ok cfg e"
proof (cases "en_routerAlertCh (as_engine s)")
  case Nil
  then show ?thesis using assms by (auto simp: router_count_def shared_ok_def intro: sh_wait)
next
  case (Cons a rest)
  have e: "e = (as_engine s)\<lparr>en_routerAlertCh := rest\<rparr>"
    "rp = RouterCounted a (HistoricalCount (pe_ledger (en_policy (as_engine s))) t (at_PID a))"
    using assms(1) Cons remedyForAnomaly_some by (auto simp: router_count_def)
  have "Routing \<in> policy_callers cfg" using assms(3,6) by (auto simp: present_ok_def policy_callers_def)
  from sh_count [OF assms(4) [unfolded shared_ok_def] assms(2) this, of "trigger_intent a"]
  have "shared_ok cfg (s\<lparr>as_engine := e, as_now := t\<rparr>) p rp"
    by (simp add: shared_ok_def e trigger_intent_def router_intent_def)
  moreover have "acting_ok cfg (s\<lparr>as_engine := e, as_now := t\<rparr>) p"
    by (rule acting_policy [OF assms(5)]) (simp_all add: e)
  ultimately show ?thesis using assms(6) by (simp add: e present_ok_def)
qed

lemma fine_ok_router_decide:
  assumes "router_decide x a n (as_engine s) = (e, rp)" "as_now s \<le> ei_tr x" "unused_tx x (as_engine s)"
    and "shared_ok cfg s p (RouterCounted a n)" "acting_ok cfg s p" "present_ok cfg (as_engine s)"
  shows "shared_ok cfg (s\<lparr>as_engine := e, as_now := ei_tr x\<rparr>) p rp \<and> acting_ok cfg (s\<lparr>as_engine := e, as_now := ei_tr x\<rparr>) p \<and>
    present_ok cfg e"
proof -
  let ?pol = "en_policy (as_engine s)" and ?i = "trigger_intent a"
  obtain ok tx ev pol where c: "policy_commit ?pol ?i n x = ((ok, tx, ev), pol)" by (metis prod.collapse)
  have e: "e = (as_engine s)\<lparr>en_policy := pol\<rparr>" "rp = (if \<not> ok then RouterIdle else RouterGranted a tx)"
    using assms(1) c by (auto simp: router_decide_def)
  have pol: "pol = snd (policy_commit ?pol ?i n x)" using c by simp
  have "shared_reach (engine_policy_config cfg) (policy_callers cfg) (ei_tr x) pol
      ((in_flight (mit_flight p) (router_flight (RouterCounted a n)))(Routing := None))"
    unfolding pol by (rule sh_commit [OF assms(4) [unfolded shared_ok_def] assms(2)]) (use assms(3) in \<open>simp_all add: unused_tx_def\<close>)
  then have "shared_ok cfg (s\<lparr>as_engine := e, as_now := ei_tr x\<rparr>) p rp" by (simp add: shared_ok_def e)
  moreover have "acting_ok cfg (s\<lparr>as_engine := e, as_now := ei_tr x\<rparr>) p"
    by (rule acting_policy [OF assms(5)]) (simp_all add: e pol)
  ultimately show ?thesis using assms(6) by (simp add: e present_ok_def)
qed

lemma fine_ok_router_proceed:
  assumes "router_proceed t rp r (as_engine s) = (e, rp')" "en_router (as_engine s) = Some r"
    and "shared_ok cfg s p rp" "acting_ok cfg s p" "present_ok cfg (as_engine s)"
  shows "shared_ok cfg (s\<lparr>as_engine := e\<rparr>) p rp' \<and> acting_ok cfg (s\<lparr>as_engine := e\<rparr>) p \<and> present_ok cfg e"
proof -
  have "en_mitigator e = en_mitigator (as_engine s) \<and> en_router e \<noteq> None \<and> router_flight rp' = router_flight rp \<and>
      (en_policy e = en_policy (as_engine s) \<or> (\<exists>tx. en_policy e = policy_gate.settle (en_policy (as_engine s)) tx None))"
    using assms(1,2) by (cases rp) (auto simp: policy_gate.settle_def split: prod.splits)
  then have e: "en_mitigator e = en_mitigator (as_engine s)" "en_router e \<noteq> None" "router_flight rp' = router_flight rp"
    "en_policy e = en_policy (as_engine s) \<or> (\<exists>tx. en_policy e = policy_gate.settle (en_policy (as_engine s)) tx None)"
    by blast+
  from e(4) have "shared_ok cfg (s\<lparr>as_engine := e\<rparr>) p rp' \<and> pe_evaluator (en_policy e) = pe_evaluator (en_policy (as_engine s))"
  proof (elim disjE exE)
    assume "en_policy e = en_policy (as_engine s)"
    then show ?thesis using assms(3) e(3) by (simp add: shared_ok_def)
  next
    fix tx
    assume "en_policy e = policy_gate.settle (en_policy (as_engine s)) tx None"
    with shared_settle [OF assms(3) this refl e(3)] show ?thesis by simp
  qed
  then show ?thesis
    using e(1,2) assms(2,4,5) acting_policy [OF assms(4), of "s\<lparr>as_engine := e\<rparr>" p] by (simp add: present_ok_def)
qed

lemma fine_ok_rollback:
  assumes "rollback_proceed ord x kp k m (as_engine s) (as_world s) = (e, w, kp')" "en_mitigator (as_engine s) = Some m"
    and "shared_ok cfg s p rp" "acting_ok cfg s p" "present_ok cfg (as_engine s)"
  shows "shared_ok cfg (s\<lparr>as_engine := e, as_world := w\<rparr>) p rp \<and> acting_ok cfg (s\<lparr>as_engine := e, as_world := w\<rparr>) p \<and> present_ok cfg e"
proof (cases "(ord, x, kp, k, m, as_engine s, as_world s)" rule: rollback_proceed.cases)
  case (3 ord' x' rec records details n k' m' e' w')
  let ?sh = "engine_shared (as_engine s) m (as_world s)"
  obtain r sh where u: "undo_action ?sh rec = (r, sh)" by (metis prod.collapse)
  have e: "e = with_shared (as_engine s) sh" "w = sh_world sh" using assms(1) 3 u by simp_all
  have sh: "sh_policy ?sh = en_policy (as_engine s)" "sh_mit ?sh = m" "sh_world ?sh = as_world s" by (simp_all add: engine_shared_def)
  have "sh_policy sh = en_policy (as_engine s) \<and>
      enforce_reach (engine_policy_config cfg) (engine_mitigator_config cfg) (en_policy (as_engine s)) (sh_mit sh) (w_log (sh_world sh))"
    using undo_action_reach [OF u, of "engine_policy_config cfg" "engine_mitigator_config cfg"] assms(2,4) sh by (simp add: acting_ok_def)
  moreover obtain new where "w_log (sh_world sh) = w_log (as_world s) @ new"
    using undo_action_result [OF u] sh by (auto simp: grows_def prefix_def)
  ultimately show ?thesis
    using assms(2-5) by (simp add: e with_shared_def shared_ok_def acting_ok_def present_ok_def mit_ready_mono)
next
  case (4 ord' x' rec prev records details n k' m' e' w')
  then have e: "e = (as_engine s)\<lparr>en_policy := Complete (en_policy (as_engine s)) (mr_TransactionID rec)\<rparr>" "w = as_world s"
    using assms(1) by auto
  have "shared_ok cfg (s\<lparr>as_engine := e\<rparr>) p rp"
    using sh_status [OF assms(3) [unfolded shared_ok_def]] by (simp add: e Complete_def shared_ok_def)
  moreover have "acting_ok cfg (s\<lparr>as_engine := e\<rparr>) p"
    by (rule acting_policy [OF assms(4)]) (simp_all add: e Complete_def)
  ultimately show ?thesis using assms(5) by (simp add: e(2)) (simp add: e(1) present_ok_def)
qed (use assms in \<open>auto simp: Let_def shared_ok_def acting_ok_def present_ok_def split: if_splits\<close>)

lemma fine_ok_step: "fine_step f f' \<Longrightarrow> fine_ok cfg f \<Longrightarrow> fine_ok cfg f'"
proof (induction rule: fine_step.induct)
  case (fine_whole f s')
  then show ?case using fine_ok_whole [OF fine_whole(1), of cfg "fi_mit f" "fi_router f"] by (simp add: fine_ok_def)
next
  case (fine_mit_count f t m e p)
  then show ?case using fine_ok_mit_count [OF fine_mit_count(4,2,3), of cfg "fi_router f"] by (simp add: fine_ok_def)
next
  case (fine_mit_decide f alert target n x e p)
  then show ?case using fine_ok_mit_decide [OF fine_mit_decide(4,2,3), of cfg "fi_router f"] by (simp add: fine_ok_def)
next
  case (fine_mit_proceed f m x e w p)
  then show ?case using fine_ok_mit_proceed [OF fine_mit_proceed(2,1), of cfg "fi_router f"] by (simp add: fine_ok_def)
next
  case (fine_router_count f t r e rp)
  then show ?case using fine_ok_router_count [OF fine_router_count(4,2,3), of cfg "fi_mit f"] by (simp add: fine_ok_def)
next
  case (fine_router_decide f a n x e rp)
  then show ?case using fine_ok_router_decide [OF fine_router_decide(4,2,3), of cfg "fi_mit f"] by (simp add: fine_ok_def)
next
  case (fine_router_proceed f r t e rp)
  then show ?case using fine_ok_router_proceed [OF fine_router_proceed(2,1), of cfg "fi_mit f"] by (simp add: fine_ok_def)
next
  case (fine_rollback f k m ord x e w kp)
  then show ?case using fine_ok_rollback [OF fine_rollback(3,2), of cfg "fi_mit f" "fi_router f"] by (simp add: fine_ok_def)
qed

lemma fine_reach_ok: "fine_reach cfg f \<Longrightarrow> fine_ok cfg f"
proof (induction rule: fine_reach.induct)
  case (fine_start pt now e attached gpuErr e' h)
  let ?s = "\<lparr>as_engine = e', as_world = \<lparr>w_host = h, w_log = []\<rparr>, as_now = now\<rparr>"
  note reach = agent_start [OF fine_start, of h]
  note ok = components_start [OF fine_start, of h, unfolded components_ok_def parts_ok_def]
  have "NewPolicyEngine (engine_policy_config cfg) = Some (en_policy e')"
    using engine_policy_valid [OF fine_start(1)] fine_start(2) by (auto simp: engine_Start_def Let_def split: if_splits)
  from sh_create [OF this] have "shared_ok cfg ?s MitIdle RouterIdle" by (simp add: shared_ok_def in_flight_none)
  moreover have "acting_ok cfg ?s MitIdle" using ok by (cases "en_mitigator e'") (simp_all add: acting_ok_def)
  ultimately show ?case
    using agent_reach_guarded [OF reach] by (simp add: fine_ok_def at_rest_def present_ok_def)
next
  case (fine_next f f')
  then show ?case using fine_ok_step by blast
qed

section \<open>The parts one after another are the handlers\<close>

lemma mit_intent_pid [simp]: "mi_TargetPID (mit_intent pid cid name ty) = pid"
  by (simp add: mit_intent_def)

text \<open>Chains of steps.\<close>

lemma step_chains: "R a b \<Longrightarrow> R b c \<Longrightarrow> R\<^sup>*\<^sup>* a c" "R a b \<Longrightarrow> R b c \<Longrightarrow> R c d \<Longrightarrow> R\<^sup>*\<^sup>* a d"
  by (meson converse_rtranclp_into_rtranclp rtranclp.rtrancl_refl)+

lemma mitigate_parts:
  "mitigateFromAlert (Some pol) m w alert x =
     (let target = mit_target m (w_host w) alert;
          ((ok, tx, ev), pol) = policy_commit pol (target_intent alert target)
            (HistoricalCount (pe_ledger pol) (ei_th (ai_eval x)) (ti_PID target)) (ai_eval x)
      in if \<not> ok then
           (Some pol, mit_emitEvent m (mit_event x target
              \<lparr>ax_Mechanism = NoMechanism, ax_SignalSent = '''', ax_Status = ActionStatusSkipped, ax_ExecutionDurationMs = 0\<rparr>
              (policy_IsWhitelisted (Some pol) (ti_ContainerID target) (ti_ProcessName target)) (pv_LedgerTransactionID ev)), w)
         else
           (let ((mech, sent, err), cm, w) = enforce (mg_cm m) w (ti_PID target) (ti_ContainerID target)
            in (Some (case err of None \<Rightarrow> ConfirmExecution pol tx | Some er \<Rightarrow> Reject pol tx (error_text er)),
                report_action (m\<lparr>mg_cm := cm\<rparr>) target (ap_AnomalyType (ca_Payload alert)) mech sent err x, w)))"
  by (simp add: mitigateFromAlert_def EvaluateAndRegister_def mit_target_def target_intent_def Let_def case_prod_unfold split: option.splits)

definition mit_at :: "AgentState \<Rightarrow> mit_phase \<Rightarrow> FineState" where
  "mit_at s p = \<lparr>fi_agent = s, fi_mit = p, fi_router = RouterIdle, fi_rollback = RollIdle\<rparr>"

lemma mit_count_step:
  "as_now s \<le> t \<Longrightarrow> en_mitigator (as_engine s) = Some m \<Longrightarrow> mit_count t m (as_world s) (as_engine s) = (e, p) \<Longrightarrow>
     fine_step (mit_at s MitIdle) (mit_at (s\<lparr>as_engine := e, as_now := t\<rparr>) p)"
  using fine_mit_count [of "mit_at s MitIdle" t m e p] by (simp add: mit_at_def)

lemma mit_decide_step:
  "as_now s \<le> ei_tr x \<Longrightarrow> unused_tx x (as_engine s) \<Longrightarrow> mit_decide x alert target n (as_engine s) = (e, p) \<Longrightarrow>
     fine_step (mit_at s (MitCounted alert target n)) (mit_at (s\<lparr>as_engine := e, as_now := ei_tr x\<rparr>) p)"
  using fine_mit_decide [of "mit_at s (MitCounted alert target n)" alert target n x e p] by (simp add: mit_at_def)

lemma mit_proceed_step:
  "en_mitigator (as_engine s) = Some m \<Longrightarrow> mit_proceed x p m (as_engine s) (as_world s) = (e, w, p') \<Longrightarrow>
     s' = s\<lparr>as_engine := e, as_world := w\<rparr> \<Longrightarrow> fine_step (mit_at s p) (mit_at s' p')"
  using fine_mit_proceed [of "mit_at s p" m x e w p'] by (simp add: mit_at_def)

lemma rest_whole: "whole_turn s s' \<Longrightarrow> fine_step (at_rest s) (at_rest s')"
  using fine_whole [of "at_rest s" s'] by (simp add: at_rest_def)

lemma granted_runs:
  assumes m: "en_mitigator (as_engine s) = Some m"
    and en: "enforce (mg_cm m) (as_world s) (ti_PID target) (ti_ContainerID target) = ((mech, sent, err), cm, w)"
    and pol: "pol = (case err of None \<Rightarrow> ConfirmExecution (en_policy (as_engine s)) tx
      | Some er \<Rightarrow> Reject (en_policy (as_engine s)) tx (error_text er))"
    and final: "s' = s\<lparr>as_engine := (as_engine s)\<lparr>en_policy := pol, en_mitigator :=
      Some (report_action (m\<lparr>mg_cm := cm\<rparr>) target (ap_AnomalyType (ca_Payload alert)) mech sent err x)\<rparr>, as_world := w\<rparr>"
  shows "fine_step\<^sup>*\<^sup>* (mit_at s (MitGranted alert target tx)) (mit_at s' MitIdle)"
proof -
  define s1 where "s1 = s\<lparr>as_engine := (as_engine s)\<lparr>en_mitigator := Some (m\<lparr>mg_cm := cm\<rparr>)\<rparr>, as_world := w\<rparr>"
  define s2 where "s2 = s1\<lparr>as_engine := (as_engine s1)\<lparr>en_policy := pol\<rparr>\<rparr>"
  have m1: "en_mitigator (as_engine s1) = Some (m\<lparr>mg_cm := cm\<rparr>)" "en_mitigator (as_engine s2) = Some (m\<lparr>mg_cm := cm\<rparr>)"
    by (simp_all add: s2_def s1_def)
  have one: "fine_step (mit_at s (MitGranted alert target tx)) (mit_at s1 (MitActed alert target tx mech sent err))"
    by (rule mit_proceed_step [OF m]) (use en in \<open>simp_all add: s1_def\<close>)
  have two: "fine_step (mit_at s1 (MitActed alert target tx mech sent err)) (mit_at s2 (MitSettled alert target mech sent err))"
    by (rule mit_proceed_step [OF m1(1) mit_proceed.simps(3) [of x]]) (simp add: s2_def s1_def pol split: option.splits)
  have three: "fine_step (mit_at s2 (MitSettled alert target mech sent err)) (mit_at s' MitIdle)"
    by (rule mit_proceed_step [OF m1(2) mit_proceed.simps(4) [of x]]) (simp add: s2_def s1_def final)
  from step_chains(2) [of fine_step, OF one two three] show ?thesis .
qed

lemma mitigate_runs:
  assumes "as_now s \<le> ei_th (ai_eval x)" "ei_th (ai_eval x) \<le> ei_tr (ai_eval x)" "unused_tx (ai_eval x) (as_engine s)"
    and "engine_mitigate x (as_engine s) (as_world s) = (e, w)"
  shows "fine_step\<^sup>*\<^sup>* (at_rest s) (at_rest (s\<lparr>as_engine := e, as_world := w, as_now := ei_tr (ai_eval x)\<rparr>))"
proof -
  consider (idle) "e = as_engine s" "w = as_world s"
    | (alert) m alert rest subs where "en_mitigator (as_engine s) = Some m" "mx_subs (en_alerter (as_engine s)) = (alert # rest) # subs"
    using assms(4) by (auto simp: engine_mitigate_def split: option.splits list.splits)
  then show ?thesis
  proof cases
    case idle
    then show ?thesis using rest_whole [OF whole_clock [of s "ei_tr (ai_eval x)"]] assms(1,2) by auto
  next
    case alert
    let ?E = "as_engine s" and ?t = "mit_target m (w_host (as_world s)) alert" and ?x = "ai_eval x"
    let ?n = "HistoricalCount (pe_ledger (en_policy ?E)) (ei_th ?x) (ti_PID ?t)"
    define s1 where "s1 = s\<lparr>as_engine := ?E\<lparr>en_alerter := (en_alerter ?E)\<lparr>mx_subs := rest # subs\<rparr>\<rparr>, as_now := ei_th ?x\<rparr>"
    obtain ok tx ev pol where c: "policy_commit (en_policy ?E) (target_intent alert ?t) ?n ?x = ((ok, tx, ev), pol)"
      by (metis prod.collapse)
    define s2 where "s2 = s1\<lparr>as_engine := (as_engine s1)\<lparr>en_policy := pol\<rparr>, as_now := ei_tr ?x\<rparr>"
    have one: "fine_step (mit_at s MitIdle) (mit_at s1 (MitCounted alert ?t ?n))"
      unfolding s1_def by (rule mit_count_step [OF assms(1) alert(1)]) (simp add: mit_count_def alert(2) Let_def)
    have two: "fine_step (mit_at s1 (MitCounted alert ?t ?n))
        (mit_at s2 (if \<not> ok then MitRefused ?t (pv_LedgerTransactionID ev) else MitGranted alert ?t tx))"
      unfolding s2_def by (rule mit_decide_step) (use assms(2,3) c in \<open>simp_all add: s1_def mit_decide_def unused_tx_def\<close>)
    have m: "en_mitigator (as_engine s2) = Some m" using alert(1) by (simp add: s2_def s1_def)
    show ?thesis
    proof (cases ok)
      case False
      have "fine_step (mit_at s2 (MitRefused ?t (pv_LedgerTransactionID ev)))
          (mit_at (s\<lparr>as_engine := e, as_world := w, as_now := ei_tr ?x\<rparr>) MitIdle)"
        by (rule mit_proceed_step [OF m mit_proceed.simps(1) [of x]])
          (use assms(4) alert c False in \<open>auto simp: s2_def s1_def engine_mitigate_def mitigate_parts Let_def\<close>)
      from step_chains(2) [of fine_step, OF one two [unfolded if_P [OF False]] this] show ?thesis by (simp add: at_rest_def mit_at_def)
    next
      case True
      obtain mech sent err cm w' where en: "enforce (mg_cm m) (as_world s) (ti_PID ?t) (ti_ContainerID ?t) = ((mech, sent, err), cm, w')"
        by (metis prod.collapse)
      then have en2: "enforce (mg_cm m) (as_world s2) (ti_PID ?t) (ti_ContainerID ?t) = ((mech, sent, err), cm, w')"
        by (simp add: s2_def s1_def)
      have "fine_step\<^sup>*\<^sup>* (mit_at s2 (MitGranted alert ?t tx)) (mit_at (s\<lparr>as_engine := e, as_world := w, as_now := ei_tr ?x\<rparr>) MitIdle)"
        by (rule granted_runs [OF m en2 refl, where x = x])
          (use en assms(4) alert c True in
           \<open>auto simp: s2_def s1_def engine_mitigate_def mitigate_parts Let_def cong: option.case_cong\<close>)
      moreover have "fine_step (mit_at s1 (MitCounted alert ?t ?n)) (mit_at s2 (MitGranted alert ?t tx))" using two True by simp
      ultimately show ?thesis using one by (simp add: at_rest_def mit_at_def converse_rtranclp_into_rtranclp)
    qed
  qed
qed

definition router_at :: "AgentState \<Rightarrow> router_phase \<Rightarrow> FineState" where
  "router_at s rp = \<lparr>fi_agent = s, fi_mit = MitIdle, fi_router = rp, fi_rollback = RollIdle\<rparr>"

lemma router_proceed_step:
  "en_router (as_engine s) = Some r \<Longrightarrow> router_proceed t rp r (as_engine s) = (e, rp') \<Longrightarrow>
     s' = s\<lparr>as_engine := e\<rparr> \<Longrightarrow> fine_step (router_at s rp) (router_at s' rp')"
  using fine_router_proceed [of "router_at s rp" r t e rp'] by (simp add: router_at_def)

lemma remedy_runs:
  assumes r: "en_router (as_engine s) = Some r"
    and final: "s' = s\<lparr>as_engine := (as_engine s)\<lparr>en_policy := ConfirmExecution (en_policy (as_engine s)) tx, en_router :=
      Some (apply_remedy r (at_PID a) (remedyForAnomaly (at_AnomalyType a)) t_lookup t_update)\<rparr>\<rparr>"
  shows "fine_step\<^sup>*\<^sup>* (router_at s (RouterGranted a tx)) (router_at s' RouterIdle)"
proof -
  obtain st reg where l: "Lookup (rt_reg r) (at_PID a) t_lookup = (st, reg)" by (metis prod.collapse)
  define s1 where "s1 = s\<lparr>as_engine := (as_engine s)\<lparr>en_policy := ConfirmExecution (en_policy (as_engine s)) tx\<rparr>\<rparr>"
  define s2 where "s2 = s1\<lparr>as_engine := (as_engine s1)\<lparr>en_router := Some (r\<lparr>rt_reg := reg\<rparr>)\<rparr>\<rparr>"
  have r1: "en_router (as_engine s1) = Some r" "en_router (as_engine s2) = Some (r\<lparr>rt_reg := reg\<rparr>)"
    using r by (simp_all add: s2_def s1_def)
  have one: "fine_step (router_at s (RouterGranted a tx)) (router_at s1 (RouterConfirmed a))"
    by (rule router_proceed_step [OF r router_proceed.simps(1)]) (simp add: s1_def)
  have two: "fine_step (router_at s1 (RouterConfirmed a)) (router_at s2 (RouterLooked a (st \<noteq> None)))"
    by (rule router_proceed_step [OF r1(1), of t_lookup]) (simp_all add: l s2_def)
  have three: "fine_step (router_at s2 (RouterLooked a (st \<noteq> None))) (router_at s' RouterIdle)"
    by (rule router_proceed_step [OF r1(2) router_proceed.simps(3) [of t_update]], cases st)
      (simp_all add: s2_def s1_def final apply_remedy_def l)
  from step_chains(2) [of fine_step, OF one two three] show ?thesis .
qed

lemma router_runs:
  assumes "as_now s \<le> ei_th x" "ei_th x \<le> ei_tr x" "unused_tx x (as_engine s)"
  shows "fine_step\<^sup>*\<^sup>* (at_rest s) (at_rest (s\<lparr>as_engine := engine_handleAlert x t_lookup t_update (as_engine s), as_now := ei_tr x\<rparr>))"
proof (cases "en_router (as_engine s) = None \<or> en_routerAlertCh (as_engine s) = []")
  case True
  then have "engine_handleAlert x t_lookup t_update (as_engine s) = as_engine s"
    by (auto simp: engine_handleAlert_def split: option.splits list.splits)
  then show ?thesis using rest_whole [OF whole_clock [of s "ei_tr x"]] assms(1,2) by auto
next
  case False
  let ?E = "as_engine s"
  obtain r a rest where r: "en_router ?E = Some r" "en_routerAlertCh ?E = a # rest" using False by (auto simp: neq_Nil_conv)
  let ?n = "HistoricalCount (pe_ledger (en_policy ?E)) (ei_th x) (at_PID a)"
  define s1 where "s1 = s\<lparr>as_engine := ?E\<lparr>en_routerAlertCh := rest\<rparr>, as_now := ei_th x\<rparr>"
  obtain ok tx ev pol where c: "policy_commit (en_policy ?E) (trigger_intent a) ?n x = ((ok, tx, ev), pol)" by (metis prod.collapse)
  define s2 where "s2 = s1\<lparr>as_engine := (as_engine s1)\<lparr>en_policy := pol\<rparr>, as_now := ei_tr x\<rparr>"
  have one: "fine_step (router_at s RouterIdle) (router_at s1 (RouterCounted a ?n))"
    using fine_router_count [of "router_at s RouterIdle" "ei_th x" r "as_engine s1" "RouterCounted a ?n"] assms(1) r remedyForAnomaly_some
    by (simp add: router_at_def s1_def router_count_def)
  have two: "fine_step (router_at s1 (RouterCounted a ?n)) (router_at s2 (if \<not> ok then RouterIdle else RouterGranted a tx))"
    using fine_router_decide [of "router_at s1 (RouterCounted a ?n)" a ?n x] assms(2,3) c
    by (simp add: router_at_def s2_def s1_def router_decide_def unused_tx_def)
  have h: "EvaluateAndRegister (en_policy ?E) (trigger_intent a) x = ((ok, tx, ev), pol)"
    using c by (simp add: EvaluateAndRegister_def trigger_intent_def router_intent_def)
  show ?thesis
  proof (cases ok)
    case False
    then have "at_rest (s\<lparr>as_engine := engine_handleAlert x t_lookup t_update ?E, as_now := ei_tr x\<rparr>) = router_at s2 RouterIdle"
      using h r remedyForAnomaly_some
      by (simp add: at_rest_def router_at_def s2_def s1_def engine_handleAlert_def handleAlert_def trigger_intent_def Let_def)
    with step_chains(1) [of fine_step, OF one two [unfolded if_P [OF False]]] show ?thesis by (simp add: at_rest_def router_at_def)
  next
    case True
    have "en_router (as_engine s2) = Some r" using r by (simp add: s2_def s1_def)
    then have "fine_step\<^sup>*\<^sup>* (router_at s2 (RouterGranted a tx))
        (router_at (s\<lparr>as_engine := engine_handleAlert x t_lookup t_update ?E, as_now := ei_tr x\<rparr>) RouterIdle)"
      by (rule remedy_runs [where t_lookup = t_lookup and t_update = t_update]) (use h r True remedyForAnomaly_some in
        \<open>simp add: s2_def s1_def engine_handleAlert_def handleAlert_def trigger_intent_def Let_def\<close>)
    moreover have "fine_step (router_at s1 (RouterCounted a ?n)) (router_at s2 (RouterGranted a tx))" using two True by simp
    ultimately show ?thesis using one by (simp add: at_rest_def router_at_def converse_rtranclp_into_rtranclp)
  qed
qed

definition roll_at :: "AgentState \<Rightarrow> Shared \<Rightarrow> rollback_phase \<Rightarrow> FineState" where
  "roll_at s sh kp = \<lparr>fi_agent = s\<lparr>as_engine := with_shared (as_engine s) sh, as_world := sh_world sh\<rparr>,
     fi_mit = MitIdle, fi_router = RouterIdle, fi_rollback = kp\<rparr>"

definition registry_ok :: "ProfilerEngine \<Rightarrow> Shared \<Rightarrow> bool" where
  "registry_ok e sh \<longleftrightarrow> (en_router e = None \<longrightarrow> sh_reg sh = NewRegistry 0)"

lemma with_shared_twice: "with_shared (with_shared e sh) sh' = with_shared e sh'"
  by (cases "en_router e") (simp_all add: with_shared_def)

lemma shared_with_shared: "registry_ok e sh \<Longrightarrow> engine_shared (with_shared e sh) (sh_mit sh) (sh_world sh) = sh"
  by (cases "en_router e") (simp_all add: with_shared_def engine_shared_def registry_ok_def)

lemma with_engine_shared: "en_mitigator e = Some m \<Longrightarrow> with_shared e (engine_shared e m w) = e"
  by (cases "en_router e") (simp_all add: with_shared_def engine_shared_def)

lemma with_rollback: "en_rollback e = Some k \<Longrightarrow> e\<lparr>en_rollback := Some k\<rparr> = e"
  by simp

lemma engine_shared_policy [simp]: "sh_policy (engine_shared e m w) = en_policy e"
  by (simp add: engine_shared_def)

lemma undo_registry_ok: "undo_action sh rec = (r, sh') \<Longrightarrow> registry_ok e sh \<Longrightarrow> registry_ok e sh'"
  by (auto simp: undo_action_def registry_ok_def Deactivate_def NewRegistry_def Let_def
      split: ActionType.splits prod.splits option.splits if_splits)

lemma rollback_step:
  assumes "en_rollback (as_engine s) = Some k"
    and "rollback_proceed ord x kp k (sh_mit sh) (with_shared (as_engine s) sh) (sh_world sh) = (with_shared (as_engine s) sh', sh_world sh', kp')"
  shows "fine_step (roll_at s sh kp) (roll_at s sh' kp')"
  using fine_rollback [of "roll_at s sh kp" k "sh_mit sh" ord x "with_shared (as_engine s) sh'" "sh_world sh'" kp'] assms
  by (simp add: roll_at_def with_shared_def)

lemma dispatch_runs:
  assumes "en_rollback (as_engine s) = Some k"
  shows "dispatch_all sh recs = (ds, sh') \<Longrightarrow> registry_ok (as_engine s) sh \<Longrightarrow>
    fine_step\<^sup>*\<^sup>* (roll_at s sh (RollBusy recs details n)) (roll_at s sh' (RollBusy [] (details @ ds) n))"
proof (induction recs arbitrary: sh ds details)
  case (Cons rec recs)
  obtain r sh1 where u: "undo_action sh rec = (r, sh1)" by (metis prod.collapse)
  note reg = undo_registry_ok [OF u Cons.prems(2)]
  have first: "fine_step (roll_at s sh (RollBusy (rec # recs) details n))
      (roll_at s sh1 (case r of Inl _ \<Rightarrow> RollBusy recs details n | Inr prev \<Rightarrow> RollUndone rec prev recs details n))"
    by (rule rollback_step [OF assms]) (simp add: u shared_with_shared [OF Cons.prems(2)] with_shared_twice)
  show ?case
  proof (cases r)
    case (Inl er)
    then have "dispatch_all sh1 recs = (ds, sh')" using Cons.prems(1) u by (auto simp: dispatchRollback_def split: prod.splits)
    with Cons.IH [OF this reg] first Inl show ?thesis by (simp add: converse_rtranclp_into_rtranclp)
  next
    case (Inr prev)
    let ?sh2 = "sh1\<lparr>sh_policy := Complete (sh_policy sh1) (mr_TransactionID rec)\<rparr>"
    have second: "fine_step (roll_at s sh1 (RollUndone rec prev recs details n))
        (roll_at s ?sh2 (RollBusy recs (details @ [rollback_detail rec prev]) n))"
      by (rule rollback_step [OF assms]) (simp add: with_shared_def)
    obtain ds2 where ds: "dispatch_all ?sh2 recs = (ds2, sh')" "ds = rollback_detail rec prev # ds2"
      using Cons.prems(1) u Inr by (auto simp: dispatchRollback_def split: prod.splits)
    have "registry_ok (as_engine s) ?sh2" using reg by (simp add: registry_ok_def)
    from Cons.IH [OF ds(1) this, of "details @ [rollback_detail rec prev]"] first second Inr ds(2)
    show ?thesis by (simp add: converse_rtranclp_into_rtranclp)
  qed
qed simp

lemma rollback_runs:
  assumes "engine_checkExpired ord x (as_engine s) (as_world s) = (e, w)"
  shows "fine_step\<^sup>*\<^sup>* (at_rest s) (at_rest (s\<lparr>as_engine := e, as_world := w\<rparr>))"
proof -
  consider (idle) "e = as_engine s" "w = as_world s"
    | (check) k m where "en_rollback (as_engine s) = Some k" "en_mitigator (as_engine s) = Some m"
    using assms by (auto simp: engine_checkExpired_def split: option.splits)
  then show ?thesis
  proof cases
    case idle
    then show ?thesis by simp
  next
    case check
    let ?sh = "engine_shared (as_engine s) m (as_world s)"
    let ?recs = "ListExecutedExpired ord (pe_ledger (en_policy (as_engine s))) (si_listed x)"
    have rest: "at_rest s = roll_at s ?sh RollIdle"
      by (simp add: at_rest_def roll_at_def with_engine_shared [OF check(2)]) (simp add: engine_shared_def)
    show ?thesis
    proof (cases "?recs = []")
      case True
      then have "e = as_engine s" "w = as_world s"
        using assms check by (auto simp: engine_checkExpired_def checkExpired_def with_shared_def engine_shared_def Let_def split: option.splits)
      then show ?thesis by simp
    next
      case False
      obtain ds sh' where d: "dispatch_all ?sh ?recs = (ds, sh')" by fastforce
      have first: "fine_step (roll_at s ?sh RollIdle) (roll_at s ?sh (RollBusy ?recs [] (length ?recs)))"
        by (rule rollback_step [OF check(1), of ord x]) (use False in \<open>simp add: with_shared_def engine_shared_def Let_def\<close>)
      have "registry_ok (as_engine s) ?sh" by (simp add: registry_ok_def engine_shared_def)
      from converse_rtranclp_into_rtranclp [of fine_step, OF first dispatch_runs [OF check(1) d this, of "[]" "length ?recs"]]
      have "fine_step\<^sup>*\<^sup>* (roll_at s ?sh RollIdle) (roll_at s sh' (RollBusy [] ds (length ?recs)))" by simp
      moreover have "e = (if ds = [] then with_shared (as_engine s) sh'
          else (with_shared (as_engine s) sh')\<lparr>en_rollback := Some (rollback_emitEvent k (sync_event x (length ?recs) False ds))\<rparr>)"
        "w = sh_world sh'"
        using assms d False check(2) with_rollback [OF check(1)]
        by (auto simp: engine_checkExpired_def checkExpired_def check(1) Let_def with_shared_def engine_shared_policy split: if_splits)
      then have "fine_step (roll_at s sh' (RollBusy [] ds (length ?recs))) (at_rest (s\<lparr>as_engine := e, as_world := w\<rparr>))"
        using fine_rollback [of "roll_at s sh' (RollBusy [] ds (length ?recs))" k "sh_mit sh'" ord x] check(1)
        by (auto simp: roll_at_def at_rest_def with_shared_def split: if_splits)
      ultimately show ?thesis using rest by (simp add: rtranclp.rtrancl_into_rtrancl)
    qed
  qed
qed

text \<open>The agent of whole turns is the one of parts in which no handler is interrupted.\<close>

lemma whole_runs: "agent_step s s' \<Longrightarrow> fine_step\<^sup>*\<^sup>* (at_rest s) (at_rest s')"
proof (induction rule: agent_step.induct)
  case (agent_router s x t_lookup t_update)
  then show ?case by (rule router_runs)
next
  case (agent_mitigate s x e w)
  then show ?case by (rule mitigate_runs)
next
  case (agent_rollback rord x s e w)
  then show ?case by (rule rollback_runs)
qed (blast intro: rest_whole whole_turn.intros)+

lemma fine_reach_run: "fine_step\<^sup>*\<^sup>* f f' \<Longrightarrow> fine_reach cfg f \<Longrightarrow> fine_reach cfg f'"
  by (induction rule: rtranclp_induct) (auto intro: fine_next)

lemma agent_reach_fine: "agent_reach cfg s \<Longrightarrow> fine_reach cfg (at_rest s)"
  by (induction rule: agent_reach.induct) (auto intro: fine_start fine_reach_run whole_runs)

section \<open>The agent's promises\<close>

lemma policy_callers_card:
  "int (card (policy_callers cfg) - 1) = (if cf_MitigationEnabled cfg \<and> cf_RouterEnabled cfg then 1 else 0)"
  by (simp add: policy_callers_def)

lemma engine_policy_cap:
  "policy_cap (engine_policy_config cfg) = (if cf_PolicyMaxActionsPerPID cfg \<le> 0 then 5 else cf_PolicyMaxActionsPerPID cfg)"
  by (simp add: policy_cap_def NewRuleEvaluator_def engine_policy_config_def Let_def split: option.splits)

text \<open>
  C4: The agent as a whole keeps its promises about processes wherever its handlers interrupt each
  other: without mitigation it never attempts anything on the host; with it no stop signal ever
  goes to a process below the configured threshold, and every mitigation in its books is
  backed by an accepted freeze. No process has more unexpired authorisations than the cap, counting those of
  the mitigator and of the router together, and one more when both are on, since both may count
  before either registers.
\<close>

theorem agent_enforcement:
  assumes "fine_reach cfg f"
  shows "(\<not> cf_MitigationEnabled cfg \<longrightarrow> w_log (fi_world f) = []) \<and>
    (\<forall>pid ok. (SendSignal SIGSTOP pid, ok) \<in> set (w_log (fi_world f)) \<longrightarrow> 0 < pid \<and> pid_floor (engine_policy_config cfg) \<le> pid) \<and>
    (\<forall>m token entry. en_mitigator (fi_engine f) = Some m \<longrightarrow> ResolveByToken (mg_ledger m) token = Some entry \<longrightarrow>
       backed (w_log (fi_world f)) entry) \<and>
    int (card (authorized_live (pe_ledger (en_policy (fi_engine f))) (as_now (fi_agent f)) pid)) \<le>
      (if cf_PolicyMaxActionsPerPID cfg \<le> 0 then 5 else cf_PolicyMaxActionsPerPID cfg) +
      (if cf_MitigationEnabled cfg \<and> cf_RouterEnabled cfg then 1 else 0)"
proof -
  let ?pcfg = "engine_policy_config cfg" and ?live = "authorized_live (pe_ledger (en_policy (fi_engine f))) (as_now (fi_agent f)) pid"
  note ok = fine_reach_ok [OF assms, unfolded fine_ok_def]
  have "shared_inv ?pcfg (policy_callers cfg) (as_now (fi_agent f)) (en_policy (fi_engine f))
      (in_flight (mit_flight (fi_mit f)) (router_flight (fi_router f)))"
    using ok by (intro shared_reach_inv) (simp_all add: shared_ok_def)
  then have "int (card ?live) \<le> policy_cap ?pcfg + int (card (policy_callers cfg) - 1)"
    unfolding shared_inv_def by (meson le_add_same_cancel1 of_nat_0_le_iff order_trans)
  then have live: "int (card ?live) \<le> (if cf_PolicyMaxActionsPerPID cfg \<le> 0 then 5 else cf_PolicyMaxActionsPerPID cfg) +
      (if cf_MitigationEnabled cfg \<and> cf_RouterEnabled cfg then 1 else 0)"
    unfolding policy_callers_card engine_policy_cap .
  show ?thesis
  proof (cases "en_mitigator (fi_engine f)")
    case None
    then show ?thesis using ok live by (simp add: acting_ok_def)
  next
    case (Some m)
    then have "enforce_inv ?pcfg (en_policy (fi_engine f)) m (w_log (fi_world f))"
      using ok by (auto simp: acting_ok_def intro: enforce_reach_inv)
    moreover have "0 < pid_floor ?pcfg" by (simp add: pid_floor_def)
    then have "0 < pid" if "pid_floor ?pcfg \<le> pid" for pid using that by linarith
    moreover have "cf_MitigationEnabled cfg" using ok Some by (simp add: present_ok_def)
    ultimately show ?thesis
      using Some unfolding enforce_inv_def stops_allowed_def ResolveByToken_def by (intro conjI live) auto
  qed
qed

theorem agent_enforcement_witness:
  "\<exists>f. fine_reach guard_cfg f \<and>
     int (card (authorized_live (pe_ledger (en_policy (fi_engine f))) (as_now (fi_agent f)) 4242)) \<le> 6"
proof -
  obtain s where s: "agent_reach guard_cfg s" using guard_started by blast
  have "cf_PolicyMaxActionsPerPID guard_cfg = 5" "cf_MitigationEnabled guard_cfg" "cf_RouterEnabled guard_cfg"
    by (simp_all add: guard_cfg_def DefaultConfig_def)
  with agent_enforcement [OF agent_reach_fine [OF s], of 4242] agent_reach_fine [OF s] show ?thesis by auto
qed

end
