(* ===== verification/Platform.thy ===== *)
theory Platform
  imports Devices Rollback ProcResolver
begin

text \<open>
  What the platform-dependent parts hold of the system and how they give it back: the handles of
  the eBPF tracker (\<open>src/internal/proxy/ebpf/tracker_linux.go\<close>), the NVML session of the GPU
  sampler (\<open>src/internal/proxy/gpu/nvml_linux.go\<close>), and the builds for other platforms
  (\<open>tracker_other.go\<close>, \<open>nvml_other.go\<close>, \<open>signal_other.go\<close>, \<open>container_other.go\<close>,
  \<open>reconciler_other.go\<close>, \<open>process_other.go\<close>). What the kernel and NVML answer is an argument.
\<close>

section \<open>The handles of the tracker\<close>

datatype handle = NoHandle | OpenHandle | ClosedHandle

fun close_handle :: "handle \<Rightarrow> handle" where
  "close_handle NoHandle = NoHandle"
| "close_handle OpenHandle = ClosedHandle"
| "close_handle ClosedHandle = ClosedHandle"

record linuxTracker =
  lt_objs :: handle
  lt_execLink :: handle
  lt_exitLink :: handle
  lt_ringReader :: handle
  lt_polling :: bool

definition newPlatformTracker :: linuxTracker where
  "newPlatformTracker = \<lparr>lt_objs = NoHandle, lt_execLink = NoHandle, lt_exitLink = NoHandle, lt_ringReader = NoHandle,
     lt_polling = False\<rparr>"

definition tracker_cleanup :: "linuxTracker \<Rightarrow> linuxTracker" where
  "tracker_cleanup lt = lt\<lparr>
     lt_ringReader := close_handle (lt_ringReader lt),
     lt_execLink := close_handle (lt_execLink lt),
     lt_exitLink := close_handle (lt_exitLink lt),
     lt_objs := close_handle (lt_objs lt)\<rparr>"

text \<open>What the kernel answers to each step of attaching: an error, if any.\<close>

record attach_answers =
  aa_load :: "gostring option"
  aa_exec :: "gostring option"
  aa_exit :: "gostring option"
  aa_reader :: "gostring option"

definition linux_start :: "attach_answers \<Rightarrow> linuxTracker \<Rightarrow> gostring option \<times> linuxTracker" where
  "linux_start a lt =
     (case aa_load a of
        Some err \<Rightarrow> (Some err, lt)
      | None \<Rightarrow>
          (let lt = lt\<lparr>lt_objs := OpenHandle\<rparr>
           in case aa_exec a of
                Some err \<Rightarrow> (Some err, tracker_cleanup (lt\<lparr>lt_execLink := NoHandle\<rparr>))
              | None \<Rightarrow>
                  (let lt = lt\<lparr>lt_execLink := OpenHandle\<rparr>
                   in case aa_exit a of
                        Some err \<Rightarrow> (Some err, tracker_cleanup (lt\<lparr>lt_exitLink := NoHandle\<rparr>))
                      | None \<Rightarrow>
                          (let lt = lt\<lparr>lt_exitLink := OpenHandle\<rparr>
                           in case aa_reader a of
                                Some err \<Rightarrow> (Some err, tracker_cleanup (lt\<lparr>lt_ringReader := NoHandle\<rparr>))
                              | None \<Rightarrow> (None, lt\<lparr>lt_ringReader := OpenHandle, lt_polling := True\<rparr>)))))"

definition linux_close :: "linuxTracker \<Rightarrow> linuxTracker" where
  "linux_close lt = tracker_cleanup lt"

text \<open>The tracker and its Linux implementation, started and closed together.\<close>

definition attach :: "attach_answers \<Rightarrow> Tracker \<Rightarrow> linuxTracker \<Rightarrow> Tracker \<times> linuxTracker" where
  "attach a t lt =
     (if tk_fallbackMode t then (t, lt)
      else (let (err, lt) = linux_start a lt in (tracker_Start t (err = None), lt)))"

definition tracker_Close :: "Tracker \<Rightarrow> linuxTracker \<Rightarrow> linuxTracker" where
  "tracker_Close t lt = (if tk_impl t then linux_close lt else lt)"

definition released :: "linuxTracker \<Rightarrow> bool" where
  "released lt \<longleftrightarrow> OpenHandle \<notin> {lt_objs lt, lt_execLink lt, lt_exitLink lt, lt_ringReader lt}"

lemma close_handle_closed [simp]: "close_handle h \<noteq> OpenHandle" "close_handle (close_handle h) = close_handle h"
  by (cases h; simp)+

lemma cleanup_released [simp]: "released (tracker_cleanup lt)"
  using close_handle_closed(1) [THEN not_sym] by (simp add: released_def tracker_cleanup_def)

lemma cleanup_twice [simp]: "tracker_cleanup (tracker_cleanup lt) = tracker_cleanup lt"
  by (simp add: tracker_cleanup_def)

lemma linux_start_result:
  assumes "linux_start a lt = (err, lt')" "released lt"
  shows "err \<noteq> None \<longleftrightarrow> released lt'" and "err = None \<Longrightarrow> lt_polling lt'"
proof -
  have "(err \<noteq> None \<and> released lt') \<or> (err = None \<and> lt_polling lt' \<and> lt_ringReader lt' = OpenHandle)"
    using assms by (auto simp: linux_start_def Let_def split: option.splits)
  then show "err \<noteq> None \<longleftrightarrow> released lt'" "err = None \<Longrightarrow> lt_polling lt'" by (auto simp: released_def)
qed

section \<open>The NVML session\<close>

record 'h platformSampler =
  ps_devices :: "'h nvmlDevice list"
  ps_initd :: bool

definition newPlatformSampler :: "'h platformSampler" where
  "newPlatformSampler = \<lparr>ps_devices = [], ps_initd = False\<rparr>"

datatype nvml_status = NvmlSuccess | NvmlLibraryNotFound | NvmlError gostring

text \<open>The number of open sessions of the library goes along.\<close>

definition sampler_init ::
  "nvml_status \<Rightarrow> (gostring + 'h nvml_device_info option list) \<Rightarrow> 'h platformSampler \<Rightarrow> nat
   \<Rightarrow> gostring option \<times> 'h platformSampler \<times> nat" where
  "sampler_init ret handles p sessions =
     (case ret of
        NvmlLibraryNotFound \<Rightarrow> (Some ''libnvidia-ml.so not found: GPU monitoring not available'', p, sessions)
      | NvmlError s \<Rightarrow> (Some (''nvml.Init: '' @ s), p, sessions)
      | NvmlSuccess \<Rightarrow>
          (case handles of
             Inl s \<Rightarrow> (Some (''nvml.DeviceGetCount: '' @ s), p, Suc sessions - 1)
           | Inr ds \<Rightarrow> (None, p\<lparr>ps_devices := ps_devices p @ init_devices ds, ps_initd := True\<rparr>, Suc sessions)))"

definition sampler_close :: "'h platformSampler \<Rightarrow> nat \<Rightarrow> 'h platformSampler \<times> nat" where
  "sampler_close p sessions = (if ps_initd p then (p\<lparr>ps_initd := False\<rparr>, sessions - 1) else (p, sessions))"

lemma sampler_session:
  assumes "sampler_init ret handles newPlatformSampler sessions = (err, p, n)"
  shows "n = sessions + (if ps_initd p then 1 else 0)" and "ps_initd p \<longleftrightarrow> err = None"
  using assms by (auto simp: sampler_init_def newPlatformSampler_def split: nvml_status.splits sum.splits)

section \<open>Other platforms\<close>

definition other_FreezeProcess :: "int \<Rightarrow> gostring" where
  "other_FreezeProcess pid = ''freeze pid '' @ format_int pid @ '': signal control not supported on this platform''"

definition other_UnfreezeProcess :: "int \<Rightarrow> gostring" where
  "other_UnfreezeProcess pid = ''unfreeze pid '' @ format_int pid @ '': signal control not supported on this platform''"

definition ErrContainerControlUnsupported :: gostring where
  "ErrContainerControlUnsupported = ''container pause/unpause not supported on this platform''"

definition other_Pause :: "gostring \<Rightarrow> gostring option" where
  "other_Pause containerID = Some ErrContainerControlUnsupported"

definition other_Unpause :: "gostring \<Rightarrow> gostring option" where
  "other_Unpause containerID = Some ErrContainerControlUnsupported"

definition other_probeProcessState :: "int \<Rightarrow> gostring \<Rightarrow> RuntimeState" where
  "other_probeProcessState pid procRoot = RuntimeStateRunning"

definition other_tracker_start :: "gostring option" where
  "other_tracker_start = Some ''eBPF is only available on Linux''"

definition other_tracker_drain :: "int \<Rightarrow> ProcessEvent list" where
  "other_tracker_drain maxEvents = []"

definition ErrGPUNotAvailable :: gostring where
  "ErrGPUNotAvailable = ''GPU monitoring not available''"

definition other_sampler_init :: "gostring option" where
  "other_sampler_init = Some ErrGPUNotAvailable"

definition other_sample :: "gostring + GPUDeviceMetrics list" where
  "other_sample = Inl ErrGPUNotAvailable"

definition ErrProcResolverUnavailable :: gostring where
  "ErrProcResolverUnavailable = ''process resolver: not available on this platform''"

definition other_newPlatformProcResolver :: "gostring + linuxProcResolver" where
  "other_newPlatformProcResolver = Inl ErrProcResolverUnavailable"

definition other_resolver_Start :: "ProcResolver \<Rightarrow> gostring option \<times> ProcResolver" where
  "other_resolver_Start r =
     (case other_newPlatformProcResolver of Inl err \<Rightarrow> (Some err, r) | Inr impl \<Rightarrow> (None, r\<lparr>pr_impl := Some impl\<rparr>))"

text \<open>
  Away from Linux the agent only watches: the tracker falls back to polling and never has an event, the
  sampler of GPUs is off after its first run and never has a device, freezing always fails, and no connection has a known owner.
\<close>

lemma other_platform_watches:
  "tk_fallbackMode (tracker_Start (NewTracker True) (other_tracker_start = None))"
  "fst (tracker_Drain (tracker_Start (NewTracker True) (other_tracker_start = None)) n) = []"
  "LastGPUDevices (Sample (snd (sampler_Run (NewGPUSampler True) other_sampler_init)) other_sample) = []"
  "other_Pause cid \<noteq> None"
  "ResolvePID f (snd (other_resolver_Start NewProcResolver)) lport pport t0 t1 = Some (Inl ErrProcResolverUnavailable, NewProcResolver)"
  by (simp_all add: other_resolver_Start_def other_newPlatformProcResolver_def ResolvePID_def NewProcResolver_def
      ErrProcResolverUnavailable_def)
    (simp_all add: tracker_Start_def NewTracker_def other_tracker_start_def tracker_Drain_def sampler_Run_def NewGPUSampler_def
      other_sampler_init_def Sample_def LastGPUDevices_def other_Pause_def)

section \<open>The collector's devices\<close>

text \<open>What \<open>Run\<close> of the collector takes before its loop, and gives back after it.\<close>

definition run_devices ::
  "bool \<Rightarrow> attach_answers \<Rightarrow> nvml_status \<Rightarrow> (gostring + 'h nvml_device_info option list) \<Rightarrow> nat
   \<Rightarrow> (Tracker \<times> linuxTracker) \<times> ('h platformSampler \<times> nat)" where
  "run_devices enableBPF a ret handles sessions =
     (if enableBPF then attach a (NewTracker True) newPlatformTracker else (NewTracker True, newPlatformTracker),
      snd (sampler_init ret handles newPlatformSampler sessions))"

definition release_devices ::
  "(Tracker \<times> linuxTracker) \<times> ('h platformSampler \<times> nat) \<Rightarrow> linuxTracker \<times> ('h platformSampler \<times> nat)" where
  "release_devices d = (case d of ((t, lt), (p, n)) \<Rightarrow> (tracker_Close t lt, sampler_close p n))"

text \<open>
  C36: What the collector takes of the system it gives back: however many steps of attaching to the
  kernel succeed before one fails, none of its handles stays open, and the tracker is in its
  fallback mode exactly when attaching failed; when the collector ends, no handle is open, closing
  again changes nothing, and the library of the GPUs has as many sessions as before.
\<close>

theorem devices_released:
  assumes "run_devices enableBPF a ret handles sessions = ((t, lt), (p, n))"
  shows "(enableBPF \<longrightarrow> (released lt \<longleftrightarrow> tk_fallbackMode t)) \<and>
    released (fst (release_devices ((t, lt), (p, n)))) \<and> snd (snd (release_devices ((t, lt), (p, n)))) = sessions \<and>
    (case release_devices ((t, lt), (p, n)) of (lt', p', n') \<Rightarrow>
       release_devices ((t, lt'), (p', n')) = (lt', p', n'))"
proof -
  have new: "released newPlatformTracker" "\<not> tk_fallbackMode (NewTracker True)" "tk_impl (NewTracker True)"
    by (simp_all add: newPlatformTracker_def released_def NewTracker_def)
  obtain err where i: "sampler_init ret handles newPlatformSampler sessions = (err, p, n)"
    using assms by (metis Pair_inject prod.exhaust_sel run_devices_def)
  have "tk_impl t \<and> (enableBPF \<longrightarrow> (released lt \<longleftrightarrow> tk_fallbackMode t))"
  proof (cases enableBPF)
    case True
    obtain e lt' where s: "linux_start a newPlatformTracker = (e, lt')" by fastforce
    then have t: "t = tracker_Start (NewTracker True) (e = None)" "lt' = lt"
      using assms new(2) True by (simp_all add: run_devices_def attach_def)
    then have "tk_fallbackMode t \<longleftrightarrow> e \<noteq> None" "tk_impl t" using new by (auto simp: tracker_Start_def)
    then show ?thesis using linux_start_result(1) [OF s new(1)] t(2) by simp
  next
    case False
    then show ?thesis using assms new(3) by (auto simp: run_devices_def)
  qed
  then show ?thesis
    using sampler_session [OF i] by (auto simp: release_devices_def tracker_Close_def linux_close_def sampler_close_def)
qed

theorem devices_released_witness:
  "\<exists>t lt p n. run_devices True \<lparr>aa_load = None, aa_exec = None, aa_exit = Some ''busy'', aa_reader = None\<rparr> NvmlLibraryNotFound
       (Inl '''' :: gostring + unit nvml_device_info option list) 0 = ((t, lt), (p, n)) \<and>
     lt_execLink lt = ClosedHandle \<and> tk_fallbackMode t \<and> released lt"
proof -
  let ?a = "\<lparr>aa_load = None, aa_exec = None, aa_exit = Some ''busy'', aa_reader = None\<rparr>"
  obtain t lt p n where a: "run_devices True ?a NvmlLibraryNotFound (Inl '''' :: gostring + unit nvml_device_info option list) 0 = ((t, lt), (p, n))"
    by (metis prod.exhaust)
  then have "lt_execLink lt = ClosedHandle" "tk_fallbackMode t"
    by (auto simp: run_devices_def attach_def NewTracker_def linux_start_def tracker_Start_def tracker_cleanup_def newPlatformTracker_def)
  with devices_released [OF a] a show ?thesis by blast
qed

end
