(* ===== verification/Webhook.thy ===== *)
theory Webhook
  imports GoHttp
begin

text \<open>
  The webhook engine of \<open>src/internal/proxy/webhook\<close>: the registry of tenants and its HTTP
  handlers (\<open>registry.go\<close>), the dispatcher of alerts (\<open>dispatcher.go\<close>), the retry queue
  (\<open>retry.go\<close>), the broker of server-sent events (\<open>sse.go\<close>) and their composition
  (\<open>engine.go\<close>). The answers of the tenants' servers, HMAC-SHA256, the reading of JSON text, the
  clock and the random numbers are arguments. The engine is modelled while it runs; theory
  \<open>WebhookLife\<close> has its start and its stop. The queues are buffered channels: a queue of size zero,
  where a send would have to meet a receiver, counts as one that is always full.
\<close>

section \<open>Types\<close>

datatype DeliveryStatus =
    DeliveryStatusDelivered | DeliveryStatusFailed | DeliveryStatusRetrying | DeliveryStatusDead

record WebhookSettings =
  ws_RetryMaxAttempts :: int
  ws_RetryBaseDelay :: duration
  ws_RetryMaxDelay :: duration
  ws_DispatchTimeout :: duration
  ws_WorkerCount :: int
  ws_JobQueueSize :: int
  ws_SSEKeepAlive :: duration

definition WebhookDefaultConfig :: WebhookSettings where
  "WebhookDefaultConfig = \<lparr>
     ws_RetryMaxAttempts = 5,
     ws_RetryBaseDelay = 1 * second_ns,
     ws_RetryMaxDelay = 30 * second_ns,
     ws_DispatchTimeout = 10 * second_ns,
     ws_WorkerCount = 4,
     ws_JobQueueSize = 256,
     ws_SSEKeepAlive = 30 * second_ns\<rparr>"

text \<open>A Go map of headers is a map, or nothing when it is nil.\<close>

record WebhookConfig =
  wc_TenantID :: gostring
  wc_URL :: gostring
  wc_Secret :: gostring
  wc_Active :: bool
  wc_Headers :: "(gostring \<rightharpoonup> gostring) option"

record RetryTask =
  tk_TenantID :: gostring
  tk_TargetURL :: gostring
  tk_Secret :: gostring
  tk_Headers :: "(gostring \<rightharpoonup> gostring) option"
  tk_Body :: bytes
  tk_Attempt :: int
  tk_LastError :: gostring
  tk_LastStatus :: int
  tk_NextRetryAt :: "time_ns option"

record DispatchJob =
  dj_TenantID :: gostring
  dj_Config :: WebhookConfig
  dj_Body :: bytes
  dj_AlertID :: gostring
  dj_Severity :: gostring

record WebhookDispatchTelemetry =
  wt_DispatchTimestamp :: int
  wt_TargetTenantID :: gostring
  wt_TargetURL :: gostring
  wt_HTTPStatusCode :: int
  wt_DeliveryLatencyMs :: real
  wt_DeliveryStatus :: DeliveryStatus
  wt_RetryAttempt :: int
  wt_SignaturePresent :: bool

record SSEConnectionTelemetry =
  st_ConnectTimestamp :: int
  st_DisconnectTimestamp :: int
  st_ClientIP :: gostring
  st_TenantID :: gostring
  st_EventsDispatched :: int
  st_ConnectionDurationMs :: real

definition signPayload :: "(bytes \<Rightarrow> bytes \<Rightarrow> bytes) \<Rightarrow> bytes \<Rightarrow> gostring \<Rightarrow> gostring" where
  "signPayload hmac body secret = hex_encode (hmac secret body)"

definition formatSignature :: "gostring \<Rightarrow> gostring" where
  "formatSignature sig = ''sha256='' @ sig"

section \<open>Request headers\<close>

type_synonym header_order = "(gostring \<rightharpoonup> gostring) \<Rightarrow> gostring list"

definition set_headers :: "header_order \<Rightarrow> (gostring \<rightharpoonup> gostring) option \<Rightarrow> http_header \<Rightarrow> http_header" where
  "set_headers ord custom h =
     (case custom of None \<Rightarrow> h | Some m \<Rightarrow> fold (\<lambda>(k, v) h. header_Set h k v) (range_pairs ord m) h)"

text \<open>A post and how it ends: the request cannot be made, the exchange fails, or a status.\<close>

record PostRequest =
  po_URL :: gostring
  po_Header :: http_header
  po_Body :: bytes

datatype post_outcome = PostInvalid gostring | PostFailed gostring | PostStatus int

definition post_request ::
  "(bytes \<Rightarrow> bytes \<Rightarrow> bytes) \<Rightarrow> header_order \<Rightarrow> gostring \<Rightarrow> (gostring \<rightharpoonup> gostring) option \<Rightarrow> gostring \<Rightarrow> bytes \<Rightarrow> PostRequest" where
  "post_request hmac ord url headers secret body =
     (let h = header_Set Map.empty ''Content-Type'' ''application/json'';
          h = set_headers ord headers h;
          h = (if secret \<noteq> '''' then header_Set h ''X-AICP-Signature'' (formatSignature (signPayload hmac body secret)) else h)
      in \<lparr>po_URL = url, po_Header = h, po_Body = body\<rparr>)"

section \<open>The registry\<close>

type_synonym WebhookRegistry = "gostring \<rightharpoonup> WebhookConfig"

type_synonym tenant_order = "(gostring \<rightharpoonup> WebhookConfig) \<Rightarrow> gostring list"

definition NewWebhookRegistry :: WebhookRegistry where
  "NewWebhookRegistry = Map.empty"

definition registry_Add :: "WebhookRegistry \<Rightarrow> WebhookConfig \<Rightarrow> WebhookRegistry" where
  "registry_Add r cfg = r(wc_TenantID cfg \<mapsto> cfg)"

definition registry_Get :: "WebhookRegistry \<Rightarrow> gostring \<Rightarrow> WebhookConfig option" where
  "registry_Get r tenantID = r tenantID"

definition registry_Update :: "WebhookRegistry \<Rightarrow> WebhookConfig \<Rightarrow> WebhookRegistry" where
  "registry_Update r cfg = r(wc_TenantID cfg \<mapsto> cfg)"

definition registry_Remove :: "WebhookRegistry \<Rightarrow> gostring \<Rightarrow> WebhookRegistry" where
  "registry_Remove r tenantID = r(tenantID := None)"

definition registry_List :: "tenant_order \<Rightarrow> WebhookRegistry \<Rightarrow> WebhookConfig list" where
  "registry_List ord r = map (\<lambda>cfg. cfg\<lparr>wc_Secret := ''''\<rparr>) (range_values ord r)"

definition registry_ListActive :: "tenant_order \<Rightarrow> WebhookRegistry \<Rightarrow> WebhookConfig list" where
  "registry_ListActive ord r = filter wc_Active (range_values ord r)"

text \<open>The reply of a handler: a status and what is encoded in the body.\<close>

datatype reply_body = NoBody | ErrorBody gostring | ConfigBody WebhookConfig | ConfigsBody "WebhookConfig list"

type_synonym reply = "int \<times> reply_body"

fun decode_headers :: "(gostring \<times> json) list \<Rightarrow> (gostring \<rightharpoonup> gostring) \<Rightarrow> (gostring \<rightharpoonup> gostring) \<times> bool" where
  "decode_headers [] h = (h, True)"
| "decode_headers ((k, j) # kvs) h =
     (let (v, ok) = decode_string '''' j; (h', ok') = decode_headers kvs (h(k \<mapsto> v)) in (h', ok \<and> ok'))"

definition decode_header_map :: "(gostring \<rightharpoonup> gostring) option decoder" where
  "decode_header_map old j =
     (case j of
        JObj kvs \<Rightarrow> (let (h, ok) = decode_headers kvs (case old of None \<Rightarrow> Map.empty | Some h \<Rightarrow> h) in (Some h, ok))
      | JNull \<Rightarrow> (None, True)
      | _ \<Rightarrow> (old, False))"

definition update_webhook :: "gostring \<Rightarrow> WebhookConfig decoder" where
  "update_webhook f old j =
     (if f = ''tenant_id'' then (let (v, ok) = decode_string (wc_TenantID old) j in (old\<lparr>wc_TenantID := v\<rparr>, ok))
      else if f = ''url'' then (let (v, ok) = decode_string (wc_URL old) j in (old\<lparr>wc_URL := v\<rparr>, ok))
      else if f = ''secret'' then (let (v, ok) = decode_string (wc_Secret old) j in (old\<lparr>wc_Secret := v\<rparr>, ok))
      else if f = ''active'' then (let (v, ok) = decode_bool (wc_Active old) j in (old\<lparr>wc_Active := v\<rparr>, ok))
      else (let (v, ok) = decode_header_map (wc_Headers old) j in (old\<lparr>wc_Headers := v\<rparr>, ok)))"

definition zero_webhook :: WebhookConfig where
  "zero_webhook = \<lparr>wc_TenantID = '''', wc_URL = '''', wc_Secret = '''', wc_Active = False, wc_Headers = None\<rparr>"

text \<open>The decoding of a request body whose first JSON value is the argument, if there is one.\<close>

definition decode_webhook :: "json option \<Rightarrow> WebhookConfig option" where
  "decode_webhook body =
     (case body of
        None \<Rightarrow> None
      | Some j \<Rightarrow>
          (let (cfg, ok) = decode_struct [''tenant_id'', ''url'', ''secret'', ''active'', ''headers''] update_webhook zero_webhook j
           in if ok then Some cfg else None))"

definition handleList :: "tenant_order \<Rightarrow> WebhookRegistry \<Rightarrow> reply" where
  "handleList ord r = (200, ConfigsBody (registry_List ord r))"

definition handleCreate :: "WebhookRegistry \<Rightarrow> json option \<Rightarrow> reply \<times> WebhookRegistry" where
  "handleCreate r body =
     (case decode_webhook body of
        None \<Rightarrow> ((400, ErrorBody ''invalid JSON''), r)
      | Some cfg \<Rightarrow>
          (if wc_TenantID cfg = '''' \<or> wc_URL cfg = '''' then ((422, ErrorBody ''tenant_id and url are required''), r)
           else ((201, ConfigBody cfg), registry_Add r cfg)))"

definition handleGet :: "WebhookRegistry \<Rightarrow> gostring \<Rightarrow> reply" where
  "handleGet r tenantID =
     (case registry_Get r tenantID of None \<Rightarrow> (404, ErrorBody ''not found'') | Some cfg \<Rightarrow> (200, ConfigBody cfg))"

definition handleUpdate :: "WebhookRegistry \<Rightarrow> gostring \<Rightarrow> json option \<Rightarrow> reply \<times> WebhookRegistry" where
  "handleUpdate r tenantID body =
     (case registry_Get r tenantID of
        None \<Rightarrow> ((404, ErrorBody ''not found''), r)
      | Some _ \<Rightarrow>
          (case decode_webhook body of
             None \<Rightarrow> ((400, ErrorBody ''invalid JSON''), r)
           | Some cfg \<Rightarrow>
               (let cfg = cfg\<lparr>wc_TenantID := tenantID\<rparr> in ((200, ConfigBody cfg), registry_Update r cfg))))"

definition handleDelete :: "WebhookRegistry \<Rightarrow> gostring \<Rightarrow> reply \<times> WebhookRegistry" where
  "handleDelete r tenantID = ((204, NoBody), registry_Remove r tenantID)"

section \<open>The engine's state\<close>

text \<open>A client of the event stream: its channel, who it is, and how many events it was given.\<close>

record sseClient =
  sc_ch :: "bytes list"
  sc_tenantID :: gostring
  sc_clientIP :: gostring
  sc_created :: time_ns
  sc_events :: int

text \<open>
  What the loop of the retry queue is doing: waiting for a task, waiting for the time of a task,
  or sending a task that failed back into the channel.
\<close>

datatype retry_phase = Idle | Holding RetryTask | Sending RetryTask

record WebhookEngine =
  we_cfg :: WebhookSettings
  we_registry :: WebhookRegistry
  we_jobCh :: "DispatchJob list"
  we_retryCh :: "RetryTask list"
  we_phase :: retry_phase
  we_clients :: "nat \<rightharpoonup> sseClient"
  we_diagFn :: bool
  we_diag :: "WebhookDispatchTelemetry list"
  we_sseDiagFn :: bool
  we_sseDiag :: "SSEConnectionTelemetry list"
  we_posts :: "PostRequest list"

definition NewWebhookEngine :: "WebhookSettings \<Rightarrow> WebhookRegistry option \<Rightarrow> WebhookEngine option" where
  "NewWebhookEngine cfg registry =
     (if ws_JobQueueSize cfg < 0 then None
      else Some \<lparr>
        we_cfg = cfg,
        we_registry = (case registry of None \<Rightarrow> NewWebhookRegistry | Some r \<Rightarrow> r),
        we_jobCh = [], we_retryCh = [], we_phase = Idle,
        we_clients = Map.empty,
        we_diagFn = False, we_diag = [], we_sseDiagFn = False, we_sseDiag = [],
        we_posts = []\<rparr>)"

definition queue_size :: "WebhookEngine \<Rightarrow> nat" where
  "queue_size e = nat (ws_JobQueueSize (we_cfg e))"

definition SetDispatchDiagnosticCallback :: "WebhookEngine \<Rightarrow> bool \<Rightarrow> WebhookEngine" where
  "SetDispatchDiagnosticCallback e fn = e\<lparr>we_diagFn := fn\<rparr>"

definition SetSSEDiagnosticCallback :: "WebhookEngine \<Rightarrow> bool \<Rightarrow> WebhookEngine" where
  "SetSSEDiagnosticCallback e fn = e\<lparr>we_sseDiagFn := fn\<rparr>"

definition emitDiag :: "WebhookEngine \<Rightarrow> WebhookDispatchTelemetry \<Rightarrow> WebhookEngine" where
  "emitDiag e diag = (if we_diagFn e then e\<lparr>we_diag := we_diag e @ [diag]\<rparr> else e)"

section \<open>Dispatching\<close>

text \<open>
  \<open>json.Marshal\<close> of a byte slice is its base64 text in quotes; the bodies are the results of an
  earlier \<open>json.Marshal\<close> in the alerter, which are never nil.
\<close>

definition base64_digit :: "nat \<Rightarrow> char" where
  "base64_digit n =
     (if n < 26 then char_of (65 + n) else if n < 52 then char_of (97 + (n - 26))
      else if n < 62 then char_of (48 + (n - 52)) else if n = 62 then CHR ''+'' else CHR ''/'')"

fun base64 :: "bytes \<Rightarrow> gostring" where
  "base64 [] = []"
| "base64 [a] = (let n = of_char a :: nat
     in [base64_digit (n div 4), base64_digit (n mod 4 * 16), CHR ''='', CHR ''=''])"
| "base64 [a, b] = (let n = of_char a :: nat; m = of_char b :: nat
     in [base64_digit (n div 4), base64_digit (n mod 4 * 16 + m div 16), base64_digit (m mod 16 * 4), CHR ''=''])"
| "base64 (a # b # c # s) = (let n = of_char a :: nat; m = of_char b :: nat; k = of_char c :: nat
     in [base64_digit (n div 4), base64_digit (n mod 4 * 16 + m div 16), base64_digit (m mod 16 * 4 + k div 64),
         base64_digit (k mod 64)] @ base64 s)"

definition marshal_bytes :: "bytes \<Rightarrow> bytes" where
  "marshal_bytes b = [CHR 0x22] @ base64 b @ [CHR 0x22]"

text \<open>What a delivery reads from the outside, and the parameters of every post.\<close>

record delivery_inputs =
  dx_answer :: post_outcome
  dx_latency :: real
  dx_now :: int

record post_env =
  pe_hmac :: "bytes \<Rightarrow> bytes \<Rightarrow> bytes"
  pe_order :: header_order

definition http_error :: "int \<Rightarrow> gostring" where
  "http_error code = ''HTTP '' @ format_int code"

definition telemetry ::
  "int \<Rightarrow> gostring \<Rightarrow> gostring \<Rightarrow> int \<Rightarrow> real \<Rightarrow> DeliveryStatus \<Rightarrow> int \<Rightarrow> gostring \<Rightarrow> WebhookDispatchTelemetry" where
  "telemetry now tenant url code latency status attempt secret = \<lparr>
     wt_DispatchTimestamp = now,
     wt_TargetTenantID = tenant,
     wt_TargetURL = url,
     wt_HTTPStatusCode = code,
     wt_DeliveryLatencyMs = latency,
     wt_DeliveryStatus = status,
     wt_RetryAttempt = attempt,
     wt_SignaturePresent = (secret \<noteq> '''')\<rparr>"

definition Enqueue :: "WebhookEngine \<Rightarrow> DispatchJob \<Rightarrow> WebhookEngine" where
  "Enqueue e job = e\<lparr>we_jobCh := try_send (queue_size e) (we_jobCh e) job\<rparr>"

definition retry_task :: "DispatchJob \<Rightarrow> int \<Rightarrow> gostring \<Rightarrow> RetryTask" where
  "retry_task job statusCode errMsg = \<lparr>
     tk_TenantID = dj_TenantID job,
     tk_TargetURL = wc_URL (dj_Config job),
     tk_Secret = wc_Secret (dj_Config job),
     tk_Headers = wc_Headers (dj_Config job),
     tk_Body = dj_Body job,
     tk_Attempt = 1,
     tk_LastError = errMsg,
     tk_LastStatus = statusCode,
     tk_NextRetryAt = None\<rparr>"

definition enqueueRetry :: "WebhookEngine \<Rightarrow> DispatchJob \<Rightarrow> int \<Rightarrow> gostring \<Rightarrow> real \<Rightarrow> int \<Rightarrow> WebhookEngine" where
  "enqueueRetry e job statusCode errMsg latency now =
     (let e = emitDiag e (telemetry now (dj_TenantID job) (wc_URL (dj_Config job)) statusCode latency
            DeliveryStatusRetrying 0 (wc_Secret (dj_Config job)))
      in e\<lparr>we_retryCh := try_send (queue_size e) (we_retryCh e) (retry_task job statusCode errMsg)\<rparr>)"

definition job_request :: "post_env \<Rightarrow> DispatchJob \<Rightarrow> PostRequest" where
  "job_request env job = post_request (pe_hmac env) (pe_order env) (wc_URL (dj_Config job)) (wc_Headers (dj_Config job))
     (wc_Secret (dj_Config job)) (marshal_bytes (dj_Body job))"

definition dispatch :: "post_env \<Rightarrow> WebhookEngine \<Rightarrow> DispatchJob \<Rightarrow> delivery_inputs \<Rightarrow> WebhookEngine" where
  "dispatch env e job x =
     (case dx_answer x of
        PostInvalid _ \<Rightarrow> e
      | PostFailed err \<Rightarrow>
          enqueueRetry (e\<lparr>we_posts := we_posts e @ [job_request env job]\<rparr>) job 0 err (dx_latency x) (dx_now x)
      | PostStatus code \<Rightarrow>
          (let e = e\<lparr>we_posts := we_posts e @ [job_request env job]\<rparr>
           in if code < 200 \<or> code \<ge> 300
              then enqueueRetry e job code (http_error code) (dx_latency x) (dx_now x)
              else emitDiag e (telemetry (dx_now x) (dj_TenantID job) (wc_URL (dj_Config job)) code (dx_latency x)
                     DeliveryStatusDelivered 0 (wc_Secret (dj_Config job)))))"

text \<open>One turn of a worker.\<close>

definition worker_step :: "post_env \<Rightarrow> WebhookEngine \<Rightarrow> delivery_inputs \<Rightarrow> WebhookEngine option" where
  "worker_step env e x =
     (case we_jobCh e of [] \<Rightarrow> None | job # jobs \<Rightarrow> Some (dispatch env (e\<lparr>we_jobCh := jobs\<rparr>) job x))"

section \<open>Retrying\<close>

text \<open>The delay before an attempt, in nanoseconds; the argument \<open>j\<close> is drawn from \<open>[0, 1)\<close>.\<close>

definition retry_ceiling :: "WebhookSettings \<Rightarrow> int \<Rightarrow> real" where
  "retry_ceiling cfg attempt =
     (let b = real_of_int (ws_RetryBaseDelay cfg sdiv millisecond_ns);
          m = real_of_int (ws_RetryMaxDelay cfg sdiv millisecond_ns);
          e = b * 2 powi (attempt - 1);
          c = min e m
      in if c \<le> 0 then 1 else c)"

definition backoff :: "WebhookSettings \<Rightarrow> int \<Rightarrow> real \<Rightarrow> duration" where
  "backoff cfg attempt j =
     (let c = retry_ceiling cfg attempt in to_i64 (\<lfloor>c + j * c\<rfloor> * millisecond_ns))"

text \<open>The loop takes a task and waits; the sum of the time and the delay is when it will try.\<close>

definition retry_take :: "WebhookEngine \<Rightarrow> time_ns \<Rightarrow> real \<Rightarrow> WebhookEngine option" where
  "retry_take e now j =
     (case we_phase e of
        Idle \<Rightarrow>
          (case we_retryCh e of
             [] \<Rightarrow> None
           | task # tasks \<Rightarrow>
               (let delay = backoff (we_cfg e) (tk_Attempt task) j
                in Some (e\<lparr>we_retryCh := tasks, we_phase := Holding (task\<lparr>tk_NextRetryAt := Some (now + delay)\<rparr>)\<rparr>)))
      | _ \<Rightarrow> None)"

definition task_request :: "post_env \<Rightarrow> RetryTask \<Rightarrow> PostRequest" where
  "task_request env task =
     post_request (pe_hmac env) (pe_order env) (tk_TargetURL task) (tk_Headers task) (tk_Secret task) (tk_Body task)"

text \<open>A failure counts the attempt; the task is given up or has to go back into the channel.\<close>

definition handleFailure ::
  "WebhookEngine \<Rightarrow> RetryTask \<Rightarrow> int \<Rightarrow> gostring \<Rightarrow> int \<Rightarrow> time_ns \<Rightarrow> real \<Rightarrow> WebhookEngine" where
  "handleFailure e task statusCode errMsg now clock j =
     (let task = task\<lparr>tk_Attempt := to_i64 (tk_Attempt task + 1), tk_LastError := errMsg, tk_LastStatus := statusCode\<rparr>
      in if tk_Attempt task > ws_RetryMaxAttempts (we_cfg e)
         then emitDiag (e\<lparr>we_phase := Idle\<rparr>)
                (telemetry now (tk_TenantID task) (tk_TargetURL task) statusCode 0 DeliveryStatusDead
                   (to_i64 (tk_Attempt task - 1)) (tk_Secret task))
         else
           (let delay = backoff (we_cfg e) (tk_Attempt task) j;
                task = task\<lparr>tk_NextRetryAt := Some (clock + delay)\<rparr>
            in emitDiag (e\<lparr>we_phase := Sending task\<rparr>)
                 (telemetry now (tk_TenantID task) (tk_TargetURL task) statusCode 0 DeliveryStatusRetrying
                    (tk_Attempt task) (tk_Secret task))))"

definition retry_post :: "post_env \<Rightarrow> WebhookEngine \<Rightarrow> RetryTask \<Rightarrow> delivery_inputs \<Rightarrow> time_ns \<Rightarrow> real \<Rightarrow> WebhookEngine" where
  "retry_post env e task x clock j =
     (case dx_answer x of
        PostInvalid err \<Rightarrow> handleFailure e task 0 err (dx_now x) clock j
      | PostFailed err \<Rightarrow>
          handleFailure (e\<lparr>we_posts := we_posts e @ [task_request env task]\<rparr>) task 0 err (dx_now x) clock j
      | PostStatus code \<Rightarrow>
          (let e = e\<lparr>we_posts := we_posts e @ [task_request env task]\<rparr>
           in if code < 200 \<or> code \<ge> 300 then handleFailure e task code (http_error code) (dx_now x) clock j
              else emitDiag (e\<lparr>we_phase := Idle\<rparr>)
                     (telemetry (dx_now x) (tk_TenantID task) (tk_TargetURL task) code (dx_latency x)
                        DeliveryStatusDelivered (tk_Attempt task) (tk_Secret task))))"

definition retry_fire :: "post_env \<Rightarrow> WebhookEngine \<Rightarrow> delivery_inputs \<Rightarrow> time_ns \<Rightarrow> real \<Rightarrow> WebhookEngine option" where
  "retry_fire env e x clock j =
     (case we_phase e of Holding task \<Rightarrow> Some (retry_post env e task x clock j) | _ \<Rightarrow> None)"

text \<open>The send waits until the channel has room: there is no other branch while the engine runs.\<close>

definition retry_send :: "WebhookEngine \<Rightarrow> WebhookEngine option" where
  "retry_send e =
     (case we_phase e of
        Sending task \<Rightarrow>
          (if length (we_retryCh e) < queue_size e
           then Some (e\<lparr>we_retryCh := we_retryCh e @ [task], we_phase := Idle\<rparr>) else None)
      | _ \<Rightarrow> None)"

section \<open>Server-sent events\<close>

definition sse_capacity :: nat where
  "sse_capacity = 64"

definition newline :: gostring where
  "newline = [CHR 10]"

definition sse_frame :: "gostring \<Rightarrow> bytes \<Rightarrow> bytes" where
  "sse_frame eventType data = ''event: '' @ eventType @ newline @ ''data: '' @ data @ newline @ newline"

definition connected_frame :: bytes where
  "connected_frame = sse_frame ''connected'' ([CHR ''{'', CHR 0x22] @ ''status'' @ [CHR 0x22] @ '':'' @ [CHR 0x22] @ ''connected'' @
     [CHR 0x22, CHR ''}''])"

definition heartbeat_frame :: bytes where
  "heartbeat_frame = '': heartbeat'' @ newline @ newline"

text \<open>One client is offered a frame; only broadcast frames are counted.\<close>

definition offer :: "bytes \<Rightarrow> bool \<Rightarrow> sseClient \<Rightarrow> sseClient" where
  "offer frame counted client =
     (if length (sc_ch client) < sse_capacity
      then client\<lparr>sc_ch := sc_ch client @ [frame],
                  sc_events := (if counted then to_i64 (sc_events client + 1) else sc_events client)\<rparr>
      else client)"

definition Broadcast :: "WebhookEngine \<Rightarrow> gostring \<Rightarrow> bytes \<Rightarrow> WebhookEngine" where
  "Broadcast e eventType data = e\<lparr>we_clients := (\<lambda>i. map_option (offer (sse_frame eventType data) True) (we_clients e i))\<rparr>"

definition keepAlive :: "WebhookEngine \<Rightarrow> WebhookEngine" where
  "keepAlive e = e\<lparr>we_clients := (\<lambda>i. map_option (offer heartbeat_frame False) (we_clients e i))\<rparr>"

text \<open>The headers of the request that name its origin.\<close>

definition extractClientIP :: "gostring \<Rightarrow> gostring \<Rightarrow> gostring \<Rightarrow> gostring" where
  "extractClientIP forwardedFor realIP remoteAddr =
     (if forwardedFor \<noteq> '''' then forwardedFor else if realIP \<noteq> '''' then realIP else remoteAddr)"

text \<open>
  \<open>ServeHTTP\<close>: a client joins under a new identity and is written a greeting, its messages are
  written one by one, and it leaves when its request ends or a write fails.
\<close>

definition sse_connect :: "WebhookEngine \<Rightarrow> nat \<Rightarrow> gostring \<Rightarrow> gostring \<Rightarrow> time_ns \<Rightarrow> bytes \<times> WebhookEngine" where
  "sse_connect e i clientIP tenantID now =
     (connected_frame,
      e\<lparr>we_clients := (we_clients e)(i \<mapsto> \<lparr>sc_ch = [], sc_tenantID = tenantID, sc_clientIP = clientIP, sc_created = now,
          sc_events = 0\<rparr>)\<rparr>)"

definition cleanupClient :: "WebhookEngine \<Rightarrow> nat \<Rightarrow> sseClient \<Rightarrow> int \<Rightarrow> int \<Rightarrow> real \<Rightarrow> WebhookEngine" where
  "cleanupClient e i client connectTime now duration =
     (let e = e\<lparr>we_clients := (we_clients e)(i := None)\<rparr>
      in if we_sseDiagFn e
         then e\<lparr>we_sseDiag := we_sseDiag e @ [\<lparr>
           st_ConnectTimestamp = connectTime,
           st_DisconnectTimestamp = now,
           st_ClientIP = sc_clientIP client,
           st_TenantID = sc_tenantID client,
           st_EventsDispatched = sc_events client,
           st_ConnectionDurationMs = duration\<rparr>]\<rparr>
         else e)"

definition sse_write :: "WebhookEngine \<Rightarrow> nat \<Rightarrow> bool \<Rightarrow> int \<Rightarrow> int \<Rightarrow> real \<Rightarrow> (bytes \<times> WebhookEngine) option" where
  "sse_write e i ok connectTime now duration =
     (case we_clients e i of
        None \<Rightarrow> None
      | Some client \<Rightarrow>
          (case sc_ch client of
             [] \<Rightarrow> None
           | msg # msgs \<Rightarrow>
               (let client = client\<lparr>sc_ch := msgs\<rparr>; e = e\<lparr>we_clients := (we_clients e)(i \<mapsto> client)\<rparr>
                in if ok then Some (msg, e) else Some ([], cleanupClient e i client connectTime now duration))))"

definition sse_disconnect :: "WebhookEngine \<Rightarrow> nat \<Rightarrow> int \<Rightarrow> int \<Rightarrow> real \<Rightarrow> WebhookEngine option" where
  "sse_disconnect e i connectTime now duration =
     (case we_clients e i of None \<Rightarrow> None | Some client \<Rightarrow> Some (cleanupClient e i client connectTime now duration))"

definition ActiveClients :: "(((nat \<rightharpoonup> sseClient) \<Rightarrow> nat list)) \<Rightarrow> WebhookEngine \<Rightarrow> int" where
  "ActiveClients ord e = int (map_len ord (we_clients e))"

section \<open>Alerts\<close>

definition alert_job :: "bytes \<Rightarrow> WebhookConfig \<Rightarrow> DispatchJob" where
  "alert_job alert cfg = \<lparr>dj_TenantID = wc_TenantID cfg, dj_Config = cfg, dj_Body = alert, dj_AlertID = '''', dj_Severity = ''''\<rparr>"

definition processAlert :: "tenant_order \<Rightarrow> WebhookEngine \<Rightarrow> bytes \<Rightarrow> WebhookEngine" where
  "processAlert ord e alert =
     fold (\<lambda>cfg e. Enqueue e (alert_job alert cfg)) (registry_ListActive ord (we_registry e)) (Broadcast e ''alert'' alert)"

section \<open>Steps of the running engine\<close>

text \<open>What the goroutines and the HTTP handlers may do next, in any order.\<close>

inductive webhook_step :: "post_env \<Rightarrow> WebhookEngine \<Rightarrow> WebhookEngine \<Rightarrow> bool" for env where
  step_alert: "webhook_step env e (processAlert ord e alert)"
| step_worker: "worker_step env e x = Some e' \<Longrightarrow> webhook_step env e e'"
| step_take: "retry_take e now j = Some e' \<Longrightarrow> webhook_step env e e'"
| step_fire: "retry_fire env e x clock j = Some e' \<Longrightarrow> webhook_step env e e'"
| step_send: "retry_send e = Some e' \<Longrightarrow> webhook_step env e e'"
| step_create: "handleCreate (we_registry e) body = (r, reg) \<Longrightarrow> webhook_step env e (e\<lparr>we_registry := reg\<rparr>)"
| step_update: "handleUpdate (we_registry e) tenant body = (r, reg) \<Longrightarrow> webhook_step env e (e\<lparr>we_registry := reg\<rparr>)"
| step_delete: "handleDelete (we_registry e) tenant = (r, reg) \<Longrightarrow> webhook_step env e (e\<lparr>we_registry := reg\<rparr>)"
| step_connect: "we_clients e i = None \<Longrightarrow> sse_connect e i ip tenant now = (greeting, e') \<Longrightarrow> webhook_step env e e'"
| step_write: "sse_write e i ok t0 t1 d = Some (out, e') \<Longrightarrow> webhook_step env e e'"
| step_disconnect: "sse_disconnect e i t0 t1 d = Some e' \<Longrightarrow> webhook_step env e e'"
| step_heartbeat: "webhook_step env e (keepAlive e)"

inductive webhook_run :: "post_env \<Rightarrow> WebhookEngine \<Rightarrow> WebhookEngine \<Rightarrow> bool" for env where
  run_refl: "webhook_run env e e"
| run_step: "webhook_run env e e1 \<Longrightarrow> webhook_step env e1 e2 \<Longrightarrow> webhook_run env e e2"

section \<open>Frames of the operations\<close>

text \<open>Every operation but those of the retry queue and the workers leaves both queues' state alone.\<close>

definition same_retries :: "WebhookEngine \<Rightarrow> WebhookEngine \<Rightarrow> bool" where
  "same_retries e e' \<longleftrightarrow> we_cfg e' = we_cfg e \<and> we_phase e' = we_phase e \<and> we_retryCh e' = we_retryCh e"

lemma same_retries_refl [simp]: "same_retries e e"
  by (simp add: same_retries_def)

lemma same_retries_trans: "same_retries e e1 \<Longrightarrow> same_retries e1 e2 \<Longrightarrow> same_retries e e2"
  by (simp add: same_retries_def)

lemma emitDiag_frame [simp]:
  "we_cfg (emitDiag e d) = we_cfg e" "we_phase (emitDiag e d) = we_phase e" "we_retryCh (emitDiag e d) = we_retryCh e"
  "we_jobCh (emitDiag e d) = we_jobCh e" "we_diag (emitDiag e d) = we_diag e @ (if we_diagFn e then [d] else [])"
  "we_posts (emitDiag e d) = we_posts e" "we_diagFn (emitDiag e d) = we_diagFn e" "we_registry (emitDiag e d) = we_registry e"
  "queue_size (emitDiag e d) = queue_size e"
  by (simp_all add: emitDiag_def queue_size_def)

lemma Enqueue_frame [simp]:
  "we_cfg (Enqueue e job) = we_cfg e" "we_phase (Enqueue e job) = we_phase e" "we_retryCh (Enqueue e job) = we_retryCh e"
  "we_jobCh (Enqueue e job) = try_send (queue_size e) (we_jobCh e) job" "we_diag (Enqueue e job) = we_diag e"
  "we_clients (Enqueue e job) = we_clients e" "queue_size (Enqueue e job) = queue_size e"
  by (simp_all add: Enqueue_def queue_size_def)

lemma enqueue_all:
  "we_cfg (fold (\<lambda>cfg e. Enqueue e (alert_job alert cfg)) cfgs e) = we_cfg e"
  "we_phase (fold (\<lambda>cfg e. Enqueue e (alert_job alert cfg)) cfgs e) = we_phase e"
  "we_retryCh (fold (\<lambda>cfg e. Enqueue e (alert_job alert cfg)) cfgs e) = we_retryCh e"
  "we_diag (fold (\<lambda>cfg e. Enqueue e (alert_job alert cfg)) cfgs e) = we_diag e"
  "we_clients (fold (\<lambda>cfg e. Enqueue e (alert_job alert cfg)) cfgs e) = we_clients e"
  by (induction cfgs arbitrary: e) simp_all

interpretation job_queue: event_sink Enqueue we_jobCh queue_size
  by unfold_locales simp_all

lemma Broadcast_frame [simp]:
  "we_cfg (Broadcast e t d) = we_cfg e" "we_phase (Broadcast e t d) = we_phase e" "we_retryCh (Broadcast e t d) = we_retryCh e"
  "we_jobCh (Broadcast e t d) = we_jobCh e" "we_diag (Broadcast e t d) = we_diag e" "we_registry (Broadcast e t d) = we_registry e"
  "queue_size (Broadcast e t d) = queue_size e"
  by (simp_all add: Broadcast_def queue_size_def)

lemma processAlert_frame [simp]:
  "we_cfg (processAlert ord e a) = we_cfg e" "we_phase (processAlert ord e a) = we_phase e"
  "we_retryCh (processAlert ord e a) = we_retryCh e" "we_diag (processAlert ord e a) = we_diag e"
  by (simp_all add: processAlert_def enqueue_all)

lemma cleanupClient_frame [simp]:
  "we_cfg (cleanupClient e i c t0 t1 d) = we_cfg e" "we_phase (cleanupClient e i c t0 t1 d) = we_phase e"
  "we_retryCh (cleanupClient e i c t0 t1 d) = we_retryCh e" "we_diag (cleanupClient e i c t0 t1 d) = we_diag e"
  by (simp_all add: cleanupClient_def Let_def)

lemma sse_write_frame:
  "sse_write e i ok t0 t1 d = Some (out, e') \<Longrightarrow> same_retries e e' \<and> we_diag e' = we_diag e"
  by (auto simp: sse_write_def same_retries_def Let_def split: option.splits list.splits if_splits)

lemma sse_disconnect_frame:
  "sse_disconnect e i t0 t1 d = Some e' \<Longrightarrow> same_retries e e' \<and> we_diag e' = we_diag e"
  by (auto simp: sse_disconnect_def same_retries_def split: option.splits)

lemma sse_connect_frame:
  "sse_connect e i ip tenant now = (g, e') \<Longrightarrow> same_retries e e' \<and> we_diag e' = we_diag e"
  by (auto simp: sse_connect_def same_retries_def)

lemma keepAlive_frame: "same_retries e (keepAlive e) \<and> we_diag (keepAlive e) = we_diag e"
  by (simp add: keepAlive_def same_retries_def)

section \<open>The retry queue\<close>

definition retry_bounds :: "WebhookSettings \<Rightarrow> bool" where
  "retry_bounds cfg \<longleftrightarrow> 1 \<le> ws_RetryMaxAttempts cfg \<and> ws_RetryMaxAttempts cfg < 2 ^ 63 - 1"

definition task_ok :: "WebhookSettings \<Rightarrow> RetryTask \<Rightarrow> bool" where
  "task_ok cfg task \<longleftrightarrow> 1 \<le> tk_Attempt task \<and> tk_Attempt task \<le> ws_RetryMaxAttempts cfg"

definition diag_ok :: "WebhookSettings \<Rightarrow> WebhookDispatchTelemetry \<Rightarrow> bool" where
  "diag_ok cfg d \<longleftrightarrow> 0 \<le> wt_RetryAttempt d \<and> wt_RetryAttempt d \<le> ws_RetryMaxAttempts cfg \<and>
     (wt_DeliveryStatus d = DeliveryStatusDead \<longrightarrow> wt_RetryAttempt d = ws_RetryMaxAttempts cfg)"

fun phase_tasks :: "retry_phase \<Rightarrow> RetryTask set" where
  "phase_tasks Idle = {}"
| "phase_tasks (Holding task) = {task}"
| "phase_tasks (Sending task) = {task}"

definition retry_inv :: "WebhookSettings \<Rightarrow> WebhookEngine \<Rightarrow> bool" where
  "retry_inv cfg e \<longleftrightarrow> we_cfg e = cfg \<and> length (we_retryCh e) \<le> queue_size e \<and>
     (\<forall>task \<in> set (we_retryCh e) \<union> phase_tasks (we_phase e). task_ok cfg task) \<and>
     (\<forall>d \<in> set (we_diag e). diag_ok cfg d)"

lemma retry_inv_frame:
  assumes "retry_inv cfg e" "same_retries e e'" "set (we_diag e') \<subseteq> set (we_diag e)"
  shows "retry_inv cfg e'"
  using assms by (auto simp: retry_inv_def same_retries_def queue_size_def)

lemma retry_inv_diag:
  assumes "retry_inv cfg e" "diag_ok cfg d"
  shows "retry_inv cfg (emitDiag e d)"
  using assms by (auto simp: retry_inv_def)

lemma diag_ok_telemetry [simp]:
  "diag_ok cfg (telemetry now tenant url code latency status attempt secret) \<longleftrightarrow>
     0 \<le> attempt \<and> attempt \<le> ws_RetryMaxAttempts cfg \<and> (status = DeliveryStatusDead \<longrightarrow> attempt = ws_RetryMaxAttempts cfg)"
  by (auto simp: diag_ok_def telemetry_def)

lemma retry_inv_posts [simp]: "retry_inv cfg (e\<lparr>we_posts := ps\<rparr>) = retry_inv cfg e"
  by (simp add: retry_inv_def queue_size_def)

lemma retry_inv_enqueueRetry:
  assumes "retry_inv cfg e" "retry_bounds cfg"
  shows "retry_inv cfg (enqueueRetry e job code err latency now)"
proof -
  let ?d = "telemetry now (dj_TenantID job) (wc_URL (dj_Config job)) code latency DeliveryStatusRetrying 0
    (wc_Secret (dj_Config job))"
  have "retry_inv cfg (emitDiag e ?d)"
    using retry_inv_diag [OF assms(1)] assms(2) by (simp add: retry_bounds_def)
  moreover have "task_ok cfg (retry_task job code err)"
    using assms(2) by (simp add: task_ok_def retry_task_def retry_bounds_def)
  ultimately show ?thesis
    using set_try_send [of "queue_size e" "we_retryCh e"] length_try_send [of "we_retryCh e" "queue_size e"]
    by (fastforce simp: enqueueRetry_def Let_def retry_inv_def queue_size_def)
qed

lemma retry_inv_dispatch:
  assumes "retry_inv cfg e" "retry_bounds cfg"
  shows "retry_inv cfg (dispatch env e job x)"
proof (cases "dx_answer x")
  case (PostStatus code)
  have ok: "retry_inv cfg (e\<lparr>we_posts := we_posts e @ [job_request env job]\<rparr>)" using assms(1) by simp
  show ?thesis
    using retry_inv_enqueueRetry [OF ok assms(2)] retry_inv_diag [OF ok] assms(2) PostStatus
    by (simp add: dispatch_def Let_def retry_bounds_def)
qed (use assms in \<open>simp_all add: dispatch_def retry_inv_enqueueRetry\<close>)

lemma retry_inv_jobs [simp]: "retry_inv cfg (e\<lparr>we_jobCh := js\<rparr>) = retry_inv cfg e"
  by (simp add: retry_inv_def queue_size_def)

lemma retry_inv_registry [simp]: "retry_inv cfg (e\<lparr>we_registry := r\<rparr>) = retry_inv cfg e"
  by (simp add: retry_inv_def queue_size_def)

lemma retry_inv_take:
  assumes "retry_inv cfg e" "retry_take e now j = Some e'"
  shows "retry_inv cfg e'"
  using assms by (auto simp: retry_inv_def retry_take_def queue_size_def task_ok_def Let_def
      split: retry_phase.splits list.splits)

lemma retry_inv_idle: "retry_inv cfg e \<Longrightarrow> retry_inv cfg (e\<lparr>we_phase := Idle\<rparr>)"
  by (auto simp: retry_inv_def queue_size_def)

lemma retry_inv_failure:
  assumes "retry_inv cfg e" "retry_bounds cfg" "task_ok cfg task"
  shows "retry_inv cfg (handleFailure e task code err now clock j)"
proof -
  have succ: "to_i64 (tk_Attempt task + 1) = tk_Attempt task + 1" "to_i64 (tk_Attempt task) = tk_Attempt task"
    using assms(2,3) by (auto simp: task_ok_def retry_bounds_def in_i64_def intro!: to_i64_id)
  have top: "to_i64 (ws_RetryMaxAttempts cfg + 1) = ws_RetryMaxAttempts cfg + 1"
      "to_i64 (ws_RetryMaxAttempts cfg) = ws_RetryMaxAttempts cfg"
    using assms(2) by (auto simp: retry_bounds_def in_i64_def intro!: to_i64_id)
  have cfg: "we_cfg e = cfg" using assms(1) by (simp add: retry_inv_def)
  show ?thesis
  proof (cases "tk_Attempt task + 1 > ws_RetryMaxAttempts cfg")
    case True
    then show ?thesis
      using retry_inv_diag [OF retry_inv_idle [OF assms(1)]] assms(3) cfg
      by (simp add: handleFailure_def Let_def succ top task_ok_def)
  next
    case False
    have "retry_inv cfg (e\<lparr>we_phase := Sending t\<rparr>)" if "task_ok cfg t" for t
      using assms(1) that by (auto simp: retry_inv_def queue_size_def)
    then show ?thesis
      using False assms(3) cfg
      by (auto simp: handleFailure_def Let_def succ task_ok_def intro!: retry_inv_diag)
  qed
qed

lemma retry_inv_fire:
  assumes "retry_inv cfg e" "retry_bounds cfg" "retry_fire env e x clock j = Some e'"
  shows "retry_inv cfg e'"
proof -
  obtain task where task: "we_phase e = Holding task" "e' = retry_post env e task x clock j"
    using assms(3) by (auto simp: retry_fire_def split: retry_phase.splits)
  then have ok: "task_ok cfg task" using assms(1) by (simp add: retry_inv_def)
  let ?e = "e\<lparr>we_posts := we_posts e @ [task_request env task]\<rparr>"
  have posted: "retry_inv cfg ?e" using assms(1) by simp
  show ?thesis
    using retry_inv_failure [OF assms(1,2) ok] retry_inv_failure [OF posted assms(2) ok]
      retry_inv_diag [OF retry_inv_idle [OF posted]] ok
    by (cases "dx_answer x") (simp_all add: task retry_post_def Let_def task_ok_def)
qed

lemma retry_inv_send:
  assumes "retry_inv cfg e" "retry_send e = Some e'"
  shows "retry_inv cfg e'"
  using assms by (auto simp: retry_inv_def retry_send_def queue_size_def split: retry_phase.splits if_splits)

lemma retry_inv_step:
  assumes "webhook_step env e e'" "retry_inv cfg e" "retry_bounds cfg"
  shows "retry_inv cfg e'"
  using assms
proof cases
  case (step_alert ord alert)
  then show ?thesis using assms(2) retry_inv_frame [of cfg e e'] by (simp add: same_retries_def)
next
  case (step_worker x)
  then show ?thesis
    using retry_inv_dispatch [of cfg _ env _ x] assms(2,3) by (auto simp: worker_step_def split: list.splits)
next
  case (step_write i ok t0 t1 d out)
  then show ?thesis using sse_write_frame [of e i ok t0 t1 d out e'] retry_inv_frame [OF assms(2)] by simp
next
  case (step_disconnect i t0 t1 d)
  then show ?thesis using sse_disconnect_frame [of e i t0 t1 d e'] retry_inv_frame [OF assms(2)] by simp
next
  case (step_connect i ip tenant now greeting)
  then show ?thesis using sse_connect_frame [of e i ip tenant now greeting e'] retry_inv_frame [OF assms(2)] by simp
next
  case step_heartbeat
  then show ?thesis using keepAlive_frame [of e] retry_inv_frame [OF assms(2)] by simp
next
  case (step_take now j)
  then show ?thesis using retry_inv_take [OF assms(2)] by blast
next
  case (step_fire x clock j)
  then show ?thesis using retry_inv_fire [OF assms(2,3)] by blast
next
  case step_send
  then show ?thesis using retry_inv_send [OF assms(2)] by blast
qed (use assms(2) in simp_all)

lemma retry_inv_run:
  "webhook_run env e e' \<Longrightarrow> retry_inv cfg e \<Longrightarrow> retry_bounds cfg \<Longrightarrow> retry_inv cfg e'"
  by (induction rule: webhook_run.induct) (auto intro: retry_inv_step)

section \<open>Properties\<close>


lemma dispatch_full:
  assumes "queue_size e \<le> length (we_retryCh e)"
  shows "same_retries e (dispatch env e job x)"
  using assms by (cases "dx_answer x")
    (simp_all add: dispatch_def enqueueRetry_def same_retries_def Let_def queue_size_def)

lemma stuck_step:
  assumes "webhook_step env e e'" "we_phase e = Sending task" "queue_size e \<le> length (we_retryCh e)"
  shows "same_retries e e'"
  using assms
proof cases
  case (step_worker x)
  then obtain job jobs where "we_jobCh e = job # jobs" "e' = dispatch env (e\<lparr>we_jobCh := jobs\<rparr>) job x"
    by (auto simp: worker_step_def split: list.splits)
  moreover have "same_retries e (e\<lparr>we_jobCh := jobs\<rparr>)" by (simp add: same_retries_def)
  ultimately show ?thesis
    using dispatch_full [of "e\<lparr>we_jobCh := jobs\<rparr>" env job x] assms(3) same_retries_trans
    by (simp add: queue_size_def same_retries_def)
next
  case (step_write i ok t0 t1 d out)
  then show ?thesis using sse_write_frame [of e i ok t0 t1 d out e'] by simp
next
  case (step_disconnect i t0 t1 d)
  then show ?thesis using sse_disconnect_frame [of e i t0 t1 d e'] by simp
next
  case (step_connect i ip tenant now greeting)
  then show ?thesis using sse_connect_frame [of e i ip tenant now greeting e'] by simp
next
  case step_heartbeat
  then show ?thesis using keepAlive_frame [of e] by simp
qed (use assms(2,3) in \<open>simp_all add: same_retries_def retry_take_def retry_fire_def retry_send_def split: if_splits\<close>)

text \<open>
  C40: The retry queue can lock up for good. The loop that empties the channel also refills it: once
  it has to send a failed task back while the channel is full, no step of the running engine
  changes that, and no retry is ever made again.
\<close>

theorem retry_queue_locks_up:
  assumes "webhook_run env e e'" "we_phase e = Sending task" "queue_size e \<le> length (we_retryCh e)"
  shows "we_phase e' = Sending task \<and> we_retryCh e' = we_retryCh e \<and> retry_take e' now j = None \<and>
    retry_fire env e' x clock j = None \<and> retry_send e' = None"
proof -
  have "same_retries e e'"
    using assms
  proof induction
    case (run_step e e1 e2)
    then have s: "same_retries e e1" by simp
    then have "we_phase e1 = Sending task" "queue_size e1 \<le> length (we_retryCh e1)"
      using run_step.prems by (simp_all add: same_retries_def queue_size_def)
    from same_retries_trans [OF s stuck_step [OF run_step.hyps(2) this]] show ?case .
  qed simp
  then show ?thesis
    using assms(2,3) by (simp add: same_retries_def retry_take_def retry_fire_def retry_send_def queue_size_def)
qed

text \<open>A queue of one: two alerts whose deliveries fail, the first of which fails again on its retry.\<close>

definition demo_settings :: WebhookSettings where
  "demo_settings = WebhookDefaultConfig\<lparr>ws_JobQueueSize := 1\<rparr>"

definition demo_tenant :: WebhookConfig where
  "demo_tenant = zero_webhook\<lparr>wc_TenantID := ''t'', wc_URL := ''u'', wc_Active := True\<rparr>"

definition demo_env :: post_env where
  "demo_env = \<lparr>pe_hmac = (\<lambda>k b. b), pe_order = sorted_keys\<rparr>"

definition failing :: delivery_inputs where
  "failing = \<lparr>dx_answer = PostFailed ''refused'', dx_latency = 0, dx_now = 0\<rparr>"

definition demo_webhook :: WebhookEngine where
  "demo_webhook = SetDispatchDiagnosticCallback (the (NewWebhookEngine demo_settings (Some [''t'' \<mapsto> demo_tenant]))) True"

lemma demo_webhook_new:
  "NewWebhookEngine demo_settings (Some [''t'' \<mapsto> demo_tenant]) = Some (the (NewWebhookEngine demo_settings (Some [''t'' \<mapsto> demo_tenant])))"
  by (simp add: NewWebhookEngine_def demo_settings_def WebhookDefaultConfig_def)

definition demo_job :: "bytes \<Rightarrow> DispatchJob" where
  "demo_job a = alert_job a demo_tenant"

definition with_queues :: "DispatchJob list \<Rightarrow> RetryTask list \<Rightarrow> retry_phase \<Rightarrow> WebhookEngine \<Rightarrow> bool" where
  "with_queues jobs tasks phase e \<longleftrightarrow> we_cfg e = demo_settings \<and> we_registry e = [''t'' \<mapsto> demo_tenant] \<and>
     we_jobCh e = jobs \<and> we_retryCh e = tasks \<and> we_phase e = phase"

lemma demo_active: "registry_ListActive sorted_keys [''t'' \<mapsto> demo_tenant] = [demo_tenant]"
  by (simp add: registry_ListActive_def range_values_def range_pairs_def sorted_keys_def demo_tenant_def)

lemma demo_size: "ws_JobQueueSize demo_settings = 1" "ws_RetryMaxAttempts demo_settings = 5"
  by (simp_all add: demo_settings_def WebhookDefaultConfig_def)

lemma demo_start: "with_queues [] [] Idle demo_webhook"
  by (simp add: demo_webhook_def SetDispatchDiagnosticCallback_def NewWebhookEngine_def demo_size with_queues_def)

lemma demo_alert:
  "with_queues [] tasks phase e \<Longrightarrow> with_queues [demo_job a] tasks phase (processAlert sorted_keys e a)"
  by (simp add: with_queues_def processAlert_def demo_active Enqueue_def Broadcast_def queue_size_def demo_size demo_job_def)

lemma demo_worker:
  "with_queues [demo_job a] [] phase e \<Longrightarrow>
   \<exists>e'. worker_step demo_env e failing = Some e' \<and> with_queues [] [retry_task (demo_job a) 0 ''refused''] phase e'"
  by (simp add: with_queues_def worker_step_def dispatch_def failing_def enqueueRetry_def Let_def emitDiag_def queue_size_def
      demo_size)

lemma demo_take:
  "with_queues jobs [task] Idle e \<Longrightarrow>
   \<exists>e' task'. retry_take e 0 0 = Some e' \<and> with_queues jobs [] (Holding task') e' \<and> tk_Attempt task' = tk_Attempt task"
  by (simp add: with_queues_def retry_take_def Let_def)

lemma demo_fire:
  "with_queues jobs tasks (Holding task) e \<Longrightarrow> tk_Attempt task = 1 \<Longrightarrow>
   \<exists>e' task'. retry_fire demo_env e failing 0 0 = Some e' \<and> with_queues jobs tasks (Sending task') e'"
  by (simp add: with_queues_def retry_fire_def retry_post_def failing_def handleFailure_def Let_def emitDiag_def demo_size
      to_i64_def)

lemma demo_locked: "\<exists>e task. webhook_run demo_env demo_webhook e \<and> with_queues [] [retry_task (demo_job ''b'') 0 ''refused''] (Sending task) e"
proof -
  let ?e1 = "processAlert sorted_keys demo_webhook ''a''"
  have r1: "webhook_run demo_env demo_webhook ?e1" by (blast intro: webhook_run.intros step_alert)
  obtain e2 where e2: "worker_step demo_env ?e1 failing = Some e2"
      "with_queues [] [retry_task (demo_job ''a'') 0 ''refused''] Idle e2"
    using demo_worker [OF demo_alert [OF demo_start]] by blast
  obtain e3 t3 where e3: "retry_take e2 0 0 = Some e3" "with_queues [] [] (Holding t3) e3" "tk_Attempt t3 = 1"
    using demo_take [OF e2(2)] by (auto simp: retry_task_def)
  let ?e4 = "processAlert sorted_keys e3 ''b''"
  obtain e5 where e5: "worker_step demo_env ?e4 failing = Some e5"
      "with_queues [] [retry_task (demo_job ''b'') 0 ''refused''] (Holding t3) e5"
    using demo_worker [OF demo_alert [OF e3(2)]] by blast
  obtain e6 t6 where e6: "retry_fire demo_env e5 failing 0 0 = Some e6"
      "with_queues [] [retry_task (demo_job ''b'') 0 ''refused''] (Sending t6) e6"
    using demo_fire [OF e5(2) e3(3)] by blast
  have "webhook_run demo_env demo_webhook e3"
    using r1 e2(1) e3(1) by (blast intro: webhook_run.intros step_worker step_take)
  then have "webhook_run demo_env demo_webhook e6"
    using e5(1) e6(1) by (blast intro: webhook_run.intros step_alert step_worker step_fire)
  with e6(2) show ?thesis by blast
qed


theorem retry_queue_locks_up_witness:
  "\<exists>e. webhook_run demo_env demo_webhook e \<and> we_retryCh e \<noteq> [] \<and> retry_take e 0 0 = None \<and> retry_send e = None"
proof -
  obtain e task where e: "webhook_run demo_env demo_webhook e"
      "with_queues [] [retry_task (demo_job ''b'') 0 ''refused''] (Sending task) e"
    using demo_locked by blast
  then have "we_phase e = Sending task" "queue_size e \<le> length (we_retryCh e)"
    by (simp_all add: with_queues_def queue_size_def demo_size)
  from retry_queue_locks_up [OF run_refl this] e show ?thesis by (auto simp: with_queues_def)
qed

text \<open>
  An alert reaches every client of the event stream whose buffer has room, as one frame that
  reads back as the event and its data, and every active tenant, in the order of the registry,
  as far as the job queue has room; nothing that was queued before is lost.
\<close>

lemma alert_fans_out:
  assumes "processAlert ord e alert = e'" "length (we_jobCh e) \<le> queue_size e"
  shows "we_jobCh e' = take (queue_size e) (we_jobCh e @ map (alert_job alert) (registry_ListActive ord (we_registry e))) \<and>
    (\<forall>i. we_clients e' i = map_option (offer (sse_frame ''alert'' alert) True) (we_clients e i)) \<and>
    (CHR 10 \<notin> set alert \<longrightarrow>
       split_on (CHR 10) (sse_frame ''alert'' alert) = [''event: alert'', ''data: '' @ alert, '''', ''''])"
proof -
  let ?cfgs = "registry_ListActive ord (we_registry e)"
  let ?e = "Broadcast e ''alert'' alert"
  have fold_jobs: "fold (\<lambda>cfg e. Enqueue e (alert_job alert cfg)) cfgs e1 =
      fold (\<lambda>job e. Enqueue e job) (map (alert_job alert) cfgs) e1" for cfgs e1
    by (simp add: fold_map comp_def)
  have "we_jobCh e' = take (queue_size ?e) (we_jobCh ?e @ map (alert_job alert) ?cfgs)"
  proof -
    have "e' = fold (\<lambda>job e. Enqueue e job) (map (alert_job alert) ?cfgs) ?e"
      using assms(1) by (simp add: processAlert_def fold_jobs)
    moreover have "we_jobCh (fold (\<lambda>job e. Enqueue e job) (map (alert_job alert) ?cfgs) ?e) =
        take (queue_size ?e) (we_jobCh ?e @ map (alert_job alert) ?cfgs)"
      by (rule job_queue.pending_run) (simp add: assms(2))
    ultimately show ?thesis by simp
  qed
  moreover have "we_clients e' = we_clients ?e"
    unfolding assms(1) [symmetric] by (simp add: processAlert_def enqueue_all)
  moreover have "split_on (CHR 10) (sse_frame ''alert'' alert) = [''event: alert'', ''data: '' @ alert, '''', '''']"
    if "CHR 10 \<notin> set alert"
  proof -
    have e: "CHR 10 \<notin> set ''event: alert''" and d: "CHR 10 \<notin> set (''data: '' @ alert)" using that by simp_all
    have "sse_frame ''alert'' alert = ''event: alert'' @ CHR 10 # (''data: '' @ alert) @ CHR 10 # [] @ CHR 10 # []"
      by (simp add: sse_frame_def newline_def)
    then show ?thesis
      by (simp only: split_on_append [OF e] split_on_append [OF d]) simp
  qed
  ultimately show ?thesis by (simp add: Broadcast_def queue_size_def)
qed

lemma length_base64: "length s \<le> length (base64 s)"
proof (induction s rule: base64.induct)
  case (4 a b c s)
  then have "length s \<le> length (base64 s)" by simp
  then show ?case by (simp add: Let_def)
qed (simp_all add: Let_def)

lemma signature_key: "canonical_key ''X-AICP-Signature'' = ''X-Aicp-Signature''"
  by code_simp

lemma post_request_signed:
  "secret \<noteq> '''' \<Longrightarrow> po_Header (post_request hmac ord url headers secret body) ''X-Aicp-Signature'' =
     Some [''sha256='' @ hex_encode (hmac secret body)]"
  by (simp add: post_request_def Let_def header_Set_def signature_key formatSignature_def signPayload_def)

text \<open>
  What a tenant receives depends on whether the first delivery succeeded: the first post
  carries the alert as a quoted base64 string, a retry carries the alert itself, and the two are
  never the same bytes. Each is signed over its own bytes, whatever headers the tenant configured.
\<close>

lemma retry_sends_other_bytes:
  assumes "wc_Secret (dj_Config job) \<noteq> ''''"
  shows "po_Body (job_request env job) = [CHR 0x22] @ base64 (dj_Body job) @ [CHR 0x22] \<and>
    po_Body (task_request env (retry_task job code err)) = dj_Body job \<and>
    po_Body (job_request env job) \<noteq> po_Body (task_request env (retry_task job code err)) \<and>
    (\<forall>req \<in> {job_request env job, task_request env (retry_task job code err)}.
       po_URL req = wc_URL (dj_Config job) \<and>
       po_Header req ''X-Aicp-Signature'' = Some [''sha256='' @ hex_encode (pe_hmac env (wc_Secret (dj_Config job)) (po_Body req))])"
proof -
  have "[CHR 0x22] @ base64 b @ [CHR 0x22] \<noteq> b" for b
  proof
    assume "[CHR 0x22] @ base64 b @ [CHR 0x22] = b"
    then have "length b = Suc (Suc (length (base64 b)))" by (metis append_Cons append_Nil length_Cons length_append_singleton)
    then show False using length_base64 [of b] by simp
  qed
  moreover have "po_Body (job_request env job) = [CHR 0x22] @ base64 (dj_Body job) @ [CHR 0x22]"
    "po_Body (task_request env (retry_task job code err)) = dj_Body job"
    by (simp_all add: job_request_def task_request_def post_request_def Let_def marshal_bytes_def retry_task_def)
  moreover have "po_Header (job_request env job) ''X-Aicp-Signature'' =
      Some [''sha256='' @ hex_encode (pe_hmac env (wc_Secret (dj_Config job)) (po_Body (job_request env job)))]"
    using post_request_signed [OF assms] by (simp add: job_request_def post_request_def Let_def)
  moreover have "po_Header (task_request env (retry_task job code err)) ''X-Aicp-Signature'' =
      Some [''sha256='' @ hex_encode (pe_hmac env (wc_Secret (dj_Config job)) (po_Body (task_request env (retry_task job code err))))]"
    using post_request_signed [OF assms] by (simp add: task_request_def post_request_def Let_def retry_task_def)
  moreover have "po_URL (job_request env job) = wc_URL (dj_Config job)"
    "po_URL (task_request env (retry_task job code err)) = wc_URL (dj_Config job)"
    by (simp_all add: job_request_def task_request_def post_request_def Let_def retry_task_def)
  ultimately show ?thesis by simp
qed

text \<open>
  A tenant that was created or updated is what the registry answers with afterwards, other
  tenants are not affected, and a deleted tenant is unknown. The list never shows a secret; the
  answer for a single tenant does.
\<close>

lemma tenant_registry:
  assumes "handleCreate r body = ((201, ConfigBody cfg), r')"
  shows "handleGet r' (wc_TenantID cfg) = (200, ConfigBody cfg) \<and>
    (\<forall>tenant. tenant \<noteq> wc_TenantID cfg \<longrightarrow> handleGet r' tenant = handleGet r tenant) \<and>
    wc_TenantID cfg \<noteq> '''' \<and> wc_URL cfg \<noteq> '''' \<and>
    (\<forall>body2 cfg2. decode_webhook body2 = Some cfg2 \<longrightarrow>
       handleGet (snd (handleUpdate r' (wc_TenantID cfg) body2)) (wc_TenantID cfg) =
         (200, ConfigBody (cfg2\<lparr>wc_TenantID := wc_TenantID cfg\<rparr>))) \<and>
    handleGet (snd (handleDelete r' (wc_TenantID cfg))) (wc_TenantID cfg) = (404, ErrorBody ''not found'') \<and>
    (\<forall>ord. \<exists>cfgs. handleList ord r' = (200, ConfigsBody cfgs) \<and> (\<forall>c \<in> set cfgs. wc_Secret c = ''''))"
proof -
  have c: "decode_webhook body = Some cfg" "wc_TenantID cfg \<noteq> ''''" "wc_URL cfg \<noteq> ''''" "r' = registry_Add r cfg"
    using assms by (auto simp: handleCreate_def split: option.splits if_splits)
  have l: "\<forall>ord. \<exists>cfgs. handleList ord r' = (200, ConfigsBody cfgs) \<and> (\<forall>c \<in> set cfgs. wc_Secret c = '''')"
    by (auto simp: handleList_def registry_List_def)
  show ?thesis
    using c l by (simp add: handleGet_def registry_Get_def registry_Add_def handleUpdate_def Let_def registry_Update_def
        handleDelete_def registry_Remove_def)
qed

end
