(* ===== verification/WebhookLife.thy ===== *)
theory WebhookLife
  imports Webhook Stopping "HOL-Library.Sublist"
begin

text \<open>
  The goroutines of the webhook engine and how it stops (\<open>Start\<close>, \<open>Stop\<close> and the loops of
  \<open>engine.go\<close>, \<open>dispatcher.go\<close>, \<open>retry.go\<close> and \<open>sse.go\<close> under \<open>src/internal/proxy/webhook\<close>).
  The handlers of HTTP requests run beside them, before and after a stop. A \<open>select\<close> takes any of
  its branches that is ready, so a loop whose context is cancelled may still take work.
\<close>

section \<open>Goroutines\<close>

datatype wh_goroutine = WHAlerts | WHWorker nat | WHRetry | WHKeepAlive

datatype wh_group = WHEngine | WHDispatcher | WHRetryQueue | WHBroker

fun wh_owner :: "wh_goroutine \<Rightarrow> wh_group" where
  "wh_owner WHAlerts = WHEngine"
| "wh_owner (WHWorker i) = WHDispatcher"
| "wh_owner WHRetry = WHRetryQueue"
| "wh_owner WHKeepAlive = WHBroker"

text \<open>
  The goroutines that \<open>Start\<close> leaves running; \<open>None\<close> is the panic of the ticker that refuses a
  period which is not positive.
\<close>

definition wh_started :: "WebhookSettings \<Rightarrow> wh_goroutine set option" where
  "wh_started cfg =
     (if ws_SSEKeepAlive cfg \<le> 0 then None
      else Some ({WHAlerts, WHRetry, WHKeepAlive} \<union> WHWorker ` {..<nat (ws_WorkerCount cfg)}))"

text \<open>A turn of each goroutine while its context is live.\<close>

inductive wh_turn :: "post_env \<Rightarrow> wh_goroutine \<Rightarrow> WebhookEngine \<Rightarrow> WebhookEngine \<Rightarrow> bool" for env where
  wt_alert: "wh_turn env WHAlerts e (processAlert ord e alert)"
| wt_worker: "worker_step env e x = Some e' \<Longrightarrow> wh_turn env (WHWorker i) e e'"
| wt_take: "retry_take e now j = Some e' \<Longrightarrow> wh_turn env WHRetry e e'"
| wt_fire: "retry_fire env e x clock j = Some e' \<Longrightarrow> wh_turn env WHRetry e e'"
| wt_send: "retry_send e = Some e' \<Longrightarrow> wh_turn env WHRetry e e'"
| wt_heartbeat: "wh_turn env WHKeepAlive e (keepAlive e)"

text \<open>
  A turn with the context cancelled: every post fails, a job or a task that was to be queued may be
  dropped instead, and the retry loop gives up the task it waits with or wants to send.
\<close>

definition post_fails :: "delivery_inputs \<Rightarrow> bool" where
  "post_fails x \<longleftrightarrow> (case dx_answer x of PostStatus _ \<Rightarrow> False | _ \<Rightarrow> True)"

inductive wh_late :: "post_env \<Rightarrow> wh_goroutine \<Rightarrow> WebhookEngine \<Rightarrow> WebhookEngine \<Rightarrow> bool" for env where
  wl_alert: "subseq cfgs (registry_ListActive ord (we_registry e)) \<Longrightarrow>
    wh_late env WHAlerts e (fold (\<lambda>cfg e. Enqueue e (alert_job alert cfg)) cfgs (Broadcast e ''alert'' alert))"
| wl_worker: "worker_step env e x = Some e' \<Longrightarrow> post_fails x \<Longrightarrow> wh_late env (WHWorker i) e e'"
| wl_worker_drop: "worker_step env e x = Some e' \<Longrightarrow> post_fails x \<Longrightarrow>
    wh_late env (WHWorker i) e (e'\<lparr>we_retryCh := we_retryCh e\<rparr>)"
| wl_take: "retry_take e now j = Some e' \<Longrightarrow> wh_late env WHRetry e e'"
| wl_fire: "retry_fire env e x clock j = Some e' \<Longrightarrow> post_fails x \<Longrightarrow> wh_late env WHRetry e e'"
| wl_send: "retry_send e = Some e' \<Longrightarrow> wh_late env WHRetry e e'"
| wl_give_up: "we_phase e \<noteq> Idle \<Longrightarrow> wh_late env WHRetry e (e\<lparr>we_phase := Idle\<rparr>)"
| wl_heartbeat: "wh_late env WHKeepAlive e (keepAlive e)"

section \<open>Requests\<close>

text \<open>Opening the event stream: without a writer that flushes there is none.\<close>

definition ServeHTTP ::
  "bool \<Rightarrow> nat \<Rightarrow> gostring \<Rightarrow> gostring \<Rightarrow> gostring \<Rightarrow> gostring option \<Rightarrow> time_ns \<Rightarrow> WebhookEngine \<Rightarrow> (int \<times> bytes) \<times> WebhookEngine" where
  "ServeHTTP flushes i forwardedFor realIP remoteAddr tenant now e =
     (if \<not> flushes then ((500, ''streaming not supported'' @ newline), e)
      else (let (greeting, e) = sse_connect e i (extractClientIP forwardedFor realIP remoteAddr)
                  (case tenant of None \<Rightarrow> '''' | Some t \<Rightarrow> t) now
            in ((200, greeting), e)))"

inductive wh_request :: "WebhookEngine \<Rightarrow> WebhookEngine \<Rightarrow> bool" where
  wr_create: "handleCreate (we_registry e) body = (r, reg) \<Longrightarrow> wh_request e (e\<lparr>we_registry := reg\<rparr>)"
| wr_update: "handleUpdate (we_registry e) tenant body = (r, reg) \<Longrightarrow> wh_request e (e\<lparr>we_registry := reg\<rparr>)"
| wr_delete: "handleDelete (we_registry e) tenant = (r, reg) \<Longrightarrow> wh_request e (e\<lparr>we_registry := reg\<rparr>)"
| wr_stream: "we_clients e i = None \<Longrightarrow> ServeHTTP flushes i fwd ip addr tenant now e = (reply, e') \<Longrightarrow> wh_request e e'"
| wr_write: "sse_write e i ok t0 t1 d = Some (out, e') \<Longrightarrow> wh_request e e'"
| wr_disconnect: "sse_disconnect e i t0 t1 d = Some e' \<Longrightarrow> wh_request e e'"

section \<open>The life of the webhook engine\<close>

datatype wh_action = WHCancel | WHAwait wh_group

definition wh_stop_script :: "wh_action list" where
  "wh_stop_script = [WHCancel, WHAwait WHEngine, WHAwait WHDispatcher, WHAwait WHRetryQueue, WHAwait WHBroker]"

record WebhookLife =
  wl_engine :: WebhookEngine
  wl_running :: "wh_goroutine set"
  wl_cancelled :: bool
  wl_todo :: "wh_action list option"

definition wh_perform :: "wh_action \<Rightarrow> WebhookLife \<Rightarrow> WebhookLife option" where
  "wh_perform a l =
     (case a of
        WHCancel \<Rightarrow> Some (l\<lparr>wl_cancelled := True\<rparr>)
      | WHAwait wg \<Rightarrow> if \<exists>g \<in> wl_running l. wh_owner g = wg then None else Some l)"

text \<open>
  The alert loop also ends when its channel is closed. The retry loop looks for its end only between
  two tasks.
\<close>

inductive wh_life_step :: "post_env \<Rightarrow> WebhookLife \<Rightarrow> WebhookLife \<Rightarrow> bool" for env where
  wh_live: "g \<in> wl_running l \<Longrightarrow> \<not> wl_cancelled l \<Longrightarrow> wh_turn env g (wl_engine l) e \<Longrightarrow>
    wh_life_step env l (l\<lparr>wl_engine := e\<rparr>)"
| wh_last: "g \<in> wl_running l \<Longrightarrow> wl_cancelled l \<Longrightarrow> wh_late env g (wl_engine l) e \<Longrightarrow>
    wh_life_step env l (l\<lparr>wl_engine := e\<rparr>)"
| wh_http: "wh_request (wl_engine l) e \<Longrightarrow> wh_life_step env l (l\<lparr>wl_engine := e\<rparr>)"
| wh_exit: "g \<in> wl_running l \<Longrightarrow> wl_cancelled l \<or> g = WHAlerts \<Longrightarrow> g = WHRetry \<longrightarrow> we_phase (wl_engine l) = Idle \<Longrightarrow>
    wh_life_step env l (l\<lparr>wl_running := wl_running l - {g}\<rparr>)"
| wh_stop: "wl_todo l = None \<Longrightarrow> wh_life_step env l (l\<lparr>wl_todo := Some wh_stop_script\<rparr>)"
| wh_main: "wl_todo l = Some (a # todo) \<Longrightarrow> wh_perform a l = Some l' \<Longrightarrow>
    wh_life_step env l (l'\<lparr>wl_todo := Some todo\<rparr>)"

inductive wh_life_reach :: "WebhookSettings \<Rightarrow> post_env \<Rightarrow> WebhookLife \<Rightarrow> bool" for cfg env where
  wh_start: "NewWebhookEngine cfg registry = Some e \<Longrightarrow> wh_started cfg = Some gs \<Longrightarrow>
    wh_life_reach cfg env \<lparr>wl_engine = SetSSEDiagnosticCallback (SetDispatchDiagnosticCallback e d) s, wl_running = gs,
      wl_cancelled = False, wl_todo = None\<rparr>"
| wh_next: "wh_life_reach cfg env l \<Longrightarrow> wh_life_step env l l' \<Longrightarrow> wh_life_reach cfg env l'"

section \<open>Stopping ends\<close>

text \<open>What is left of the script, and whom it has waited for.\<close>

definition wh_inv :: "WebhookLife \<Rightarrow> bool" where
  "wh_inv l \<longleftrightarrow> finite (wl_running l) \<and>
     (case wl_todo l of
        None \<Rightarrow> True
      | Some todo \<Rightarrow> suffix todo wh_stop_script \<and> (WHCancel \<notin> set todo \<longrightarrow> wl_cancelled l) \<and>
          (\<forall>g \<in> wl_running l. WHAwait (wh_owner g) \<in> set todo))"

lemma wh_owner_awaited: "WHAwait (wh_owner g) \<in> set wh_stop_script"
  by (cases g) (simp_all add: wh_stop_script_def)

lemma wh_perform_frame:
  assumes "wh_perform a l = Some l'"
  shows "wl_running l' = wl_running l" "wl_engine l' = wl_engine l" "wl_cancelled l' \<longleftrightarrow> wl_cancelled l \<or> a = WHCancel"
    "a = WHAwait wg \<Longrightarrow> g \<in> wl_running l \<Longrightarrow> wh_owner g \<noteq> wg"
  using assms by (auto simp: wh_perform_def split: wh_action.splits if_splits)

lemma wh_reach_inv: "wh_life_reach cfg env l \<Longrightarrow> wh_inv l"
proof (induction rule: wh_life_reach.induct)
  case (wh_start registry e gs d s)
  then show ?case by (auto simp: wh_inv_def wh_started_def split: if_splits)
next
  case (wh_next l l')
  from wh_next.hyps(2) show ?case
  proof cases
    case wh_stop
    then show ?thesis using wh_next.IH wh_owner_awaited by (simp add: wh_inv_def wh_stop_script_def)
  next
    case (wh_main a todo l1)
    note f = wh_perform_frame [OF wh_main(3)]
    have "suffix todo wh_stop_script" using wh_next.IH wh_main(2) by (auto simp: wh_inv_def dest: suffix_ConsD)
    moreover have "\<forall>g \<in> wl_running l. WHAwait (wh_owner g) \<noteq> a" using f(4) by blast
    ultimately show ?thesis using wh_next.IH wh_main(1,2) f(1,3) by (auto simp: wh_inv_def)
  qed (use wh_next.IH in \<open>auto simp: wh_inv_def split: option.splits\<close>)
qed

definition wh_stopped :: "WebhookLife \<Rightarrow> bool" where
  "wh_stopped l \<longleftrightarrow> wl_todo l = Some []"

definition wh_rank :: "WebhookLife \<Rightarrow> nat" where
  "wh_rank l = card (wl_running l) + (if we_phase (wl_engine l) = Idle then 0 else 1) +
     (case wl_todo l of None \<Rightarrow> Suc (length wh_stop_script) | Some todo \<Rightarrow> length todo)"

lemma wh_exit_progress:
  assumes "wh_inv l" "g \<in> wl_running l" "wl_cancelled l"
  shows "\<exists>l'. wh_life_step env l l' \<and> wh_rank l' < wh_rank l"
proof (cases "g = WHRetry \<and> we_phase (wl_engine l) \<noteq> Idle")
  case True
  then have "wh_life_step env l (l\<lparr>wl_engine := (wl_engine l)\<lparr>we_phase := Idle\<rparr>\<rparr>)"
    using assms(2,3) by (blast intro: wh_last wl_give_up)
  then show ?thesis using True by (intro exI conjI) (assumption, simp add: wh_rank_def)
next
  case False
  have "card (wl_running l - {g}) < card (wl_running l)"
    using assms(1,2) by (intro card_Diff1_less) (simp_all add: wh_inv_def)
  moreover have "wh_life_step env l (l\<lparr>wl_running := wl_running l - {g}\<rparr>)" using assms(2,3) False by (intro wh_exit) auto
  ultimately show ?thesis by (intro exI conjI) (assumption, simp add: wh_rank_def)
qed

lemma wh_progress:
  assumes "wh_life_reach cfg env l" "\<not> wh_stopped l"
  shows "\<exists>l'. wh_life_step env l l' \<and> wh_rank l' < wh_rank l"
proof (cases "wl_todo l")
  case None
  then show ?thesis using wh_stop [of l env] by (intro exI conjI) (assumption, simp add: wh_rank_def)
next
  case (Some todo')
  then obtain a todo where todo: "wl_todo l = Some (a # todo)" using assms(2) by (cases todo') (auto simp: wh_stopped_def)
  have inv: "wh_inv l" by (rule wh_reach_inv [OF assms(1)])
  show ?thesis
  proof (cases "wh_perform a l")
    case (Some l1)
    note f = wh_perform_frame [OF Some]
    from wh_main [OF todo Some] show ?thesis
      by (intro exI conjI) (assumption, simp add: wh_rank_def todo f)
  next
    case None
    then obtain wg g where g: "a = WHAwait wg" "g \<in> wl_running l"
      by (auto simp: wh_perform_def split: wh_action.splits if_splits)
    have "WHCancel \<notin> set (a # todo)"
    proof -
      have "suffix (a # todo) (tl wh_stop_script)"
        using inv todo g(1) by (auto simp: wh_inv_def wh_stop_script_def suffix_Cons)
      then show ?thesis using set_mono_suffix [of "a # todo" "tl wh_stop_script"] by (auto simp: wh_stop_script_def)
    qed
    then have "wl_cancelled l" using inv todo by (simp add: wh_inv_def)
    then show ?thesis by (rule wh_exit_progress [OF inv g(2)])
  qed
qed

interpretation webhook_stop: stop_plan "wh_life_step env" "wh_life_reach cfg env" "\<lambda>_. False" wh_stopped wh_rank for cfg env
  by unfold_locales (use wh_next wh_progress in \<open>assumption | blast\<close>)+

text \<open>A request touches neither the queues nor the posts.\<close>

lemma wh_request_frame:
  "wh_request e e' \<Longrightarrow> we_jobCh e' = we_jobCh e \<and> we_retryCh e' = we_retryCh e \<and> we_posts e' = we_posts e"
  by (induction rule: wh_request.induct)
    (auto simp: ServeHTTP_def sse_connect_def sse_write_def sse_disconnect_def cleanupClient_def Let_def
      split: if_splits option.splits list.splits)

text \<open>
  C39: The webhook engine always stops: from every reachable state, one whose retry loop is locked up
  in its own queue too, \<open>Stop\<close> can come to its end; there is no schedule after which it cannot. And
  once it has, no goroutine of the engine is left, so nothing is posted any more and whatever was
  still queued stays undelivered, even if requests go on arriving.
\<close>

theorem webhook_stops:
  assumes "wh_life_reach cfg env l"
  shows "(\<exists>l'. (wh_life_step env)\<^sup>*\<^sup>* l l' \<and> wh_stopped l') \<and>
    (wh_stopped l \<longrightarrow> wl_running l = {} \<and>
       (\<forall>l'. wh_life_step env l l' \<longrightarrow> wh_stopped l' \<and> we_posts (wl_engine l') = we_posts (wl_engine l) \<and>
          we_jobCh (wl_engine l') = we_jobCh (wl_engine l) \<and> we_retryCh (wl_engine l') = we_retryCh (wl_engine l)))"
proof (intro conjI impI allI)
  show "\<exists>l'. (wh_life_step env)\<^sup>*\<^sup>* l l' \<and> wh_stopped l'"
    using webhook_stop.can_stop [OF assms] by blast
  assume st: "wh_stopped l"
  then show r: "wl_running l = {}" using wh_reach_inv [OF assms] by (auto simp: wh_stopped_def wh_inv_def)
  fix l'
  assume s: "wh_life_step env l l'"
  show "wh_stopped l'" using s st by cases (auto simp: wh_stopped_def)
  show "we_posts (wl_engine l') = we_posts (wl_engine l)" using s
    by cases (use r st wh_request_frame in \<open>auto simp: wh_stopped_def\<close>)
  show "we_jobCh (wl_engine l') = we_jobCh (wl_engine l)" using s
    by cases (use r st wh_request_frame in \<open>auto simp: wh_stopped_def\<close>)
  show "we_retryCh (wl_engine l') = we_retryCh (wl_engine l)" using s
    by cases (use r st wh_request_frame in \<open>auto simp: wh_stopped_def\<close>)
qed

theorem webhook_stops_witness:
  "\<exists>l l'. wh_life_reach demo_settings demo_env l \<and> (wh_life_step demo_env)\<^sup>*\<^sup>* l l' \<and> wh_stopped l'"
proof -
  have "ws_SSEKeepAlive demo_settings > 0" by (simp add: demo_settings_def WebhookDefaultConfig_def)
  then obtain gs where "wh_started demo_settings = Some gs" by (simp add: wh_started_def)
  from wh_start [OF demo_webhook_new this] show ?thesis using webhook_stops by blast
qed

end
