(* ===== verification/Spec2Isabelle.thy ===== *)
theory Spec2Isabelle
  imports Command Stranding Interleaving Platform Pipeline Enforcement Alerter Cgroup Routing Rollback WebhookLife
begin

text \<open>
  A verification development for the agent of this repository, which watches AI workloads on a
  host, recognises anomalies, and acts on them.

  \<^bold>\<open>The program.\<close> The collector samples processes and GPUs and the reverse proxy reads token usage
  from the traffic with AI providers. The loop detector (\<open>analytics/detector\<close>) looks at the
  payloads of each process, the resource profiler (\<open>analytics/profiler\<close>) at its samples. Their
  alerts are multiplexed (\<open>proxy/alerter\<close>) into one deduplicated stream, which the mitigator
  (\<open>proxy/mitigator\<close>) answers by stopping a process or pausing its container and the router
  (\<open>proxy/router\<close>) by shortening its requests or sending them to another model. Both first ask
  the policy engine (\<open>proxy/policy\<close>), which keeps a ledger of transactions. The rollback
  controller (\<open>proxy/rollback\<close>) undoes what has expired. Samples and alerts go upstream through
  a ring buffer (\<open>proxy/pipeline\<close>) and to tenants through webhooks (\<open>proxy/webhook\<close>).

  \<^bold>\<open>The theories.\<close> Paths are those under \<open>src/internal\<close>; a definition has the name of the function
  it translates, with a prefix or suffix where two functions share it.

  \<^item> \<open>Prelude\<close>: 64-bit integers (an \<open>int\<close> with \<open>to_i64\<close> where Go wraps), durations and clocks,
    range loops over Go maps in an arbitrary order, and the locales \<open>event_sink\<close> (a channel whose
    senders never wait) and \<open>map_range\<close> (an iteration order).
  \<^item> \<open>GoStrings\<close>, \<open>GoPaths\<close>, \<open>GoJson\<close>: what the code uses of \<open>strings\<close>, \<open>strconv\<close>, \<open>filepath\<close> and
    the decoding of \<open>encoding/json\<close> into structs, over trees.
  \<^item> \<open>RingBuffer\<close>, \<open>Model\<close>, \<open>Pipeline\<close>: \<open>proxy/pipeline\<close> and the samples of \<open>proxy/model\<close>.
  \<^item> \<open>Policy_Ledger\<close>, \<open>Policy_Engine\<close>: \<open>proxy/policy\<close>. \<open>Policy_Calls\<close>: its step relations, \<open>policy_reach\<close>
    with every operation of the engine and the sweep, and \<open>shared_reach\<close>, in which calls overlap.
  \<^item> \<open>SimHash\<close>, \<open>Detector\<close>: \<open>analytics/detector\<close>. \<open>Regression\<close>, \<open>Profiler\<close>: \<open>analytics/profiler\<close>.
  \<^item> \<open>Alerter\<close>: \<open>proxy/alerter\<close>. \<open>Cgroup\<close>: \<open>proxy/cgroup\<close>.
  \<^item> \<open>Host\<close>, \<open>Containers\<close>, \<open>Mitigator\<close>: \<open>proxy/mitigator\<close>. The outside world is a state \<open>World\<close>: what
    the file system, the kernel and Docker answer, and a log of every attempt with its outcome.
  \<^item> \<open>Enforcement\<close>: the mitigator and the policy engine together.
  \<^item> \<open>Chopper\<close>, \<open>Router\<close>: \<open>proxy/router\<close>. \<open>Routing\<close>: the router and the policy engine together.
  \<^item> \<open>Rollback\<close>: \<open>proxy/rollback\<close> with the policy engine, the mitigator and the router's registry.
  \<^item> \<open>Webhook\<close>: \<open>proxy/webhook\<close>, with a step relation of its goroutines and HTTP handlers.
  \<^item> \<open>Procfs\<close>, \<open>Devices\<close>: \<open>proxy/procfs\<close>; \<open>proxy/ebpf\<close> and \<open>proxy/gpu\<close>. \<open>Collector\<close>: \<open>proxy/collector\<close>.
  \<^item> \<open>GoHttp\<close>, \<open>Metering\<close>, \<open>ProcResolver\<close>, \<open>Proxy\<close>: \<open>proxy/proxy\<close>, from the request of a client to its
    reply and the usage logged for it.
  \<^item> \<open>Settings\<close>: \<open>proxy/config\<close>. \<open>Engine\<close>: \<open>proxy/engine\<close> and \<open>pipeline.go\<close>, one definition per turn
    of a goroutine. \<open>Agent\<close>: the step relation of all of them, \<open>engine_reach\<close>, and \<open>internal/pubsub\<close>.
  \<^item> \<open>Platform\<close>: the handles of \<open>proxy/ebpf\<close>, the session of \<open>proxy/gpu\<close>, the builds for other systems.
  \<^item> \<open>System\<close>: the whole agent on the state of its engine, the outside world and the clock,
    \<open>agent_reach\<close>, which refines \<open>policy_reach\<close> and the other components' own relations.
    \<open>AlertPath\<close>: the way of an alert through it. \<open>Stranding\<close>: who in it continues a stopped process.
  \<^item> \<open>Interleaving\<close>: the same agent with the handlers of the mitigator, the router and the rollback
    controller in parts, \<open>fine_reach\<close>, between which every goroutine may run.
  \<^item> \<open>Stopping\<close>, a locale of programs that stop; \<open>Shutdown\<close> and \<open>WebhookLife\<close>, its two instances: the
    goroutines of the agent (\<open>Start\<close> and \<open>Stop\<close> of \<open>proxy/engine/engine.go\<close> and of the components)
    and those of the webhook engine, what each does in a turn and at its end, and the stop scripts.
  \<^item> \<open>Command\<close>: \<open>cmd/agent/main.go\<close> beside \<open>internal\<close>, with the flags it reads.

  \<^bold>\<open>The state.\<close> A Go struct is a record, a map a partial function, a buffered channel the list of
  what it holds, a mutex-protected operation one step. Operations return the changed state; an
  error is a \<open>go_error\<close>, which knows the sentinels it wraps; a panic is \<open>None\<close>. Clock readings,
  random bytes and iteration orders are arguments, so every theorem holds for each of them.

  \<^bold>\<open>What the lemmas show.\<close> The ring buffer refines a bounded list that drops from its front, the
  streamer never loses or repeats a payload while the agent runs. The policy engine never
  authorises a protected process, nor more than its cap and one action for every further caller, in
  every reachable state. Nothing is
  enforced without an authorisation, and what was enforced can be undone from its token. The
  detector and the alerter space their alerts, the histories of the profiler are bounded and its
  regression is the least-squares line. A treated request is rewritten as its entry says, all
  others pass unchanged. Expired mitigations are undone or reported, and the webhook engine keeps
  its attempts bounded. The line of a process in \<open>/proc\<close> is read back whatever its name contains,
  the collector forgets dead processes, a resolved process owns its socket, the proxy is not an
  open one, and metering does not depend on how the network cuts a stream. In every interleaving of
  the agent, its buffers stay within their bounds, its bookkeeping does not panic, and each component
  is in a state that it can reach on its own, so that what holds of the policy engine and of the
  mitigator alone holds of them in the agent; the promises about processes hold also when handlers
  interrupt each other. A process is only continued for an executed
  transaction in the ledger. Stopping comes to its end but for one race, in its
  order, and gives back what the collector took; the webhook engine always stops. Some theorems
  show behaviour that the code does not seem to intend; the manifest lists them as findings.

  \<^bold>\<open>Loops.\<close> Loops over lists are recursions on them. The eviction loops of the ring buffer and of
  the ledger are functions with proved termination measures, and \<open>None\<close> is only ever a panic; no
  definition has fuel.

  \<^bold>\<open>Simplifications.\<close> Floats are real numbers. A map is read while nothing else writes to it, as
  the locks of the code guarantee. The step relations \<open>agent_step\<close>, \<open>webhook_step\<close>, \<open>life_step\<close> and
  \<open>wh_life_step\<close> interleave the turns of the goroutines freely, a turn of a loop being one step. The
  three handlers that call several components, and so hold no lock throughout, are also taken
  apart at these calls: \<open>shared_reach\<close> parts the count and the registration of an evaluation, and
  \<open>fine_step\<close> all parts of the handlers, of which the turns are the uninterrupted runs. Inside one part
  nothing else runs; in the other loops a goroutine is never between two statements when another one
  takes its turn. Log lines are left out.

  \<^bold>\<open>Not modelled.\<close> Listening, mounting HTTP routes and the time limits with which servers are shut
  down, which are calls of libraries; the usage text and log lines; the kernel program, which is C
  (only the layout of its record is written out); the insides of libraries (JSON text, YAML, Docker,
  NVML, BPF, HMAC, SHA-256), whose answers are arguments; and helpers that nothing calls. The tests,
  build files and data have no model.
\<close>

section \<open>The telemetry pipeline\<close>

text \<open>
  C21: Pushing an entry into the ring buffer keeps the newest entries that still fit: what is
  kept is a suffix of the old entries, together with the new one it respects the byte bound
  unless it is empty, and no longer suffix would have fitted.
\<close>

theorem push_keeps_newest:
  assumes "rb_inv rb" "d \<noteq> []"
  shows "\<exists>rb' kept. Push rb d = Some rb' \<and> rb_inv rb' \<and> rb_entries rb' = kept @ [d] \<and> suffix kept (rb_entries rb) \<and>
    (kept \<noteq> [] \<longrightarrow> total_bytes (kept @ [d]) \<le> rb_maxBytes rb) \<and>
    (\<forall>more. suffix more (rb_entries rb) \<and> total_bytes (more @ [d]) \<le> rb_maxBytes rb \<longrightarrow> suffix more kept)"
proof -
  let ?kept = "drop_oldest (rb_maxBytes rb) (int (length d)) (rb_entries rb)"
  obtain rb' where "Push rb d = Some rb'" "rb_inv rb'" "rb_entries rb' = ?kept @ [d]"
    using rb.push_law [OF assms(1), of d] assms(2) by auto
  then show ?thesis
    using suffix_drop_oldest drop_oldest_fits drop_oldest_maximal
    by (intro exI [of _ rb'] exI [of _ ?kept]) (simp del: drop_oldest.simps)
qed

theorem push_keeps_newest_witness:
  "\<exists>rb' kept. Push (NewRingBuffer 10) ''abc'' = Some rb' \<and> rb_entries rb' = kept @ [''abc'']"
  using push_keeps_newest [OF rb_inv_NewRingBuffer, of "''abc''" 10] by auto



text \<open>
  The streamer's backoff after \<open>n + 1\<close> failures in a row is \<open>2 ^ n\<close> seconds, capped at thirty
  seconds.
\<close>

lemma backoff_doubles:
  "((\<lambda>b. nextBackoff b maxBackoff) ^^ Suc n) 0 = min maxBackoff (2 ^ n * second_ns)"
  by (rule nextBackoff_iterate)

text \<open>
  When the upstream accepts everything, the final flush sends the whole buffer in order and
  empties it; it always terminates.
\<close>

lemma flush_sends_all:
  assumes "rb_inv rb" "\<And>r j. sendOne s (out r j) = None" "st_endpoint s \<noteq> ''''"
  shows "\<exists>rb'. flushRemaining s out r rb = Some (rb_entries rb, rb') \<and> rb_entries rb' = []"
  using flushRemaining_ok [where s = s and out = out and r = r and rb = rb, OF assms] by blast

section \<open>The policy engine\<close>

text \<open>
  An evaluation authorises an intent exactly when its target is not protected and the
  process has fewer unexpired records than the cap; either way it records one transaction for
  the target with the matching status, published under the same identifier.
\<close>

lemma evaluation_decides_and_records:
  assumes "ledger_inv (pe_ledger e)" "EvaluateAndRegister e intent x = ((authorized, tx, evt), e')"
  shows "(authorized \<longleftrightarrow> \<not> protected_target (pe_evaluator e) intent \<and>
      int (card {t \<in> records_of (pe_ledger e) (mi_TargetPID intent).
        \<exists>rec. tl_records (pe_ledger e) t = Some rec \<and> ei_th x \<le> mr_Expiry rec}) < re_maxActionsPerPID (pe_evaluator e)) \<and>
    pv_LedgerTransactionID evt = tx \<and>
    (\<exists>rec. LedgerLookup (pe_ledger e') tx = Some rec \<and> mr_TargetPID rec = mi_TargetPID intent \<and>
       mr_Status rec = (if authorized then StatusAuthorizedPending else StatusRejected))"
proof -
  have a: "authorized = decision e intent x" and t: "tx = generateTxID (ei_buf x)"
    and ev: "pv_LedgerTransactionID evt = generateTxID (ei_buf x)"
    and e': "e' = snd (EvaluateAndRegister e intent x)"
    using EvaluateAndRegister_decision [of e intent x] EvaluateAndRegister_txID [of e intent x]
      EvaluateAndRegister_event_id [of e intent x] assms(2) by simp_all
  have "\<exists>rec. LedgerLookup (pe_ledger e') tx = Some rec \<and> mr_TargetPID rec = mi_TargetPID intent \<and>
       mr_Status rec = (if authorized then StatusAuthorizedPending else StatusRejected)"
    using EvaluateAndRegister_record [of e intent x] unfolding e' a t LedgerLookup_def by auto
  then show ?thesis
    by (simp add: a t ev decision_def Evaluate_authorized HistoricalCount_card [OF assms(1)])
qed



section \<open>Containers\<close>

text \<open>
  The resolver reads the identifier of a \<open><runtime>-<id>.scope\<close> cgroup segment back exactly,
  whatever the runtime's prefix, and from any scope segment it returns nothing but an empty
  string or at least eight hexadecimal digits.
\<close>

lemma scope_identifier:
  "container_id_ok (containerIDFromScope seg) \<and>
   (isHex cid \<and> 8 \<le> length cid \<longrightarrow> containerIDFromScope (p @ ''-'' @ cid @ ''.scope'') = cid)"
  using containerIDFromScope_hex containerIDFromScope_runtime by blast

section \<open>Similarity\<close>

text \<open>
  Bit \<open>i\<close> of the fingerprint is set exactly when more tokens of the text have bit \<open>i\<close> set in
  their hash than not; so the fingerprint depends only on the multiset of tokens.
\<close>

lemma SimHash_majority:
  "(bit (SimHash txt) i \<longleftrightarrow> i < 64 \<and>
     length (Fields txt) < 2 * length (filter (\<lambda>t. bit (hashToken t) i) (Fields txt))) \<and>
   (mset (Fields txt) = mset (Fields txt') \<longrightarrow> SimHash txt = SimHash txt')"
proof -
  have "length (filter (\<lambda>h. bit h i) (map hashToken ts)) = length (filter (\<lambda>t. bit (hashToken t) i) ts)" for ts
    by (induction ts) simp_all
  then have "bit (SimHash txt) i \<longleftrightarrow> i < 64 \<and>
     length (Fields txt) < 2 * length (filter (\<lambda>t. bit (hashToken t) i) (Fields txt))"
    by (simp add: bit_SimHash net_vote_count) linarith
  then show ?thesis using SimHash_bag_of_words by blast
qed

text \<open>
  The Hamming distance of fingerprints is a metric bounded by 64, and the similarity index
  is between 0 and 1 and equals 1 exactly for equal fingerprints.
\<close>

lemma HammingDistance_metric:
  "(HammingDistance a b = 0 \<longleftrightarrow> a = b) \<and> HammingDistance a b = HammingDistance b a \<and>
   HammingDistance a c \<le> HammingDistance a b + HammingDistance b c \<and> HammingDistance a b \<le> 64 \<and>
   0 \<le> NormalizedSimilarity a b \<and> NormalizedSimilarity a b \<le> 1 \<and> (NormalizedSimilarity a b = 1 \<longleftrightarrow> a = b)"
proof -
  have eq: "NormalizedSimilarity a b = 1 \<longleftrightarrow> a = b"
    using HammingDistance_eq_0 [of a b] by (simp add: NormalizedSimilarity_def simhashBitSize_def)
  note bounds = NormalizedSimilarity_bounds [of a b]
  show ?thesis
    by (intro conjI) (rule HammingDistance_eq_0 HammingDistance_sym HammingDistance_triangle HammingDistance_le
        bounds [THEN conjunct1] bounds [THEN conjunct2] eq)+
qed

end
